(* ===== verification/Unicode_Text.thy ===== *)
theory Unicode_Text
  imports Prelude
begin

text \<open>
  Text primitives that the record validators rest on: UTF-8 widths and encoding, the
  whitespace that \<open>str.strip\<close> removes, the fixed patterns of \<open>src/ibae/_records.py\<close> and
  \<open>src/ibae/canonical.py\<close> as executable matchers, and \<open>int.bit_length\<close>.
\<close>

section \<open>UTF-8\<close>

definition is_surrogate :: "nat \<Rightarrow> bool" where
  "is_surrogate c \<longleftrightarrow> 0xD800 \<le> c \<and> c \<le> 0xDFFF"

definition utf8_width :: "nat \<Rightarrow> nat" where
  "utf8_width c =
     (if c \<le> 0x7F then 1 else if c \<le> 0x7FF then 2 else if c \<le> 0xFFFF then 3 else 4)"

definition utf8_char :: "nat \<Rightarrow> nat list" where
  "utf8_char c =
     (if c \<le> 0x7F then [c]
      else if c \<le> 0x7FF then [0xC0 + c div 64, 0x80 + c mod 64]
      else if c \<le> 0xFFFF
        then [0xE0 + c div 4096, 0x80 + c div 64 mod 64, 0x80 + c mod 64]
      else [0xF0 + c div 262144, 0x80 + c div 4096 mod 64, 0x80 + c div 64 mod 64,
            0x80 + c mod 64])"

definition utf8_bytes :: "pystr \<Rightarrow> nat list" where
  "utf8_bytes s = concat (map utf8_char s)"

definition no_surrogate :: "pystr \<Rightarrow> bool" where
  "no_surrogate s \<longleftrightarrow> list_all (\<lambda>c. \<not> is_surrogate c) s"

text \<open>\<open>str.encode("utf-8")\<close> raises on an unpaired surrogate.\<close>

definition encode_utf8 :: "pystr \<Rightarrow> nat list res" where
  "encode_utf8 s =
     (if no_surrogate s then Inr (utf8_bytes s) else Inl (UnicodeErr ''surrogates not allowed''))"

lemma length_utf8_char [simp]: "length (utf8_char c) = utf8_width c"
  by (simp add: utf8_char_def utf8_width_def)

lemma utf8_width_pos [simp]: "0 < utf8_width c"
  by (simp add: utf8_width_def)

lemma utf8_width_ge_1: "1 \<le> utf8_width c"
  by (simp add: utf8_width_def)

lemma utf8_bytes_simps [simp]:
  "utf8_bytes [] = []"
  "utf8_bytes (c # s) = utf8_char c @ utf8_bytes s"
  "utf8_bytes (s @ t) = utf8_bytes s @ utf8_bytes t"
  by (simp_all add: utf8_bytes_def)

lemma length_utf8_bytes: "length (utf8_bytes s) = sum_list (map utf8_width s)"
  by (induction s) simp_all

lemma utf8_bytes_ge_length: "length s \<le> length (utf8_bytes s)"
proof (induction s)
  case (Cons c s)
  then show ?case using utf8_width_ge_1 [of c] by simp
qed simp

lemma no_surrogate_simps [simp]:
  "no_surrogate []"
  "no_surrogate (c # s) \<longleftrightarrow> \<not> is_surrogate c \<and> no_surrogate s"
  "no_surrogate (s @ t) \<longleftrightarrow> no_surrogate s \<and> no_surrogate t"
  by (simp_all add: no_surrogate_def)

lemma no_surrogate_lit [simp]: "no_surrogate (lit s)"
proof -
  have "\<not> is_surrogate c" if "c \<in> set (lit s)" for c
    using lit_bound [OF that] by (simp add: is_surrogate_def)
  then show ?thesis by (simp add: no_surrogate_def list_all_iff)
qed

lemma no_surrogate_concat: "no_surrogate (concat ss) \<longleftrightarrow> (\<forall>s \<in> set ss. no_surrogate s)"
  by (induction ss) simp_all

subsection \<open>UTF-8 is injective on code points\<close>

text \<open>Python code points are below \<open>0x110000\<close>.\<close>

definition is_text :: "pystr \<Rightarrow> bool" where
  "is_text s \<longleftrightarrow> list_all (\<lambda>c. c < 0x110000) s"

fun decode_char :: "nat list \<Rightarrow> (nat \<times> nat list) option" where
  "decode_char [] = None"
| "decode_char (b # bs) =
     (if b < 0x80 then Some (b, bs)
      else if b < 0xE0 then
        (case bs of x # r \<Rightarrow> Some ((b - 0xC0) * 64 + (x - 0x80), r) | _ \<Rightarrow> None)
      else if b < 0xF0 then
        (case bs of x # y # r \<Rightarrow>
           Some (((b - 0xE0) * 64 + (x - 0x80)) * 64 + (y - 0x80), r) | _ \<Rightarrow> None)
      else
        (case bs of x # y # z # r \<Rightarrow>
           Some ((((b - 0xF0) * 64 + (x - 0x80)) * 64 + (y - 0x80)) * 64 + (z - 0x80), r)
         | _ \<Rightarrow> None))"

lemma split_base64:
  fixes c :: nat
  shows "c div 64 * 64 + c mod 64 = c"
    and "(c div 4096 * 64 + c div 64 mod 64) * 64 + c mod 64 = c"
    and "((c div 262144 * 64 + c div 4096 mod 64) * 64 + c div 64 mod 64) * 64 + c mod 64 = c"
proof -
  show 1: "c div 64 * 64 + c mod 64 = c" for c :: nat by simp
  have "c div 4096 = c div 64 div 64" by (simp add: div_mult2_eq [symmetric])
  then show 2: "(c div 4096 * 64 + c div 64 mod 64) * 64 + c mod 64 = c"
    using 1 [of "c div 64"] 1 [of c] by simp
  have "c div 262144 = c div 4096 div 64" by (simp add: div_mult2_eq [symmetric])
  then have "c div 262144 * 64 + c div 4096 mod 64 = c div 4096"
    using 1 [of "c div 4096"] by simp
  with 2 show "((c div 262144 * 64 + c div 4096 mod 64) * 64 + c div 64 mod 64) * 64 + c mod 64 = c"
    by simp
qed

lemma decode_utf8_char:
  assumes "c < 0x110000"
  shows "decode_char (utf8_char c @ bs) = Some (c, bs)"
proof -
  consider "c \<le> 0x7F" | "0x7F < c" "c \<le> 0x7FF" | "0x7FF < c" "c \<le> 0xFFFF" | "0xFFFF < c"
    by linarith
  then show ?thesis
  proof cases
    case 1
    then show ?thesis by (simp add: utf8_char_def)
  next
    case 2
    then have "c div 64 < 32" by linarith
    with 2 show ?thesis by (simp add: utf8_char_def)
  next
    case 3
    then have "c div 4096 < 16" by linarith
    with 3 split_base64(2) [of c] show ?thesis by (simp add: utf8_char_def)
  next
    case 4
    with split_base64(3) [of c] show ?thesis by (simp add: utf8_char_def)
  qed
qed

lemma utf8_char_prefix:
  assumes "utf8_char c @ xs = utf8_char d @ ys" and "c < 0x110000" and "d < 0x110000"
  shows "c = d \<and> xs = ys"
proof -
  have "Some (c, xs) = Some (d, ys)"
    unfolding decode_utf8_char [OF assms(2), of xs, symmetric]
      decode_utf8_char [OF assms(3), of ys, symmetric] assms(1) ..
  then show ?thesis by simp
qed

lemma utf8_bytes_inj:
  "is_text s \<Longrightarrow> is_text t \<Longrightarrow> utf8_bytes s = utf8_bytes t \<Longrightarrow> s = t"
proof (induction s arbitrary: t)
  case Nil
  then show ?case by (cases t) (auto simp: utf8_char_def split: if_splits)
next
  case (Cons c s)
  then obtain d t' where t: "t = d # t'"
    by (cases t) (auto simp: utf8_char_def split: if_splits)
  with Cons.prems have "utf8_char c @ utf8_bytes s = utf8_char d @ utf8_bytes t'"
      "c < 0x110000" "d < 0x110000" "is_text s" "is_text t'"
    by (simp_all add: is_text_def)
  then have "c = d \<and> utf8_bytes s = utf8_bytes t'"
    by (intro utf8_char_prefix)
  with Cons.IH [OF \<open>is_text s\<close> \<open>is_text t'\<close>] t show ?case by simp
qed

section \<open>Whitespace and \<open>strip\<close>\<close>

definition is_space :: "nat \<Rightarrow> bool" where
  "is_space c \<longleftrightarrow>
     (9 \<le> c \<and> c \<le> 13) \<or> (28 \<le> c \<and> c \<le> 32) \<or> c = 0x85 \<or> c = 0xA0 \<or> c = 0x1680 \<or>
     (0x2000 \<le> c \<and> c \<le> 0x200A) \<or> c = 0x2028 \<or> c = 0x2029 \<or> c = 0x202F \<or> c = 0x205F \<or>
     c = 0x3000"

definition strip :: "pystr \<Rightarrow> pystr" where
  "strip s = rev (dropWhile is_space (rev (dropWhile is_space s)))"

lemma strip_eq_self:
  "s \<noteq> [] \<Longrightarrow> strip s = s \<longleftrightarrow> \<not> is_space (hd s) \<and> \<not> is_space (last s)"
proof -
  assume "s \<noteq> []"
  have len: "length (strip s) \<le> length (dropWhile is_space s)"
    unfolding strip_def
    by (metis length_dropWhile_le length_rev)
  show ?thesis
  proof (cases "is_space (hd s)")
    case True
    with \<open>s \<noteq> []\<close> have "length (dropWhile is_space s) < length s"
      by (cases s) (simp_all add: length_dropWhile_le le_imp_less_Suc)
    with len show ?thesis using True by auto
  next
    case False
    with \<open>s \<noteq> []\<close> have id: "dropWhile is_space s = s" by (cases s) simp_all
    show ?thesis
    proof (cases "is_space (last s)")
      case True
      have "dropWhile is_space (rev s) \<noteq> rev s"
        using True \<open>s \<noteq> []\<close> by (metis dropWhile_eq_self_iff hd_rev rev_is_Nil_conv)
      then show ?thesis using True id by (metis rev_swap strip_def)
    next
      case last: False
      have "dropWhile is_space (rev s) = rev s"
        using last \<open>s \<noteq> []\<close> by (metis dropWhile_eq_self_iff hd_rev)
      then show ?thesis using False last id by (simp add: strip_def)
    qed
  qed
qed

section \<open>The fixed patterns\<close>

definition in_range :: "char \<Rightarrow> char \<Rightarrow> nat \<Rightarrow> bool" where
  "in_range lo hi c \<longleftrightarrow> of_char lo \<le> c \<and> c \<le> of_char hi"

abbreviation is_lower :: "nat \<Rightarrow> bool" where "is_lower \<equiv> in_range CHR ''a'' CHR ''z''"
abbreviation is_upper :: "nat \<Rightarrow> bool" where "is_upper \<equiv> in_range CHR ''A'' CHR ''Z''"
abbreviation is_digit :: "nat \<Rightarrow> bool" where "is_digit \<equiv> in_range CHR ''0'' CHR ''9''"

text \<open>\<open>^[a-z][a-z0-9._:/-]{0,127}$\<close>\<close>

definition symbol_char :: "nat \<Rightarrow> bool" where
  "symbol_char c \<longleftrightarrow> is_lower c \<or> is_digit c \<or> c \<in> set (lit ''._:/-'')"

fun is_symbol :: "pystr \<Rightarrow> bool" where
  "is_symbol [] = False"
| "is_symbol (c # s) = (is_lower c \<and> length s \<le> 127 \<and> list_all symbol_char s)"

text \<open>\<open>^[0-9a-f]{64}$\<close>\<close>

definition hex_char :: "nat \<Rightarrow> bool" where
  "hex_char c \<longleftrightarrow> is_digit c \<or> in_range CHR ''a'' CHR ''f'' c"

definition is_fingerprint :: "pystr \<Rightarrow> bool" where
  "is_fingerprint s \<longleftrightarrow> length s = 64 \<and> list_all hex_char s"

text \<open>\<open>^IBAE-[A-Z]+-[0-9]{3}$\<close>: the family is everything between the fixed prefix and the
  last four characters.\<close>

definition is_invariant_id :: "pystr \<Rightarrow> bool" where
  "is_invariant_id s \<longleftrightarrow>
     10 \<le> length s \<and> take 5 s = lit ''IBAE-'' \<and>
     list_all is_upper (take (length s - 9) (drop 5 s)) \<and>
     s ! (length s - 4) = of_char CHR ''-'' \<and>
     list_all is_digit (drop (length s - 3) s)"

text \<open>\<open>^[a-z][a-z0-9._-]*\.v[1-9][0-9]*$\<close>: some \<open>.v\<close> splits the text into a name and a
  positive version.\<close>

definition domain_char :: "nat \<Rightarrow> bool" where
  "domain_char c \<longleftrightarrow> is_lower c \<or> is_digit c \<or> c \<in> set (lit ''._-'')"

definition is_domain_name :: "pystr \<Rightarrow> bool" where
  "is_domain_name s \<longleftrightarrow> (case s of [] \<Rightarrow> False | c # r \<Rightarrow> is_lower c \<and> list_all domain_char r)"

definition is_version :: "pystr \<Rightarrow> bool" where
  "is_version s \<longleftrightarrow>
     (case s of [] \<Rightarrow> False
      | c # r \<Rightarrow> in_range CHR ''1'' CHR ''9'' c \<and> list_all is_digit r)"

definition is_domain :: "pystr \<Rightarrow> bool" where
  "is_domain s \<longleftrightarrow>
     list_ex (\<lambda>i. is_domain_name (take i s) \<and> take 2 (drop i s) = lit ''.v'' \<and>
                  is_version (drop (i + 2) s))
       [0..<length s]"

text \<open>Everything the patterns accept is ASCII, so it encodes.\<close>

lemma no_surrogate_ascii: "list_all (\<lambda>c. c < 128) s \<Longrightarrow> no_surrogate s"
  by (auto simp: no_surrogate_def is_surrogate_def list_all_iff)

lemma symbol_char_ascii: "symbol_char c \<Longrightarrow> c < 128"
  by (auto simp: symbol_char_def in_range_def lit_def)

lemma is_symbol_ascii: "is_symbol s \<Longrightarrow> list_all (\<lambda>c. c < 128) s"
proof (cases s)
  case (Cons c r)
  assume "is_symbol s"
  with Cons have "c < 128" "list_all symbol_char r"
    by (simp_all add: in_range_def)
  with Cons show ?thesis by (auto simp: list_all_iff dest: symbol_char_ascii)
qed simp

lemma is_symbol_no_surrogate [simp]: "is_symbol s \<Longrightarrow> no_surrogate s"
  by (intro no_surrogate_ascii is_symbol_ascii)

lemma hex_char_ascii: "hex_char c \<Longrightarrow> c < 128"
  by (auto simp: hex_char_def in_range_def)

lemma is_fingerprint_no_surrogate [simp]: "is_fingerprint s \<Longrightarrow> no_surrogate s"
  by (intro no_surrogate_ascii) (auto simp: is_fingerprint_def list_all_iff dest: hex_char_ascii)

lemma is_symbol_not_Nil [simp]: "\<not> is_symbol []"
  by simp

lemma is_symbol_length: "is_symbol s \<Longrightarrow> 1 \<le> length s \<and> length s \<le> 128"
  by (cases s) simp_all

section \<open>\<open>int.bit_length\<close>\<close>

fun bit_length_nat :: "nat \<Rightarrow> nat" where
  "bit_length_nat n = (if n = 0 then 0 else Suc (bit_length_nat (n div 2)))"

declare bit_length_nat.simps [simp del]

definition bit_length :: "int \<Rightarrow> nat" where
  "bit_length v = bit_length_nat (nat \<bar>v\<bar>)"

lemma bit_length_nat_le: "bit_length_nat n \<le> k \<longleftrightarrow> n < 2 ^ k"
proof (induction n arbitrary: k rule: bit_length_nat.induct)
  case (1 n)
  show ?case
  proof (cases "n = 0")
    case True
    then show ?thesis by (simp add: bit_length_nat.simps [of 0])
  next
    case False
    show ?thesis
    proof (cases k)
      case 0
      with False show ?thesis by (simp add: bit_length_nat.simps [of n])
    next
      case (Suc j)
      have "bit_length_nat n \<le> k \<longleftrightarrow> bit_length_nat (n div 2) \<le> j"
        using False Suc by (simp add: bit_length_nat.simps [of n])
      also have "\<dots> \<longleftrightarrow> n div 2 < 2 ^ j" using "1.IH" False by simp
      also have "\<dots> \<longleftrightarrow> n < 2 ^ k" using Suc by (simp add: less_mult_imp_div_less div_less_iff_less_mult mult.commute)
      finally show ?thesis .
    qed
  qed
qed

lemma bit_length_le: "bit_length v \<le> k \<longleftrightarrow> \<bar>v\<bar> < 2 ^ k"
proof -
  have "bit_length v \<le> k \<longleftrightarrow> nat \<bar>v\<bar> < 2 ^ k"
    by (simp add: bit_length_def bit_length_nat_le)
  also have "\<dots> \<longleftrightarrow> \<bar>v\<bar> < 2 ^ k"
    by (simp add: nat_less_iff)
  finally show ?thesis .
qed

end
