(* ===== verification/Sha256.thy ===== *)
theory Sha256
  imports Unicode_Text "HOL-Library.Word"
begin

text \<open>
  The digest that \<open>src/ibae/canonical.py\<close> takes from \<open>hashlib\<close>: SHA-256 and its lowercase
  hexadecimal rendering, over bytes given as numbers below 256. The other theories take the
  digest as a parameter \<open>H\<close>; the locale \<open>hex_digest\<close> is the contract they use (every digest is
  64 lowercase hexadecimal characters) and SHA-256 is its interpretation.
\<close>

unbundle bit_operations_syntax

type_synonym w32 = "32 word"

section \<open>The compression function\<close>

definition rotr :: "nat \<Rightarrow> w32 \<Rightarrow> w32" where
  "rotr n x = push_bit (32 - n) x OR drop_bit n x"

definition round_constants :: "w32 list" where
  "round_constants =
    [0x428A2F98, 0x71374491, 0xB5C0FBCF, 0xE9B5DBA5, 0x3956C25B, 0x59F111F1,
     0x923F82A4, 0xAB1C5ED5, 0xD807AA98, 0x12835B01, 0x243185BE, 0x550C7DC3,
     0x72BE5D74, 0x80DEB1FE, 0x9BDC06A7, 0xC19BF174, 0xE49B69C1, 0xEFBE4786,
     0x0FC19DC6, 0x240CA1CC, 0x2DE92C6F, 0x4A7484AA, 0x5CB0A9DC, 0x76F988DA,
     0x983E5152, 0xA831C66D, 0xB00327C8, 0xBF597FC7, 0xC6E00BF3, 0xD5A79147,
     0x06CA6351, 0x14292967, 0x27B70A85, 0x2E1B2138, 0x4D2C6DFC, 0x53380D13,
     0x650A7354, 0x766A0ABB, 0x81C2C92E, 0x92722C85, 0xA2BFE8A1, 0xA81A664B,
     0xC24B8B70, 0xC76C51A3, 0xD192E819, 0xD6990624, 0xF40E3585, 0x106AA070,
     0x19A4C116, 0x1E376C08, 0x2748774C, 0x34B0BCB5, 0x391C0CB3, 0x4ED8AA4A,
     0x5B9CCA4F, 0x682E6FF3, 0x748F82EE, 0x78A5636F, 0x84C87814, 0x8CC70208,
     0x90BEFFFA, 0xA4506CEB, 0xBEF9A3F7, 0xC67178F2]"

definition initial_hash :: "w32 list" where
  "initial_hash =
    [0x6A09E667, 0xBB67AE85, 0x3C6EF372, 0xA54FF53A, 0x510E527F, 0x9B05688C,
     0x1F83D9AB, 0x5BE0CD19]"

definition small_sigma0 :: "w32 \<Rightarrow> w32" where
  "small_sigma0 x = rotr 7 x XOR rotr 18 x XOR drop_bit 3 x"

definition small_sigma1 :: "w32 \<Rightarrow> w32" where
  "small_sigma1 x = rotr 17 x XOR rotr 19 x XOR drop_bit 10 x"

definition big_sigma0 :: "w32 \<Rightarrow> w32" where
  "big_sigma0 x = rotr 2 x XOR rotr 13 x XOR rotr 22 x"

definition big_sigma1 :: "w32 \<Rightarrow> w32" where
  "big_sigma1 x = rotr 6 x XOR rotr 11 x XOR rotr 25 x"

text \<open>The message schedule, newest word first.\<close>

fun extend_schedule :: "nat \<Rightarrow> w32 list \<Rightarrow> w32 list" where
  "extend_schedule 0 ws = ws"
| "extend_schedule (Suc n) ws =
     extend_schedule n
       ((small_sigma1 (ws ! 1) + ws ! 6 + small_sigma0 (ws ! 14) + ws ! 15) # ws)"

definition schedule :: "w32 list \<Rightarrow> w32 list" where
  "schedule block = rev (extend_schedule 48 (rev block))"

fun round_step :: "w32 list \<Rightarrow> w32 \<times> w32 \<Rightarrow> w32 list" where
  "round_step [a, b, c, d, e, f, g, h] (k, w) =
     (let t1 = h + big_sigma1 e + ((e AND f) XOR (NOT e AND g)) + k + w;
          t2 = big_sigma0 a + ((a AND b) XOR (a AND c) XOR (b AND c))
      in [t1 + t2, a, b, c, d + t1, e, f, g])"
| "round_step st _ = st"

definition compress :: "w32 list \<Rightarrow> w32 list \<Rightarrow> w32 list" where
  "compress hs block =
     map2 (+) hs (foldl round_step hs (zip round_constants (schedule block)))"

section \<open>Padding and rendering\<close>

definition pad_message :: "nat list \<Rightarrow> nat list" where
  "pad_message bs =
     (let n = length bs; bits = (of_nat (8 * n) :: 64 word)
      in bs @ [0x80] @ replicate ((119 - n mod 64) mod 64) 0 @
         map (\<lambda>i. unat (drop_bit i bits AND 255)) [56, 48, 40, 32, 24, 16, 8, 0])"

fun words_of_bytes :: "nat list \<Rightarrow> w32 list" where
  "words_of_bytes (a # b # c # d # r) =
     (push_bit 24 (of_nat a) OR push_bit 16 (of_nat b) OR push_bit 8 (of_nat c) OR of_nat d)
       # words_of_bytes r"
| "words_of_bytes _ = []"

function blocks_of :: "w32 list \<Rightarrow> w32 list list" where
  "blocks_of ws = (if length ws < 16 then [] else take 16 ws # blocks_of (drop 16 ws))"
  by pat_completeness auto
termination
  by (relation "measure length") auto

declare blocks_of.simps [simp del]

definition sha256_words :: "nat list \<Rightarrow> w32 list" where
  "sha256_words bs =
     foldl compress initial_hash (blocks_of (words_of_bytes (pad_message bs)))"

definition hex_digit :: "nat \<Rightarrow> nat" where
  "hex_digit d = (if d < 10 then 48 + d else 87 + d)"

definition hex_word :: "w32 \<Rightarrow> pystr" where
  "hex_word w = map (\<lambda>i. hex_digit (unat (drop_bit i w AND 15))) [28, 24, 20, 16, 12, 8, 4, 0]"

definition sha256_hex :: "nat list \<Rightarrow> pystr" where
  "sha256_hex bs = concat (map hex_word (sha256_words bs))"

section \<open>The contract\<close>

type_synonym digest = "nat list \<Rightarrow> pystr"

locale hex_digest =
  fixes H :: digest
  assumes fingerprint: "is_fingerprint (H bs)"
begin

lemma no_surrogate_digest: "no_surrogate (H bs)"
  by (rule is_fingerprint_no_surrogate) (rule fingerprint)

lemma length_digest: "length (H bs) = 64"
  using fingerprint by (simp add: is_fingerprint_def)

end

lemma round_step_length: "length st = 8 \<Longrightarrow> length (round_step st kw) = 8"
  by (cases "(st, kw)" rule: round_step.cases) (simp_all add: Let_def)

lemma foldl_round_step_length: "length st = 8 \<Longrightarrow> length (foldl round_step st kws) = 8"
  by (induction kws arbitrary: st) (simp_all add: round_step_length)

lemma compress_length: "length hs = 8 \<Longrightarrow> length (compress hs block) = 8"
  by (simp add: compress_def foldl_round_step_length)

lemma foldl_compress_length: "length hs = 8 \<Longrightarrow> length (foldl compress hs bs) = 8"
  by (induction bs arbitrary: hs) (simp_all add: compress_length)

lemma sha256_words_length [simp]: "length (sha256_words bs) = 8"
  by (simp add: sha256_words_def foldl_compress_length initial_hash_def)

lemma hex_char_hex_digit [simp]: "d < 16 \<Longrightarrow> hex_char (hex_digit d)"
  by (simp add: hex_char_def hex_digit_def in_range_def)

lemma nibble_less: "unat (w AND 15 :: w32) < 16"
proof -
  have "unat (w AND 15) \<le> unat (15 :: w32)"
    by (rule word_and_le1 [THEN word_le_nat_alt [THEN iffD1]])
  then show ?thesis by simp
qed

lemma length_hex_words: "length (concat (map hex_word ws)) = 8 * length ws"
  by (induction ws) (simp_all add: hex_word_def)

lemma hex_words_hex: "list_all hex_char (concat (map hex_word ws))"
  by (induction ws) (simp_all add: hex_word_def nibble_less)

lemma sha256_hex_fingerprint: "is_fingerprint (sha256_hex bs)"
  by (simp add: is_fingerprint_def sha256_hex_def length_hex_words hex_words_hex)

interpretation sha: hex_digest sha256_hex
  by unfold_locales (rule sha256_hex_fingerprint)

lemma pad_message_blocks: "length (pad_message bs) mod 64 = 0"
proof -
  define q r where "q = length bs div 64" and "r = length bs mod 64"
  have n: "length bs = 64 * q + r" and r: "r < 64"
    by (simp_all add: q_def r_def)
  have len: "length (pad_message bs) = 64 * q + (r + 9 + (119 - r) mod 64)"
    by (simp add: pad_message_def Let_def n r)
  have "r + 9 + (119 - r) mod 64 = (if r \<le> 55 then 64 else 128)"
  proof (cases "r \<le> 55")
    case True
    then have "119 - r = 64 + (55 - r)" by simp
    then have "(119 - r) mod 64 = (55 - r) mod 64" by (metis mod_add_self1)
    with True show ?thesis by simp
  next
    case False
    with r have "(119 - r) mod 64 = 119 - r" by simp
    with False r show ?thesis by simp
  qed
  with len show ?thesis by simp
qed

end
