(* ===== verification/Python_Float.thy ===== *)
theory Python_Float
  imports Unicode_Text
begin

text \<open>
  \<open>float(token)\<close> followed by \<open>repr\<close>, on the decimal tokens of JSON: the token is rounded to
  the nearest binary64 value (ties to even) and that value is printed as the shortest decimal
  that rounds back to it. A finite value is a pair \<open>(m, e)\<close> standing for \<open>m * 2 ^ e\<close>, with
  \<open>m < 2 ^ 53\<close> and \<open>-1074 \<le> e\<close>; \<open>None\<close> is an overflow to infinity. The canonical JSON layer
  carries floats by this text.
\<close>

section \<open>Decimal to binary\<close>

definition pow_split :: "nat \<Rightarrow> int \<Rightarrow> nat \<times> nat" where
  "pow_split b e = (if 0 \<le> e then (b ^ nat e, 1) else (1, b ^ nat (- e)))"

text \<open>Nearest integer to \<open>num / den\<close>, ties to even.\<close>

definition round_half_even :: "nat \<Rightarrow> nat \<Rightarrow> nat" where
  "round_half_even num den =
     (let q = num div den; r = num mod den
      in if 2 * r > den \<or> (2 * r = den \<and> odd q) then q + 1 else q)"

text \<open>The value \<open>digits * 10 ^ ex\<close> as binary64.\<close>

definition round_double :: "nat \<Rightarrow> int \<Rightarrow> (nat \<times> int) option" where
  "round_double digits ex =
     (if digits = 0 then Some (0, -1074)
      else
        let (n, d) = pow_split 10 ex; num = digits * n; den = d;
            e0 = int (bit_length_nat num) - int (bit_length_nat den) - 53;
            (up, down) = pow_split 2 e0;
            e1 = (if den * up * 2 ^ 53 \<le> num * down then e0 + 1 else e0);
            e = max (-1074) e1;
            (u, w) = pow_split 2 e;
            m = round_half_even (num * w) (den * u);
            (m', e') = (if m = 2 ^ 53 then (2 ^ 52, e + 1) else (m, e))
        in if 971 < e' then None else Some (m', e'))"

section \<open>Binary to shortest decimal\<close>

text \<open>Smallest \<open>k\<close> from \<open>start\<close> upwards with \<open>num < den * 10 ^ k\<close>, within the fuel.\<close>

fun decimal_point :: "nat \<Rightarrow> nat \<Rightarrow> nat \<Rightarrow> int \<Rightarrow> int" where
  "decimal_point 0 num den k = k"
| "decimal_point (Suc fuel) num den k =
     (let (u, d) = pow_split 10 k
      in if num * d < den * u then k else decimal_point fuel num den (k + 1))"

definition distance :: "nat \<Rightarrow> nat \<Rightarrow> nat" where
  "distance a b = (if a \<le> b then b - a else a - b)"

text \<open>
  The \<open>n\<close>-digit decimals next to \<open>num / den\<close>, scaled by \<open>10 ^ ex\<close>, that round to the same
  double; the closer one is chosen.
\<close>

definition float_candidate :: "nat \<times> int \<Rightarrow> nat \<Rightarrow> nat \<Rightarrow> int \<Rightarrow> nat option" where
  "float_candidate x num den ex =
     (let (u, d) = pow_split 10 ex; a = num * d; b = den * u;
          lo = a div b; hi = lo + 1;
          ok = (\<lambda>c. c \<noteq> 0 \<and> round_double c ex = Some x)
      in if ok lo \<and> ok hi
         then Some (if distance (lo * b) a \<le> distance (hi * b) a then lo else hi)
         else if ok lo then Some lo
         else if ok hi then Some hi
         else None)"

fun shortest :: "nat list \<Rightarrow> nat \<times> int \<Rightarrow> nat \<Rightarrow> nat \<Rightarrow> int \<Rightarrow> nat \<times> int" where
  "shortest [] x num den k = (num div den, 0)"
| "shortest (n # ns) x num den k =
     (case float_candidate x num den (k - int n) of
        Some c \<Rightarrow> (c, k - int n)
      | None \<Rightarrow> shortest ns x num den k)"

fun show_digits :: "nat \<Rightarrow> pystr" where
  "show_digits n = (if n < 10 then [48 + n] else show_digits (n div 10) @ [48 + n mod 10])"

declare show_digits.simps [simp del]

definition strip_zeros :: "pystr \<Rightarrow> pystr" where
  "strip_zeros ds = rev (dropWhile (\<lambda>c. c = 48) (rev ds))"

text \<open>\<open>ds\<close> are the significant digits, \<open>p\<close> the position of the decimal point.\<close>

definition format_repr :: "pystr \<Rightarrow> int \<Rightarrow> pystr" where
  "format_repr ds p =
     (let n = length ds in
      if -4 < p \<and> p \<le> 16 then
        (if p \<le> 0 then lit ''0.'' @ replicate (nat (- p)) 48 @ ds
         else if int n \<le> p then ds @ replicate (nat p - n) 48 @ lit ''.0''
         else take (nat p) ds @ lit ''.'' @ drop (nat p) ds)
      else
        (let ex = p - 1; a = show_digits (nat \<bar>ex\<bar>)
         in take 1 ds @ (if n = 1 then [] else lit ''.'' @ drop 1 ds) @ lit ''e'' @
            (if ex < 0 then lit ''-'' else lit ''+'') @ (if length a < 2 then 48 # a else a)))"

definition repr_double :: "nat \<times> int \<Rightarrow> pystr" where
  "repr_double x =
     (let (m, e) = x in
      if m = 0 then lit ''0.0''
      else
        let (u, d) = pow_split 2 e; num = m * u; den = d;
            k0 = (int (bit_length_nat num) - int (bit_length_nat den)) * 3 div 10 - 2;
            k = decimal_point 700 num den k0;
            (c, ex) = shortest [1..<18] x num den k;
            ds = show_digits c
        in format_repr (strip_zeros ds) (int (length ds) + ex))"

section \<open>Tokens\<close>

fun digits_value :: "nat \<Rightarrow> pystr \<Rightarrow> nat" where
  "digits_value acc [] = acc"
| "digits_value acc (c # s) = digits_value (10 * acc + (c - 48)) s"

record float_token =
  negative :: bool
  int_digits :: pystr
  frac_digits :: pystr
  exp_value :: int

definition float_repr :: "float_token \<Rightarrow> pystr" where
  "float_repr t =
     (let digits = digits_value 0 (int_digits t @ frac_digits t);
          body = (case round_double digits (exp_value t - int (length (frac_digits t))) of
                    None \<Rightarrow> lit ''inf''
                  | Some x \<Rightarrow> repr_double x)
      in (if negative t then lit ''-'' @ body else body))"

end
