(* ===== verification/Json_Parser.thy ===== *)
theory Json_Parser
  imports Canonical "HOL-Library.AList"
begin

text \<open>
  \<open>json.loads\<close> as \<open>src/ibae/_records.py\<close> uses it, and the round trip with the serialiser of
  \<open>Canonical\<close>. Every failure of the parser is a \<open>ValueError\<close> for the callers. The recursive
  descent takes a fuel argument; \<open>parse_value_fuel\<close> shows that twice the length of the text is
  always enough, so the fuel is not observable.
\<close>

section \<open>Tokens\<close>

definition is_json_space :: "nat \<Rightarrow> bool" where
  "is_json_space c \<longleftrightarrow> c = 32 \<or> c = 9 \<or> c = 10 \<or> c = 13"

definition skip_ws :: "pystr \<Rightarrow> pystr" where
  "skip_ws s = dropWhile is_json_space s"

definition hex_value :: "nat \<Rightarrow> nat option" where
  "hex_value c =
     (if is_digit c then Some (c - 48)
      else if in_range CHR ''a'' CHR ''f'' c then Some (c - 87)
      else if in_range CHR ''A'' CHR ''F'' c then Some (c - 55)
      else None)"

definition hex4 :: "pystr \<Rightarrow> (nat \<times> pystr) option" where
  "hex4 s =
     (case s of
        a # b # c # d # r \<Rightarrow>
          (case (hex_value a, hex_value b, hex_value c, hex_value d) of
             (Some w, Some x, Some y, Some z) \<Rightarrow> Some (((w * 16 + x) * 16 + y) * 16 + z, r)
           | _ \<Rightarrow> None)
      | _ \<Rightarrow> None)"

text \<open>A high surrogate joins with a low one that follows as another escape.\<close>

definition join_surrogates :: "nat \<Rightarrow> pystr \<Rightarrow> nat \<times> pystr" where
  "join_surrogates h r =
     (case r of
        a # b # r' \<Rightarrow>
          if 0xD800 \<le> h \<and> h \<le> 0xDBFF \<and> a = 92 \<and> b = of_char CHR ''u'' then
            (case hex4 r' of
               Some (l, r'') \<Rightarrow>
                 if 0xDC00 \<le> l \<and> l \<le> 0xDFFF
                 then (0x10000 + (h - 0xD800) * 0x400 + (l - 0xDC00), r'')
                 else (h, r)
             | None \<Rightarrow> (h, r))
          else (h, r)
      | _ \<Rightarrow> (h, r))"

definition parse_escape :: "pystr \<Rightarrow> (nat \<times> pystr) option" where
  "parse_escape s =
     (case s of
        [] \<Rightarrow> None
      | e # r \<Rightarrow>
          if e = 34 \<or> e = 92 \<or> e = 47 then Some (e, r)
          else if e = of_char CHR ''b'' then Some (8, r)
          else if e = of_char CHR ''f'' then Some (12, r)
          else if e = of_char CHR ''n'' then Some (10, r)
          else if e = of_char CHR ''r'' then Some (13, r)
          else if e = of_char CHR ''t'' then Some (9, r)
          else if e = of_char CHR ''u'' then
            (case hex4 r of None \<Rightarrow> None | Some (h, r') \<Rightarrow> Some (join_surrogates h r'))
          else None)"

lemma hex4_length: "hex4 s = Some (h, r) \<Longrightarrow> length r < length s"
  by (auto simp: hex4_def split: list.splits option.splits)

lemma join_surrogates_length: "length (snd (join_surrogates h r)) \<le> length r"
proof (cases r)
  case (Cons a r1)
  then show ?thesis
  proof (cases r1)
    case (Cons b r2)
    have "length r'' < length r2" if "hex4 r2 = Some (l, r'')" for l r''
      using that by (rule hex4_length)
    then show ?thesis using Cons \<open>r = a # r1\<close>
      by (fastforce simp: join_surrogates_def split: option.splits)
  qed (simp add: join_surrogates_def)
qed (simp add: join_surrogates_def)

lemma parse_escape_length: "parse_escape s = Some (c, r) \<Longrightarrow> length r < length s"
proof (cases s)
  case (Cons e r1)
  assume p: "parse_escape s = Some (c, r)"
  have j: "length r' \<le> length q" if "join_surrogates h q = (k, r')" for h q k r'
    using join_surrogates_length [of h q] that by simp
  show ?thesis
    using p Cons
    by (auto simp: parse_escape_def less_Suc_eq_le split: if_splits option.splits
        dest!: hex4_length j)
qed (simp add: parse_escape_def)

text \<open>The body of a string, after its opening quote.\<close>

function parse_chars :: "pystr \<Rightarrow> (pystr \<times> pystr) option" where
  "parse_chars s =
     (case s of
        [] \<Rightarrow> None
      | c # r \<Rightarrow>
          if c = 34 then Some ([], r)
          else if c = 92 then
            (case parse_escape r of
               None \<Rightarrow> None
             | Some (d, r') \<Rightarrow> map_option (\<lambda>(cs, t). (d # cs, t)) (parse_chars r'))
          else if c \<le> 31 then None
          else map_option (\<lambda>(cs, t). (c # cs, t)) (parse_chars r))"
  by pat_completeness auto
termination
  by (relation "measure length") (auto dest: parse_escape_length)

declare parse_chars.simps [simp del]

lemma parse_chars_simps [simp]:
  "parse_chars [] = None"
  "parse_chars (c # r) =
     (if c = 34 then Some ([], r)
      else if c = 92 then
        (case parse_escape r of
           None \<Rightarrow> None
         | Some (d, r') \<Rightarrow> map_option (\<lambda>(cs, t). (d # cs, t)) (parse_chars r'))
      else if c \<le> 31 then None
      else map_option (\<lambda>(cs, t). (c # cs, t)) (parse_chars r))"
  by (simp_all add: parse_chars.simps [of "[]"] parse_chars.simps [of "c # r"])

subsection \<open>Numbers\<close>

definition int_max_str_digits :: nat where
  "int_max_str_digits = 4300"

definition lex_sign :: "pystr \<Rightarrow> bool \<times> pystr" where
  "lex_sign s = (case s of [] \<Rightarrow> (False, []) | c # r \<Rightarrow> if c = 45 then (True, r) else (False, s))"

definition lex_int :: "pystr \<Rightarrow> (pystr \<times> pystr) option" where
  "lex_int s =
     (case s of
        [] \<Rightarrow> None
      | c # r \<Rightarrow>
          if c = 48 then Some ([48], r)
          else if is_digit c then Some (takeWhile is_digit s, dropWhile is_digit s)
          else None)"

definition lex_frac :: "pystr \<Rightarrow> pystr \<times> pystr" where
  "lex_frac s =
     (case s of
        p # d # r \<Rightarrow>
          if p = 46 \<and> is_digit d
          then (takeWhile is_digit (d # r), dropWhile is_digit (d # r))
          else ([], s)
      | _ \<Rightarrow> ([], s))"

definition lex_exp_sign :: "pystr \<Rightarrow> bool \<times> pystr" where
  "lex_exp_sign s =
     (case s of
        [] \<Rightarrow> (False, [])
      | g # q \<Rightarrow> if g = 45 then (True, q) else if g = 43 then (False, q) else (False, s))"

definition lex_exp :: "pystr \<Rightarrow> int option \<times> pystr" where
  "lex_exp s =
     (case s of
        [] \<Rightarrow> (None, s)
      | e # r \<Rightarrow>
          if e = of_char CHR ''e'' \<or> e = of_char CHR ''E'' then
            let (neg, r') = lex_exp_sign r;
                ds = takeWhile is_digit r'; v = int (digits_value 0 ds)
            in if ds = [] then (None, s) else (Some (if neg then - v else v), dropWhile is_digit r')
          else (None, s))"

definition lex_number :: "pystr \<Rightarrow> (json \<times> pystr) option" where
  "lex_number s =
     (let (neg, s1) = lex_sign s in
      case lex_int s1 of
        None \<Rightarrow> None
      | Some (ds, s2) \<Rightarrow>
          let (fs, s3) = lex_frac s2; (ex, s4) = lex_exp s3; v = int (digits_value 0 ds)
          in if fs = [] \<and> ex = None then
               (if int_max_str_digits < length ds then None
                else Some (JInt (if neg then - v else v), s4))
             else
               Some (JFloat (float_repr
                       \<lparr> negative = neg, int_digits = ds, frac_digits = fs,
                         exp_value = (case ex of None \<Rightarrow> 0 | Some x \<Rightarrow> x) \<rparr>), s4))"

definition strip_prefix :: "string \<Rightarrow> pystr \<Rightarrow> pystr option" where
  "strip_prefix w s =
     (if take (length w) s = lit w then Some (drop (length w) s) else None)"

section \<open>Values\<close>

definition dict_of :: "(pystr \<times> json) list \<Rightarrow> (pystr \<times> json) list" where
  "dict_of kvs = foldl (\<lambda>d (k, v). AList.update k v d) [] kvs"

definition parse_key :: "pystr \<Rightarrow> (pystr \<times> pystr) option" where
  "parse_key s =
     (case s of
        [] \<Rightarrow> None
      | c # r \<Rightarrow>
          if c = 34 then
            (case parse_chars r of
               None \<Rightarrow> None
             | Some (k, t) \<Rightarrow>
                 (case skip_ws t of
                    [] \<Rightarrow> None
                  | d # q \<Rightarrow> if d = 58 then Some (k, skip_ws q) else None))
          else None)"

definition parse_scalar :: "pystr \<Rightarrow> (json \<times> pystr) option" where
  "parse_scalar s =
     (case s of
        [] \<Rightarrow> None
      | c # r \<Rightarrow>
          if c = 34 then map_option (\<lambda>(cs, t). (JStr cs, t)) (parse_chars r)
          else if c = of_char CHR ''n'' then map_option (\<lambda>t. (JNull, t)) (strip_prefix ''null'' s)
          else if c = of_char CHR ''t'' then
            map_option (\<lambda>t. (JBool True, t)) (strip_prefix ''true'' s)
          else if c = of_char CHR ''f'' then
            map_option (\<lambda>t. (JBool False, t)) (strip_prefix ''false'' s)
          else if c = of_char CHR ''N'' then
            map_option (\<lambda>t. (JFloat (lit ''nan''), t)) (strip_prefix ''NaN'' s)
          else if c = of_char CHR ''I'' then
            map_option (\<lambda>t. (JFloat (lit ''inf''), t)) (strip_prefix ''Infinity'' s)
          else
            (case strip_prefix ''-Infinity'' s of
               Some t \<Rightarrow> Some (JFloat (lit ''-inf''), t)
             | None \<Rightarrow> lex_number s))"

text \<open>What follows an element: the closing bracket, or a comma and more.\<close>

fun parse_value :: "nat \<Rightarrow> pystr \<Rightarrow> (json \<times> pystr) option"
  and parse_elems :: "nat \<Rightarrow> pystr \<Rightarrow> (json list \<times> pystr) option"
  and parse_members :: "nat \<Rightarrow> pystr \<Rightarrow> ((pystr \<times> json) list \<times> pystr) option"
where
  "parse_value 0 s = None"
| "parse_value (Suc n) s =
     (case s of
        [] \<Rightarrow> None
      | c # r \<Rightarrow>
          if c = 91 then
            (case skip_ws r of
               [] \<Rightarrow> None
             | d # q \<Rightarrow>
                 if d = 93 then Some (JArr [], q)
                 else map_option (\<lambda>(xs, t). (JArr xs, t)) (parse_elems n (d # q)))
          else if c = 123 then
            (case skip_ws r of
               [] \<Rightarrow> None
             | d # q \<Rightarrow>
                 if d = 125 then Some (JObj [], q)
                 else map_option (\<lambda>(kvs, t). (JObj (dict_of kvs), t)) (parse_members n (d # q)))
          else parse_scalar s)"
| "parse_elems 0 s = None"
| "parse_elems (Suc n) s =
     (case parse_value n s of
        None \<Rightarrow> None
      | Some (v, r) \<Rightarrow>
          (case skip_ws r of
             [] \<Rightarrow> None
           | d # q \<Rightarrow>
               if d = 93 then Some ([v], q)
               else if d = 44 then
                 map_option (\<lambda>(vs, t). (v # vs, t)) (parse_elems n (skip_ws q))
               else None))"
| "parse_members 0 s = None"
| "parse_members (Suc n) s =
     (case parse_key s of
        None \<Rightarrow> None
      | Some (k, s') \<Rightarrow>
          (case parse_value n s' of
             None \<Rightarrow> None
           | Some (v, r) \<Rightarrow>
               (case skip_ws r of
                  [] \<Rightarrow> None
                | d # q \<Rightarrow>
                    if d = 125 then Some ([(k, v)], q)
                    else if d = 44 then
                      map_option (\<lambda>(kvs, t). ((k, v) # kvs, t)) (parse_members n (skip_ws q))
                    else None)))"

definition json_loads :: "pystr \<Rightarrow> json res" where
  "json_loads s =
     (if take 1 s = [0xFEFF] then Inl (ValueErr ''unexpected UTF-8 BOM'')
      else
        (case parse_value (2 * length s + 2) (skip_ws s) of
           None \<Rightarrow> Inl (ValueErr ''invalid JSON'')
         | Some (v, r) \<Rightarrow>
             if skip_ws r = [] then Inr v else Inl (ValueErr ''extra data'')))"

section \<open>Consumption and fuel\<close>

lemma skip_ws_length: "length (skip_ws s) \<le> length s"
  by (simp add: skip_ws_def length_dropWhile_le)

lemma skip_ws_Cons_length: "skip_ws s = d # q \<Longrightarrow> length q < length s"
  using skip_ws_length [of s] by simp

lemma parse_chars_length: "parse_chars s = Some (cs, r) \<Longrightarrow> length r < length s"
proof (induction s arbitrary: cs r rule: parse_chars.induct)
  case (1 s)
  show ?case
  proof (cases s)
    case Nil
    with "1.prems" show ?thesis by simp
  next
    case (Cons c r')
    consider "c = 34" | "c \<noteq> 34" "c = 92" | "c \<noteq> 34" "c \<noteq> 92" by blast
    then show ?thesis
    proof cases
      case 1
      with "1.prems" Cons show ?thesis by simp
    next
      case 2
      with "1.prems" Cons obtain d t cs' where p: "parse_escape r' = Some (d, t)"
        and q: "parse_chars t = Some (cs', r)"
        by (auto split: option.splits)
      from "1.IH"(1) [OF Cons 2 p refl q] parse_escape_length [OF p] Cons
      show ?thesis by simp
    next
      case 3
      with "1.prems" Cons obtain cs' where c: "\<not> c \<le> 31" and q: "parse_chars r' = Some (cs', r)"
        by (auto split: if_splits)
      from "1.IH"(2) [OF Cons 3 c q] Cons show ?thesis by simp
    qed
  qed
qed

lemma strip_prefix_length: "strip_prefix w s = Some t \<Longrightarrow> length t \<le> length s"
  by (auto simp: strip_prefix_def split: if_splits)

lemma strip_prefix_less: "strip_prefix w s = Some t \<Longrightarrow> w \<noteq> [] \<Longrightarrow> length t < length s"
proof -
  assume p: "strip_prefix w s = Some t" and w: "w \<noteq> []"
  then have "take (length w) s = lit w" and t: "t = drop (length w) s"
    by (auto simp: strip_prefix_def split: if_splits)
  then have "s \<noteq> []" using w by auto
  with t w show ?thesis by (simp add: length_drop)
qed

lemma lex_sign_length: "lex_sign s = (b, r) \<Longrightarrow> length r \<le> length s"
  by (auto simp: lex_sign_def split: list.splits if_splits)

lemma lex_int_length: "lex_int s = Some (ds, r) \<Longrightarrow> length r < length s"
  by (auto simp: lex_int_def length_dropWhile_le less_Suc_eq_le split: list.splits if_splits)

lemma lex_frac_length: "lex_frac s = (ds, r) \<Longrightarrow> length r \<le> length s"
  by (auto simp: lex_frac_def intro: le_trans [OF length_dropWhile_le] split: list.splits if_splits)

lemma lex_exp_sign_length: "lex_exp_sign s = (b, r) \<Longrightarrow> length r \<le> length s"
  by (auto simp: lex_exp_sign_def split: list.splits if_splits)

lemma lex_exp_length: "lex_exp s = (x, r) \<Longrightarrow> length r \<le> length s"
  by (auto simp: lex_exp_def Let_def split: list.splits if_splits prod.splits
      dest: lex_exp_sign_length intro: le_SucI le_trans [OF length_dropWhile_le])

lemma lex_number_length: "lex_number s = Some (v, r) \<Longrightarrow> length r < length s"
  by (fastforce simp: lex_number_def Let_def split: prod.splits option.splits if_splits
      dest: lex_sign_length lex_int_length lex_frac_length lex_exp_length)

lemma parse_scalar_length: "parse_scalar s = Some (v, r) \<Longrightarrow> length r < length s"
  by (cases s)
     (auto simp: parse_scalar_def split: if_splits option.splits
        dest: parse_chars_length strip_prefix_less lex_number_length)

lemma parse_key_length: "parse_key s = Some (k, r) \<Longrightarrow> length r < length s"
proof (cases s)
  case (Cons c t)
  assume "parse_key s = Some (k, r)"
  with Cons obtain u q d where "parse_chars t = Some (k, u)" "skip_ws u = d # q" "r = skip_ws q"
    by (auto simp: parse_key_def split: if_splits option.splits list.splits)
  then show ?thesis
    using Cons parse_chars_length [of t k u] skip_ws_Cons_length [of u d q] skip_ws_length [of q]
    by simp
qed (simp add: parse_key_def)

lemma parse_length:
  "parse_value n s = Some (v, r) \<Longrightarrow> length r < length s"
  "parse_elems n s = Some (vs, r) \<Longrightarrow> length r < length s"
  "parse_members n s = Some (kvs, r) \<Longrightarrow> length r < length s"
proof (induction n s and n s and n s arbitrary: v r and vs r and kvs r
    rule: parse_value_parse_elems_parse_members.induct)
  case (2 n s)
  show ?case
  proof (cases s)
    case Nil
    with "2.prems" show ?thesis by simp
  next
    case (Cons c t)
    consider "c = 91" | "c \<noteq> 91" "c = 123" | "c \<noteq> 91" "c \<noteq> 123" by blast
    then show ?thesis
    proof cases
      case 1
      show ?thesis
      proof (cases "skip_ws t")
        case (Cons d q)
        with "2.prems" "2.IH"(1) [OF \<open>s = c # t\<close> 1 Cons] 1 \<open>s = c # t\<close> skip_ws_Cons_length [OF Cons]
        show ?thesis by (fastforce split: if_splits)
      qed (use "2.prems" 1 \<open>s = c # t\<close> in simp)
    next
      case 2
      show ?thesis
      proof (cases "skip_ws t")
        case (Cons d q)
        with "2.prems" "2.IH"(2) [OF \<open>s = c # t\<close> 2 Cons] 2 \<open>s = c # t\<close> skip_ws_Cons_length [OF Cons]
        show ?thesis by (fastforce split: if_splits)
      qed (use "2.prems" 2 \<open>s = c # t\<close> in simp)
    next
      case 3
      with "2.prems" Cons show ?thesis by (auto dest: parse_scalar_length)
    qed
  qed
next
  case (4 n s)
  then obtain v' r' d q where v: "parse_value n s = Some (v', r')" and w: "skip_ws r' = d # q"
    by (auto split: option.splits list.splits)
  have l: "length q < length s" using "4.IH"(1) [OF v] skip_ws_Cons_length [OF w] by simp
  show ?case
  proof (cases "d = 93")
    case True
    with "4.prems" v w l show ?thesis by simp
  next
    case False
    with "4.prems" v w obtain vs' where d: "d = 44" and e: "parse_elems n (skip_ws q) = Some (vs', r)"
      by (auto split: if_splits)
    from "4.IH"(2) [OF v refl w False d e] l skip_ws_length [of q] show ?thesis by simp
  qed
next
  case (6 n s)
  then obtain k s' v' r' d q where k: "parse_key s = Some (k, s')"
    and v: "parse_value n s' = Some (v', r')" and w: "skip_ws r' = d # q"
    by (auto split: option.splits list.splits)
  have l: "length q < length s"
    using "6.IH"(1) [OF k refl v] skip_ws_Cons_length [OF w] parse_key_length [OF k] by simp
  show ?case
  proof (cases "d = 125")
    case True
    with "6.prems" k v w l show ?thesis by simp
  next
    case False
    with "6.prems" k v w obtain kvs' where d: "d = 44"
      and e: "parse_members n (skip_ws q) = Some (kvs', r)"
      by (auto split: if_splits)
    from "6.IH"(2) [OF k refl v refl w False d e] l skip_ws_length [of q] show ?thesis by simp
  qed
qed simp_all

lemma parse_fuel_step:
  "2 * length s < n \<Longrightarrow> parse_value (Suc n) s = parse_value n s"
  "2 * length s + 1 < n \<Longrightarrow> parse_elems (Suc n) s = parse_elems n s"
  "2 * length s + 1 < n \<Longrightarrow> parse_members (Suc n) s = parse_members n s"
proof (induction n arbitrary: s)
  case (Suc n)
  {
    case 1
    show ?case
    proof (cases s)
      case (Cons c t)
      show ?thesis
      proof (cases "skip_ws t")
        case Nil
        with Cons show ?thesis by simp
      next
        case (Cons d q)
        then have "2 * length (d # q) + 1 < n"
          using 1 \<open>s = c # t\<close> skip_ws_length [of t] by simp
        from Suc.IH(2,3) [OF this] show ?thesis
          by (simp only: parse_value.simps \<open>s = c # t\<close> Cons list.case)
      qed
    qed simp
  next
    case 2
    then have v: "parse_value (Suc n) s = parse_value n s" by (intro Suc.IH(1)) simp
    have e: "parse_elems (Suc n) (skip_ws q) = parse_elems n (skip_ws q)"
      if "parse_value n s = Some (v, r)" and "skip_ws r = d # q" for v r d q
      using 2 parse_length(1) [OF that(1)] skip_ws_Cons_length [OF that(2)] skip_ws_length [of q]
      by (intro Suc.IH(2)) simp
    show ?case
      using v e by (simp del: parse_value.simps split: option.split list.split)
  next
    case 3
    have v: "parse_value (Suc n) s' = parse_value n s'" if "parse_key s = Some (k, s')" for k s'
      using 3 parse_key_length [OF that] by (intro Suc.IH(1)) simp
    have e: "parse_members (Suc n) (skip_ws q) = parse_members n (skip_ws q)"
      if "parse_key s = Some (k, s')" and "parse_value n s' = Some (v, r)" and "skip_ws r = d # q"
      for k s' v r d q
      using 3 parse_key_length [OF that(1)] parse_length(1) [OF that(2)]
        skip_ws_Cons_length [OF that(3)] skip_ws_length [of q]
      by (intro Suc.IH(3)) simp
    show ?case
      using v e by (simp del: parse_value.simps split: option.split list.split)
  }
qed simp_all

lemma parse_value_fuel_from:
  "parse_value (2 * length s + 1 + k) s = parse_value (2 * length s + 1) s"
proof (induction k)
  case (Suc k)
  have "2 * length s < 2 * length s + 1 + k" by simp
  from parse_fuel_step(1) [OF this] Suc show ?case by (simp only: add_Suc_right)
qed (simp only: add_0_right)

lemma parse_value_fuel:
  assumes "2 * length s < n" and "2 * length s < m"
  shows "parse_value n s = parse_value m s"
proof -
  have "parse_value i s = parse_value (2 * length s + 1) s" if "2 * length s < i" for i
  proof -
    from that have "i = 2 * length s + 1 + (i - (2 * length s + 1))" by simp
    then show ?thesis by (metis parse_value_fuel_from)
  qed
  with assms show ?thesis by metis
qed

section \<open>Round trip\<close>

subsection \<open>Strings\<close>

lemma hex_value_hex_digit [simp]: "d < 16 \<Longrightarrow> hex_value (hex_digit d) = Some d"
  by (auto simp: hex_value_def hex_digit_def in_range_def)

lemma join_surrogates_low [simp]: "h < 0xD800 \<Longrightarrow> join_surrogates h r = (h, r)"
  by (simp add: join_surrogates_def split: list.split)

lemma parse_escape_control:
  assumes "c \<le> 31"
  shows "parse_escape (117 # 48 # 48 # hex_digit (c div 16) # hex_digit (c mod 16) # r) = Some (c, r)"
proof -
  have "c div 16 < 16" "c mod 16 < 16" using assms by auto
  moreover have "hex_value 48 = Some 0" by (simp add: hex_value_def in_range_def)
  ultimately have "hex4 (48 # 48 # hex_digit (c div 16) # hex_digit (c mod 16) # r) = Some (c, r)"
    by (simp add: hex4_def)
  then show ?thesis using assms by (simp add: parse_escape_def)
qed

lemma parse_chars_escape:
  "parse_chars (escape_char c @ r) = map_option (\<lambda>(cs, t). (c # cs, t)) (parse_chars r)"
proof -
  consider "c \<in> {34, 92, 8, 12, 10, 13, 9}" | "c \<notin> {34, 92, 8, 12, 10, 13, 9}" "c \<le> 31"
    | "c \<notin> {34, 92}" "31 < c"
    by fastforce
  then show ?thesis
  proof cases
    case 1
    then show ?thesis by (auto simp: escape_char_def parse_escape_def)
  next
    case 2
    then show ?thesis using parse_escape_control [of c r] by (simp add: escape_char_def)
  next
    case 3
    then show ?thesis by (simp add: escape_char_def)
  qed
qed

lemma parse_chars_quoted: "parse_chars (concat (map escape_char s) @ 34 # r) = Some (s, r)"
  by (induction s) (simp_all add: parse_chars_escape)

subsection \<open>Numbers\<close>

definition ends_number :: "pystr \<Rightarrow> bool" where
  "ends_number r \<longleftrightarrow>
     (case r of [] \<Rightarrow> True | c # _ \<Rightarrow> \<not> is_digit c \<and> c \<noteq> 46 \<and> c \<noteq> 101 \<and> c \<noteq> 69)"

lemma ends_number_not_digit: "ends_number r \<Longrightarrow> r = [] \<or> \<not> is_digit (hd r)"
  by (cases r) (simp_all add: ends_number_def)

lemma takeWhile_append_stop:
  "list_all P xs \<Longrightarrow> ys = [] \<or> \<not> P (hd ys) \<Longrightarrow>
   takeWhile P (xs @ ys) = xs \<and> dropWhile P (xs @ ys) = ys"
  by (induction xs) (cases ys; auto)+

lemma takeWhile_all: "list_all P xs \<Longrightarrow> takeWhile P xs = xs \<and> dropWhile P xs = []"
  by (induction xs) simp_all

lemma dropWhile_Nil_all: "dropWhile P xs = [] \<longleftrightarrow> list_all P xs"
  by (induction xs) auto

lemma lex_exp_sign_extend:
  "t \<noteq> [] \<Longrightarrow> lex_exp_sign t = (neg, u) \<Longrightarrow> lex_exp_sign (t @ r) = (neg, u @ r)"
  by (cases t) (auto simp: lex_exp_sign_def split: if_splits)

lemma lex_exp_extend:
  assumes "lex_exp s = (x, [])" and "ends_number r"
  shows "lex_exp (s @ r) = (x, r)"
proof (cases s)
  case Nil
  with assms show ?thesis
    by (cases r) (auto simp: lex_exp_def ends_number_def)
next
  case (Cons e t)
  obtain neg u where nu: "lex_exp_sign t = (neg, u)" by fastforce
  from assms(1) Cons nu have e: "e = 101 \<or> e = 69" and u: "takeWhile is_digit u \<noteq> []" "list_all is_digit u"
    by (auto simp: lex_exp_def Let_def dropWhile_Nil_all list_all_iff split: if_splits)
  from takeWhile_all [OF u(2)] have u': "takeWhile is_digit u = u" "u \<noteq> []" using u(1) by auto
  then have t: "t \<noteq> []" using nu by (auto simp: lex_exp_sign_def)
  have "takeWhile is_digit (u @ r) = u" "dropWhile is_digit (u @ r) = r"
    using takeWhile_append_stop [OF u(2) ends_number_not_digit [OF assms(2)]] by simp_all
  then show ?thesis
    using assms(1) Cons e u' nu lex_exp_sign_extend [OF t nu, of r]
    by (auto simp: lex_exp_def Let_def simp del: takeWhile_eq_all_conv)
qed

lemma lex_frac_extend:
  assumes "lex_frac s = (fs, t)" and "t \<noteq> [46]" and "ends_number r"
  shows "lex_frac (s @ r) = (fs, t @ r)"
proof (cases "\<exists>d q. s = 46 # d # q \<and> is_digit d")
  case True
  then obtain d q where s: "s = 46 # d # q" "is_digit d" by blast
  have "takeWhile is_digit ((d # q) @ r) = takeWhile is_digit (d # q) \<and>
        dropWhile is_digit ((d # q) @ r) = dropWhile is_digit (d # q) @ r"
  proof (cases "list_all is_digit (d # q)")
    case True
    then show ?thesis
      using takeWhile_append_stop [OF True ends_number_not_digit [OF assms(3)]] takeWhile_all [OF True]
      by (simp del: takeWhile_eq_all_conv)
  next
    case False
    then obtain y where "y \<in> set (d # q)" "\<not> is_digit y" by (auto simp: list_all_iff)
    then show ?thesis by (metis takeWhile_append1 dropWhile_append1)
  qed
  with s assms(1) show ?thesis by (auto simp: lex_frac_def)
next
  case False
  then have *: "fs = []" "t = s"
    using assms(1) by (auto simp: lex_frac_def split: list.splits if_splits)
  show ?thesis
  proof (cases s)
    case Nil
    with False * assms(2,3) show ?thesis
      by (cases r) (auto simp: lex_frac_def ends_number_def split: list.splits)
  next
    case (Cons p w)
    with False * assms(2,3) show ?thesis
      by (cases w; cases r) (auto simp: lex_frac_def ends_number_def)
  qed
qed

lemma lex_int_extend:
  assumes "lex_int s = Some (ds, t)" and "ends_number r"
  shows "lex_int (s @ r) = Some (ds, t @ r)"
proof (cases s)
  case (Cons c q)
  show ?thesis
  proof (cases "c = 48")
    case False
    with assms(1) Cons have d: "is_digit c" "ds = takeWhile is_digit s" "t = dropWhile is_digit s"
      by (auto simp: lex_int_def split: if_splits)
    have "takeWhile is_digit (s @ r) = ds \<and> dropWhile is_digit (s @ r) = t @ r"
    proof (cases "list_all is_digit s")
      case True
      with d takeWhile_append_stop [OF True ends_number_not_digit [OF assms(2)]]
        takeWhile_all [OF True] show ?thesis by simp
    next
      case False
      then obtain y where "y \<in> set s" "\<not> is_digit y" by (auto simp: list_all_iff)
      with d show ?thesis by (metis takeWhile_append1 dropWhile_append1)
    qed
    with False Cons d(1) show ?thesis by (simp add: lex_int_def)
  qed (use assms Cons in \<open>auto simp: lex_int_def\<close>)
qed (use assms in \<open>simp add: lex_int_def\<close>)

lemma lex_number_extend:
  assumes "lex_number s = Some (v, [])" and "ends_number r"
  shows "lex_number (s @ r) = Some (v, r)"
proof -
  obtain neg s1 where s1: "lex_sign s = (neg, s1)" by fastforce
  obtain ds s2 where s2: "lex_int s1 = Some (ds, s2)"
    using assms(1) s1 by (auto simp: lex_number_def split: option.splits)
  obtain fs s3 where s3: "lex_frac s2 = (fs, s3)" by fastforce
  obtain ex s4 where s4: "lex_exp s3 = (ex, s4)" by fastforce
  have nil: "s4 = []"
    using assms(1) s1 s2 s3 s4 by (auto simp: lex_number_def Let_def split: if_splits)
  have "s3 \<noteq> [46]" using s4 nil by (auto simp: lex_exp_def)
  moreover have "lex_sign (s @ r) = (neg, s1 @ r)"
    using s1 s2 by (cases s) (auto simp: lex_sign_def lex_int_def split: if_splits)
  ultimately show ?thesis
    using assms s1 s2 s3 s4 nil lex_int_extend [OF s2 assms(2)] lex_frac_extend [OF s3 _ assms(2)]
      lex_exp_extend [of s3 ex r]
    by (auto simp: lex_number_def Let_def split: if_splits)
qed

lemma show_nat_simps:
  "n < 10 \<Longrightarrow> show_nat n = [48 + n]"
  "10 \<le> n \<Longrightarrow> show_nat n = show_nat (n div 10) @ [48 + n mod 10]"
  by (simp_all add: show_nat.simps [of n])

lemma is_digit_code: "is_digit c \<longleftrightarrow> 48 \<le> c \<and> c \<le> 57"
  by (simp add: in_range_def)

lemma digits_value_append: "digits_value a (s @ t) = digits_value (digits_value a s) t"
  by (induction a s rule: digits_value.induct) simp_all

lemma show_nat_digits: "list_all is_digit (show_nat n)"
proof (induction n rule: show_nat.induct)
  case (1 n)
  then show ?case
    by (cases "n < 10") (simp_all add: show_nat_simps is_digit_code)
qed

lemma digits_value_show_nat: "digits_value 0 (show_nat n) = n"
proof (induction n rule: show_nat.induct)
  case (1 n)
  then show ?case
    by (cases "n < 10") (simp_all add: show_nat_simps digits_value_append)
qed

lemma show_nat_not_Nil [simp]: "show_nat n \<noteq> []"
  by (cases "n < 10") (simp_all add: show_nat_simps)

lemma hd_show_nat: "0 < n \<Longrightarrow> hd (show_nat n) \<noteq> 48"
proof (induction n rule: show_nat.induct)
  case (1 n)
  then show ?case
    by (cases "n < 10") (simp_all add: show_nat_simps)
qed

lemma lex_int_show_nat: "lex_int (show_nat n) = Some (show_nat n, [])"
proof (cases "n = 0")
  case True
  then show ?thesis by (simp add: show_nat_simps lex_int_def)
next
  case False
  obtain c s where s: "show_nat n = c # s" by (cases "show_nat n") auto
  with False have "c \<noteq> 48" using hd_show_nat [of n] by simp
  moreover have "is_digit c" using show_nat_digits [of n] s by simp
  ultimately have "lex_int (show_nat n) =
      Some (takeWhile is_digit (show_nat n), dropWhile is_digit (show_nat n))"
    by (simp add: lex_int_def s)
  with takeWhile_all [OF show_nat_digits [of n]] show ?thesis by simp
qed

definition small_int :: "int \<Rightarrow> bool" where
  "small_int i \<longleftrightarrow> length (show_nat (nat \<bar>i\<bar>)) \<le> int_max_str_digits"

lemma lex_number_show_int:
  assumes "small_int i"
  shows "lex_number (show_int i) = Some (JInt i, [])"
proof (cases "i < 0")
  case True
  then have "lex_sign (show_int i) = (True, show_nat (nat (- i)))"
    by (simp add: lex_sign_def show_int_def)
  with True assms show ?thesis
    by (simp add: lex_number_def lex_int_show_nat lex_frac_def lex_exp_def digits_value_show_nat
        small_int_def)
next
  case False
  obtain c s where s: "show_nat (nat i) = c # s" by (cases "show_nat (nat i)") auto
  then have "c \<noteq> 45" using show_nat_digits [of "nat i"] by (simp add: is_digit_code)
  with False s have "lex_sign (show_int i) = (False, show_nat (nat i))"
    by (simp add: lex_sign_def show_int_def)
  with False assms show ?thesis
    by (simp add: lex_number_def lex_int_show_nat lex_frac_def lex_exp_def digits_value_show_nat
        small_int_def)
qed

lemma show_nat_length: "length (show_nat n) \<le> k \<longleftrightarrow> n < 10 ^ k \<and> 0 < k"
proof (induction n arbitrary: k rule: show_nat.induct)
  case (1 n)
  show ?case
  proof (cases "n < 10")
    case True
    then have "n < 10 ^ k" if "0 < k"
      using that by (metis le_less_trans not_less power_increasing power_one_right Suc_leI One_nat_def
          order_less_le_trans one_le_numeral)
    with True show ?thesis by (auto simp: show_nat_simps)
  next
    case False
    then show ?thesis
    proof (cases k)
      case (Suc j)
      have "0 < n div 10" using False by simp
      then have "0 < j" if "n div 10 < 10 ^ j" using that by (cases j) auto
      moreover have "n div 10 < 10 ^ j \<longleftrightarrow> n < 10 ^ k"
        using Suc by (simp add: div_less_iff_less_mult mult.commute)
      ultimately show ?thesis using False Suc "1.IH" [of j] by (auto simp: show_nat_simps)
    qed simp
  qed
qed

lemma bit_length_small_int: "bit_length i \<le> 256 \<Longrightarrow> small_int i"
proof -
  assume "bit_length i \<le> 256"
  then have "\<bar>i\<bar> < 2 ^ 256" by (simp only: bit_length_le)
  then have "nat \<bar>i\<bar> < 2 ^ 256" by (simp only: nat_less_iff abs_ge_zero of_nat_power of_nat_numeral)
  also have "(2 :: nat) ^ 256 \<le> 10 ^ 256" by (rule power_mono) simp_all
  also have "(10 :: nat) ^ 256 \<le> 10 ^ 4300" by (rule power_increasing) simp_all
  finally have "nat \<bar>i\<bar> < 10 ^ 4300" .
  then show ?thesis
    unfolding small_int_def show_nat_length int_max_str_digits_def
    by (rule conjI) (rule zero_less_numeral)
qed

subsection \<open>Values\<close>

text \<open>
  The JSON values that the model's texts denote: integers short enough for \<open>int(text)\<close>,
  floats carried by their own \<open>repr\<close>, objects that are dictionaries.
\<close>

fun wf_json :: "json \<Rightarrow> bool" where
  "wf_json (JInt i) = small_int i"
| "wf_json (JFloat t) = (lex_number t = Some (JFloat t, []))"
| "wf_json (JArr xs) = list_all wf_json xs"
| "wf_json (JObj kvs) = (distinct (map fst kvs) \<and> list_all (\<lambda>kv. wf_json (snd kv)) kvs)"
| "wf_json _ = True"

lemma render_JObj:
  "render (JObj kvs) =
     123 # join_comma (map (\<lambda>(k, v). quote k @ 58 # render v) (sort_key fst kvs)) @ [125]"
  by (simp add: sort_key_map case_prod_beta' comp_def)

lemma canon_JObj: "canon (JObj kvs) = JObj (map (map_prod id canon) (sort_key fst kvs))"
  by (simp add: sort_key_map)

lemma lex_number_hd:
  "lex_number s = Some x \<Longrightarrow> s \<noteq> [] \<and> (hd s = 45 \<or> is_digit (hd s))"
  by (cases s)
     (auto simp: lex_number_def lex_sign_def lex_int_def is_digit_code split: if_splits option.splits)

lemma lex_number_strip_prefix: "lex_number s = Some x \<Longrightarrow> strip_prefix ''-Infinity'' s = None"
proof (rule ccontr)
  assume l: "lex_number s = Some x" and "strip_prefix ''-Infinity'' s \<noteq> None"
  then have "take (length ''-Infinity'') s = lit ''-Infinity''"
    unfolding strip_prefix_def by (auto split: if_splits simp del: list.size)
  then have "s = lit ''-Infinity'' @ drop (length ''-Infinity'') s" by (metis append_take_drop_id)
  then obtain r where "s = 45 # 73 # r" by (auto simp: lit_def)
  with l show False by (simp add: lex_number_def lex_sign_def lex_int_def is_digit_code)
qed

lemma parse_scalar_number:
  assumes "lex_number s = Some x"
  shows "parse_scalar s = Some x"
proof -
  from lex_number_hd [OF assms] obtain c r where "s = c # r" "c = 45 \<or> (48 \<le> c \<and> c \<le> 57)"
    by (cases s) (auto simp: is_digit_code)
  with assms lex_number_strip_prefix [OF assms] show ?thesis
    by (auto simp: parse_scalar_def)
qed

lemma parse_value_scalar:
  assumes "parse_scalar s = Some x" and "hd s \<noteq> 91" and "hd s \<noteq> 123" and "0 < n"
  shows "parse_value n s = Some x"
  using assms by (cases n; cases s) (simp_all add: parse_scalar_def)

lemma parse_value_number:
  assumes "lex_number s = Some x" and "0 < n"
  shows "parse_value n s = Some x"
  using parse_scalar_number [OF assms(1)] lex_number_hd [OF assms(1)] assms(2)
  by (intro parse_value_scalar) (auto simp: is_digit_code)

lemma render_hd:
  assumes "wf_json j"
  shows "\<exists>c s. render j = c # s \<and> c < 128 \<and> \<not> is_json_space c \<and> c \<noteq> 93 \<and> c \<noteq> 125"
proof (cases j)
  case (JInt i)
  with assms lex_number_hd [OF lex_number_show_int [of i]] show ?thesis
    by (cases "show_int i") (auto simp: is_digit_code is_json_space_def)
next
  case (JFloat t)
  with assms lex_number_hd [of t] show ?thesis
    by (cases t) (auto simp: is_digit_code is_json_space_def)
qed (simp_all add: lit_def quote_def is_json_space_def)

lemma skip_ws_render: "wf_json j \<Longrightarrow> skip_ws (render j @ r) = render j @ r"
  using render_hd [of j] by (auto simp: skip_ws_def)

lemma skip_ws_id [simp]: "\<not> is_json_space c \<Longrightarrow> skip_ws (c # s) = c # s"
  by (simp add: skip_ws_def)

lemma parse_key_quote:
  assumes "wf_json j"
  shows "parse_key (quote k @ 58 # render j @ r) = Some (k, render j @ r)"
  using skip_ws_render [OF assms]
  by (simp add: parse_key_def quote_def parse_chars_quoted is_json_space_def)

lemma update_new: "k \<notin> fst ` set d \<Longrightarrow> AList.update k v d = d @ [(k, v)]"
  by (induction d) auto

lemma dict_of_distinct: "distinct (map fst kvs) \<Longrightarrow> dict_of kvs = kvs"
proof -
  have "foldl (\<lambda>d (k, v). AList.update k v d) d kvs = d @ kvs" if "distinct (map fst (d @ kvs))" for d
    using that
  proof (induction kvs arbitrary: d)
    case (Cons kv kvs)
    obtain k v where "kv = (k, v)" by fastforce
    with Cons.prems have "AList.update k v d = d @ [(k, v)]" by (intro update_new) force
    with Cons.IH [of "d @ [kv]"] Cons.prems \<open>kv = (k, v)\<close> show ?case by simp
  qed simp
  from this [of "[]"] show "distinct (map fst kvs) \<Longrightarrow> dict_of kvs = kvs" by (simp add: dict_of_def)
qed

definition parses :: "json \<Rightarrow> bool" where
  "parses j \<longleftrightarrow>
     wf_json j \<and>
     (\<forall>n r. ends_number r \<longrightarrow> 2 * length (render j @ r) < n \<longrightarrow>
        parse_value n (render j @ r) = Some (canon j, r))"

lemma parsesD:
  "parses j \<Longrightarrow> ends_number r \<Longrightarrow> 2 * length (render j @ r) < n \<Longrightarrow>
   parse_value n (render j @ r) = Some (canon j, r)"
  by (simp add: parses_def)

lemma join_comma_Cons:
  "ts \<noteq> [] \<Longrightarrow> join_comma (t # ts) = t @ 44 # join_comma ts"
  by (cases ts) simp_all

lemma ends_number_punct: "ends_number (44 # r)" "ends_number (93 # r)" "ends_number (125 # r)"
  by (simp_all add: ends_number_def is_digit_code)

lemma not_space_punct: "\<not> is_json_space 44" "\<not> is_json_space 93" "\<not> is_json_space 125"
  "\<not> is_json_space 34"
  by (simp_all add: is_json_space_def)

lemma join_comma_render_hd:
  "xs \<noteq> [] \<Longrightarrow> wf_json (hd xs) \<Longrightarrow>
   skip_ws (join_comma (map render xs) @ r) = join_comma (map render xs) @ r"
  by (cases xs; cases "tl xs") (auto simp: skip_ws_render join_comma_Cons)

lemma parse_elems_render:
  assumes "xs \<noteq> []" and "\<forall>x \<in> set xs. parses x"
    and "2 * length (join_comma (map render xs) @ 93 # r) + 1 < n"
  shows "parse_elems n (join_comma (map render xs) @ 93 # r) = Some (map canon xs, r)"
  using assms
proof (induction xs arbitrary: n)
  case (Cons x xs)
  then obtain m where n: "n = Suc m" by (cases n) auto
  have x: "parses x" using Cons.prems(2) by simp
  show ?case
  proof (cases "xs = []")
    case True
    have "parse_value m (render x @ 93 # r) = Some (canon x, 93 # r)"
      using x Cons.prems(3) True n by (intro parsesD) (simp_all add: ends_number_punct)
    with True n show ?thesis by (simp add: not_space_punct)
  next
    case False
    let ?t = "join_comma (map render xs) @ 93 # r"
    have len: "2 * length (render x @ 44 # ?t) + 1 < n"
      using Cons.prems(3) False by (simp add: join_comma_Cons)
    then have v: "parse_value m (render x @ 44 # ?t) = Some (canon x, 44 # ?t)"
      using x n by (intro parsesD) (simp_all add: ends_number_punct)
    have e: "parse_elems m ?t = Some (map canon xs, r)"
      using Cons.prems(2) len n False by (intro Cons.IH) auto
    have "wf_json (hd xs)" using Cons.prems(2) False by (simp add: parses_def)
    then have "skip_ws ?t = ?t" using False by (intro join_comma_render_hd)
    with v e n False show ?thesis by (simp add: join_comma_Cons not_space_punct)
  qed
qed simp

definition member_text :: "pystr \<times> json \<Rightarrow> pystr" where
  "member_text kv = quote (fst kv) @ 58 # render (snd kv)"

lemma parse_members_render:
  assumes "kvs \<noteq> []" and "\<forall>kv \<in> set kvs. parses (snd kv)"
    and "2 * length (join_comma (map member_text kvs) @ 125 # r) + 1 < n"
  shows "parse_members n (join_comma (map member_text kvs) @ 125 # r) =
    Some (map (map_prod id canon) kvs, r)"
  using assms
proof (induction kvs arbitrary: n)
  case (Cons kv kvs)
  then obtain m where n: "n = Suc m" by (cases n) auto
  obtain k x where kv: "kv = (k, x)" by fastforce
  have x: "parses x" using Cons.prems(2) kv by simp
  then have wf: "wf_json x" by (simp add: parses_def)
  show ?case
  proof (cases "kvs = []")
    case True
    have "parse_value m (render x @ 125 # r) = Some (canon x, 125 # r)"
      using x Cons.prems(3) True n kv
      by (intro parsesD) (simp_all add: ends_number_punct member_text_def)
    with True n kv parse_key_quote [OF wf, of k "125 # r"] show ?thesis
      by (simp add: not_space_punct member_text_def)
  next
    case False
    let ?t = "join_comma (map member_text kvs) @ 125 # r"
    have mt: "member_text kv = quote k @ 58 # render x" "member_text (k, x) = quote k @ 58 # render x"
      by (simp_all add: member_text_def kv)
    have len: "2 * length (quote k @ 58 # render x @ 44 # ?t) + 1 < n"
      using Cons.prems(3) False by (simp add: join_comma_Cons mt)
    then have v: "parse_value m (render x @ 44 # ?t) = Some (canon x, 44 # ?t)"
      using x n by (intro parsesD) (simp_all add: ends_number_punct)
    have e: "parse_members m ?t = Some (map (map_prod id canon) kvs, r)"
      using Cons.prems(2) len n False by (intro Cons.IH) auto
    obtain w where "?t = 34 # w"
      using False by (cases kvs; cases "tl kvs") (auto simp: member_text_def quote_def join_comma_Cons)
    then have "skip_ws ?t = ?t" by (simp add: not_space_punct)
    with v e n False kv parse_key_quote [OF wf, of k "44 # ?t"] show ?thesis
      by (simp add: join_comma_Cons not_space_punct mt id_def)
  qed
qed simp


lemma parse_value_render: "wf_json j \<Longrightarrow> parses j"
proof (induction j rule: wf_json.induct)
  case (1 i)
  then have "lex_number (show_int i @ r) = Some (JInt i, r)" if "ends_number r" for r
    using that by (intro lex_number_extend lex_number_show_int) simp_all
  with "1" show ?case by (auto simp: parses_def intro!: parse_value_number)
next
  case (2 t)
  then have "lex_number (t @ r) = Some (JFloat t, r)" if "ends_number r" for r
    using that by (intro lex_number_extend) simp_all
  with "2" show ?case by (auto simp: parses_def intro!: parse_value_number)
next
  case (3 xs)
  then have p: "\<forall>x \<in> set xs. parses x" by (simp add: list_all_iff)
  have "parse_value n (render (JArr xs) @ r) = Some (canon (JArr xs), r)"
    if "2 * length (render (JArr xs) @ r) < n" for n r
  proof (cases "xs = []")
    case True
    with that show ?thesis by (cases n) (simp_all add: not_space_punct)
  next
    case False
    from that obtain m where n: "n = Suc m" by (cases n) auto
    let ?t = "join_comma (map render xs) @ 93 # r"
    have "wf_json (hd xs)" using p False by (simp add: parses_def)
    then obtain c s where c: "render (hd xs) = c # s" "\<not> is_json_space c" "c \<noteq> 93"
      using render_hd by blast
    then obtain w where w: "?t = c # w"
      using False by (cases xs; cases "tl xs") (auto simp: join_comma_Cons)
    have "parse_elems m ?t = Some (map canon xs, r)"
      using p False that n by (intro parse_elems_render) simp_all
    with n w c show ?thesis by simp
  qed
  with "3.prems" show ?case by (simp only: parses_def) blast
next
  case (4 kvs)
  let ?ks = "sort_key fst kvs"
  from "4" have p: "\<forall>kv \<in> set ?ks. parses (snd kv)" by (simp add: list_all_iff)
  have "distinct (map fst ?ks)"
  proof -
    have "mset (map fst ?ks) = mset (map fst kvs)" by simp
    then show ?thesis using "4.prems" mset_eq_imp_distinct_iff by fastforce
  qed
  then have dist: "dict_of (map (map_prod id canon) ?ks) = map (map_prod id canon) ?ks"
    by (intro dict_of_distinct) simp
  have tx: "render (JObj kvs) @ r = 123 # join_comma (map member_text ?ks) @ 125 # r" for r
    by (simp only: render_JObj member_text_def [abs_def] case_prod_beta' append_Cons append_assoc
        append_Nil)
  have "parse_value n (render (JObj kvs) @ r) = Some (canon (JObj kvs), r)"
    if "2 * length (render (JObj kvs) @ r) < n" for n r
  proof (cases "kvs = []")
    case True
    with that show ?thesis by (cases n) (simp_all add: not_space_punct)
  next
    case False
    from that obtain m where n: "n = Suc m" by (cases n) auto
    let ?t = "join_comma (map member_text ?ks) @ 125 # r"
    have ne: "?ks \<noteq> []" using False by (metis length_0_conv length_sort)
    then obtain w where w: "?t = 34 # w"
      by (cases ?ks; cases "tl ?ks") (auto simp: join_comma_Cons member_text_def quote_def)
    have "parse_members m ?t = Some (map (map_prod id canon) ?ks, r)"
      using p ne that n tx [of r] by (intro parse_members_render) simp_all
    with n w dist tx [of r] show ?thesis
      by (simp add: not_space_punct canon_JObj del: render.simps canon.simps)
  qed
  with "4.prems" show ?case by (simp only: parses_def) blast
next
  case "5_1"
  have "parse_scalar (lit ''null'' @ r) = Some (JNull, r)" for r
    by (simp add: parse_scalar_def strip_prefix_def lit_def)
  then show ?case by (auto simp: parses_def lit_def intro!: parse_value_scalar)
next
  case "5_2"
  have "parse_scalar (lit ''true'' @ r) = Some (JBool True, r)"
    "parse_scalar (lit ''false'' @ r) = Some (JBool False, r)" for r
    by (simp_all add: parse_scalar_def strip_prefix_def lit_def)
  then show ?case by (auto simp: parses_def lit_def intro!: parse_value_scalar)
next
  case "5_3"
  have "parse_scalar (quote s @ r) = Some (JStr s, r)" for s r
    by (simp add: parse_scalar_def quote_def parse_chars_quoted)
  then show ?case by (auto simp: parses_def quote_def intro!: parse_value_scalar)
qed

theorem json_loads_render:
  assumes "wf_json j"
  shows "json_loads (render j) = Inr (canon j)"
proof -
  have "parse_value (2 * length (render j) + 2) (render j @ []) = Some (canon j, [])"
    using parse_value_render [OF assms] by (intro parsesD) (simp_all add: ends_number_def)
  moreover obtain c s where "render j = c # s" "c < 128" "\<not> is_json_space c"
    using render_hd [OF assms] by blast
  ultimately show ?thesis by (simp add: json_loads_def skip_ws_def)
qed

section \<open>Canonical form\<close>

lemma render_canon [simp]: "render (canon j) = render j"
proof (induction j rule: wf_json.induct)
  case (3 xs)
  then show ?case by (simp cong: map_cong)
next
  case (4 kvs)
  have "render (canon (JObj kvs)) =
      123 # join_comma (map (\<lambda>(k, v). quote k @ 58 # render v)
              (map (map_prod id canon) (sort_key fst kvs))) @ [125]"
    by (simp only: canon_JObj render_JObj sort_key_map fst_map_prod id_apply sort_key_sort_key)
  also have "map (\<lambda>(k, v). quote k @ 58 # render v) (map (map_prod id canon) (sort_key fst kvs)) =
      map (\<lambda>(k, v). quote k @ 58 # render v) (sort_key fst kvs)"
    using 4 by auto
  finally show ?case by (simp only: render_JObj)
qed simp_all

lemma wf_json_canon [simp]: "wf_json j \<Longrightarrow> wf_json (canon j)"
proof (induction j rule: wf_json.induct)
  case (3 xs)
  then show ?case by (simp add: list_all_iff)
next
  case (4 kvs)
  have "mset (map fst (sort_key fst (map (map_prod id canon) kvs))) = mset (map fst kvs)"
    by (simp add: image_mset.compositionality comp_def)
  then have "distinct (map fst (sort_key fst (map (map_prod id canon) kvs)))"
    using "4.prems" mset_eq_imp_distinct_iff by fastforce
  moreover have "wf_json (snd kv)" if "kv \<in> set (map (map_prod id canon) kvs)" for kv
    using that 4 by (fastforce simp: list_all_iff)
  ultimately show ?case by (simp add: list_all_iff)
qed simp_all

theorem render_inject:
  assumes "wf_json j" and "wf_json k" and "render j = render k"
  shows "canon j = canon k"
  using json_loads_render [OF assms(1)] json_loads_render [OF assms(2)] assms(3) by simp

lemma canon_canon: "wf_json j \<Longrightarrow> canon (canon j) = canon j"
  by (rule render_inject) simp_all

subsection \<open>Texts that encode\<close>

fun text_json :: "json \<Rightarrow> bool" where
  "text_json (JStr s) = (no_surrogate s \<and> is_text s)"
| "text_json (JArr xs) = list_all text_json xs"
| "text_json (JObj kvs) =
     list_all (\<lambda>kv. no_surrogate (fst kv) \<and> is_text (fst kv) \<and> text_json (snd kv)) kvs"
| "text_json (JFloat t) = list_all (\<lambda>c. c < 128) t"
| "text_json _ = True"

lemma is_text_simps [simp]:
  "is_text []"
  "is_text (c # s) \<longleftrightarrow> c < 0x110000 \<and> is_text s"
  "is_text (s @ t) \<longleftrightarrow> is_text s \<and> is_text t"
  by (simp_all add: is_text_def)

lemma ascii_text: "list_all (\<lambda>c. c < 128) s \<Longrightarrow> no_surrogate s \<and> is_text s"
  by (auto simp: is_text_def list_all_iff intro: no_surrogate_ascii [unfolded list_all_iff])

lemma is_text_lit [simp]: "is_text (lit s)"
  by (auto simp: is_text_def list_all_iff dest: lit_bound)

lemma escape_char_text:
  assumes "\<not> is_surrogate c" and "c < 0x110000"
  shows "no_surrogate (escape_char c) \<and> is_text (escape_char c)"
proof (cases "c \<le> 31 \<or> c = 34 \<or> c = 92")
  case True
  have "hex_digit (c div 16) < 128" "hex_digit (c mod 16) < 128" if "c \<le> 31"
    using that mod_less_divisor [of 16 c] by (simp_all add: hex_digit_def del: mod_less_divisor)
  with True have "list_all (\<lambda>d. d < 128) (escape_char c)"
    by (auto simp: escape_char_def)
  then show ?thesis by (rule ascii_text)
next
  case False
  with assms show ?thesis by (simp add: escape_char_def)
qed

lemma quote_text:
  "no_surrogate s \<Longrightarrow> is_text s \<Longrightarrow> no_surrogate (quote s) \<and> is_text (quote s)"
  by (induction s) (auto simp: quote_def escape_char_text is_surrogate_def)

lemma show_nat_ascii: "list_all (\<lambda>c. c < 128) (show_nat n)"
  using show_nat_digits [of n] by (auto simp: list_all_iff is_digit_code)

lemma show_int_ascii: "list_all (\<lambda>c. c < 128) (show_int i)"
  using show_nat_ascii by (simp add: show_int_def)

lemma join_comma_text:
  "(\<And>t. t \<in> set ts \<Longrightarrow> no_surrogate t \<and> is_text t) \<Longrightarrow>
   no_surrogate (join_comma ts) \<and> is_text (join_comma ts)"
  by (induction ts rule: join_comma.induct) (simp_all add: is_surrogate_def)

lemma render_text: "text_json j \<Longrightarrow> no_surrogate (render j) \<and> is_text (render j)"
proof (induction j rule: text_json.induct)
  case (2 xs)
  then have "no_surrogate (join_comma (map render xs)) \<and> is_text (join_comma (map render xs))"
    by (intro join_comma_text) (auto simp: list_all_iff)
  then show ?case by (simp add: is_surrogate_def)
next
  case (3 kvs)
  have "no_surrogate (quote (fst kv) @ 58 # render (snd kv)) \<and>
        is_text (quote (fst kv) @ 58 # render (snd kv))" if "kv \<in> set kvs" for kv
    using 3 that quote_text [of "fst kv"] by (auto simp: list_all_iff is_surrogate_def)
  then have "no_surrogate (join_comma (map (\<lambda>(k, v). quote k @ 58 # render v) (sort_key fst kvs))) \<and>
      is_text (join_comma (map (\<lambda>(k, v). quote k @ 58 # render v) (sort_key fst kvs)))"
    by (intro join_comma_text) auto
  then show ?case unfolding render_JObj by (simp add: is_surrogate_def)
qed (simp_all add: quote_text ascii_text show_int_ascii)

section \<open>Identities\<close>

lemma validate_keys_of_json [simp]: "validate_keys (of_json j) = Inr ()"
  and "validate_keys_list (of_json_list js) = Inr ()"
  and "validate_keys_items (of_json_items kvs) = Inr ()"
  by (induction j and js and kvs rule: of_json_of_json_list_of_json_items.induct) simp_all

lemma first_error_Inr:
  "first_error (map (\<lambda>a. (fst a, Inr (f (snd a)))) kvs) = Inr (map (\<lambda>a. (fst a, f (snd a))) kvs)"
  by (induction kvs) auto

lemma wf_float_finite: "lex_number t = Some (JFloat t, []) \<Longrightarrow> finite_float t"
  by (auto simp: finite_float_def lex_number_def lex_sign_def lex_int_def lit_def is_digit_code)

text \<open>Serialisation only needs its floats finite.\<close>

fun plain_json :: "json \<Rightarrow> bool" where
  "plain_json (JFloat t) = finite_float t"
| "plain_json (JArr xs) = list_all plain_json xs"
| "plain_json (JObj kvs) = list_all (\<lambda>kv. plain_json (snd kv)) kvs"
| "plain_json _ = True"

lemma wf_json_plain: "wf_json j \<Longrightarrow> plain_json j"
  by (induction j rule: wf_json.induct) (auto simp: list_all_iff wf_float_finite)

lemma to_json_of_json: "plain_json j \<Longrightarrow> to_json (of_json j) = Inr (canon j)"
  and "list_all plain_json js \<Longrightarrow> to_json_list (of_json_list js) = Inr (map canon js)"
  and "list_all (\<lambda>kv. plain_json (snd kv)) kvs \<Longrightarrow>
    to_json_items (of_json_items kvs) = map (\<lambda>a. (fst a, Inr (canon (snd a)))) kvs"
proof (induction j and js and kvs rule: of_json_of_json_list_of_json_items.induct)
  case (7 kvs)
  then show ?case
    by (simp add: sort_key_map first_error_Inr case_prod_beta' map_prod_def)
qed (simp_all add: key_text_def)

lemma canonical_json_plain: "plain_json j \<Longrightarrow> canonical_json (of_json j) = Inr (render j)"
  by (simp add: canonical_json_def to_json_of_json)

lemma canonical_json_of_json: "wf_json j \<Longrightarrow> canonical_json (of_json j) = Inr (render j)"
  by (intro canonical_json_plain wf_json_plain)

text \<open>
  On a record built by the model, \<open>domain_fingerprint\<close> returns the record identity: it cannot
  raise.
\<close>

theorem domain_fingerprint_of_json:
  assumes "is_domain (lit d)" and "wf_json j" and "text_json j"
  shows "domain_fingerprint H (lit d) (of_json j) = Inr (domain_id H d j)"
  using assms render_text [OF assms(3)]
  by (simp add: domain_fingerprint_def canonical_json_of_json encode_utf8_def domain_id_def
      preimage_def)

lemma domain_char_ascii: "domain_char c \<Longrightarrow> 0 < c \<and> c < 128"
  by (auto simp: domain_char_def in_range_def lit_def)

lemma is_domain_ascii: "is_domain s \<Longrightarrow> c \<in> set s \<Longrightarrow> 0 < c \<and> c < 128"
proof -
  assume "is_domain s" and c: "c \<in> set s"
  then obtain i where n: "is_domain_name (take i s)" and m: "take 2 (drop i s) = lit ''.v''"
    and v: "is_version (drop (i + 2) s)"
    by (auto simp: is_domain_def list_ex_iff)
  have "s = take i s @ take 2 (drop i s) @ drop (i + 2) s"
    by (metis append_take_drop_id drop_drop add.commute)
  with c consider "c \<in> set (take i s)" | "c \<in> set (take 2 (drop i s))" | "c \<in> set (drop (i + 2) s)"
    by (metis Un_iff set_append)
  then show ?thesis
  proof cases
    case 1
    with n show ?thesis
      by (cases "take i s")
         (auto simp: is_domain_name_def in_range_def list_all_iff dest: domain_char_ascii)
  next
    case 2
    with m show ?thesis by (auto simp: lit_def)
  next
    case 3
    with v show ?thesis
      by (cases "drop (i + 2) s") (auto simp: is_version_def in_range_def list_all_iff)
  qed
qed

lemma utf8_bytes_ascii: "\<forall>c \<in> set s. c < 128 \<Longrightarrow> utf8_bytes s = s"
  by (induction s) (simp_all add: utf8_char_def)

lemma split_at_zero:
  "0 \<notin> set xs \<Longrightarrow> 0 \<notin> set ys \<Longrightarrow> xs @ (0 :: nat) # us = ys @ 0 # vs \<Longrightarrow> xs = ys \<and> us = vs"
proof (induction xs arbitrary: ys)
  case Nil
  then show ?case by (cases ys) auto
next
  case (Cons x xs)
  then show ?case by (cases ys) auto
qed

text \<open>The hashed bytes determine the domain and the canonical value: identities of different
  classes never hash the same bytes.\<close>

theorem preimage_inject:
  assumes "is_domain (lit d)" and "is_domain (lit e)"
    and "wf_json j" and "wf_json k" and "text_json j" and "text_json k"
    and "preimage d j = preimage e k"
  shows "d = e \<and> canon j = canon k"
proof -
  have dom: "utf8_bytes (lit s) = lit s" "0 \<notin> set (lit s)" if "is_domain (lit s)" for s
    using is_domain_ascii [OF that] by (auto intro: utf8_bytes_ascii)
  have "lit d = lit e \<and> utf8_bytes (render j) = utf8_bytes (render k)"
    using assms(7) dom [OF assms(1)] dom [OF assms(2)]
    by (intro split_at_zero) (simp_all add: preimage_def)
  moreover have "is_text (render j)" "is_text (render k)"
    using render_text assms(5,6) by blast+
  ultimately show ?thesis
    using utf8_bytes_inj render_inject [OF assms(3,4)] by auto
qed

text \<open>The order in which a mapping lists its members never reaches the text.\<close>

theorem canonical_json_member_order:
  assumes "wf_json (JObj kvs)" and "mset kvs' = mset kvs"
  shows "canonical_json (of_json (JObj kvs')) = canonical_json (of_json (JObj kvs))"
proof -
  have "mset (map fst kvs') = mset (map fst kvs)" by (simp only: mset_map assms(2))
  moreover have set: "set kvs' = set kvs" by (rule mset_eq_setD) (rule assms(2))
  ultimately have dist: "distinct (map fst kvs')"
    using assms(1) mset_eq_imp_distinct_iff [of "map fst kvs'" "map fst kvs"] by simp
  then have wf: "wf_json (JObj kvs')" using assms(1) set by (simp add: list_all_iff)
  have "sort_key fst kvs' = sort_key fst kvs"
    by (rule sort_key_perm_eq [OF assms(2)]) (use dist in \<open>simp add: distinct_map\<close>)
  with wf assms(1) show ?thesis
    by (simp only: canonical_json_of_json render_JObj)
qed

section \<open>Properties\<close>

text \<open>C27 [canonical_text_roundtrip]. Canonical text loses nothing: for every JSON value whose
  integers and floats Python can print and read back, \<open>json.loads\<close> on the text that
  \<open>canonical_json\<close> writes returns that value with the keys of each object in order.\<close>

theorem canonical_text_roundtrip:
  assumes "wf_json j"
  shows "\<exists>t. canonical_json (of_json j) = Inr t \<and> json_loads t = Inr (canon j)"
  using assms by (simp add: canonical_json_of_json json_loads_render)

theorem canonical_text_roundtrip_witness:
  "\<exists>t. canonical_json (of_json (JObj [(lit ''b'', JArr [JNull, JBool True]), (lit ''a'', JStr [34, 10])])) =
     Inr t \<and> json_loads t = Inr (JObj [(lit ''a'', JStr [34, 10]), (lit ''b'', JArr [JNull, JBool True])])"
  using canonical_text_roundtrip
    [of "JObj [(lit ''b'', JArr [JNull, JBool True]), (lit ''a'', JStr [34, 10])]"]
  by (simp add: lit_def)

text \<open>C28 [identity_preimage_injective]. The bytes that \<open>domain_fingerprint\<close> hashes determine both the
  domain and the value: two records whose digests are taken over the same bytes have the same
  domain and the same canonical value, so identities of different record classes can agree only
  by a collision of the digest.\<close>

theorem identity_preimage_injective:
  assumes "is_domain (lit d)" and "is_domain (lit e)"
    and "wf_json j" and "wf_json k" and "text_json j" and "text_json k"
    and "preimage d j = preimage e k"
  shows "d = e \<and> canon j = canon k \<and>
    domain_fingerprint H (lit d) (of_json j) = Inr (H (preimage d j))"
  using preimage_inject [OF assms] domain_fingerprint_of_json [OF assms(1,3,5)]
  by (simp add: domain_id_def)

theorem identity_preimage_injective_witness:
  "canon (JObj [([98], JNull), ([97], JNull)]) = canon (JObj [([97], JNull), ([98], JNull)]) \<and>
   domain_fingerprint sha256_hex (lit ''a.v1'') (of_json (JObj [([98], JNull), ([97], JNull)])) =
     Inr (sha256_hex (preimage ''a.v1'' (JObj [([98], JNull), ([97], JNull)])))"
proof -
  have "is_domain (lit ''a.v1'')"
    by (simp add: is_domain_def lit_def is_domain_name_def is_version_def in_range_def)
  with identity_preimage_injective [of "''a.v1''" "''a.v1''" "JObj [([98], JNull), ([97], JNull)]"
      "JObj [([97], JNull), ([98], JNull)]" sha256_hex]
  show ?thesis by (simp add: preimage_def is_surrogate_def)
qed

text \<open>The order in which a mapping lists its members never reaches the
  canonical text.\<close>

theorem canonical_json_order_blind:
  assumes "wf_json (JObj kvs)" and "mset kvs' = mset kvs"
  shows "canonical_json (of_json (JObj kvs')) = canonical_json (of_json (JObj kvs))"
  using assms by (rule canonical_json_member_order)

theorem canonical_json_order_blind_witness:
  "canonical_json (of_json (JObj [([98], JNull), ([97], JBool True)])) =
   canonical_json (of_json (JObj [([97], JBool True), ([98], JNull)]))"
  using canonical_json_order_blind
    [of "[([97], JBool True), ([98], JNull)]" "[([98], JNull), ([97], JBool True)]"] by simp

end
