(* ===== verification/Records.thy ===== *)
theory Records
  imports Json_Parser
begin

text \<open>
  Model of \<open>src/ibae/_records.py\<close>: the bounded validators that every record constructor calls,
  the bounded copy of a JSON value and the canonical-text records built from it. Arguments whose
  Python annotation is a concrete type have that type here, so the \<open>isinstance\<close> tests on them
  are discharged by typing; arguments annotated \<open>Any\<close> are \<open>pyval\<close>.
\<close>

section \<open>Limits\<close>

definition max_canonical_value_bytes :: nat where "max_canonical_value_bytes = 262144"
definition max_canonical_value_depth :: nat where "max_canonical_value_depth = 32"
definition max_canonical_value_nodes :: nat where "max_canonical_value_nodes = 4096"
definition max_canonical_collection_items :: nat where "max_canonical_collection_items = 1024"
definition max_canonical_string_bytes :: nat where "max_canonical_string_bytes = 65536"
definition max_canonical_integer_bits :: nat where "max_canonical_integer_bits = 256"
definition max_identity_integer_bits :: nat where "max_identity_integer_bits = 256"
definition max_record_text_bytes :: nat where "max_record_text_bytes = 4096"
definition max_runtime_record_bytes :: nat where "max_runtime_record_bytes = 2097152"
definition max_runtime_record_depth :: nat where "max_runtime_record_depth = 40"
definition max_runtime_record_nodes :: nat where "max_runtime_record_nodes = 32768"
definition max_runtime_collection_items :: nat where "max_runtime_collection_items = 4096"

lemmas limit_defs =
  max_canonical_value_bytes_def max_canonical_value_depth_def max_canonical_value_nodes_def
  max_canonical_collection_items_def max_canonical_string_bytes_def
  max_canonical_integer_bits_def max_identity_integer_bits_def max_record_text_bytes_def
  max_runtime_record_bytes_def max_runtime_record_depth_def max_runtime_record_nodes_def
  max_runtime_collection_items_def

section \<open>Integers\<close>

definition require_nonnegative_int :: "int \<Rightarrow> int res" where
  "require_nonnegative_int v =
     rbind (guard (0 \<le> v) (ValueErr ''must be a non-negative integer''))
       (\<lambda>_. rbind (guard (bit_length v \<le> max_identity_integer_bits)
               (ValueErr ''exceeds maximum bit length''))
       (\<lambda>_. Inr v))"

definition require_positive_int :: "int \<Rightarrow> int res" where
  "require_positive_int v =
     rbind (guard (0 < v) (ValueErr ''must be a positive integer''))
       (\<lambda>_. rbind (guard (bit_length v \<le> max_identity_integer_bits)
               (ValueErr ''exceeds maximum bit length''))
       (\<lambda>_. Inr v))"

definition require_bounded_positive_int :: "int \<Rightarrow> int \<Rightarrow> int res" where
  "require_bounded_positive_int v hard_limit =
     rbind (require_positive_int v)
       (\<lambda>_. rbind (require_positive_int hard_limit)
       (\<lambda>_. rbind (guard (v \<le> hard_limit) (ValueErr ''exceeds the protocol hard limit''))
       (\<lambda>_. Inr v)))"

section \<open>Text\<close>

text \<open>The running totals stop at the first character that breaks a bound.\<close>

fun utf8_length_loop :: "nat \<Rightarrow> nat \<Rightarrow> pystr \<Rightarrow> nat res" where
  "utf8_length_loop limit n [] = Inr n"
| "utf8_length_loop limit n (c # s) =
     (if is_surrogate c then Inl (ValueErr ''must not contain unpaired surrogates'')
      else if limit < n + utf8_width c then Inl (ValueErr ''exceeds maximum UTF-8 bytes'')
      else utf8_length_loop limit (n + utf8_width c) s)"

definition bounded_utf8_length :: "pystr \<Rightarrow> nat \<Rightarrow> nat res" where
  "bounded_utf8_length s limit =
     rbind (require_positive_int (int limit)) (\<lambda>_. utf8_length_loop limit 0 s)"

definition short_escapes :: "nat set" where
  "short_escapes = {34, 92, 8, 12, 10, 13, 9}"

fun json_string_loop :: "nat \<Rightarrow> nat \<Rightarrow> pystr \<Rightarrow> nat res" where
  "json_string_loop raw ser [] = Inr ser"
| "json_string_loop raw ser (c # s) =
     (if is_surrogate c then Inl (ValueErr ''must not contain unpaired surrogates'')
      else if max_canonical_string_bytes < raw + utf8_width c
        then Inl (ValueErr ''exceeds maximum UTF-8 bytes'')
      else
        let ser' = ser + (if c \<in> short_escapes then 2 else if c \<le> 0x1F then 6 else utf8_width c)
        in if max_canonical_value_bytes < ser'
           then Inl (ValueErr ''canonical value exceeds maximum UTF-8 bytes'')
           else json_string_loop (raw + utf8_width c) ser' s)"

definition bounded_json_string_length :: "pystr \<Rightarrow> nat res" where
  "bounded_json_string_length s = json_string_loop 0 2 s"

definition require_symbol :: "pystr \<Rightarrow> pystr res" where
  "require_symbol s = rbind (guard (is_symbol s) (ValueErr ''symbol'')) (\<lambda>_. Inr s)"

definition require_fingerprint :: "pystr \<Rightarrow> pystr res" where
  "require_fingerprint s =
     rbind (guard (is_fingerprint s) (ValueErr ''must be a lowercase SHA-256 fingerprint''))
       (\<lambda>_. Inr s)"

definition require_invariant_id :: "pystr \<Rightarrow> pystr res" where
  "require_invariant_id s =
     rbind (guard (is_invariant_id s) (ValueErr ''invariant id must match IBAE-FAMILY-NNN''))
       (\<lambda>_. Inr s)"

definition require_text :: "pystr \<Rightarrow> pystr res" where
  "require_text s =
     rbind (guard (s \<noteq> []) (ValueErr ''must be non-empty with no surrounding whitespace''))
       (\<lambda>_. rbind (bounded_utf8_length s max_record_text_bytes)
       (\<lambda>_. rbind (guard (s = strip s)
               (ValueErr ''must be non-empty with no surrounding whitespace''))
       (\<lambda>_. Inr s)))"

section \<open>Bounded iterables\<close>

text \<open>The consuming loop: an item that arrives when \<open>limit\<close> are held already is refused.\<close>

fun materialize_loop :: "nat \<Rightarrow> 'a list \<Rightarrow> 'a list \<Rightarrow> 'a list res" where
  "materialize_loop limit acc [] = Inr acc"
| "materialize_loop limit acc (x # xs) =
     (if length acc = limit then Inl (ValueErr ''exceeds the hard limit'')
      else materialize_loop limit (acc @ [x]) xs)"

definition materialize :: "int \<Rightarrow> 'a list \<Rightarrow> 'a list res" where
  "materialize limit xs =
     rbind (require_positive_int limit) (\<lambda>_. materialize_loop (nat limit) [] xs)"

text \<open>What \<open>iter\<close> yields for an arbitrary value: a mapping yields its keys.\<close>

definition iterate :: "pyval \<Rightarrow> pyval list res" where
  "iterate v =
     (case v of
        PList xs \<Rightarrow> Inr xs
      | PTuple xs \<Rightarrow> Inr xs
      | PMap kvs \<Rightarrow> Inr (map fst kvs)
      | PStr _ \<Rightarrow> Inl (TypeErr ''must be an iterable of records, not text'')
      | _ \<Rightarrow> Inl (TypeErr ''must be iterable''))"

definition materialize_any :: "int \<Rightarrow> pyval \<Rightarrow> pyval list res" where
  "materialize_any limit v =
     rbind (require_positive_int limit)
       (\<lambda>_. rbind (iterate v) (\<lambda>xs. materialize_loop (nat limit) [] xs))"

section \<open>Bounded copy of a JSON value\<close>

record json_profile =
  max_bytes :: nat
  max_depth :: nat
  max_nodes :: nat
  max_items :: nat

definition value_profile :: json_profile where
  "value_profile =
     \<lparr> max_bytes = max_canonical_value_bytes, max_depth = max_canonical_value_depth,
       max_nodes = max_canonical_value_nodes, max_items = max_canonical_collection_items \<rparr>"

definition runtime_profile :: json_profile where
  "runtime_profile =
     \<lparr> max_bytes = max_runtime_record_bytes, max_depth = max_runtime_record_depth,
       max_nodes = max_runtime_record_nodes, max_items = max_runtime_collection_items \<rparr>"

text \<open>The counters shared by the recursive calls: nodes seen and bytes consumed.\<close>

type_synonym counters = "nat \<times> nat"

definition consume_bytes :: "json_profile \<Rightarrow> nat \<Rightarrow> counters \<Rightarrow> counters res" where
  "consume_bytes p amount st =
     (let b = snd st + amount
      in if max_bytes p < b then Inl (ValueErr ''canonical value exceeds maximum UTF-8 bytes'')
         else Inr (fst st, b))"

definition enter_node :: "json_profile \<Rightarrow> nat \<Rightarrow> counters \<Rightarrow> counters res" where
  "enter_node p depth st =
     (if max_depth p < depth then Inl (ValueErr ''canonical value exceeds maximum depth'')
      else if max_nodes p < fst st + 1
        then Inl (ValueErr ''canonical value exceeds maximum node count'')
      else Inr (fst st + 1, snd st))"

fun normalize :: "json_profile \<Rightarrow> nat \<Rightarrow> counters \<Rightarrow> pyval \<Rightarrow> (counters \<times> json) res"
  and normalize_list :: "json_profile \<Rightarrow> nat \<Rightarrow> counters \<Rightarrow> pyval list \<Rightarrow> (counters \<times> json list) res"
  and normalize_items ::
    "json_profile \<Rightarrow> nat \<Rightarrow> pystr list \<Rightarrow> counters \<Rightarrow> (pyval \<times> pyval) list \<Rightarrow>
     (counters \<times> (pystr \<times> json) list) res"
where
  "normalize p depth st PNone =
     rbind (enter_node p depth st) (\<lambda>st. rbind (consume_bytes p 4 st) (\<lambda>st. Inr (st, JNull)))"
| "normalize p depth st (PBool b) =
     rbind (enter_node p depth st)
       (\<lambda>st. rbind (consume_bytes p (if b then 4 else 5) st) (\<lambda>st. Inr (st, JBool b)))"
| "normalize p depth st (PInt i) =
     rbind (enter_node p depth st)
       (\<lambda>st. rbind (guard (bit_length i \<le> max_canonical_integer_bits)
                (ValueErr ''canonical integer exceeds maximum bit length''))
       (\<lambda>_. rbind (consume_bytes p (length (show_int i)) st) (\<lambda>st. Inr (st, JInt i))))"
| "normalize p depth st (PFloat t) =
     rbind (enter_node p depth st)
       (\<lambda>st. rbind (guard (finite_float t) (ValueErr ''canonical floats must be finite''))
       (\<lambda>_. rbind (consume_bytes p (length (utf8_bytes t)) st) (\<lambda>st. Inr (st, JFloat t))))"
| "normalize p depth st (PStr s) =
     rbind (enter_node p depth st)
       (\<lambda>st. rbind (bounded_json_string_length s)
       (\<lambda>n. rbind (consume_bytes p n st) (\<lambda>st. Inr (st, JStr s))))"
| "normalize p depth st (PMap kvs) =
     rbind (enter_node p depth st)
       (\<lambda>st. rbind (materialize (int (max_items p)) kvs)
       (\<lambda>_. rbind (consume_bytes p (2 + (length kvs - 1)) st)
       (\<lambda>st. rbind (normalize_items p (depth + 1) [] st kvs)
       (\<lambda>(st, ms). Inr (st, JObj ms)))))"
| "normalize p depth st (PList xs) =
     rbind (enter_node p depth st)
       (\<lambda>st. rbind (materialize (int (max_items p)) xs)
       (\<lambda>_. rbind (consume_bytes p (2 + (length xs - 1)) st)
       (\<lambda>st. rbind (normalize_list p (depth + 1) st xs)
       (\<lambda>(st, ys). Inr (st, JArr ys)))))"
| "normalize p depth st (PTuple xs) =
     rbind (enter_node p depth st)
       (\<lambda>st. rbind (materialize (int (max_items p)) xs)
       (\<lambda>_. rbind (consume_bytes p (2 + (length xs - 1)) st)
       (\<lambda>st. rbind (normalize_list p (depth + 1) st xs)
       (\<lambda>(st, ys). Inr (st, JArr ys)))))"
| "normalize p depth st POther =
     rbind (enter_node p depth st)
       (\<lambda>_. Inl (TypeErr ''canonical values support only JSON data''))"
| "normalize_list p depth st [] = Inr (st, [])"
| "normalize_list p depth st (x # xs) =
     rbind (normalize p depth st x)
       (\<lambda>(st, y). rbind (normalize_list p depth st xs) (\<lambda>(st, ys). Inr (st, y # ys)))"
| "normalize_items p depth seen st [] = Inr (st, [])"
| "normalize_items p depth seen st ((k, v) # kvs) =
     (case k of
        PStr key \<Rightarrow>
          rbind (guard (key \<notin> set seen) (ValueErr ''canonical mapping keys must be unique''))
            (\<lambda>_. rbind (bounded_json_string_length key)
            (\<lambda>n. rbind (consume_bytes p (n + 1) st)
            (\<lambda>st. rbind (normalize p depth st v)
            (\<lambda>(st, j). rbind (normalize_items p depth (key # seen) st kvs)
            (\<lambda>(st, ms). Inr (st, (key, j) # ms))))))
      | _ \<Rightarrow> Inl (TypeErr ''canonical JSON mapping keys must be strings''))"

definition normalize_bounded_json :: "json_profile \<Rightarrow> pyval \<Rightarrow> json res" where
  "normalize_bounded_json p v = rbind (normalize p 0 (0, 0) v) (\<lambda>(_, j). Inr j)"

section \<open>Canonical text records\<close>

record canonical_value =
  canonical_text :: pystr

definition validate_text :: "json_profile \<Rightarrow> pystr \<Rightarrow> canonical_value res" where
  "validate_text p text =
     rbind (bounded_utf8_length text (max_bytes p))
       (\<lambda>_. rbind (json_loads text)
       (\<lambda>decoded. rbind (normalize_bounded_json p (of_json decoded))
       (\<lambda>normalized. rbind (canonical_json (of_json normalized))
       (\<lambda>t. rbind (guard (t = text) (ValueErr ''canonical value text is not in canonical form''))
       (\<lambda>_. Inr \<lparr> canonical_text = text \<rparr>)))))"

definition text_from_value :: "json_profile \<Rightarrow> pyval \<Rightarrow> canonical_value res" where
  "text_from_value p v =
     rbind (normalize_bounded_json p v)
       (\<lambda>j. rbind (canonical_json (of_json j)) (\<lambda>t. validate_text p t))"

definition canonical_value_init :: "pystr \<Rightarrow> canonical_value res" where
  "canonical_value_init = validate_text value_profile"

definition canonical_value_from_value :: "pyval \<Rightarrow> canonical_value res" where
  "canonical_value_from_value = text_from_value value_profile"

definition canonical_runtime_record_init :: "pystr \<Rightarrow> canonical_value res" where
  "canonical_runtime_record_init = validate_text runtime_profile"

definition canonical_runtime_record_from_value :: "pyval \<Rightarrow> canonical_value res" where
  "canonical_runtime_record_from_value = text_from_value runtime_profile"

definition to_value :: "canonical_value \<Rightarrow> json res" where
  "to_value c = json_loads (canonical_text c)"

text \<open>
  A stored text decodes, since the constructor accepted it; the records of the other components
  embed the decoded value.
\<close>

definition stored_value :: "canonical_value \<Rightarrow> json" where
  "stored_value c = (case to_value c of Inr j \<Rightarrow> j | Inl _ \<Rightarrow> JNull)"

section \<open>What the validators accept\<close>

named_theorems accept_simps \<open>validators in terms of their conditions\<close>

lemma require_nonnegative_int_Inr [accept_simps]:
  "require_nonnegative_int v = Inr w \<longleftrightarrow> w = v \<and> 0 \<le> v \<and> v < 2 ^ 256"
  by (auto simp: require_nonnegative_int_def res_simps max_identity_integer_bits_def bit_length_le)

lemma require_positive_int_Inr [accept_simps]:
  "require_positive_int v = Inr w \<longleftrightarrow> w = v \<and> 0 < v \<and> v < 2 ^ 256"
  by (auto simp: require_positive_int_def res_simps max_identity_integer_bits_def bit_length_le)

lemma require_bounded_positive_int_Inr [accept_simps]:
  "require_bounded_positive_int v h = Inr w \<longleftrightarrow> w = v \<and> 0 < v \<and> v \<le> h \<and> h < 2 ^ 256"
  by (auto simp: require_bounded_positive_int_def res_simps accept_simps)

lemma require_symbol_Inr [accept_simps]: "require_symbol s = Inr t \<longleftrightarrow> t = s \<and> is_symbol s"
  by (auto simp: require_symbol_def res_simps)

lemma require_fingerprint_Inr [accept_simps]:
  "require_fingerprint s = Inr t \<longleftrightarrow> t = s \<and> is_fingerprint s"
  by (auto simp: require_fingerprint_def res_simps)

lemma require_invariant_id_Inr [accept_simps]:
  "require_invariant_id s = Inr t \<longleftrightarrow> t = s \<and> is_invariant_id s"
  by (auto simp: require_invariant_id_def res_simps)

lemma utf8_length_loop_Inr:
  "n \<le> limit \<Longrightarrow>
   utf8_length_loop limit n s = Inr m \<longleftrightarrow>
     no_surrogate s \<and> m = n + length (utf8_bytes s) \<and> m \<le> limit"
proof (induction limit n s arbitrary: m rule: utf8_length_loop.induct)
  case (2 limit n c s)
  show ?case
  proof (cases "is_surrogate c \<or> limit < n + utf8_width c")
    case True
    then show ?thesis by auto
  next
    case False
    with "2.IH" [of m] show ?thesis by auto
  qed
qed auto

lemma bounded_utf8_length_Inr [accept_simps]:
  "bounded_utf8_length s limit = Inr m \<longleftrightarrow>
     0 < limit \<and> int limit < 2 ^ 256 \<and> no_surrogate s \<and> m = length (utf8_bytes s) \<and> m \<le> limit"
  by (auto simp: bounded_utf8_length_def res_simps accept_simps utf8_length_loop_Inr)

text \<open>Record text: non-empty, at most 4096 UTF-8 bytes, no surrounding whitespace.\<close>

definition is_record_text :: "pystr \<Rightarrow> bool" where
  "is_record_text s \<longleftrightarrow>
     s \<noteq> [] \<and> no_surrogate s \<and> length (utf8_bytes s) \<le> max_record_text_bytes \<and> strip s = s"

lemma require_text_Inr [accept_simps]:
  "require_text s = Inr t \<longleftrightarrow> t = s \<and> is_record_text s"
  by (auto simp: require_text_def res_simps accept_simps is_record_text_def max_record_text_bytes_def)

lemma escape_char_width:
  "length (utf8_bytes (escape_char c)) =
     (if c \<in> short_escapes then 2 else if c \<le> 0x1F then 6 else utf8_width c)"
proof -
  have "hex_digit d \<le> 0x7F" if "d < 16" for d
    using that by (simp add: hex_digit_def)
  then have "utf8_width (hex_digit (c div 16)) = 1" "utf8_width (hex_digit (c mod 16)) = 1"
    if "c \<le> 0x1F"
    using that by (simp_all add: utf8_width_def)
  then show ?thesis
    by (auto simp: escape_char_def short_escapes_def utf8_width_def length_utf8_bytes)
qed

lemma json_string_loop_Inr:
  "raw \<le> max_canonical_string_bytes \<Longrightarrow> ser \<le> max_canonical_value_bytes \<Longrightarrow>
   json_string_loop raw ser s = Inr m \<longleftrightarrow>
     no_surrogate s \<and> raw + length (utf8_bytes s) \<le> max_canonical_string_bytes \<and>
     m = ser + length (utf8_bytes (concat (map escape_char s))) \<and> m \<le> max_canonical_value_bytes"
proof (induction raw ser s arbitrary: m rule: json_string_loop.induct)
  case (2 raw ser c s)
  let ?w = "if c \<in> short_escapes then 2 else if c \<le> 0x1F then 6 else utf8_width c"
  show ?case
  proof (cases "is_surrogate c \<or> max_canonical_string_bytes < raw + utf8_width c \<or>
      max_canonical_value_bytes < ser + ?w")
    case True
    then show ?thesis
      using escape_char_width [of c] by (auto simp: Let_def)
  next
    case False
    with "2.IH" [of "ser + ?w"] escape_char_width [of c] show ?thesis
      by (auto simp: Let_def)
  qed
qed auto

text \<open>The incremental measure of a string is the size of its serialised form.\<close>

lemma bounded_json_string_length_Inr [accept_simps]:
  "bounded_json_string_length s = Inr m \<longleftrightarrow>
     no_surrogate s \<and> length (utf8_bytes s) \<le> max_canonical_string_bytes \<and>
     m = length (utf8_bytes (quote s)) \<and> m \<le> max_canonical_value_bytes"
  using json_string_loop_Inr [of 0 2 s m]
  by (auto simp: bounded_json_string_length_def quote_def utf8_char_def max_canonical_value_bytes_def)

lemma materialize_loop_eq:
  "length acc \<le> limit \<Longrightarrow>
   materialize_loop limit acc xs =
     (if length acc + length xs \<le> limit then Inr (acc @ xs)
      else Inl (ValueErr ''exceeds the hard limit''))"
  by (induction limit acc xs rule: materialize_loop.induct) auto

lemma materialize_Inr [accept_simps]:
  "materialize limit xs = Inr ys \<longleftrightarrow>
     ys = xs \<and> 0 < limit \<and> limit < 2 ^ 256 \<and> int (length xs) \<le> limit"
  by (auto simp: materialize_def res_simps accept_simps materialize_loop_eq split: if_splits)

lemma require_positive_int_total: "0 < n \<Longrightarrow> n < 2 ^ 256 \<Longrightarrow> require_positive_int n = Inr n"
  by (simp add: accept_simps)

lemma materialize_ok: "int (length xs) \<le> n \<Longrightarrow> 0 < n \<Longrightarrow> n < 2 ^ 256 \<Longrightarrow> materialize n xs = Inr xs"
  by (simp add: accept_simps)

lemma require_total:
  "is_symbol s \<Longrightarrow> require_symbol s = Inr s" "is_fingerprint s \<Longrightarrow> require_fingerprint s = Inr s"
  "is_invariant_id s \<Longrightarrow> require_invariant_id s = Inr s"
  by (simp_all add: accept_simps)

lemma materialize_any_Inr [accept_simps]:
  "materialize_any limit v = Inr ys \<longleftrightarrow>
     iterate v = Inr ys \<and> 0 < limit \<and> limit < 2 ^ 256 \<and> int (length ys) \<le> limit"
proof (cases "iterate v")
  case (Inr zs)
  then show ?thesis
    using materialize_Inr [of limit zs ys] by (auto simp: materialize_any_def materialize_def)
qed (auto simp: materialize_any_def rbind_eq_Inr)

section \<open>The bounded copy\<close>

fun jnodes :: "json \<Rightarrow> nat" where
  "jnodes (JArr xs) = 1 + sum_list (map jnodes xs)"
| "jnodes (JObj kvs) = 1 + sum_list (map (\<lambda>kv. jnodes (snd kv)) kvs)"
| "jnodes _ = 1"

fun jdepth :: "json \<Rightarrow> nat" where
  "jdepth (JArr xs) = foldr max (map (\<lambda>x. 1 + jdepth x) xs) 0"
| "jdepth (JObj kvs) = foldr max (map (\<lambda>kv. 1 + jdepth (snd kv)) kvs) 0"
| "jdepth _ = 0"

definition jbytes :: "json \<Rightarrow> nat" where
  "jbytes j = length (utf8_bytes (render j))"

definition string_fits :: "pystr \<Rightarrow> bool" where
  "string_fits s \<longleftrightarrow>
     no_surrogate s \<and> length (utf8_bytes s) \<le> max_canonical_string_bytes \<and>
     length (utf8_bytes (quote s)) \<le> max_canonical_value_bytes"

fun leaves_fit :: "nat \<Rightarrow> json \<Rightarrow> bool" where
  "leaves_fit n (JInt i) = (bit_length i \<le> max_canonical_integer_bits)"
| "leaves_fit n (JFloat t) = finite_float t"
| "leaves_fit n (JStr s) = string_fits s"
| "leaves_fit n (JArr xs) = (length xs \<le> n \<and> list_all (leaves_fit n) xs)"
| "leaves_fit n (JObj kvs) =
     (length kvs \<le> n \<and> distinct (map fst kvs) \<and>
      list_all (\<lambda>kv. string_fits (fst kv) \<and> leaves_fit n (snd kv)) kvs)"
| "leaves_fit n _ = True"

definition advance_counters :: "counters \<Rightarrow> json \<Rightarrow> counters" where
  "advance_counters st j = (fst st + jnodes j, snd st + jbytes j)"

definition within :: "json_profile \<Rightarrow> counters \<Rightarrow> bool" where
  "within p st \<longleftrightarrow> fst st \<le> max_nodes p \<and> snd st \<le> max_bytes p"

definition profile_ok :: "json_profile \<Rightarrow> bool" where
  "profile_ok p \<longleftrightarrow> 0 < max_items p \<and> int (max_items p) < 2 ^ 256"

lemma profiles_ok [simp]: "profile_ok value_profile" "profile_ok runtime_profile"
  by (simp_all add: profile_ok_def value_profile_def runtime_profile_def limit_defs)

subsection \<open>Sizes of the serialised form\<close>

lemma join_comma_bytes:
  "length (utf8_bytes (join_comma ts)) =
     sum_list (map (\<lambda>t. length (utf8_bytes t)) ts) + (length ts - 1)"
  by (induction ts rule: join_comma.induct) (simp_all add: utf8_char_def)

lemma sum_list_perm: "mset xs = mset ys \<Longrightarrow> sum_list (map f xs) = (sum_list (map f ys) :: nat)"
  by (metis mset_map sum_mset_sum_list)

lemma jbytes_JArr: "jbytes (JArr xs) = 2 + (length xs - 1) + sum_list (map jbytes xs)"
  by (simp add: jbytes_def [abs_def] join_comma_bytes utf8_char_def comp_def)

lemma jbytes_JObj:
  "jbytes (JObj kvs) =
     2 + (length kvs - 1) +
     sum_list (map (\<lambda>kv. length (utf8_bytes (quote (fst kv))) + 1 + jbytes (snd kv)) kvs)"
proof -
  have "jbytes (JObj kvs) =
      2 + (length kvs - 1) +
      sum_list (map (\<lambda>kv. length (utf8_bytes (quote (fst kv))) + 1 + jbytes (snd kv))
                 (sort_key fst kvs))"
    unfolding jbytes_def render_JObj
    by (simp add: join_comma_bytes utf8_char_def comp_def case_prod_beta')
  also have "sum_list (map (\<lambda>kv. length (utf8_bytes (quote (fst kv))) + 1 + jbytes (snd kv))
                 (sort_key fst kvs)) =
      sum_list (map (\<lambda>kv. length (utf8_bytes (quote (fst kv))) + 1 + jbytes (snd kv)) kvs)"
    by (rule sum_list_perm) simp
  finally show ?thesis .
qed

lemma jbytes_leaves:
  "jbytes JNull = 4" "jbytes (JBool b) = (if b then 4 else 5)"
  "jbytes (JInt i) = length (show_int i)" "jbytes (JFloat t) = length (utf8_bytes t)"
  "jbytes (JStr s) = length (utf8_bytes (quote s))"
  using show_int_ascii [of i]
  by (simp_all add: jbytes_def lit_def utf8_bytes_ascii list_all_iff)
     (simp_all add: utf8_width_def)

lemma add_foldr_max_le:
  "d + foldr max ys 0 \<le> m \<longleftrightarrow> d \<le> m \<and> (\<forall>y \<in> set ys. d + y \<le> (m :: nat))"
  by (induction ys) auto

lemma jnodes_pos: "0 < jnodes j"
  by (cases j) simp_all

subsection \<open>The copy against its measures\<close>

definition fits :: "json_profile \<Rightarrow> nat \<Rightarrow> counters \<Rightarrow> json \<Rightarrow> bool" where
  "fits p depth st j \<longleftrightarrow>
     leaves_fit (max_items p) j \<and> depth + jdepth j \<le> max_depth p \<and>
     within p (advance_counters st j)"

definition advance_list :: "counters \<Rightarrow> json list \<Rightarrow> counters" where
  "advance_list st js = (fst st + sum_list (map jnodes js), snd st + sum_list (map jbytes js))"

definition advance_items :: "counters \<Rightarrow> (pystr \<times> json) list \<Rightarrow> counters" where
  "advance_items st ms =
     (fst st + sum_list (map (\<lambda>kv. jnodes (snd kv)) ms),
      snd st + sum_list (map (\<lambda>kv. length (utf8_bytes (quote (fst kv))) + 1 + jbytes (snd kv)) ms))"

lemma enter_node_Inr:
  "enter_node p depth st = Inr st' \<longleftrightarrow>
     depth \<le> max_depth p \<and> fst st + 1 \<le> max_nodes p \<and> st' = (fst st + 1, snd st)"
  by (auto simp: enter_node_def)

lemma consume_bytes_Inr:
  "consume_bytes p n st = Inr st' \<longleftrightarrow> snd st + n \<le> max_bytes p \<and> st' = (fst st, snd st + n)"
  by (auto simp: consume_bytes_def Let_def)

lemmas counter_simps = enter_node_Inr consume_bytes_Inr advance_counters_def advance_list_def
  advance_items_def within_def

lemma normalize_sound:
  "normalize p depth st v = Inr (st', j) \<Longrightarrow>
     st' = advance_counters st j \<and> fits p depth st j \<and> validate_keys v = Inr () \<and>
     to_json v = Inr (canon j)"
  "normalize_list p depth st vs = Inr (st', js) \<Longrightarrow>
     st' = advance_list st js \<and> length js = length vs \<and> 
     list_all (leaves_fit (max_items p)) js \<and> (\<forall>j \<in> set js. depth + jdepth j \<le> max_depth p) \<and>
     (within p st \<longrightarrow> within p st') \<and>
     validate_keys_list vs = Inr () \<and> to_json_list vs = Inr (map canon js)"
  "normalize_items p depth seen st kvs = Inr (st', ms) \<Longrightarrow>
     st' = advance_items st ms \<and> length ms = length kvs \<and>
     list_all (\<lambda>kv. string_fits (fst kv) \<and> leaves_fit (max_items p) (snd kv)) ms \<and>
     (\<forall>kv \<in> set ms. depth + jdepth (snd kv) \<le> max_depth p) \<and>
     distinct (map fst ms) \<and> set (map fst ms) \<inter> set seen = {} \<and>
     (within p st \<longrightarrow> within p st') \<and>
     validate_keys_items kvs = Inr () \<and>
     to_json_items kvs = map (\<lambda>a. (fst a, Inr (canon (snd a)))) ms"
proof (induction p depth st v and p depth st vs and p depth seen st kvs
    arbitrary: st' j and st' js and st' ms
    rule: normalize_normalize_list_normalize_items.induct)
  case (6 p depth st kvs)
  then obtain st1 st2 ms where e: "enter_node p depth st = Inr st1"
    and m: "int (length kvs) \<le> int (max_items p)"
    and c: "consume_bytes p (2 + (length kvs - 1)) st1 = Inr st2"
    and n: "normalize_items p (depth + 1) [] st2 kvs = Inr (st', ms)" and j: "j = JObj ms"
    by (auto simp: res_simps accept_simps)
  from "6.IH" [OF n] e c m show ?case
    unfolding j by (auto simp: counter_simps fits_def jbytes_JObj sort_key_map first_error_Inr
        map_prod_def case_prod_beta' add_foldr_max_le)
next
  case (7 p depth st xs)
  then obtain st1 st2 js where e: "enter_node p depth st = Inr st1"
    and m: "int (length xs) \<le> int (max_items p)"
    and c: "consume_bytes p (2 + (length xs - 1)) st1 = Inr st2"
    and n: "normalize_list p (depth + 1) st2 xs = Inr (st', js)" and j: "j = JArr js"
    by (auto simp: res_simps accept_simps)
  from "7.IH" [OF n] e c m show ?case
    unfolding j by (auto simp: counter_simps fits_def jbytes_JArr add_foldr_max_le)
next
  case (8 p depth st xs)
  then obtain st1 st2 js where e: "enter_node p depth st = Inr st1"
    and m: "int (length xs) \<le> int (max_items p)"
    and c: "consume_bytes p (2 + (length xs - 1)) st1 = Inr st2"
    and n: "normalize_list p (depth + 1) st2 xs = Inr (st', js)" and j: "j = JArr js"
    by (auto simp: res_simps accept_simps)
  from "8.IH" [OF n] e c m show ?case
    unfolding j by (auto simp: counter_simps fits_def jbytes_JArr add_foldr_max_le)
next
  case (11 p depth st x xs)
  then obtain st1 j js' where n: "normalize p depth st x = Inr (st1, j)"
    and l: "normalize_list p depth st1 xs = Inr (st', js')" and js: "js = j # js'"
    by (auto simp: res_simps)
  from "11.IH"(1) [OF n] "11.IH"(2) [OF l] show ?case
    unfolding js by (auto simp: counter_simps fits_def)
next
  case (13 p depth seen st k v kvs)
  then obtain key where k: "k = PStr key" by (cases k) auto
  with "13.prems" obtain n st1 st2 j ms' where seen: "key \<notin> set seen"
    and b: "bounded_json_string_length key = Inr n"
    and c: "consume_bytes p (n + 1) st = Inr st1"
    and v: "normalize p depth st1 v = Inr (st2, j)"
    and l: "normalize_items p depth (key # seen) st2 kvs = Inr (st', ms')"
    and ms: "ms = (key, j) # ms'"
    by (auto simp: res_simps)
  from "13.IH"(1) [OF k v] "13.IH"(2) [OF k l] seen b c show ?case
    unfolding ms k by (auto simp: counter_simps fits_def accept_simps string_fits_def key_text_def)
qed (auto simp: res_simps accept_simps counter_simps fits_def jbytes_leaves string_fits_def)

lemma normalize_complete:
  "profile_ok p \<Longrightarrow> fits p depth st j \<Longrightarrow>
     normalize p depth st (of_json j) = Inr (advance_counters st j, j)"
  "profile_ok p \<Longrightarrow> list_all (leaves_fit (max_items p)) js \<Longrightarrow>
     \<forall>j \<in> set js. depth + jdepth j \<le> max_depth p \<Longrightarrow> within p (advance_list st js) \<Longrightarrow>
     normalize_list p depth st (of_json_list js) = Inr (advance_list st js, js)"
  "profile_ok p \<Longrightarrow>
     list_all (\<lambda>kv. string_fits (fst kv) \<and> leaves_fit (max_items p) (snd kv)) ms \<Longrightarrow>
     \<forall>kv \<in> set ms. depth + jdepth (snd kv) \<le> max_depth p \<Longrightarrow>
     distinct (map fst ms) \<Longrightarrow> set (map fst ms) \<inter> set seen = {} \<Longrightarrow>
     within p (advance_items st ms) \<Longrightarrow>
     normalize_items p depth seen st (of_json_items ms) = Inr (advance_items st ms, ms)"
proof (induction j and js and ms arbitrary: depth st and depth st and depth seen st
    rule: of_json_of_json_list_of_json_items.induct)
  case (6 xs)
  let ?st1 = "(fst st + 1, snd st + (2 + (length xs - 1)))"
  have "normalize_list p (depth + 1) ?st1 (of_json_list xs) = Inr (advance_list ?st1 xs, xs)"
    using "6.prems" by (intro "6.IH") (auto simp: fits_def counter_simps jbytes_JArr add_foldr_max_le)
  moreover have "length (of_json_list xs) = length xs" by (induction xs) simp_all
  ultimately show ?case
    using "6.prems"
    by (auto simp: fits_def counter_simps jbytes_JArr add_foldr_max_le rbind_def enter_node_def
        consume_bytes_def materialize_def materialize_loop_eq profile_ok_def require_positive_int_def bit_length_le
        max_identity_integer_bits_def)
next
  case (7 kvs)
  let ?st1 = "(fst st + 1, snd st + (2 + (length kvs - 1)))"
  have "normalize_items p (depth + 1) [] ?st1 (of_json_items kvs) = Inr (advance_items ?st1 kvs, kvs)"
    using "7.prems" by (intro "7.IH") (auto simp: fits_def counter_simps jbytes_JObj add_foldr_max_le)
  moreover have "length (of_json_items kvs) = length kvs" by (induction kvs) auto
  ultimately show ?case
    using "7.prems"
    by (auto simp: fits_def counter_simps jbytes_JObj add_foldr_max_le rbind_def enter_node_def
        consume_bytes_def materialize_def materialize_loop_eq profile_ok_def require_positive_int_def bit_length_le
        max_identity_integer_bits_def)
next
  case (9 x xs)
  have "normalize p depth st (of_json x) = Inr (advance_counters st x, x)"
    using "9.prems" by (intro "9.IH"(1)) (auto simp: fits_def counter_simps)
  moreover have "normalize_list p depth (advance_counters st x) (of_json_list xs) =
      Inr (advance_list (advance_counters st x) xs, xs)"
    using "9.prems" by (intro "9.IH"(2)) (auto simp: fits_def counter_simps)
  ultimately show ?case by (simp add: counter_simps)
next
  case (11 k v kvs)
  let ?q = "length (utf8_bytes (quote k))"
  let ?st1 = "(fst st, snd st + (?q + 1))"
  have "normalize p depth ?st1 (of_json v) = Inr (advance_counters ?st1 v, v)"
    using "11.prems" by (intro "11.IH"(1)) (auto simp: fits_def counter_simps)
  moreover have "normalize_items p depth (k # seen) (advance_counters ?st1 v) (of_json_items kvs) =
      Inr (advance_items (advance_counters ?st1 v) kvs, kvs)"
    using "11.prems" by (intro "11.IH"(2)) (auto simp: fits_def counter_simps)
  moreover have "bounded_json_string_length k = Inr ?q"
    using "11.prems" by (simp add: accept_simps string_fits_def)
  moreover have "consume_bytes p (?q + 1) st = Inr ?st1"
    using "11.prems" by (simp add: counter_simps)
  moreover have "k \<notin> set seen" using "11.prems" by simp
  moreover have "advance_items (advance_counters ?st1 v) kvs = advance_items st ((k, v) # kvs)"
    by (simp add: advance_items_def advance_counters_def)
  ultimately show ?case
    by (simp only: of_json.simps of_json_list.simps of_json_items.simps normalize.simps normalize_list.simps normalize_items.simps
        rbind_def pyval.case sum.case if_False if_True Let_def prod.case fst_conv snd_conv guard_def not_False_eq_True)
next
  case (5 s)
  then have "bounded_json_string_length s = Inr (length (utf8_bytes (quote s)))"
    by (simp add: accept_simps fits_def string_fits_def)
  with 5 show ?case
    by (auto simp: fits_def counter_simps jbytes_leaves enter_node_def consume_bytes_def Let_def)
qed (auto simp: fits_def counter_simps jbytes_leaves enter_node_def consume_bytes_def Let_def)

subsection \<open>Canonical text records\<close>

text \<open>The values that Python can hold: floats are their own \<open>repr\<close>, strings are code points.\<close>

fun py_json :: "json \<Rightarrow> bool" where
  "py_json (JFloat t) = (lex_number t = Some (JFloat t, []) \<and> list_all (\<lambda>c. c < 128) t)"
| "py_json (JStr s) = is_text s"
| "py_json (JArr xs) = list_all py_json xs"
| "py_json (JObj kvs) = list_all (\<lambda>kv. is_text (fst kv) \<and> py_json (snd kv)) kvs"
| "py_json _ = True"

lemma leaves_fit_wf: "leaves_fit n j \<Longrightarrow> py_json j \<Longrightarrow> wf_json j \<and> text_json j"
  by (induction n j rule: leaves_fit.induct)
     (auto simp: list_all_iff string_fits_def bit_length_small_int max_canonical_integer_bits_def)

lemma canon_JObj_mset: "mset (map f (sort_key fst kvs)) = mset (map f kvs)"
  by simp

lemma jnodes_canon [simp]: "jnodes (canon j) = jnodes j"
proof (induction j rule: jnodes.induct)
  case (1 xs)
  then show ?case by (simp add: comp_def cong: map_cong)
next
  case (2 kvs)
  have "sum_list (map (\<lambda>kv. jnodes (canon (snd kv))) (sort_key fst kvs)) =
      sum_list (map (\<lambda>kv. jnodes (canon (snd kv))) kvs)"
    by (rule sum_list_perm) simp
  also have "\<dots> = sum_list (map (\<lambda>kv. jnodes (snd kv)) kvs)"
    using 2 by (intro arg_cong [of _ _ sum_list] map_cong) auto
  finally show ?case by (simp add: sort_key_map comp_def)
qed simp_all

lemma jdepth_le_canon: "jdepth (canon j) \<le> m \<longleftrightarrow> jdepth j \<le> m"
proof (induction j arbitrary: m rule: jdepth.induct)
  case (1 xs)
  have "1 + jdepth (canon x) \<le> m \<longleftrightarrow> 1 + jdepth x \<le> m" if "x \<in> set xs" for x
    using 1 [OF that, of "m - 1"] by (cases m) auto
  then show ?case using add_foldr_max_le [of 0] by auto
next
  case (2 kvs)
  have "1 + jdepth (canon (snd x)) \<le> m \<longleftrightarrow> 1 + jdepth (snd x) \<le> m" if "x \<in> set kvs" for x
    using 2 [OF that, of "m - 1"] by (cases m) auto
  then show ?case using add_foldr_max_le [of 0] by (auto simp: canon_JObj)
qed simp_all

lemma jdepth_canon [simp]: "jdepth (canon j) = jdepth j"
  using jdepth_le_canon [of j "jdepth j"] jdepth_le_canon [of j "jdepth (canon j)"] by simp

lemma jbytes_canon [simp]: "jbytes (canon j) = jbytes j"
  by (simp add: jbytes_def)

lemma leaves_fit_canon [simp]: "leaves_fit n j \<Longrightarrow> leaves_fit n (canon j)"
proof (induction n j rule: leaves_fit.induct)
  case (4 n xs)
  then show ?case by (simp add: list_all_iff)
next
  case (5 n kvs)
  have "mset (map fst (sort_key fst (map (map_prod id canon) kvs))) = mset (map fst kvs)"
    by (simp add: image_mset.compositionality comp_def)
  then have "distinct (map fst (sort_key fst (map (map_prod id canon) kvs)))"
    using "5.prems" mset_eq_imp_distinct_iff by fastforce
  moreover have "string_fits (fst kv) \<and> leaves_fit n (snd kv)"
    if "kv \<in> set (map (map_prod id canon) kvs)" for kv
    using that 5 by (fastforce simp: list_all_iff)
  ultimately show ?case using "5.prems" by (simp add: list_all_iff)
qed simp_all

lemma fits_canon: "fits p d st j \<Longrightarrow> fits p d st (canon j)"
  by (simp add: fits_def advance_counters_def)

lemma normalize_bounded_json_Inr:
  assumes "normalize_bounded_json p v = Inr j"
  shows "fits p 0 (0, 0) j" and "to_json v = Inr (canon j)"
  using assms by (auto simp: normalize_bounded_json_def res_simps dest: normalize_sound(1))

lemma normalize_bounded_json_of_json:
  "profile_ok p \<Longrightarrow> fits p 0 (0, 0) j \<Longrightarrow> normalize_bounded_json p (of_json j) = Inr j"
  by (simp add: normalize_bounded_json_def normalize_complete)

definition text_profile :: "json_profile \<Rightarrow> bool" where
  "text_profile p \<longleftrightarrow> profile_ok p \<and> 0 < max_bytes p \<and> int (max_bytes p) < 2 ^ 256"

lemma text_profiles [simp]: "text_profile value_profile" "text_profile runtime_profile"
  unfolding text_profile_def
  by (simp_all only: profiles_ok) (simp_all add: value_profile_def runtime_profile_def limit_defs)

lemma validate_text_render:
  assumes "text_profile p" and "fits p 0 (0, 0) j" and "py_json j"
  shows "validate_text p (render j) = Inr \<lparr> canonical_text = render j \<rparr>"
    and "to_value \<lparr> canonical_text = render j \<rparr> = Inr (canon j)"
proof -
  have j: "wf_json j" "text_json j" "jbytes j \<le> max_bytes p"
    using assms leaves_fit_wf by (auto simp: fits_def within_def advance_counters_def)
  have "bounded_utf8_length (render j) (max_bytes p) = Inr (jbytes j)"
    using assms(1) j render_text [of j]
    by (auto simp: accept_simps jbytes_def text_profile_def simp del: power_numeral)
  moreover have "normalize_bounded_json p (of_json (canon j)) = Inr (canon j)"
    using assms by (intro normalize_bounded_json_of_json fits_canon) (auto simp: text_profile_def)
  ultimately show "validate_text p (render j) = Inr \<lparr> canonical_text = render j \<rparr>"
    using j by (simp add: validate_text_def json_loads_render canonical_json_of_json rbind_def guard_def)
  show "to_value \<lparr> canonical_text = render j \<rparr> = Inr (canon j)"
    using j by (simp add: to_value_def json_loads_render)
qed

lemma text_from_value_Inr:
  assumes "text_profile p" and "normalize_bounded_json p v = Inr j" and "py_json j"
  shows "text_from_value p v = Inr \<lparr> canonical_text = render j \<rparr>"
proof -
  note fit = normalize_bounded_json_Inr(1) [OF assms(2)]
  then have "wf_json j" using assms(3) leaves_fit_wf by (auto simp: fits_def)
  with assms fit show ?thesis
    by (simp add: text_from_value_def canonical_json_of_json validate_text_render)
qed

text \<open>An accepted text is the canonical serialisation of the value it denotes.\<close>

lemma normalize_of_json:
  "normalize p depth st (of_json d) = Inr (st', j) \<Longrightarrow> j = d"
  "normalize_list p depth st (of_json_list ds) = Inr (st', js) \<Longrightarrow> js = ds"
  "normalize_items p depth seen st (of_json_items kvs) = Inr (st', ms) \<Longrightarrow> ms = kvs"
  by (induction d and ds and kvs arbitrary: depth st st' j and depth st st' js and depth seen st st' ms
      rule: of_json_of_json_list_of_json_items.induct)
     (auto simp: res_simps)

lemma validate_text_Inr:
  assumes "validate_text p t = Inr c"
  shows "\<exists>j. c = \<lparr> canonical_text = t \<rparr> \<and> to_value c = Inr j \<and> fits p 0 (0, 0) j \<and> t = render j"
proof -
  from assms obtain d j where *: "c = \<lparr> canonical_text = t \<rparr>" "json_loads t = Inr d"
    "normalize_bounded_json p (of_json d) = Inr j" "canonical_json (of_json j) = Inr t"
    by (auto simp: validate_text_def res_simps)
  then have "j = d"
    by (auto simp: normalize_bounded_json_def res_simps dest: normalize_of_json(1))
  moreover have "to_json (of_json d) = Inr (canon j)"
    using * by (simp add: normalize_bounded_json_Inr)
  ultimately show ?thesis
    using * by (intro exI [of _ j])
      (auto simp: to_value_def canonical_json_def res_simps normalize_bounded_json_Inr)
qed

lemma text_from_value_validate: "text_from_value p v = Inr c \<Longrightarrow> validate_text p (canonical_text c) = Inr c"
  by (auto simp: text_from_value_def res_simps validate_text_def)

lemma leaves_fit_plain: "leaves_fit n j \<Longrightarrow> plain_json j"
  by (induction n j rule: leaves_fit.induct) (auto simp: list_all_iff)

lemma py_json_canon: "py_json j \<Longrightarrow> py_json (canon j)"
  by (induction j rule: py_json.induct) (auto simp: list_all_iff canon_JObj)

section \<open>Properties\<close>

text \<open>C29 [bounded_copy_exact]. The bounded copy measures exactly what will be serialised. Wherever it stands
  in a larger value, a successful copy adds to the running counters the number of nodes and the UTF-8
  size of the canonical text of the copy, and nothing else. A whole copy that succeeds is the value
  \<open>canonical_json\<close> serialises, within the limits of the profile; and a decoded JSON value is copied
  exactly when its size, node count, nesting depth and leaves are within those limits.\<close>

theorem bounded_copy_exact:
  assumes "profile_ok p"
  shows "(\<forall>depth st st' j. normalize p depth st v = Inr (st', j) \<longrightarrow>
      st' = (fst st + jnodes j, snd st + length (utf8_bytes (render j)))) \<and>
    (\<forall>j. normalize_bounded_json p v = Inr j \<longrightarrow>
      canonical_json v = Inr (render j) \<and> length (utf8_bytes (render j)) \<le> max_bytes p \<and>
      jnodes j \<le> max_nodes p \<and> jdepth j \<le> max_depth p \<and> leaves_fit (max_items p) j) \<and>
    (\<forall>d j. normalize_bounded_json p (of_json d) = Inr j \<longleftrightarrow>
      j = d \<and> length (utf8_bytes (render d)) \<le> max_bytes p \<and>
      jnodes d \<le> max_nodes p \<and> jdepth d \<le> max_depth p \<and> leaves_fit (max_items p) d)"
proof (intro conjI allI impI iffI)
  fix depth st st' j assume "normalize p depth st v = Inr (st', j)"
  then show "st' = (fst st + jnodes j, snd st + length (utf8_bytes (render j)))"
    using normalize_sound(1) [of p depth st v st' j] by (simp add: advance_counters_def jbytes_def)
next
  fix j assume v: "normalize_bounded_json p v = Inr j"
  then have "validate_keys v = Inr ()"
    by (auto simp: normalize_bounded_json_def res_simps dest: normalize_sound(1))
  with normalize_bounded_json_Inr [OF v] show "canonical_json v = Inr (render j)"
    "length (utf8_bytes (render j)) \<le> max_bytes p" "jnodes j \<le> max_nodes p" "jdepth j \<le> max_depth p"
    "leaves_fit (max_items p) j"
    by (simp_all add: canonical_json_def fits_def within_def advance_counters_def jbytes_def)
next
  fix d j assume d: "normalize_bounded_json p (of_json d) = Inr j"
  then show "j = d" by (auto simp: normalize_bounded_json_def res_simps dest: normalize_of_json(1))
  with normalize_bounded_json_Inr(1) [OF d] show "length (utf8_bytes (render d)) \<le> max_bytes p" "jnodes d \<le> max_nodes p"
    "jdepth d \<le> max_depth p" "leaves_fit (max_items p) d"
    by (simp_all add: fits_def within_def advance_counters_def jbytes_def)
next
  fix d j assume "j = d \<and> length (utf8_bytes (render d)) \<le> max_bytes p \<and>
      jnodes d \<le> max_nodes p \<and> jdepth d \<le> max_depth p \<and> leaves_fit (max_items p) d"
  then show "normalize_bounded_json p (of_json d) = Inr j"
    using normalize_bounded_json_of_json [OF assms, of d]
    by (simp add: fits_def within_def advance_counters_def jbytes_def)
qed

theorem bounded_copy_exact_witness:
  "normalize_bounded_json value_profile (of_json (JArr [JBool True, JNull])) = Inr (JArr [JBool True, JNull])"
proof -
  define d where "d = JArr [JBool True, JNull]"
  have "jbytes d \<le> max_bytes value_profile" "jnodes d \<le> max_nodes value_profile" "jdepth d \<le> max_depth value_profile"
    "leaves_fit (max_items value_profile) d"
    by (simp_all add: d_def jbytes_JArr jbytes_leaves value_profile_def limit_defs)
  then have "normalize_bounded_json value_profile (of_json d) = Inr d"
    using bounded_copy_exact [OF profiles_ok(1), of "of_json d"] unfolding jbytes_def by blast
  then show ?thesis by (simp only: d_def)
qed

text \<open>A value that passes the bounded copy is stored as its canonical
  text, reads back as the same value with keys in order, and storing what was read back gives the
  same record.\<close>

theorem canonical_value_roundtrip:
  assumes "normalize_bounded_json value_profile v = Inr j" and "py_json j"
  shows "\<exists>c. canonical_value_from_value v = Inr c \<and> canonical_text c = render j \<and>
    to_value c = Inr (canon j) \<and> canonical_value_from_value (of_json (canon j)) = Inr c"
proof -
  note fit = normalize_bounded_json_Inr(1) [OF assms(1)]
  have "normalize_bounded_json value_profile (of_json (canon j)) = Inr (canon j)"
    using fit by (intro normalize_bounded_json_of_json fits_canon) simp_all
  with fit assms validate_text_render [OF text_profiles(1) fit assms(2)] show ?thesis
    by (auto simp: canonical_value_from_value_def text_from_value_Inr py_json_canon
        intro!: exI [of _ "\<lparr> canonical_text = render j \<rparr>"])
qed

theorem canonical_value_roundtrip_witness:
  "\<exists>c. canonical_value_from_value (PMap [(PStr [98], PNone), (PStr [97], PBool True)]) = Inr c \<and>
    to_value c = Inr (JObj [([97], JBool True), ([98], JNull)])"
proof -
  have "normalize_bounded_json value_profile (PMap [(PStr [98], PNone), (PStr [97], PBool True)]) =
      Inr (JObj [([98], JNull), ([97], JBool True)])"
    by (simp add: normalize_bounded_json_def enter_node_def consume_bytes_def value_profile_def limit_defs
        materialize_def require_positive_int_def bit_length_le bounded_json_string_length_def
        is_surrogate_def utf8_width_def short_escapes_def)
  from canonical_value_roundtrip [OF this] show ?thesis by auto
qed

text \<open>The constructor accepts a text only when it is the canonical
  serialisation of the value it denotes and that value is within every limit.\<close>

theorem canonical_value_only_canonical:
  assumes "canonical_value_init t = Inr c"
  shows "\<exists>j. canonical_text c = t \<and> to_value c = Inr j \<and> t = render j \<and>
    fits value_profile 0 (0, 0) j \<and> canonical_json (of_json j) = Inr t"
proof -
  from validate_text_Inr [OF assms [unfolded canonical_value_init_def]] obtain j where
    j: "c = \<lparr> canonical_text = t \<rparr>" "to_value c = Inr j" "fits value_profile 0 (0, 0) j" "t = render j"
    by blast
  from j(3) have "plain_json j" by (auto simp: fits_def dest: leaves_fit_plain)
  with j show ?thesis by (auto simp: canonical_json_plain)
qed

theorem canonical_value_only_canonical_witness:
  "\<exists>j. to_value \<lparr> canonical_text = lit ''null'' \<rparr> = Inr j \<and> lit ''null'' = render j"
proof -
  have "canonical_value_init (render JNull) = Inr \<lparr> canonical_text = render JNull \<rparr>"
    unfolding canonical_value_init_def
    by (rule validate_text_render(1), rule text_profiles)
       (simp_all add: fits_def within_def advance_counters_def jbytes_leaves value_profile_def limit_defs)
  from canonical_value_only_canonical [OF this] show ?thesis by auto
qed

end
