(* ===== verification/Kernel.thy ===== *)
theory Kernel
  imports Records
begin

text \<open>
  The execution kernel: \<open>state.py\<close>, \<open>invariants.py\<close>, \<open>cache.py\<close>, \<open>policy.py\<close> and the executor
  of \<open>reference_executor.py\<close>. A tool call is an action on a world of its own type, so that
  "the operation was not called" is "the world did not change".
\<close>

section \<open>Execution state and budgets\<close>

record execution_state =
  requests :: int
  executions :: int
  cache_hits :: int
  retries :: int
  history :: "pystr list"

definition initial_state :: execution_state where
  "initial_state = \<lparr> requests = 0, executions = 0, cache_hits = 0, retries = 0, history = [] \<rparr>"

definition with_counters :: "int \<Rightarrow> int \<Rightarrow> int \<Rightarrow> int \<Rightarrow> execution_state \<Rightarrow> execution_state" where
  "with_counters rq ex ch rt s =
     s \<lparr> requests := requests s + rq, executions := executions s + ex,
         cache_hits := cache_hits s + ch, retries := retries s + rt \<rparr>"

definition append_history :: "pystr \<Rightarrow> int \<Rightarrow> execution_state \<Rightarrow> execution_state res" where
  "append_history fingerprint limit s =
     rbind (guard (0 < limit) (ValueErr ''max_history must be positive''))
       (\<lambda>_. Inr (s \<lparr> history := take_last (nat limit) (history s @ [fingerprint]) \<rparr>))"

definition max_runtime_requests :: int where "max_runtime_requests = 1000000"
definition max_runtime_executions :: int where "max_runtime_executions = 4096"
definition max_runtime_retries :: int where "max_runtime_retries = 1000000"
definition max_runtime_history :: int where "max_runtime_history = 4096"

lemmas hard_limit_defs = max_runtime_requests_def max_runtime_executions_def
  max_runtime_retries_def max_runtime_history_def

record budget_limits =
  max_requests :: int
  max_executions :: int
  max_retries :: int
  max_history :: int

definition default_limits :: budget_limits where
  "default_limits = \<lparr> max_requests = 32, max_executions = 16, max_retries = 4, max_history = 32 \<rparr>"

definition budget_limits_init :: "budget_limits \<Rightarrow> budget_limits res" where
  "budget_limits_init l =
     rbind (for_each (\<lambda>(value, hard_limit).
              rbind (guard (0 < value) (ValueErr ''must be an exact positive integer''))
                (\<lambda>_. guard (value \<le> hard_limit) (ValueErr ''exceeds the hard limit'')))
            [(max_requests l, max_runtime_requests), (max_executions l, max_runtime_executions),
             (max_retries l, max_runtime_retries), (max_history l, max_runtime_history)])
       (\<lambda>_. Inr l)"

definition budget_violations :: "execution_state \<Rightarrow> budget_limits \<Rightarrow> string list" where
  "budget_violations s l =
     (if requests s > max_requests l then [''request budget exceeded''] else []) @
     (if executions s > max_executions l then [''execution budget exceeded''] else []) @
     (if retries s > max_retries l then [''retry budget exceeded''] else []) @
     (if int (length (history s)) > max_history l then [''history bound exceeded''] else [])"

section \<open>Terminal cycles\<close>

text \<open>
  The loop over \<open>range(1, max_period + 1)\<close>: \<open>period\<close> runs up while \<open>todo\<close> periods are left.
\<close>

fun cycle_loop :: "'a list \<Rightarrow> nat \<Rightarrow> nat \<Rightarrow> nat option" where
  "cycle_loop h period 0 = None"
| "cycle_loop h period (Suc todo) =
     (if length h < period * 2 then cycle_loop h (period + 1) todo
      else if take period (take_last (period * 2) h) = take_last period h
        then Some period
      else cycle_loop h (period + 1) todo)"

definition detect_short_cycle :: "'a list \<Rightarrow> nat \<Rightarrow> nat option" where
  "detect_short_cycle h max_period = cycle_loop h 1 max_period"

section \<open>Observation cache\<close>

type_synonym cache = "(pystr \<times> pyval) list"

definition empty_cache :: cache where "empty_cache = []"

definition cache_get :: "cache \<Rightarrow> pystr \<Rightarrow> pyval option" where
  "cache_get c key = map_of c key"

definition cache_put :: "cache \<Rightarrow> pystr \<Rightarrow> pyval \<Rightarrow> cache" where
  "cache_put c key v = AList.update key v c"

section \<open>Reference executor\<close>

record executor =
  limits :: budget_limits
  ex_cache :: cache
  ex_state :: execution_state

definition executor_init :: "budget_limits \<Rightarrow> executor" where
  "executor_init l = \<lparr> limits = l, ex_cache = empty_cache, ex_state = initial_state \<rparr>"

fun join_semicolon :: "string list \<Rightarrow> string" where
  "join_semicolon [] = ''''"
| "join_semicolon [t] = t"
| "join_semicolon (t # u # ts) = t @ ''; '' @ join_semicolon (u # ts)"

definition budget_exceeded :: "string list \<Rightarrow> pyexn" where
  "budget_exceeded violations = OtherErr (''BudgetExceeded: '' @ join_semicolon violations)"

text \<open>The tool call runs in a world \<open>'w\<close>; the executor is the other half of the state.\<close>

type_synonym 'w operation = "('w, pyval) action"

definition commit_state :: "execution_state \<Rightarrow> (executor \<times> 'w, unit) action" where
  "commit_state candidate = (\<lambda>(ex, w).
     (case budget_violations candidate (limits ex) of
        [] \<Rightarrow> (Inr (), (ex \<lparr> ex_state := candidate \<rparr>, w))
      | vs \<Rightarrow> (Inl (budget_exceeded vs), (ex, w))))"

definition transition_fingerprint :: "digest \<Rightarrow> pystr \<Rightarrow> pyval \<Rightarrow> pystr res" where
  "transition_fingerprint H key v =
     rbind (canonical_fingerprint H v)
       (\<lambda>fp. canonical_fingerprint H
          (PMap [(PStr (lit ''observation''), PStr fp), (PStr (lit ''tool_key''), PStr key)]))"

definition read_state :: "(executor \<times> 'w, executor) action" where
  "read_state = (\<lambda>(ex, w). (Inr ex, (ex, w)))"

definition call_operation :: "'w operation \<Rightarrow> (executor \<times> 'w, pyval) action" where
  "call_operation operation = (\<lambda>(ex, w). case operation w of (r, w') \<Rightarrow> (r, (ex, w')))"

definition store_observation :: "pystr \<Rightarrow> pyval \<Rightarrow> (executor \<times> 'w, unit) action" where
  "store_observation key v =
     (\<lambda>(ex, w). (Inr (), (ex \<lparr> ex_cache := cache_put (ex_cache ex) key v \<rparr>, w)))"

text \<open>The two arms of \<open>execute_read\<close> after the lookup.\<close>

definition serve_hit :: "digest \<Rightarrow> pystr \<Rightarrow> pyval \<Rightarrow> (executor \<times> 'w, pyval) action" where
  "serve_hit H key v =
     sbind (slift (transition_fingerprint H key v))
       (\<lambda>fp. sbind read_state
       (\<lambda>ex. sbind (slift (append_history fp (max_history (limits ex))
                (with_counters 0 0 1 0 (ex_state ex))))
       (\<lambda>candidate. sbind (commit_state candidate) (\<lambda>_. slift (Inr v)))))"

definition execute_miss ::
  "digest \<Rightarrow> pystr \<Rightarrow> 'w operation \<Rightarrow> (executor \<times> 'w, pyval) action"
where
  "execute_miss H key operation =
     sbind read_state
       (\<lambda>ex. sbind (commit_state (with_counters 0 1 0 0 (ex_state ex)))
       (\<lambda>_. sbind (call_operation operation)
       (\<lambda>v. sbind (slift (transition_fingerprint H key v))
       (\<lambda>fp. sbind (store_observation key v)
       (\<lambda>_. sbind read_state
       (\<lambda>ex. sbind (slift (append_history fp (max_history (limits ex)) (ex_state ex)))
       (\<lambda>candidate. sbind (commit_state candidate) (\<lambda>_. slift (Inr v)))))))))"

definition execute_read ::
  "digest \<Rightarrow> pystr \<Rightarrow> pyval \<Rightarrow> pystr \<Rightarrow> 'w operation \<Rightarrow> (executor \<times> 'w, pyval) action"
where
  "execute_read H tool_name arguments dependency operation =
     sbind (slift (canonical_tool_key H tool_name arguments dependency))
       (\<lambda>key. sbind read_state
       (\<lambda>ex. sbind (commit_state (with_counters 1 0 0 0 (ex_state ex)))
       (\<lambda>_. sbind read_state
       (\<lambda>ex. case cache_get (ex_cache ex) key of
                Some v \<Rightarrow> serve_hit H key v
              | None \<Rightarrow> execute_miss H key operation))))"

definition record_retry :: "(executor \<times> 'w, unit) action" where
  "record_retry =
     sbind read_state (\<lambda>ex. commit_state (with_counters 0 0 0 1 (ex_state ex)))"

definition terminal_cycle_period :: "executor \<Rightarrow> nat option" where
  "terminal_cycle_period ex = detect_short_cycle (history (ex_state ex)) 3"

definition assert_no_terminal_cycle :: "executor \<Rightarrow> unit res" where
  "assert_no_terminal_cycle ex =
     (case terminal_cycle_period ex of
        None \<Rightarrow> Inr ()
      | Some _ \<Rightarrow> Inl (OtherErr ''CycleDetected''))"

definition metrics :: "executor \<Rightarrow> (string \<times> int) list" where
  "metrics ex =
     [(''cache_hits'', cache_hits (ex_state ex)), (''executions'', executions (ex_state ex)),
      (''requests'', requests (ex_state ex)), (''retries'', retries (ex_state ex))]"

section \<open>Provider policy\<close>

text \<open>
  \<open>str.lower\<close> on ASCII letters. No other character lowers to a letter of the accepted name:
  U+0130 gives two characters and U+212A gives \<open>k\<close>.
\<close>

definition lower_char :: "nat \<Rightarrow> nat" where
  "lower_char c = (if 65 \<le> c \<and> c \<le> 90 then c + 32 else c)"

definition require_openai_remote_provider :: "pystr \<Rightarrow> pystr res" where
  "require_openai_remote_provider provider =
     (let normalized = map lower_char (strip provider)
      in rbind (guard (normalized = lit ''openai'') (RuntimeErr ''PolicyViolation''))
           (\<lambda>_. Inr normalized))"

section \<open>Facts about the parts\<close>

lemma budget_limits_init_Inr:
  "budget_limits_init l = Inr l' \<longleftrightarrow>
     l' = l \<and> 0 < max_requests l \<and> max_requests l \<le> max_runtime_requests \<and>
     0 < max_executions l \<and> max_executions l \<le> max_runtime_executions \<and>
     0 < max_retries l \<and> max_retries l \<le> max_runtime_retries \<and>
     0 < max_history l \<and> max_history l \<le> max_runtime_history"
  by (auto simp: budget_limits_init_def res_simps)

definition within_budget :: "budget_limits \<Rightarrow> execution_state \<Rightarrow> bool" where
  "within_budget l s \<longleftrightarrow>
     requests s \<le> max_requests l \<and> executions s \<le> max_executions l \<and>
     retries s \<le> max_retries l \<and> int (length (history s)) \<le> max_history l"

lemma budget_violations_Nil: "budget_violations s l = [] \<longleftrightarrow> within_budget l s"
  by (auto simp: budget_violations_def within_budget_def)

lemma commit_state_eq:
  "commit_state s (ex, w) =
     (if within_budget (limits ex) s then (Inr (), (ex \<lparr> ex_state := s \<rparr>, w))
      else (Inl (budget_exceeded (budget_violations s (limits ex))), (ex, w)))"
  by (cases "budget_violations s (limits ex)")
     (use budget_violations_Nil [of s "limits ex"] in \<open>auto simp: commit_state_def\<close>)

lemma append_history_eq:
  "0 < m \<Longrightarrow>
   append_history fp m s = Inr (s \<lparr> history := take_last (nat m) (history s @ [fp]) \<rparr>)"
  by (simp add: append_history_def)

lemma with_counters_simps [simp]:
  "requests (with_counters a b c d s) = requests s + a"
  "executions (with_counters a b c d s) = executions s + b"
  "cache_hits (with_counters a b c d s) = cache_hits s + c"
  "retries (with_counters a b c d s) = retries s + d"
  "history (with_counters a b c d s) = history s"
  by (simp_all add: with_counters_def)

lemma call_operation_eq: "call_operation op (ex, w) = (fst (op w), (ex, snd (op w)))"
  by (simp add: call_operation_def split: prod.splits)

lemmas step_simps = sbind_def slift_def read_state_def store_observation_def commit_state_eq
  append_history_eq call_operation_eq

subsection \<open>The cache as an interface\<close>

locale observation_cache =
  fixes empty_c :: "'c"
    and get :: "'c \<Rightarrow> 'k \<Rightarrow> 'v option"
    and put :: "'c \<Rightarrow> 'k \<Rightarrow> 'v \<Rightarrow> 'c"
    and size_c :: "'c \<Rightarrow> nat"
  assumes get_empty: "get empty_c k = None"
    and get_put: "get (put c k v) k' = (if k' = k then Some v else get c k')"
    and size_empty: "size_c empty_c = 0"
    and size_put: "size_c (put c k v) = (if get c k = None then size_c c + 1 else size_c c)"
begin

fun put_all :: "'c \<Rightarrow> ('k \<times> 'v) list \<Rightarrow> 'c" where
  "put_all c [] = c"
| "put_all c ((k, v) # kvs) = put_all (put c k v) kvs"

lemma get_put_all: "get (put_all c kvs) k = (case map_of (rev kvs) k of None \<Rightarrow> get c k | Some v \<Rightarrow> Some v)"
  by (induction c kvs rule: put_all.induct) (auto simp: get_put map_add_def split: option.splits)

lemma size_put_le: "size_c (put c k v) \<le> size_c c + 1"
  by (simp add: size_put)

lemma size_put_all: "size_c (put_all c kvs) \<le> size_c c + length kvs"
proof (induction c kvs rule: put_all.induct)
  case (2 c k v kvs)
  then show ?case using size_put_le [of c k v] by simp
qed simp

end

interpretation oc: observation_cache empty_cache cache_get cache_put length
proof
  fix c :: cache and k v k'
  show "cache_get (cache_put c k v) k' = (if k' = k then Some v else cache_get c k')"
    by (simp add: cache_get_def cache_put_def update_conv')
  show "length (cache_put c k v) = (if cache_get c k = None then length c + 1 else length c)"
    by (induction c) (auto simp: cache_get_def cache_put_def)
qed (simp_all add: empty_cache_def cache_get_def)

subsection \<open>Terminal cycles\<close>

definition repeats_at :: "'a list \<Rightarrow> nat \<Rightarrow> bool" where
  "repeats_at h p \<longleftrightarrow> (\<exists>pre u. h = pre @ u @ u \<and> length u = p)"

lemma repeats_at_slices:
  "repeats_at h p \<longleftrightarrow> p * 2 \<le> length h \<and> take p (take_last (p * 2) h) = take_last p h"
proof
  assume "repeats_at h p"
  then show "p * 2 \<le> length h \<and> take p (take_last (p * 2) h) = take_last p h"
    by (auto simp: repeats_at_def take_last_def)
next
  assume *: "p * 2 \<le> length h \<and> take p (take_last (p * 2) h) = take_last p h"
  let ?l = "take_last (p * 2) h"
  have "drop p ?l = take_last p h"
    using * by (simp add: take_last_def)
  with * have "h = take (length h - p * 2) h @ take_last p h @ take_last p h"
    by (metis append_take_drop_id take_last_def)
  moreover have "length (take_last p h) = p" using * by simp
  ultimately show "repeats_at h p" unfolding repeats_at_def by blast
qed

lemma cycle_loop_eq:
  "cycle_loop h p n =
     (case filter (repeats_at h) [p ..< p + n] of [] \<Rightarrow> None | k # _ \<Rightarrow> Some k)"
proof (induction h p n rule: cycle_loop.induct)
  case (2 h p n)
  have "[p ..< p + Suc n] = p # [p + 1 ..< p + 1 + n]"
    by (simp add: upt_conv_Cons)
  with 2 show ?case by (auto simp: repeats_at_slices)
qed simp

lemma hd_filter_upt:
  "(case filter P [a ..< b] of [] \<Rightarrow> None | k # _ \<Rightarrow> Some k) = Some k \<longleftrightarrow>
     a \<le> k \<and> k < b \<and> P k \<and> (\<forall>i. a \<le> i \<longrightarrow> i < k \<longrightarrow> \<not> P i)"
proof (induction "b - a" arbitrary: a)
  case (Suc n)
  then have split: "[a ..< b] = a # [Suc a ..< b]" and n: "n = b - Suc a"
    by (simp_all add: upt_conv_Cons)
  show ?case
  proof (cases "P a")
    case True
    then show ?thesis using split Suc.hyps(2) by (auto simp: not_less_eq_eq [symmetric])
  next
    case False
    then show ?thesis
      using Suc.hyps(1) [OF n] split by (simp) (metis Suc_le_eq le_neq_implies_less less_imp_le_nat)
  qed
qed auto

lemma hd_filter_None: "(case filter P xs of [] \<Rightarrow> None | k # _ \<Rightarrow> Some k) = None \<longleftrightarrow> (\<forall>x \<in> set xs. \<not> P x)"
  by (cases "filter P xs") (auto simp: filter_eq_Cons_iff filter_empty_conv)

lemma detect_short_cycle_Some:
  "detect_short_cycle h m = Some p \<longleftrightarrow>
     1 \<le> p \<and> p \<le> m \<and> repeats_at h p \<and> (\<forall>q. 1 \<le> q \<and> q < p \<longrightarrow> \<not> repeats_at h q)"
  unfolding detect_short_cycle_def cycle_loop_eq hd_filter_upt by auto

lemma detect_short_cycle_None:
  "detect_short_cycle h m = None \<longleftrightarrow> (\<forall>p. 1 \<le> p \<and> p \<le> m \<longrightarrow> \<not> repeats_at h p)"
  unfolding detect_short_cycle_def cycle_loop_eq hd_filter_None by auto

subsection \<open>The executor\<close>

text \<open>
  What a read does, as one table: which counters move, whether the tool is called, what the
  cache and the history become. The commits of \<open>execute_read\<close> that re-check every budget
  reduce to the one budget that can be exceeded at that point.
\<close>

definition count_request :: "executor \<Rightarrow> executor" where
  "count_request ex = ex \<lparr> ex_state := with_counters 1 0 0 0 (ex_state ex) \<rparr>"

definition count_execution :: "executor \<Rightarrow> executor" where
  "count_execution ex = ex \<lparr> ex_state := with_counters 0 1 0 0 (ex_state ex) \<rparr>"

definition note_transition :: "pystr \<Rightarrow> executor \<Rightarrow> executor" where
  "note_transition fp ex =
     ex \<lparr> ex_state := (ex_state ex)
            \<lparr> history := take_last (nat (max_history (limits ex))) (history (ex_state ex) @ [fp]) \<rparr> \<rparr>"

definition count_hit :: "executor \<Rightarrow> executor" where
  "count_hit ex = ex \<lparr> ex_state := with_counters 0 0 1 0 (ex_state ex) \<rparr>"

definition remember :: "pystr \<Rightarrow> pyval \<Rightarrow> executor \<Rightarrow> executor" where
  "remember key v ex = ex \<lparr> ex_cache := cache_put (ex_cache ex) key v \<rparr>"

lemmas executor_step_defs = count_request_def count_execution_def note_transition_def
  count_hit_def remember_def

definition read_table ::
  "digest \<Rightarrow> pystr \<Rightarrow> pyval \<Rightarrow> pystr \<Rightarrow> 'w operation \<Rightarrow> (executor \<times> 'w, pyval) action"
where
  "read_table H tool arguments dependency operation = (\<lambda>(ex, w).
     (case canonical_tool_key H tool arguments dependency of
        Inl e \<Rightarrow> (Inl e, (ex, w))
      | Inr key \<Rightarrow>
          if max_requests (limits ex) \<le> requests (ex_state ex)
          then (Inl (OtherErr ''BudgetExceeded: request budget exceeded''), (ex, w))
          else
            (case cache_get (ex_cache ex) key of
               Some v \<Rightarrow>
                 (case transition_fingerprint H key v of
                    Inl e \<Rightarrow> (Inl e, (count_request ex, w))
                  | Inr fp \<Rightarrow> (Inr v, (note_transition fp (count_hit (count_request ex)), w)))
             | None \<Rightarrow>
                 if max_executions (limits ex) \<le> executions (ex_state ex)
                 then (Inl (OtherErr ''BudgetExceeded: execution budget exceeded''),
                       (count_request ex, w))
                 else
                   (case operation w of
                      (Inl e, w') \<Rightarrow> (Inl e, (count_execution (count_request ex), w'))
                    | (Inr v, w') \<Rightarrow>
                        (case transition_fingerprint H key v of
                           Inl e \<Rightarrow> (Inl e, (count_execution (count_request ex), w'))
                         | Inr fp \<Rightarrow>
                             (Inr v, (note_transition fp
                                (remember key v (count_execution (count_request ex))), w')))))))"

definition exec_inv :: "executor \<Rightarrow> bool" where
  "exec_inv ex \<longleftrightarrow>
     budget_limits_init (limits ex) = Inr (limits ex) \<and> within_budget (limits ex) (ex_state ex) \<and>
     0 \<le> cache_hits (ex_state ex) \<and> 0 \<le> retries (ex_state ex) \<and>
     int (length (ex_cache ex)) \<le> executions (ex_state ex) \<and>
     executions (ex_state ex) + cache_hits (ex_state ex) \<le> requests (ex_state ex)"

lemma exec_inv_history_pos: "exec_inv ex \<Longrightarrow> 0 < max_history (limits ex)"
  by (simp add: exec_inv_def budget_limits_init_Inr)

lemma budget_violations_one:
  assumes "within_budget l s"
  shows "budget_violations (with_counters 1 0 0 0 s) l =
      (if max_requests l \<le> requests s then [''request budget exceeded''] else [])"
    and "budget_violations (with_counters 0 1 0 0 s) l =
      (if max_executions l \<le> executions s then [''execution budget exceeded''] else [])"
    and "budget_violations (with_counters 0 0 0 1 s) l =
      (if max_retries l \<le> retries s then [''retry budget exceeded''] else [])"
  using assms by (auto simp: within_budget_def budget_violations_def)

lemma commit_counters:
  assumes "within_budget (limits ex) (ex_state ex)"
  shows "commit_state (with_counters 1 0 0 0 (ex_state ex)) (ex, w) =
      (if max_requests (limits ex) \<le> requests (ex_state ex)
       then (Inl (OtherErr ''BudgetExceeded: request budget exceeded''), (ex, w))
       else (Inr (), (count_request ex, w)))"
    and "commit_state (with_counters 0 1 0 0 (ex_state ex)) (ex, w) =
      (if max_executions (limits ex) \<le> executions (ex_state ex)
       then (Inl (OtherErr ''BudgetExceeded: execution budget exceeded''), (ex, w))
       else (Inr (), (count_execution ex, w)))"
    and "commit_state (with_counters 0 0 0 1 (ex_state ex)) (ex, w) =
      (if max_retries (limits ex) \<le> retries (ex_state ex)
       then (Inl (OtherErr ''BudgetExceeded: retry budget exceeded''), (ex, w))
       else (Inr (), (ex \<lparr> ex_state := with_counters 0 0 0 1 (ex_state ex) \<rparr>, w)))"
  by (simp_all add: commit_state_def budget_violations_one [OF assms] budget_exceeded_def
      count_request_def count_execution_def)

lemma within_budget_steps:
  assumes "within_budget (limits ex) (ex_state ex)"
  shows "requests (ex_state ex) < max_requests (limits ex) \<Longrightarrow>
      within_budget (limits ex) (ex_state (count_request ex))"
    and "executions (ex_state ex) < max_executions (limits ex) \<Longrightarrow>
      within_budget (limits ex) (ex_state (count_execution ex))"
    and "within_budget (limits ex) (ex_state (count_hit ex))"
    and "within_budget (limits ex) (ex_state (remember key v ex))"
    and "0 < max_history (limits ex) \<Longrightarrow>
      within_budget (limits ex) (ex_state (note_transition fp ex))"
  using assms by (auto simp: within_budget_def executor_step_defs)

lemma limits_steps [simp]:
  "limits (count_request ex) = limits ex" "limits (count_execution ex) = limits ex"
  "limits (count_hit ex) = limits ex" "limits (remember key v ex) = limits ex"
  "limits (note_transition fp ex) = limits ex"
  by (simp_all add: executor_step_defs)

lemma commit_noted:
  assumes "within_budget (limits ex) (ex_state ex)" and "0 < max_history (limits ex)"
  shows "commit_state ((ex_state ex)
      \<lparr> history := take_last (nat (max_history (limits ex))) (history (ex_state ex) @ [fp]) \<rparr>) (ex, w) =
      (Inr (), (note_transition fp ex, w))"
  using within_budget_steps(5) [OF assms, of fp] by (simp add: commit_state_eq note_transition_def)

lemma serve_hit_eq:
  assumes "within_budget (limits ex) (ex_state ex)" and "0 < max_history (limits ex)"
  shows "serve_hit H key v (ex, w) =
     (case transition_fingerprint H key v of
        Inl e \<Rightarrow> (Inl e, (ex, w))
      | Inr fp \<Rightarrow> (Inr v, (note_transition fp (count_hit ex), w)))"
proof (cases "transition_fingerprint H key v")
  case (Inr fp)
  have "within_budget (limits ex) (ex_state (note_transition fp (count_hit ex)))"
    using assms within_budget_steps [of "count_hit ex"] within_budget_steps [of ex] by simp
  with Inr assms show ?thesis
    by (simp add: serve_hit_def step_simps executor_step_defs)
qed (simp add: serve_hit_def step_simps)

lemma execute_miss_eq:
  assumes "within_budget (limits ex) (ex_state ex)" and "0 < max_history (limits ex)"
  shows "execute_miss H key operation (ex, w) =
     (if max_executions (limits ex) \<le> executions (ex_state ex)
      then (Inl (OtherErr ''BudgetExceeded: execution budget exceeded''), (ex, w))
      else
        (case operation w of
           (Inl e, w') \<Rightarrow> (Inl e, (count_execution ex, w'))
         | (Inr v, w') \<Rightarrow>
             (case transition_fingerprint H key v of
                Inl e \<Rightarrow> (Inl e, (count_execution ex, w'))
              | Inr fp \<Rightarrow>
                  (Inr v, (note_transition fp (remember key v (count_execution ex)), w')))))"
proof (cases "max_executions (limits ex) \<le> executions (ex_state ex)")
  case True
  with assms show ?thesis
    by (simp add: execute_miss_def sbind_def slift_def read_state_def commit_counters(2))
next
  case False
  obtain r w' where op: "operation w = (r, w')" by (cases "operation w")
  have wb: "within_budget (limits (remember key v (count_execution ex)))
      (ex_state (remember key v (count_execution ex)))" for v
    using False assms within_budget_steps [of "count_execution ex"] within_budget_steps [of ex] by simp
  have pos: "0 < max_history (limits (remember key v (count_execution ex)))" for v
    using assms by simp
  have put: "store_observation key v (count_execution ex, w') =
      (Inr (), (remember key v (count_execution ex), w'))" for v
    by (simp add: store_observation_def remember_def)
  show ?thesis
  proof (cases r)
    case (Inr v)
    with False op assms show ?thesis
      by (cases "transition_fingerprint H key v")
        (simp_all add: execute_miss_def sbind_def slift_def read_state_def commit_counters(2)
          call_operation_eq put append_history_eq commit_noted [OF wb pos, simplified])
  qed (use False op assms in \<open>simp add: execute_miss_def sbind_def slift_def read_state_def
      commit_counters(2) call_operation_eq\<close>)
qed

lemma execute_read_eq:
  assumes "within_budget (limits ex) (ex_state ex)" and "0 < max_history (limits ex)"
  shows "execute_read H tool arguments dependency operation (ex, w) =
         read_table H tool arguments dependency operation (ex, w)"
proof (cases "canonical_tool_key H tool arguments dependency")
  case (Inr key)
  show ?thesis
  proof (cases "max_requests (limits ex) \<le> requests (ex_state ex)")
    case True
    with Inr assms show ?thesis
      by (simp add: execute_read_def read_table_def sbind_def slift_def read_state_def commit_counters)
  next
    case False
    then have wb: "within_budget (limits (count_request ex)) (ex_state (count_request ex))"
      "0 < max_history (limits (count_request ex))"
      using assms within_budget_steps [of ex] by auto
    have c: "cache_get (ex_cache (count_request ex)) = cache_get (ex_cache ex)"
      "executions (ex_state (count_request ex)) = executions (ex_state ex)"
      by (simp_all add: count_request_def)
    from False Inr assms show ?thesis
      by (simp add: execute_read_def read_table_def sbind_def slift_def read_state_def
          commit_counters serve_hit_eq [OF wb] execute_miss_eq [OF wb] c
          split: option.split)
  qed
qed (simp add: execute_read_def read_table_def sbind_def slift_def)

subsection \<open>Runs\<close>

text \<open>The calls a client can make, and the states they reach, exceptions included.\<close>

datatype 'w call =
    Read pystr pyval pystr "'w operation"
  | Retry

definition perform :: "digest \<Rightarrow> 'w call \<Rightarrow> executor \<times> 'w \<Rightarrow> executor \<times> 'w" where
  "perform H c s =
     (case c of
        Read tool arguments dependency operation \<Rightarrow>
          snd (execute_read H tool arguments dependency operation s)
      | Retry \<Rightarrow> snd (record_retry s))"

definition run_calls :: "digest \<Rightarrow> 'w call list \<Rightarrow> executor \<times> 'w \<Rightarrow> executor \<times> 'w" where
  "run_calls H cs s = fold (perform H) cs s"

lemma exec_inv_init: "budget_limits_init l = Inr l \<Longrightarrow> exec_inv (executor_init l)"
  by (auto simp: exec_inv_def executor_init_def initial_state_def empty_cache_def within_budget_def
      budget_limits_init_Inr)

lemma exec_inv_steps:
  assumes "exec_inv ex"
  shows "requests (ex_state ex) < max_requests (limits ex) \<Longrightarrow> exec_inv (count_request ex)"
    and "requests (ex_state ex) < max_requests (limits ex) \<Longrightarrow>
      exec_inv (note_transition fp (count_hit (count_request ex)))"
    and "requests (ex_state ex) < max_requests (limits ex) \<Longrightarrow>
      executions (ex_state ex) < max_executions (limits ex) \<Longrightarrow>
      exec_inv (count_execution (count_request ex))"
    and "requests (ex_state ex) < max_requests (limits ex) \<Longrightarrow>
      executions (ex_state ex) < max_executions (limits ex) \<Longrightarrow>
      exec_inv (note_transition fp (remember key v (count_execution (count_request ex))))"
  using assms exec_inv_history_pos [OF assms] oc.size_put_le [of "ex_cache ex" key v]
  by (auto simp: exec_inv_def within_budget_def executor_step_defs)

lemma exec_inv_wb: "exec_inv ex \<Longrightarrow> within_budget (limits ex) (ex_state ex)"
  by (simp add: exec_inv_def)

text \<open>One call: the invariant, and the executions counted are the tool calls made.\<close>

definition counts_calls :: "'w call \<Rightarrow> ('w \<Rightarrow> nat) \<Rightarrow> bool" where
  "counts_calls c n \<longleftrightarrow>
     (case c of Read _ _ _ operation \<Rightarrow> \<forall>w. n (snd (operation w)) = n w + 1 | Retry \<Rightarrow> True)"

lemma perform_inv:
  assumes "exec_inv ex" and "perform H c (ex, w) = (ex', w')"
  shows "exec_inv ex' \<and> limits ex' = limits ex \<and>
     (counts_calls c n \<longrightarrow>
       int (n w') - executions (ex_state ex') = int (n w) - executions (ex_state ex))"
proof (cases c)
  case (Read tool arguments dependency operation)
  note eq = execute_read_eq [OF exec_inv_wb [OF assms(1)] exec_inv_history_pos [OF assms(1)]]
  show ?thesis
    using assms exec_inv_steps [OF assms(1)] Read
    by (auto simp: perform_def eq read_table_def counts_calls_def executor_step_defs
        dest!: spec [of _ w] split: if_splits sum.splits option.splits prod.splits)
next
  case Retry
  then show ?thesis
    using assms
    by (auto simp: perform_def record_retry_def sbind_def read_state_def commit_state_eq
        exec_inv_def counts_calls_def split: if_splits)
qed

lemma run_calls_inv:
  assumes "exec_inv ex" and "run_calls H cs (ex, w) = (ex', w')"
  shows "exec_inv ex' \<and> limits ex' = limits ex \<and>
     ((\<forall>c \<in> set cs. counts_calls c n) \<longrightarrow>
       int (n w') - executions (ex_state ex') = int (n w) - executions (ex_state ex))"
  using assms
proof (induction cs arbitrary: ex w)
  case (Cons c cs)
  obtain ex1 w1 where 1: "perform H c (ex, w) = (ex1, w1)" by (cases "perform H c (ex, w)")
  with Cons.prems(2) have "run_calls H cs (ex1, w1) = (ex', w')"
    by (simp add: run_calls_def)
  with Cons.IH [of ex1 w1] perform_inv [OF Cons.prems(1) 1, of n] show ?case by auto
qed (simp add: run_calls_def)

text \<open>An observation once stored is never replaced.\<close>

lemma perform_keeps_cache:
  assumes "exec_inv ex" and "perform H c (ex, w) = (ex', w')" and "cache_get (ex_cache ex) key = Some v"
  shows "cache_get (ex_cache ex') key = Some v"
proof (cases c)
  case (Read tool arguments dependency operation)
  note eq = execute_read_eq [OF exec_inv_wb [OF assms(1)] exec_inv_history_pos [OF assms(1)]]
  show ?thesis
    using assms Read
    by (auto simp: perform_def eq read_table_def executor_step_defs oc.get_put
        split: if_splits sum.splits option.splits prod.splits)
next
  case Retry
  then show ?thesis
    using assms
    by (auto simp: perform_def record_retry_def sbind_def read_state_def commit_state_eq split: if_splits)
qed

lemma run_calls_keep_cache:
  assumes "exec_inv ex" and "run_calls H cs (ex, w) = (ex', w')" and "cache_get (ex_cache ex) key = Some v"
  shows "cache_get (ex_cache ex') key = Some v"
  using assms
proof (induction cs arbitrary: ex w)
  case (Cons c cs)
  obtain ex1 w1 where 1: "perform H c (ex, w) = (ex1, w1)" by (cases "perform H c (ex, w)")
  with Cons.prems(2) have "run_calls H cs (ex1, w1) = (ex', w')"
    by (simp add: run_calls_def)
  with Cons.IH [of ex1 w1] perform_inv [OF Cons.prems(1) 1]
    perform_keeps_cache [OF Cons.prems(1) 1 Cons.prems(3)] show ?case by blast
qed (simp add: run_calls_def)

text \<open>A read that returned leaves its observation in the cache, with a transition that hashes.\<close>

lemma execute_read_stores:
  assumes "exec_inv ex"
    and "execute_read H tool arguments dependency operation (ex, w) = (Inr v, (ex', w'))"
  shows "\<exists>key fp. canonical_tool_key H tool arguments dependency = Inr key \<and>
     cache_get (ex_cache ex') key = Some v \<and> transition_fingerprint H key v = Inr fp"
  using assms(2)
  unfolding execute_read_eq [OF exec_inv_wb [OF assms(1)] exec_inv_history_pos [OF assms(1)]]
  by (auto simp: read_table_def executor_step_defs oc.get_put
      split: if_splits sum.splits option.splits prod.splits)

lemma read_after_read:
  assumes "exec_inv ex"
    and "execute_read H tool arguments dependency operation (ex, w) = (Inr v, (ex1, w1))"
    and "run_calls H cs (ex1, w1) = (ex2, w2)"
    and "requests (ex_state ex2) < max_requests (limits ex2)"
    and "canonical_tool_key H tool' arguments' dependency' =
         canonical_tool_key H tool arguments dependency"
  shows "\<exists>ex3. execute_read H tool' arguments' dependency' operation' (ex2, w2) = (Inr v, (ex3, w2)) \<and>
     executions (ex_state ex3) = executions (ex_state ex2)"
proof -
  have inv1: "exec_inv ex1"
    using perform_inv [OF assms(1), of H "Read tool arguments dependency operation" w ex1 w1] assms(2)
    by (simp add: perform_def)
  then have inv2: "exec_inv ex2" using run_calls_inv [OF inv1 assms(3)] by blast
  from execute_read_stores [OF assms(1,2)] obtain key fp where
    "canonical_tool_key H tool arguments dependency = Inr key" "transition_fingerprint H key v = Inr fp"
    "cache_get (ex_cache ex1) key = Some v" by blast
  moreover from this have "cache_get (ex_cache ex2) key = Some v"
    using run_calls_keep_cache [OF inv1 assms(3)] by blast
  ultimately show ?thesis
    using assms(4,5)
    unfolding execute_read_eq [OF exec_inv_wb [OF inv2] exec_inv_history_pos [OF inv2]]
    by (simp add: read_table_def executor_step_defs)
qed

subsection \<open>Reads of JSON data return\<close>

lemma canonical_fingerprint_of_json:
  "wf_json j \<Longrightarrow> text_json j \<Longrightarrow>
   canonical_fingerprint H (of_json j) = Inr (H (utf8_bytes (render j)))"
  using render_text [of j]
  by (simp add: canonical_fingerprint_def canonical_json_of_json encode_utf8_def)

definition data_json :: "json \<Rightarrow> bool" where
  "data_json j \<longleftrightarrow> wf_json j \<and> text_json j"

lemma fingerprint_is_text: "is_fingerprint s \<Longrightarrow> no_surrogate s \<and> is_text s"
  by (rule ascii_text) (auto simp: is_fingerprint_def list_all_iff dest: hex_char_ascii)

lemma canonical_tool_key_of_json:
  assumes "data_json j" and "tool \<noteq> []" and "data_json (JStr tool)"
    and "dependency \<noteq> []" and "data_json (JStr dependency)"
  shows "\<exists>bs. canonical_tool_key H tool (of_json j) dependency = Inr (H bs)"
proof -
  let ?j = "JObj [(lit ''arguments'', j), (lit ''dependency_fingerprint'', JStr dependency),
                  (lit ''tool_name'', JStr tool)]"
  have "data_json ?j"
    using assms by (simp add: data_json_def lit_eq_iff ascii_text)
  then show ?thesis
    using assms canonical_fingerprint_of_json [of ?j H] by (auto simp: canonical_tool_key_def data_json_def)
qed

lemma transition_fingerprint_of_json:
  assumes "\<And>bs. is_fingerprint (H bs)" and "data_json j" and "is_fingerprint key"
  shows "\<exists>fp. transition_fingerprint H key (of_json j) = Inr fp"
proof -
  let ?j = "JObj [(lit ''observation'', JStr (H (utf8_bytes (render j)))), (lit ''tool_key'', JStr key)]"
  have "data_json ?j"
    using assms by (simp add: data_json_def lit_eq_iff fingerprint_is_text)
  then show ?thesis
    using assms canonical_fingerprint_of_json [of ?j H] canonical_fingerprint_of_json [of j H]
    by (auto simp: transition_fingerprint_def data_json_def)
qed

lemma execute_read_returns:
  assumes "\<And>bs. is_fingerprint (H bs)" and "exec_inv ex" 
    and "data_json arguments" and "tool \<noteq> []" and "data_json (JStr tool)"
    and "dependency \<noteq> []" and "data_json (JStr dependency)"
    and "requests (ex_state ex) < max_requests (limits ex)"
    and "executions (ex_state ex) < max_executions (limits ex)"
    and "ex_cache ex = empty_cache"
    and "operation w = (Inr (of_json observation), w')" and "data_json observation"
  shows "\<exists>ex'. execute_read H tool (of_json arguments) dependency operation (ex, w) =
           (Inr (of_json observation), (ex', w')) \<and>
         requests (ex_state ex') = requests (ex_state ex) + 1"
proof -
  obtain bs where key: "canonical_tool_key H tool (of_json arguments) dependency = Inr (H bs)"
    using canonical_tool_key_of_json assms by blast
  obtain fp where fp: "transition_fingerprint H (H bs) (of_json observation) = Inr fp"
    using transition_fingerprint_of_json assms by blast
  show ?thesis
    unfolding execute_read_eq [OF exec_inv_wb [OF assms(2)] exec_inv_history_pos [OF assms(2)]]
    using assms key fp by (simp add: read_table_def oc.get_empty executor_step_defs)
qed

section \<open>Properties\<close>

text \<open>The input of the examples: a tool that counts its calls.\<close>

definition counting_tool :: "nat operation" where "counting_tool = (\<lambda>w. (Inr (PInt 5), w + 1))"

definition example_read :: "nat call" where "example_read = Read [116] PNone [100] counting_tool"

lemma default_limits_ok: "budget_limits_init default_limits = Inr default_limits"
  by (simp add: budget_limits_init_Inr default_limits_def hard_limit_defs)

text \<open>C8 [executor_runs_within_budget]. Whatever sequence of reads and retries a client performs on
  a fresh executor with validated limits, exceptions included, every counter stays within its
  limit, the history within its bound, the tool calls that the world counts are exactly the
  recorded executions, and every stored observation was paid for by an execution.\<close>

theorem executor_runs_within_budget:
  assumes "budget_limits_init l = Inr l"
    and "run_calls H cs (executor_init l, w) = (ex, w')"
    and "\<forall>c \<in> set cs. counts_calls c n"
  shows "within_budget l (ex_state ex) \<and>
    int (n w') = int (n w) + executions (ex_state ex) \<and>
    executions (ex_state ex) + cache_hits (ex_state ex) \<le> requests (ex_state ex) \<and>
    int (length (ex_cache ex)) \<le> executions (ex_state ex)"
  using run_calls_inv [OF exec_inv_init [OF assms(1)] assms(2), of n] assms(3)
  by (auto simp: exec_inv_def executor_init_def initial_state_def)

theorem executor_runs_within_budget_witness:
  "within_budget default_limits
     (ex_state (fst (run_calls sha256_hex [example_read, Retry, example_read]
        (executor_init default_limits, 0)))) \<and>
   int (snd (run_calls sha256_hex [example_read, Retry, example_read]
        (executor_init default_limits, 0))) \<le> 16"
  using executor_runs_within_budget [where n = id, OF default_limits_ok surjective_pairing
      [of "run_calls sha256_hex [example_read, Retry, example_read] (executor_init default_limits, 0)"]]
  by (auto simp: counts_calls_def example_read_def counting_tool_def within_budget_def default_limits_def)

text \<open>C9 [repeated_read_served_from_cache]. Once a read has returned an observation, every later
  read with the same tool key that the request budget admits returns that same observation
  without calling its operation, whatever reads and retries came in between.\<close>

theorem repeated_read_served_from_cache:
  assumes "exec_inv ex"
    and "execute_read H tool arguments dependency operation (ex, w) = (Inr v, (ex1, w1))"
    and "run_calls H cs (ex1, w1) = (ex2, w2)"
    and "requests (ex_state ex2) < max_requests (limits ex2)"
    and "canonical_tool_key H tool' arguments' dependency' =
         canonical_tool_key H tool arguments dependency"
  shows "\<exists>ex3. execute_read H tool' arguments' dependency' operation' (ex2, w2) = (Inr v, (ex3, w2)) \<and>
     executions (ex_state ex3) = executions (ex_state ex2)"
  using assms by (rule read_after_read)

theorem repeated_read_served_from_cache_witness:
  "\<exists>ex1 ex3. execute_read sha256_hex [116] PNone [100] counting_tool
       (executor_init default_limits, 0) = (Inr (PInt 5), (ex1, 1)) \<and>
     execute_read sha256_hex [116] PNone [100] counting_tool (ex1, 1) = (Inr (PInt 5), (ex3, 1))"
proof -
  let ?ex = "executor_init default_limits"
  have inv: "exec_inv ?ex" by (intro exec_inv_init default_limits_ok)
  have "is_text [116]" "is_text [100]" "no_surrogate [116]" "no_surrogate [100]"
    by (simp_all add: is_surrogate_def)
  then obtain ex1 where read: "execute_read sha256_hex [116] PNone [100] counting_tool (?ex, 0) =
      (Inr (PInt 5), (ex1, 1))" and rq: "requests (ex_state ex1) = 1"
    using execute_read_returns [of sha256_hex, OF sha.fingerprint inv, of JNull "[116]" "[100]" counting_tool 0 "JInt 5" 1]
    by (auto simp: data_json_def executor_init_def default_limits_def initial_state_def
        counting_tool_def bit_length_small_int bit_length_le)
  have "limits ex1 = default_limits"
    using perform_inv [OF inv, of sha256_hex example_read 0 ex1 1] read
    by (simp add: perform_def example_read_def executor_init_def)
  with repeated_read_served_from_cache [OF inv read, of "[]" ex1 1 "[116]" PNone "[100]" counting_tool] rq read show ?thesis
    by (auto simp: run_calls_def default_limits_def)
qed

text \<open>C10 [execute_read_follows_table]. The commits of a read, each of which re-checks all budgets,
  amount to one decision table: on every branch the exception raised, the counters moved, the
  cache and history written and whether the tool was called are as the table says.\<close>

theorem execute_read_follows_table:
  assumes "within_budget (limits ex) (ex_state ex)" and "0 < max_history (limits ex)"
  shows "execute_read H tool arguments dependency operation (ex, w) =
         read_table H tool arguments dependency operation (ex, w)"
  using assms by (rule execute_read_eq)

theorem execute_read_follows_table_witness:
  "execute_read sha256_hex [116] PNone [100] counting_tool (executor_init default_limits, 0) =
   read_table sha256_hex [116] PNone [100] counting_tool (executor_init default_limits, 0)"
  by (rule execute_read_follows_table)
     (simp_all add: executor_init_def default_limits_def within_budget_def initial_state_def)

text \<open>The cycle detector reports \<open>p\<close> exactly when the history
  ends in two equal segments of length \<open>p\<close> and no shorter segment repeats; it reports nothing
  exactly when no segment up to the maximal period repeats.\<close>

theorem detect_short_cycle_is_shortest:
  "(detect_short_cycle h m = Some p \<longleftrightarrow>
     1 \<le> p \<and> p \<le> m \<and> repeats_at h p \<and> (\<forall>q. 1 \<le> q \<and> q < p \<longrightarrow> \<not> repeats_at h q)) \<and>
   (detect_short_cycle h m = None \<longleftrightarrow> (\<forall>q. 1 \<le> q \<and> q \<le> m \<longrightarrow> \<not> repeats_at h q))"
  by (simp add: detect_short_cycle_Some detect_short_cycle_None)

theorem detect_short_cycle_is_shortest_witness:
  "repeats_at [3 :: nat, 1, 2, 1, 2] 2 \<and> \<not> repeats_at [3 :: nat, 1, 2, 1, 2] 1"
  using detect_short_cycle_is_shortest [of "[3 :: nat, 1, 2, 1, 2]" 3 2]
  by (auto simp: detect_short_cycle_def take_last_def eval_nat_numeral)

end
