(* ===== verification/Assurance.thy ===== *)
theory Assurance
  imports Records "HOL-Library.Product_Lexorder"
begin

text \<open>
  The assurance declarations of \<open>src/ibae/assurance.py\<close>: the closed support relation between
  evidence classes, support graphs, research claims and calibration bindings. The methods that
  revalidate the object before they serialise it are partial: they raise what the constructor
  would raise.
\<close>

section \<open>Evidence classes and permitted support\<close>

definition max_assurance_nodes :: int where "max_assurance_nodes = 128"
definition max_assurance_edges :: int where "max_assurance_edges = 512"

definition assurance_graph_version :: pystr where "assurance_graph_version = lit ''IBAE-ASSURANCE-GRAPH-V1''"
definition calibration_profile_version :: pystr where
  "calibration_profile_version = lit ''IBAE-CALIBRATION-BINDING-V1''"

datatype assurance_class =
    ModelProposal | Observation | DerivedFact | RuntimeReceipt | ConformanceResult | CompactEvidence
  | ProgressEvidence | BenchmarkObservation | ResearchClaimText | GovernanceDecision | FinalAcceptance

fun assurance_value :: "assurance_class \<Rightarrow> pystr" where
  "assurance_value ModelProposal = lit ''model_proposal''"
| "assurance_value Observation = lit ''observation''"
| "assurance_value DerivedFact = lit ''derived_fact''"
| "assurance_value RuntimeReceipt = lit ''runtime_receipt''"
| "assurance_value ConformanceResult = lit ''conformance_result''"
| "assurance_value CompactEvidence = lit ''compact_evidence''"
| "assurance_value ProgressEvidence = lit ''progress_evidence''"
| "assurance_value BenchmarkObservation = lit ''benchmark_observation''"
| "assurance_value ResearchClaimText = lit ''research_claim''"
| "assurance_value GovernanceDecision = lit ''governance_decision''"
| "assurance_value FinalAcceptance = lit ''final_acceptance''"

definition assurance_classes :: "assurance_class list" where
  "assurance_classes =
     [ModelProposal, Observation, DerivedFact, RuntimeReceipt, ConformanceResult, CompactEvidence,
      ProgressEvidence, BenchmarkObservation, ResearchClaimText, GovernanceDecision, FinalAcceptance]"

definition permitted_support :: "(assurance_class \<times> assurance_class) list" where
  "permitted_support =
     [(RuntimeReceipt, Observation), (RuntimeReceipt, CompactEvidence), (Observation, DerivedFact),
      (Observation, ProgressEvidence), (DerivedFact, ProgressEvidence),
      (ProgressEvidence, GovernanceDecision), (CompactEvidence, FinalAcceptance),
      (ConformanceResult, FinalAcceptance), (GovernanceDecision, FinalAcceptance)]"

section \<open>Support graphs\<close>

record assurance_node =
  node_key :: pystr
  evidence_class :: assurance_class
  evidence_id :: pystr

definition assurance_node_init :: "assurance_node \<Rightarrow> assurance_node res" where
  "assurance_node_init n =
     rbind (require_symbol (node_key n)) (\<lambda>_. rbind (require_fingerprint (evidence_id n)) (\<lambda>_. Inr n))"

definition assurance_node_record :: "assurance_node \<Rightarrow> json res" where
  "assurance_node_record n =
     rbind (assurance_node_init n)
       (\<lambda>_. Inr (JObj [(lit ''key'', JStr (node_key n)),
                       (lit ''evidence_class'', JStr (assurance_value (evidence_class n))),
                       (lit ''evidence_id'', JStr (evidence_id n))]))"

record assurance_edge =
  edge_source :: pystr
  edge_target :: pystr

definition assurance_edge_init :: "assurance_edge \<Rightarrow> assurance_edge res" where
  "assurance_edge_init e =
     rbind (require_symbol (edge_source e))
       (\<lambda>_. rbind (require_symbol (edge_target e))
       (\<lambda>_. rbind (guard (edge_source e \<noteq> edge_target e) (ValueErr ''self support is forbidden''))
       (\<lambda>_. Inr e)))"

record assurance_graph =
  graph_nodes :: "assurance_node list"
  graph_edges :: "assurance_edge list"

definition class_of_key :: "assurance_graph \<Rightarrow> pystr \<Rightarrow> assurance_class option" where
  "class_of_key g k = map_of (map (\<lambda>n. (node_key n, evidence_class n)) (graph_nodes g)) k"

definition check_support :: "assurance_graph \<Rightarrow> assurance_edge \<Rightarrow> unit res" where
  "check_support g e =
     (case (class_of_key g (edge_source e), class_of_key g (edge_target e)) of
        (Some a, Some b) \<Rightarrow> guard ((a, b) \<in> set permitted_support) (ValueErr ''forbidden assurance promotion'')
      | _ \<Rightarrow> Inl (ValueErr ''support endpoints must exist''))"

definition assurance_graph_init :: "assurance_graph \<Rightarrow> assurance_graph res" where
  "assurance_graph_init g =
     rbind (guard (int (length (graph_nodes g)) \<le> max_assurance_nodes \<and>
                   int (length (graph_edges g)) \<le> max_assurance_edges)
             (ValueErr ''assurance graph exceeds bounded profile''))
       (\<lambda>_. rbind (for_each assurance_node_init (graph_nodes g))
       (\<lambda>_. rbind (for_each assurance_edge_init (graph_edges g))
       (\<lambda>_. let keys = map node_key (graph_nodes g);
                pairs = map (\<lambda>e. (edge_source e, edge_target e)) (graph_edges g)
             in rbind (guard (keys = sorted_set keys \<and> pairs = sorted_set pairs)
                        (ValueErr ''graph members must be unique and canonically ordered''))
       (\<lambda>_. rbind (for_each (check_support g) (graph_edges g)) (\<lambda>_. Inr g)))))"

definition assurance_graph_record :: "assurance_graph \<Rightarrow> json res" where
  "assurance_graph_record g =
     rbind (assurance_graph_init g)
       (\<lambda>_. rbind (map_res assurance_node_record (graph_nodes g))
       (\<lambda>nodes. Inr (JObj
          [(lit ''protocol_version'', JStr assurance_graph_version),
           (lit ''scope'', JStr (lit ''support_declaration_requires_source_validation'')),
           (lit ''grants_authority'', JBool False),
           (lit ''nodes'', JArr nodes),
           (lit ''edges'', JArr (map (\<lambda>e. JObj [(lit ''source'', JStr (edge_source e)),
                                                (lit ''target'', JStr (edge_target e))]) (graph_edges g)))])))"

definition graph_id :: "digest \<Rightarrow> assurance_graph \<Rightarrow> pystr res" where
  "graph_id H g =
     rbind (assurance_graph_record g) (\<lambda>j. Inr (domain_id H ''ibae.assurance.graph.v1'' j))"

definition support_pair_value :: "assurance_class \<times> assurance_class \<Rightarrow> pystr \<times> pystr" where
  "support_pair_value p = (assurance_value (fst p), assurance_value (snd p))"

definition required_validation :: "(string \<times> string) list" where
  "required_validation =
     [(''runtime_receipt'', ''exact_native_source_seal''),
      (''observation'', ''governed_admission_and_native_source''),
      (''derived_fact'', ''validated_dependency_dag_and_governed_source_records''),
      (''compact_evidence'', ''exact_native_reducer_seal_and_authorization_manifest''),
      (''conformance_result'', ''independently_replayed_frozen_fixture_and_source_commit''),
      (''governance_decision'', ''exact_policy_binding_and_native_decision_lineage''),
      (''progress_evidence'', ''policy_bound_progress_contract_and_native_lineage''),
      (''final_acceptance'', ''existing_governance_receipt_chain_and_required_gates'')]"

definition assurance_support_contract :: json where
  "assurance_support_contract =
     JObj [(lit ''protocol_version'', JStr assurance_graph_version),
           (lit ''classes'', JArr (map JStr (sort (map assurance_value assurance_classes)))),
           (lit ''allowed_support'',
              JArr (map (\<lambda>(a, b). JObj [(lit ''source'', JStr (assurance_value a)),
                                          (lit ''target'', JStr (assurance_value b))])
                     (sort_key support_pair_value permitted_support))),
           (lit ''unknown_edges'', JStr (lit ''deny'')),
           (lit ''integrity_is_authenticity'', JBool False),
           (lit ''graph_is_final_acceptance'', JBool False),
           (lit ''required_validation'', JObj (map (\<lambda>(k, v). (lit k, JStr (lit v))) required_validation))]"

section \<open>Research claims\<close>

datatype research_claim_status = Hypothesis | Reported | ExternallyArchived

fun research_status_value :: "research_claim_status \<Rightarrow> pystr" where
  "research_status_value Hypothesis = lit ''hypothesis''"
| "research_status_value Reported = lit ''reported''"
| "research_status_value ExternallyArchived = lit ''externally_archived''"

record research_claim =
  claim_key :: pystr
  claim_status :: research_claim_status
  claim_source_id :: pystr
  claim_text :: pystr

definition research_claim_init :: "research_claim \<Rightarrow> research_claim res" where
  "research_claim_init c =
     rbind (require_symbol (claim_key c))
       (\<lambda>_. rbind (require_fingerprint (claim_source_id c))
       (\<lambda>_. rbind (require_text (claim_text c)) (\<lambda>_. Inr c)))"

definition research_claim_record :: "research_claim \<Rightarrow> json res" where
  "research_claim_record c =
     rbind (research_claim_init c)
       (\<lambda>_. Inr (JObj [(lit ''claim_key'', JStr (claim_key c)),
                       (lit ''status'', JStr (research_status_value (claim_status c))),
                       (lit ''source_id'', JStr (claim_source_id c)),
                       (lit ''text'', JStr (claim_text c)),
                       (lit ''operational_authority'', JBool False)]))"

section \<open>Calibration bindings\<close>

record calibration_binding =
  cb_governance_id :: pystr
  cb_continuation_policy_id :: pystr
  cb_progress_contract_id :: pystr
  cb_validation_method :: pystr
  cb_validation_corpus_id :: pystr

definition calibration_binding_init :: "calibration_binding \<Rightarrow> calibration_binding res" where
  "calibration_binding_init c =
     rbind (for_each require_fingerprint
              [cb_governance_id c, cb_continuation_policy_id c, cb_progress_contract_id c,
               cb_validation_corpus_id c])
       (\<lambda>_. rbind (require_symbol (cb_validation_method c)) (\<lambda>_. Inr c))"

definition calibration_binding_record :: "calibration_binding \<Rightarrow> json res" where
  "calibration_binding_record c =
     rbind (calibration_binding_init c)
       (\<lambda>_. Inr (JObj [(lit ''protocol_version'', JStr calibration_profile_version),
                       (lit ''governance_id'', JStr (cb_governance_id c)),
                       (lit ''continuation_policy_id'', JStr (cb_continuation_policy_id c)),
                       (lit ''progress_contract_id'', JStr (cb_progress_contract_id c)),
                       (lit ''validation_method'', JStr (cb_validation_method c)),
                       (lit ''validation_corpus_id'', JStr (cb_validation_corpus_id c)),
                       (lit ''promotes_research_claims'', JBool False)]))"

definition profile_id :: "digest \<Rightarrow> calibration_binding \<Rightarrow> pystr res" where
  "profile_id H c =
     rbind (calibration_binding_record c) (\<lambda>j. Inr (domain_id H ''ibae.calibration.binding.v1'' j))"

definition require_policy_binding :: "calibration_binding \<Rightarrow> pystr \<Rightarrow> pystr \<Rightarrow> pystr \<Rightarrow> unit res" where
  "require_policy_binding c governance continuation progress =
     rbind (calibration_binding_init c)
       (\<lambda>_. for_each (\<lambda>(given, bound). rbind (require_fingerprint given)
                       (\<lambda>_. guard (given = bound) (ValueErr ''calibration profile drift'')))
              [(governance, cb_governance_id c), (continuation, cb_continuation_policy_id c),
               (progress, cb_progress_contract_id c)])"

section \<open>Support is stratified\<close>

definition supports :: "assurance_graph \<Rightarrow> (pystr \<times> pystr) set" where
  "supports g = (\<lambda>e. (edge_source e, edge_target e)) ` set (graph_edges g)"

text \<open>How many steps of permitted support can precede a class.\<close>

fun assurance_rank :: "assurance_class \<Rightarrow> nat" where
  "assurance_rank RuntimeReceipt = 0"
| "assurance_rank Observation = 1"
| "assurance_rank DerivedFact = 2"
| "assurance_rank ProgressEvidence = 3"
| "assurance_rank GovernanceDecision = 4"
| "assurance_rank CompactEvidence = 4"
| "assurance_rank ConformanceResult = 4"
| "assurance_rank FinalAcceptance = 5"
| "assurance_rank _ = 0"

text \<open>Text that carries no authority: a model's, a benchmark's or a paper's.\<close>

definition unauthoritative :: "assurance_class set" where
  "unauthoritative = {ModelProposal, BenchmarkObservation, ResearchClaimText}"

lemma permitted_rank:
  "(a, b) \<in> set permitted_support \<Longrightarrow>
   assurance_rank a < assurance_rank b \<and> a \<notin> unauthoritative \<and> b \<notin> unauthoritative \<and>
   a \<noteq> FinalAcceptance \<and> b \<noteq> RuntimeReceipt \<and> b \<noteq> ConformanceResult"
  by (auto simp: permitted_support_def unauthoritative_def)

lemma assurance_graph_init_Inr:
  "assurance_graph_init g = Inr g' \<longleftrightarrow>
     g' = g \<and> length (graph_nodes g) \<le> 128 \<and> length (graph_edges g) \<le> 512 \<and>
     (\<forall>n \<in> set (graph_nodes g). is_symbol (node_key n) \<and> is_fingerprint (evidence_id n)) \<and>
     (\<forall>e \<in> set (graph_edges g). is_symbol (edge_source e) \<and> is_symbol (edge_target e) \<and> edge_source e \<noteq> edge_target e) \<and>
     sorted (map node_key (graph_nodes g)) \<and> distinct (map node_key (graph_nodes g)) \<and>
     sorted (map (\<lambda>e. (edge_source e, edge_target e)) (graph_edges g)) \<and>
     distinct (map (\<lambda>e. (edge_source e, edge_target e)) (graph_edges g)) \<and>
     (\<forall>e \<in> set (graph_edges g). \<exists>a b. class_of_key g (edge_source e) = Some a \<and>
        class_of_key g (edge_target e) = Some b \<and> (a, b) \<in> set permitted_support)"
proof -
  have can: "xs = sorted_set xs \<longleftrightarrow> sorted xs \<and> distinct xs" for xs :: "'a::linorder list"
    by (metis distinct_sorted_set sorted_set_def sorted_sorted_set distinct_remdups_id sort_key_id list.map_ident)
  have sup: "check_support g e = Inr u \<longleftrightarrow> (\<exists>a b. class_of_key g (edge_source e) = Some a \<and>
      class_of_key g (edge_target e) = Some b \<and> (a, b) \<in> set permitted_support)" for e u
    by (auto simp: check_support_def guard_eq_Inr split: option.splits)
  show ?thesis
    unfolding assurance_graph_init_def Let_def can
    by (auto simp: res_simps accept_simps assurance_node_init_def assurance_edge_init_def sup
        max_assurance_nodes_def max_assurance_edges_def)
qed

lemma support_step:
  assumes "assurance_graph_init g = Inr g'" and "(k, l) \<in> supports g"
  shows "\<exists>a b. class_of_key g k = Some a \<and> class_of_key g l = Some b \<and> (a, b) \<in> set permitted_support"
  using assms unfolding assurance_graph_init_Inr supports_def by blast

lemma support_path:
  assumes "assurance_graph_init g = Inr g'" and "(k, l) \<in> (supports g)\<^sup>+"
  shows "\<exists>a b. class_of_key g k = Some a \<and> class_of_key g l = Some b \<and>
    assurance_rank a < assurance_rank b \<and> a \<notin> unauthoritative \<and> b \<notin> unauthoritative \<and>
    a \<noteq> FinalAcceptance \<and> b \<noteq> RuntimeReceipt \<and> b \<noteq> ConformanceResult"
  using assms(2)
proof (induction rule: trancl_induct)
  case (base l)
  then show ?case using support_step [OF assms(1)] permitted_rank by blast
next
  case (step l m)
  then obtain a b where ab: "class_of_key g k = Some a" "class_of_key g l = Some b"
    "assurance_rank a < assurance_rank b" "a \<notin> unauthoritative" "a \<noteq> FinalAcceptance" by blast
  moreover obtain c where "class_of_key g m = Some c" "(b, c) \<in> set permitted_support"
    using support_step [OF assms(1) step.hyps(2)] ab(2) by auto
  ultimately show ?case using permitted_rank [of b c] by (auto intro: less_trans)
qed

definition example_graph_declared :: assurance_graph where
  "example_graph_declared =
     \<lparr> graph_nodes = [\<lparr> node_key = lit ''a'', evidence_class = RuntimeReceipt, evidence_id = replicate 64 97 \<rparr>,
                      \<lparr> node_key = lit ''b'', evidence_class = Observation, evidence_id = replicate 64 97 \<rparr>],
       graph_edges = [\<lparr> edge_source = lit ''a'', edge_target = lit ''b'' \<rparr>] \<rparr>"

lemma example_graph_accepted: "assurance_graph_init example_graph_declared = Inr example_graph_declared"
  unfolding assurance_graph_init_Inr
  by (simp add: example_graph_declared_def class_of_key_def permitted_support_def lit_def symbol_char_def
      in_range_def is_fingerprint_def hex_char_def list_all_iff)

text \<open>C40 [support_stratified]. In every accepted support graph support has no cycle, and along any chain
  of support the class rises strictly: no chain starts or ends at model, benchmark or research text,
  none starts at a final acceptance and none ends at a native receipt or a conformance result.\<close>

theorem support_stratified:
  assumes "assurance_graph_init g = Inr g'"
  shows "acyclic (supports g) \<and>
    (\<forall>k l. (k, l) \<in> (supports g)\<^sup>+ \<longrightarrow>
      (\<exists>a b. class_of_key g k = Some a \<and> class_of_key g l = Some b \<and>
        assurance_rank a < assurance_rank b \<and> a \<notin> unauthoritative \<and> b \<notin> unauthoritative \<and>
        a \<noteq> FinalAcceptance \<and> b \<noteq> RuntimeReceipt \<and> b \<noteq> ConformanceResult))"
  using support_path [OF assms] by (fastforce simp: acyclic_def)

theorem support_stratified_witness: "acyclic (supports example_graph_declared)"
  using support_stratified [OF example_graph_accepted] by blast

text \<open>A support declaration has one accepted form: accepted graphs with the
  same nodes and the same edges are equal, so their records and identities agree.\<close>

theorem support_graph_canonical:
  assumes "assurance_graph_init g = Inr x" and "assurance_graph_init h = Inr y"
    and "set (graph_nodes g) = set (graph_nodes h)" and "set (graph_edges g) = set (graph_edges h)"
  shows "g = h \<and> graph_id H g = graph_id H h \<and> (\<exists>i. graph_id H g = Inr i)"
proof -
  have nodes: "graph_nodes g = graph_nodes h"
    using assms(1-3) unfolding assurance_graph_init_Inr
    by (intro map_sorted_distinct_set_unique [of node_key]) (auto simp: distinct_map)
  have edges: "graph_edges g = graph_edges h"
    using assms(1,2,4) unfolding assurance_graph_init_Inr
    by (intro map_sorted_distinct_set_unique [of "\<lambda>e. (edge_source e, edge_target e)"]) (auto simp: distinct_map)
  have "map_res assurance_node_record (graph_nodes g) =
      Inr (map (\<lambda>n. JObj [(lit ''key'', JStr (node_key n)),
                       (lit ''evidence_class'', JStr (assurance_value (evidence_class n))),
                       (lit ''evidence_id'', JStr (evidence_id n))]) (graph_nodes g))"
    using assms(1) unfolding assurance_graph_init_Inr
    by (intro map_res_total) (auto simp: assurance_node_record_def assurance_node_init_def require_symbol_def
        require_fingerprint_def)
  then have "\<exists>i. graph_id H g = Inr i"
    using assms(1) by (simp add: graph_id_def assurance_graph_record_def)
  moreover have "g = h" using nodes edges by simp
  ultimately show ?thesis by blast
qed

theorem support_graph_canonical_witness: "\<exists>i. graph_id sha256_hex example_graph_declared = Inr i"
  using support_graph_canonical [OF example_graph_accepted example_graph_accepted refl refl] by blast

text \<open>A calibration profile accepts exactly the three policy identities it
  was bound to; any other value raises, and so does a profile with an invalid field.\<close>

theorem calibration_drift_raises:
  "require_policy_binding c governance continuation progress = Inr u \<longleftrightarrow>
     calibration_binding_init c = Inr c \<and> governance = cb_governance_id c \<and>
     continuation = cb_continuation_policy_id c \<and> progress = cb_progress_contract_id c"
  by (auto simp: require_policy_binding_def calibration_binding_init_def res_simps accept_simps)

end
