(* ===== verification/Dag.thy ===== *)
theory Dag
  imports Prelude "HOL-Library.AList"
begin

text \<open>
  The dependency-graph algorithms that \<open>obligations.py\<close> and \<open>epistemic.py\<close> both spell out: the
  topological sort with a heap of ready nodes, the cycle test on its result, and the worklist
  closure. A graph is the list of its nodes, in registry order, each with its dependencies. The
  heap is a sorted list: only the order in which \<open>heappop\<close> delivers is observable.
\<close>

type_synonym 'a graph = "('a \<times> 'a list) list"

section \<open>Topological sort\<close>

definition indegrees :: "'a graph \<Rightarrow> ('a \<times> int) list" where
  "indegrees g = map (\<lambda>(i, ds). (i, int (length ds))) g"

definition dependents :: "'a graph \<Rightarrow> 'a \<Rightarrow> 'a list" where
  "dependents g d = concat (map (\<lambda>(i, ds). map (\<lambda>_. i) (filter (\<lambda>e. e = d) ds)) g)"

definition degree :: "('a \<times> int) list \<Rightarrow> 'a \<Rightarrow> int" where
  "degree deg i = (case map_of deg i of Some n \<Rightarrow> n | None \<Rightarrow> 0)"

text \<open>The inner loop: decrement each dependent, push it when it reaches zero.\<close>

fun relax ::
  "('a :: linorder \<times> int) list \<Rightarrow> 'a list \<Rightarrow> 'a list \<Rightarrow> ('a \<times> int) list \<times> 'a list"
where
  "relax deg ready [] = (deg, ready)"
| "relax deg ready (d # ds) =
     (let n = degree deg d - 1; deg' = AList.update d n deg
      in relax deg' (if n = 0 then insort d ready else ready) ds)"

definition positive :: "('a \<times> int) list \<Rightarrow> nat" where
  "positive deg = length (filter (\<lambda>(i, n). 0 < n) deg)"

lemma positive_update:
  "positive (AList.update d (degree deg d - 1) deg) + (if degree deg d = 1 then 1 else 0) \<le> positive deg"
proof (induction deg)
  case (Cons p deg)
  obtain i n where p: "p = (i, n)" by (cases p)
  show ?case
  proof (cases "i = d")
    case True
    then show ?thesis by (simp add: p positive_def degree_def)
  next
    case False
    then have "degree (p # deg) d = degree deg d" by (simp add: p degree_def)
    with False Cons show ?thesis by (simp add: p positive_def)
  qed
qed (simp add: positive_def degree_def)

lemma relax_measure:
  "length (snd (relax deg ready ds)) + positive (fst (relax deg ready ds)) \<le> length ready + positive deg"
proof (induction deg ready ds rule: relax.induct)
  case (2 deg ready d ds)
  note IH = "2.IH" [OF refl refl]
  show ?case
    using IH positive_update [of d deg] by (cases "degree deg d = 1") (simp_all add: Let_def)
qed simp

function kahn ::
  "'a :: linorder graph \<Rightarrow> ('a \<times> int) list \<Rightarrow> 'a list \<Rightarrow> 'a list \<Rightarrow> 'a list \<times> ('a \<times> int) list"
where
  "kahn g deg [] visited = (visited, deg)"
| "kahn g deg (i # ready) visited =
     kahn g (fst (relax deg ready (sort (dependents g i))))
       (snd (relax deg ready (sort (dependents g i)))) (visited @ [i])"
  by pat_completeness auto

termination
proof (relation "measure (\<lambda>(g, deg, ready, visited). length ready + positive deg)")
  fix g deg i and ready visited :: "'a :: linorder list"
  show "((g, fst (relax deg ready (sort (dependents g i))),
        snd (relax deg ready (sort (dependents g i))), visited @ [i]), g, deg, i # ready, visited)
      \<in> measure (\<lambda>(g, deg, ready, visited). length ready + positive deg)"
    using relax_measure [of deg ready "sort (dependents g i)"] by simp
qed simp

definition initial_ready :: "'a :: linorder graph \<Rightarrow> 'a list" where
  "initial_ready g = sort (map fst (filter (\<lambda>(i, n). n = 0) (indegrees g)))"

definition topological_sort :: "'a :: linorder graph \<Rightarrow> 'a list \<times> ('a \<times> int) list" where
  "topological_sort g = kahn g (indegrees g) (initial_ready g) []"

definition is_acyclic :: "'a :: linorder graph \<Rightarrow> bool" where
  "is_acyclic g \<longleftrightarrow> length (fst (topological_sort g)) = length g"

section \<open>Closure\<close>

definition deps_of :: "'a graph \<Rightarrow> 'a \<Rightarrow> 'a list" where
  "deps_of g i = (case map_of g i of Some ds \<Rightarrow> ds | None \<Rightarrow> [])"

text \<open>The stack has its top first; a dependency not yet seen is added to both.\<close>

fun push_new :: "'a list \<Rightarrow> 'a list \<Rightarrow> 'a list \<Rightarrow> 'a list \<times> 'a list" where
  "push_new closure pending [] = (closure, pending)"
| "push_new closure pending (d # ds) =
     (if d \<in> set closure then push_new closure pending ds
      else push_new (d # closure) (d # pending) ds)"

definition missing :: "'a graph \<Rightarrow> 'a list \<Rightarrow> nat" where
  "missing g closure = card (set (concat (map snd g)) - set closure)"

lemma missing_Cons:
  "d \<in> set (concat (map snd g)) \<Longrightarrow> d \<notin> set closure \<Longrightarrow>
   Suc (missing g (d # closure)) = missing g closure"
proof -
  let ?S = "set (concat (map snd g)) - set closure"
  assume "d \<in> set (concat (map snd g))" "d \<notin> set closure"
  then have "d \<in> ?S" by simp
  moreover have "set (concat (map snd g)) - set (d # closure) = ?S - {d}" by auto
  moreover have "finite ?S" by simp
  ultimately show ?thesis unfolding missing_def by (metis card_Suc_Diff1)
qed

lemma push_new_measure:
  "set ds \<subseteq> set (concat (map snd g)) \<Longrightarrow>
   length (snd (push_new closure pending ds)) + missing g (fst (push_new closure pending ds)) =
   length pending + missing g closure"
proof (induction closure pending ds rule: push_new.induct)
  case (2 closure pending d ds)
  then show ?case using missing_Cons [of d g closure] by auto
qed simp

lemma deps_of_in: "d \<in> set (deps_of g i) \<Longrightarrow> (i, deps_of g i) \<in> set g"
  by (cases "map_of g i") (auto simp: deps_of_def dest: map_of_SomeD)

lemma deps_of_subset: "set (deps_of g i) \<subseteq> set (concat (map snd g))"
  using deps_of_in [of _ g i] by force

function closure_loop :: "'a graph \<Rightarrow> 'a list \<Rightarrow> 'a list \<Rightarrow> 'a list" where
  "closure_loop g closure [] = closure"
| "closure_loop g closure (i # pending) =
     closure_loop g (fst (push_new closure pending (deps_of g i)))
       (snd (push_new closure pending (deps_of g i)))"
  by pat_completeness auto

termination
proof (relation "measure (\<lambda>(g, closure, pending). length pending + missing g closure)")
  fix g closure and i :: 'a and pending
  show "((g, fst (push_new closure pending (deps_of g i)), snd (push_new closure pending (deps_of g i))),
        g, closure, i # pending) \<in> measure (\<lambda>(g, closure, pending). length pending + missing g closure)"
    using push_new_measure [OF deps_of_subset, of closure pending g i] by (simp add: case_prod_beta)
qed simp

definition dependency_closure :: "'a graph \<Rightarrow> 'a list \<Rightarrow> 'a list" where
  "dependency_closure g keys = closure_loop g keys (rev keys)"

section \<open>Well-formed graphs\<close>

definition graph_ok :: "'a graph \<Rightarrow> bool" where
  "graph_ok g \<longleftrightarrow>
     distinct (map fst g) \<and> list_all (\<lambda>(i, ds). distinct ds \<and> set ds \<subseteq> fst ` set g) g"

definition edges :: "'a graph \<Rightarrow> ('a \<times> 'a) set" where
  "edges g = {(d, i). d \<in> set (deps_of g i)}"

lemma deps_of_mem: "graph_ok g \<Longrightarrow> (i, ds) \<in> set g \<Longrightarrow> deps_of g i = ds"
  by (simp add: graph_ok_def deps_of_def)

lemma deps_of_ids:
  "graph_ok g \<Longrightarrow> d \<in> set (deps_of g i) \<Longrightarrow> d \<in> fst ` set g \<and> i \<in> fst ` set g"
  using deps_of_in [of d g i] by (force simp: graph_ok_def list_all_iff)

lemma distinct_deps_of: "graph_ok g \<Longrightarrow> distinct (deps_of g i)"
  using deps_of_in [of _ g i] by (cases "deps_of g i") (force simp: graph_ok_def list_all_iff)+

lemma set_dependents: "graph_ok g \<Longrightarrow> set (dependents g d) = {i. d \<in> set (deps_of g i)}"
proof -
  assume ok: "graph_ok g"
  have "set (dependents g d) = {i. \<exists>ds. (i, ds) \<in> set g \<and> d \<in> set ds}"
    by (auto simp: dependents_def)
  also have "\<dots> = {i. d \<in> set (deps_of g i)}"
    using deps_of_mem [OF ok] by (auto dest: deps_of_in)
  finally show ?thesis .
qed

lemma filter_eq_single: "distinct ds \<Longrightarrow> filter (\<lambda>e. e = d) ds = (if d \<in> set ds then [d] else [])"
  by (induction ds) (auto simp: filter_empty_conv)

lemma dependents_filter:
  "\<forall>(i, ds) \<in> set g. distinct ds \<Longrightarrow> dependents g d = map fst (filter (\<lambda>(i, ds). d \<in> set ds) g)"
  unfolding dependents_def by (induction g) (auto simp: filter_eq_single)

lemma distinct_dependents: "graph_ok g \<Longrightarrow> distinct (dependents g d)"
  by (subst dependents_filter) (auto simp: graph_ok_def list_all_iff distinct_map_filter)

section \<open>The sort visits exactly the nodes that no cycle blocks\<close>

lemma degree_update: "degree (AList.update d n deg) i = (if i = d then n else degree deg i)"
  by (simp add: degree_def update_conv')

lemma relax_result:
  "distinct ds \<Longrightarrow>
   degree (fst (relax deg ready ds)) i = degree deg i - (if i \<in> set ds then 1 else 0) \<and>
   mset (snd (relax deg ready ds)) = mset ready + mset (filter (\<lambda>d. degree deg d = 1) ds)"
proof (induction deg ready ds rule: relax.induct)
  case (2 deg ready d ds)
  let ?deg = "AList.update d (degree deg d - 1) deg"
  have same: "filter (\<lambda>e. degree ?deg e = 1) ds = filter (\<lambda>e. degree deg e = 1) ds"
    using "2.prems" by (intro filter_cong) (auto simp: degree_update)
  have "distinct ds" using "2.prems" by simp
  note IH = "2.IH" [OF refl refl this]
  show ?case
    using "2.prems" IH unfolding same
    by (cases "degree deg d = 1") (auto simp: Let_def degree_update)
qed simp

lemma sorted_relax: "sorted ready \<Longrightarrow> sorted (snd (relax deg ready ds))"
  by (induction deg ready ds rule: relax.induct) (simp_all add: Let_def sorted_insort)

text \<open>
  Loop invariant: the degree of a node is the number of its unvisited dependencies, the nodes
  visited or ready are those with degree zero, and every visited node comes after its
  dependencies.
\<close>

definition kahn_inv :: "'a :: linorder graph \<Rightarrow> ('a \<times> int) list \<Rightarrow> 'a list \<Rightarrow> 'a list \<Rightarrow> bool" where
  "kahn_inv g deg ready visited \<longleftrightarrow>
     distinct (visited @ ready) \<and> set (visited @ ready) \<subseteq> fst ` set g \<and>
     (\<forall>i. degree deg i = int (card (set (deps_of g i) - set visited))) \<and>
     (\<forall>i \<in> fst ` set g. i \<in> set (visited @ ready) \<longleftrightarrow> set (deps_of g i) \<subseteq> set visited) \<and>
     (\<forall>n < length visited. set (deps_of g (visited ! n)) \<subseteq> set (take n visited))"

lemma card_one_iff: "i \<in> S \<Longrightarrow> card S = 1 \<longleftrightarrow> S = {i}"
  by (metis card_1_singletonE is_singletonI is_singleton_altdef singletonD)

lemma kahn_inv_step:
  assumes ok: "graph_ok g" and inv: "kahn_inv g deg (i # ready) visited"
  defines "ds \<equiv> sort (dependents g i)"
  shows "kahn_inv g (fst (relax deg ready ds)) (snd (relax deg ready ds)) (visited @ [i])"
proof -
  have ds: "distinct ds" "set ds = {j. i \<in> set (deps_of g j)}"
    using distinct_dependents [OF ok] set_dependents [OF ok] by (auto simp: ds_def)
  have i: "i \<notin> set visited" "i \<in> fst ` set g" "set (deps_of g i) \<subseteq> set visited"
    using inv by (auto simp: kahn_inv_def)
  have deg: "degree deg j = int (card (set (deps_of g j) - set visited))" for j
    using inv by (simp add: kahn_inv_def)
  have drop: "set (deps_of g j) - set (visited @ [i]) = set (deps_of g j) - set visited - {i}" for j
    by auto
  have deg': "degree (fst (relax deg ready ds)) j = int (card (set (deps_of g j) - set (visited @ [i])))" for j
  proof (cases "i \<in> set (deps_of g j)")
    case True
    then have "Suc (card (set (deps_of g j) - set visited - {i})) = card (set (deps_of g j) - set visited)"
      using i(1) by (intro card_Suc_Diff1) auto
    with True show ?thesis using relax_result [OF ds(1), of deg ready j] ds(2) deg [of j] drop by simp
  next
    case False
    then have "set (deps_of g j) - set visited - {i} = set (deps_of g j) - set visited" by auto
    with False show ?thesis using relax_result [OF ds(1), of deg ready j] ds(2) deg [of j] drop by simp
  qed
  define new where "new = filter (\<lambda>d. degree deg d = 1) ds"
  have ready': "mset (snd (relax deg ready ds)) = mset (ready @ new)"
    using relax_result [OF ds(1)] by (simp add: new_def)
  have new: "j \<in> set new \<longleftrightarrow> i \<in> set (deps_of g j) \<and> set (deps_of g j) \<subseteq> insert i (set visited)" for j
  proof -
    have "j \<in> set new \<longleftrightarrow> i \<in> set (deps_of g j) \<and> card (set (deps_of g j) - set visited) = 1"
      by (auto simp: new_def ds(2) deg)
    also have "\<dots> \<longleftrightarrow> i \<in> set (deps_of g j) \<and> set (deps_of g j) - set visited = {i}"
      using i(1) card_one_iff [of i "set (deps_of g j) - set visited"] by auto
    also have "\<dots> \<longleftrightarrow> i \<in> set (deps_of g j) \<and> set (deps_of g j) \<subseteq> insert i (set visited)"
      using i(1) by auto
    finally show ?thesis .
  qed
  have fresh: "set new \<inter> set (visited @ i # ready) = {}"
  proof -
    have "\<not> set (deps_of g j) \<subseteq> set visited" if "j \<in> set new" for j
      using that new i(1) by blast
    moreover have "j \<in> fst ` set g" if "j \<in> set new" for j
      using that new deps_of_ids [OF ok] by blast
    ultimately show ?thesis using inv unfolding kahn_inv_def by blast
  qed
  have "distinct ((visited @ [i]) @ ready @ new)"
    using inv fresh ds(1) by (auto simp: kahn_inv_def new_def)
  then have dist: "distinct ((visited @ [i]) @ snd (relax deg ready ds))"
    using ready' by (metis distinct_append mset_eq_imp_distinct_iff mset_eq_setD)
  have set': "set (snd (relax deg ready ds)) = set ready \<union> set new"
    using mset_eq_setD [OF ready'] by simp
  have sub: "set new \<subseteq> fst ` set g" using new deps_of_ids [OF ok] by blast
  have iff: "j \<in> set ((visited @ [i]) @ snd (relax deg ready ds)) \<longleftrightarrow> set (deps_of g j) \<subseteq> set (visited @ [i])"
    if "j \<in> fst ` set g" for j
  proof (cases "i \<in> set (deps_of g j)")
    case True
    then have "j \<notin> set (visited @ i # ready)"
      using inv that i(1) by (auto simp: kahn_inv_def)
    then show ?thesis using new [of j] True set' by auto
  next
    case False
    then have "j \<notin> set new" using new by blast
    moreover have "j \<in> set (visited @ i # ready) \<longleftrightarrow> set (deps_of g j) \<subseteq> set visited"
      using inv that unfolding kahn_inv_def by blast
    ultimately show ?thesis using False set' by auto
  qed
  have topo: "set (deps_of g ((visited @ [i]) ! n)) \<subseteq> set (take n (visited @ [i]))"
    if "n < length (visited @ [i])" for n
    using inv that i(3) by (cases "n = length visited") (auto simp: kahn_inv_def nth_append)
  show ?thesis
    unfolding kahn_inv_def
    using dist sub deg' iff topo set' inv by (auto simp: kahn_inv_def)
qed

lemma kahn_inv_final:
  "graph_ok g \<Longrightarrow> kahn_inv g deg ready visited \<Longrightarrow>
   kahn_inv g (snd (kahn g deg ready visited)) [] (fst (kahn g deg ready visited))"
  by (induction g deg ready visited rule: kahn.induct) (simp_all add: kahn_inv_step)


lemma degree_indegrees: "graph_ok g \<Longrightarrow> degree (indegrees g) i = int (card (set (deps_of g i)))"
proof -
  assume ok: "graph_ok g"
  have "map_of (indegrees g) i = map_option (\<lambda>ds. int (length ds)) (map_of g i)"
    unfolding indegrees_def by (induction g) auto
  then have "degree (indegrees g) i = int (length (deps_of g i))"
    by (simp add: degree_def deps_of_def split: option.splits)
  with distinct_deps_of [OF ok, of i] show ?thesis by (simp add: distinct_card)
qed

lemma set_initial_ready: "graph_ok g \<Longrightarrow> set (initial_ready g) = {i \<in> fst ` set g. deps_of g i = []}"
proof -
  assume ok: "graph_ok g"
  have "set (initial_ready g) = {i. (i, []) \<in> set g}"
    by (force simp: initial_ready_def indegrees_def)
  also have "\<dots> = {i \<in> fst ` set g. deps_of g i = []}"
    using deps_of_mem [OF ok] by force
  finally show ?thesis .
qed

lemma distinct_initial_ready: "graph_ok g \<Longrightarrow> distinct (initial_ready g)"
  by (auto simp: initial_ready_def indegrees_def graph_ok_def distinct_map_filter comp_def case_prod_beta')

lemma kahn_inv_initial: "graph_ok g \<Longrightarrow> kahn_inv g (indegrees g) (initial_ready g) []"
  by (auto simp: kahn_inv_def degree_indegrees distinct_initial_ready set_initial_ready)

lemma topological_sort_inv:
  "graph_ok g \<Longrightarrow> kahn_inv g (snd (topological_sort g)) [] (fst (topological_sort g))"
  by (simp add: topological_sort_def kahn_inv_final kahn_inv_initial)

text \<open>\<open>ordered g xs\<close>: every node of \<open>xs\<close> comes after all its dependencies.\<close>

definition ordered :: "'a graph \<Rightarrow> 'a list \<Rightarrow> bool" where
  "ordered g xs \<longleftrightarrow> (\<forall>n < length xs. set (deps_of g (xs ! n)) \<subseteq> set (take n xs))"

lemma ordered_acyclic:
  assumes "distinct xs" and "ordered g xs" and "\<And>d i. (d, i) \<in> edges g \<Longrightarrow> i \<in> set xs"
  shows "acyclic (edges g)"
proof -
  define pos where "pos i = (LEAST n. n < length xs \<and> xs ! n = i)" for i
  have pos: "pos (xs ! n) = n" if "n < length xs" for n
    unfolding pos_def using that assms(1)
    by (intro Least_equality) (auto simp: nth_eq_iff_index_eq)
  have "edges g \<subseteq> measure pos"
  proof
    fix e assume e: "e \<in> edges g"
    obtain d i where [simp]: "e = (d, i)" by (cases e)
    from assms(3) e obtain n where n: "n < length xs" "xs ! n = i"
      by (auto simp: in_set_conv_nth)
    with assms(2) e have "d \<in> set (take n xs)" by (auto simp: ordered_def edges_def)
    then obtain k where "k < n" "xs ! k = d" by (auto simp: in_set_conv_nth)
    with n show "e \<in> measure pos" using pos [of n] pos [of k] by auto
  qed
  then have "wf (edges g)" by (rule wf_subset [OF wf_measure])
  then show ?thesis by (rule wf_acyclic)
qed

lemma finite_edges: "graph_ok g \<Longrightarrow> finite (edges g)"
  by (rule finite_subset [of _ "fst ` set g \<times> fst ` set g"]) (auto simp: edges_def dest: deps_of_ids)

lemma is_acyclic_iff:
  assumes ok: "graph_ok g"
  shows "is_acyclic g \<longleftrightarrow> acyclic (edges g)"
    and "is_acyclic g \<Longrightarrow> distinct (fst (topological_sort g)) \<and>
      set (fst (topological_sort g)) = fst ` set g \<and> ordered g (fst (topological_sort g))"
proof -
  let ?v = "fst (topological_sort g)"
  note inv = topological_sort_inv [OF ok, unfolded kahn_inv_def]
  have v: "distinct ?v" "set ?v \<subseteq> fst ` set g" "ordered g ?v"
    "\<And>i. i \<in> fst ` set g \<Longrightarrow> i \<in> set ?v \<longleftrightarrow> set (deps_of g i) \<subseteq> set ?v"
    using inv by (auto simp: ordered_def)
  have "card (fst ` set g) = length g"
    using ok distinct_card [of "map fst g"] by (simp add: graph_ok_def)
  then have all: "is_acyclic g \<longleftrightarrow> set ?v = fst ` set g"
    unfolding is_acyclic_def using v(1,2)
    by (metis List.finite_set card_subset_eq distinct_card finite_imageI)
  show "is_acyclic g \<Longrightarrow> distinct ?v \<and> set ?v = fst ` set g \<and> ordered g ?v"
    using all v by simp
  show "is_acyclic g \<longleftrightarrow> acyclic (edges g)"
  proof
    assume "is_acyclic g"
    with all v show "acyclic (edges g)"
      by (intro ordered_acyclic [of ?v]) (auto simp: edges_def dest: deps_of_ids [OF ok])
  next
    assume "acyclic (edges g)"
    then have wf: "wf (edges g)" using finite_edges [OF ok] by (rule finite_acyclic_wf [rotated])
    have "i \<in> fst ` set g \<longrightarrow> i \<in> set ?v" for i
    proof (induction i rule: wf_induct_rule [OF wf])
      case (1 i)
      then show ?case using v(4) [of i] deps_of_ids [OF ok] by (auto simp: edges_def)
    qed
    with all v(2) show "is_acyclic g" by blast
  qed
qed

section \<open>The closure is the set of reachable nodes\<close>

lemma push_new_sets:
  "set (fst (push_new c p ds)) = set c \<union> set ds \<and>
   set (snd (push_new c p ds)) = set p \<union> (set ds - set c) \<and>
   (distinct c \<longrightarrow> distinct (fst (push_new c p ds)))"
  by (induction c p ds rule: push_new.induct) auto

lemma closure_loop_reaches:
  assumes "set pending \<subseteq> set closure"
    and "\<forall>i \<in> set closure. i \<in> set pending \<or> set (deps_of g i) \<subseteq> set closure"
  shows "set (closure_loop g closure pending) =
      {x. \<exists>k \<in> set closure. (x, k) \<in> (edges g)\<^sup>*} \<and>
     (distinct closure \<longrightarrow> distinct (closure_loop g closure pending))"
  using assms
proof (induction g closure pending rule: closure_loop.induct)
  case (1 g closure)
  have "x \<in> set closure" if "(x, k) \<in> (edges g)\<^sup>*" "k \<in> set closure" for x k
    using that by (induction rule: converse_rtrancl_induct) (use 1 in \<open>auto simp: edges_def\<close>)
  then show ?case by auto
next
  case (2 g closure i pending)
  let ?c = "fst (push_new closure pending (deps_of g i))"
  let ?p = "snd (push_new closure pending (deps_of g i))"
  note sets = push_new_sets [of closure pending "deps_of g i"]
  have "set ?p \<subseteq> set ?c" "\<forall>k \<in> set ?c. k \<in> set ?p \<or> set (deps_of g k) \<subseteq> set ?c"
    using sets "2.prems" by auto
  note IH = "2.IH" [OF this]
  have "(\<exists>k \<in> set ?c. (x, k) \<in> (edges g)\<^sup>*) \<longleftrightarrow> (\<exists>k \<in> set closure. (x, k) \<in> (edges g)\<^sup>*)" for x
  proof
    assume "\<exists>k \<in> set ?c. (x, k) \<in> (edges g)\<^sup>*"
    then obtain k where k: "k \<in> set closure \<or> k \<in> set (deps_of g i)" "(x, k) \<in> (edges g)\<^sup>*"
      using sets by auto
    show "\<exists>k \<in> set closure. (x, k) \<in> (edges g)\<^sup>*"
    proof (cases "k \<in> set closure")
      case False
      with k have "(x, i) \<in> (edges g)\<^sup>*"
        by (auto simp: edges_def intro: rtrancl_into_rtrancl)
      then show ?thesis using "2.prems"(1) by auto
    qed (use k in blast)
  qed (use sets in auto)
  with IH sets show ?case by auto
qed

lemma set_dependency_closure:
  "set (dependency_closure g keys) = {x. \<exists>k \<in> set keys. (x, k) \<in> (edges g)\<^sup>*}"
  using closure_loop_reaches [of "rev keys" keys g] by (simp add: dependency_closure_def)

lemma distinct_dependency_closure: "distinct keys \<Longrightarrow> distinct (dependency_closure g keys)"
  using closure_loop_reaches [of "rev keys" keys g] by (simp add: dependency_closure_def)

section \<open>Registries over a graph\<close>

text \<open>
  What the obligation registry and the epistemic state promise once their constructors have
  returned, and what follows for any such registry.
\<close>

locale validated_graph =
  fixes valid :: "'r \<Rightarrow> bool"
    and graph :: "'r \<Rightarrow> ('a :: linorder) graph"
  assumes valid_graph: "valid r \<Longrightarrow> graph_ok (graph r)"
    and valid_sorted: "valid r \<Longrightarrow> is_acyclic (graph r)"
begin

lemma dependencies_acyclic: "valid r \<Longrightarrow> acyclic (edges (graph r))"
  using is_acyclic_iff(1) [OF valid_graph] valid_sorted by blast

lemma dependencies_wf: "valid r \<Longrightarrow> wf (edges (graph r))"
  using finite_acyclic_wf [OF finite_edges [OF valid_graph] dependencies_acyclic] by blast

lemma topological_order:
  "valid r \<Longrightarrow> distinct (fst (topological_sort (graph r))) \<and>
     set (fst (topological_sort (graph r))) = fst ` set (graph r) \<and>
     ordered (graph r) (fst (topological_sort (graph r)))"
  using is_acyclic_iff(2) [OF valid_graph] valid_sorted by blast

lemma closure_within:
  assumes "valid r" and "set keys \<subseteq> fst ` set (graph r)"
  shows "set (dependency_closure (graph r) keys) \<subseteq> fst ` set (graph r)"
proof
  fix x assume "x \<in> set (dependency_closure (graph r) keys)"
  then obtain k where k: "k \<in> set keys" "(x, k) \<in> (edges (graph r))\<^sup>*"
    by (auto simp: set_dependency_closure)
  from k(2) show "x \<in> fst ` set (graph r)"
    by (cases rule: converse_rtranclE)
       (use k assms deps_of_ids [OF valid_graph [OF assms(1)]] in \<open>auto simp: edges_def\<close>)
qed

end

end
