(* ===== verification/Obligations.thy ===== *)
theory Obligations
  imports Records Dag
begin

text \<open>
  Model of \<open>src/ibae/obligations.py\<close>: obligation records, the registry with its validated
  dependency graph, readiness and status updates. \<open>H\<close> is the digest under the identities.
\<close>

section \<open>Obligations\<close>

definition max_obligations_limit :: int where "max_obligations_limit = 128"
definition max_obligation_dependencies :: int where
  "max_obligation_dependencies = max_obligations_limit - 1"

datatype obligation_status = Unsatisfied | Satisfied | Blocked

datatype obligation_readiness = Ready | DependencyBlocked | ExplicitlyBlocked | AlreadySatisfied

fun status_value :: "obligation_status \<Rightarrow> pystr" where
  "status_value Unsatisfied = lit ''unsatisfied''"
| "status_value Satisfied = lit ''satisfied''"
| "status_value Blocked = lit ''blocked''"

definition obligation_identity :: "digest \<Rightarrow> pystr \<Rightarrow> pystr" where
  "obligation_identity H key = domain_id H ''ibae.obligation-id.v1'' (JObj [(lit ''key'', JStr key)])"

definition canonical_obligation_id :: "digest \<Rightarrow> pystr \<Rightarrow> pystr res" where
  "canonical_obligation_id H key =
     rbind (require_symbol key) (\<lambda>_. Inr (obligation_identity H key))"

record obligation =
  ob_key :: pystr
  description :: pystr
  dependency_ids :: "pystr list"
  status :: obligation_status
  block_reason :: "pystr option"

definition obligation_id :: "digest \<Rightarrow> obligation \<Rightarrow> pystr" where
  "obligation_id H ob = obligation_identity H (ob_key ob)"

definition check_block_reason :: "obligation_status \<Rightarrow> pystr option \<Rightarrow> unit res" where
  "check_block_reason st reason =
     (if st = Blocked
      then (case reason of
              None \<Rightarrow> Inl (ValueErr ''blocked obligations require a block reason'')
            | Some r \<Rightarrow> rbind (require_text r) (\<lambda>_. Inr ()))
      else guard (reason = None) (ValueErr ''only blocked obligations may carry a block reason''))"

definition obligation_init :: "digest \<Rightarrow> obligation \<Rightarrow> obligation res" where
  "obligation_init H ob =
     rbind (require_symbol (ob_key ob))
       (\<lambda>_. rbind (require_text (description ob))
       (\<lambda>_. rbind (materialize max_obligation_dependencies (dependency_ids ob))
       (\<lambda>deps. let dependencies = sort deps in
          rbind (guard (distinct dependencies) (ValueErr ''obligation dependencies must be unique''))
       (\<lambda>_. rbind (for_each require_fingerprint dependencies)
       (\<lambda>_. rbind (guard (obligation_id H ob \<notin> set dependencies)
                 (ValueErr ''an obligation cannot depend on itself''))
       (\<lambda>_. rbind (check_block_reason (status ob) (block_reason ob))
       (\<lambda>_. Inr (ob \<lparr> dependency_ids := dependencies \<rparr>))))))))"

definition obligation_record :: "digest \<Rightarrow> obligation \<Rightarrow> json" where
  "obligation_record H ob =
     JObj [(lit ''block_reason'', case block_reason ob of None \<Rightarrow> JNull | Some r \<Rightarrow> JStr r),
           (lit ''dependencies'', JArr (map JStr (dependency_ids ob))),
           (lit ''description'', JStr (description ob)),
           (lit ''key'', JStr (ob_key ob)),
           (lit ''obligation_id'', JStr (obligation_id H ob)),
           (lit ''status'', JStr (status_value (status ob)))]"

definition obligation_with_status ::
  "digest \<Rightarrow> obligation_status \<Rightarrow> pystr option \<Rightarrow> obligation \<Rightarrow> obligation res"
where
  "obligation_with_status H st reason ob =
     obligation_init H (ob \<lparr> status := st, block_reason := reason \<rparr>)"

section \<open>The registry\<close>

record obligation_registry =
  obligations :: "obligation list"
  max_obligations :: int

definition obligation_graph :: "digest \<Rightarrow> obligation list \<Rightarrow> pystr graph" where
  "obligation_graph H obs = map (\<lambda>ob. (obligation_id H ob, dependency_ids ob)) obs"

definition by_id :: "digest \<Rightarrow> obligation list \<Rightarrow> pystr \<Rightarrow> obligation res" where
  "by_id H obs i =
     (case map_of (map (\<lambda>ob. (obligation_id H ob, ob)) obs) i of
        Some ob \<Rightarrow> Inr ob
      | None \<Rightarrow> Inl (KeyErr ''obligation id''))"

definition check_known_dependencies :: "digest \<Rightarrow> obligation list \<Rightarrow> unit res" where
  "check_known_dependencies H obs =
     for_each (\<lambda>ob. guard (set (dependency_ids ob) \<subseteq> set (map (obligation_id H) obs))
                      (ValueErr ''unknown dependencies'')) obs"

definition validate_acyclic :: "digest \<Rightarrow> obligation list \<Rightarrow> unit res" where
  "validate_acyclic H obs =
     guard (is_acyclic (obligation_graph H obs)) (ValueErr ''obligation dependency cycle detected'')"

definition unsatisfied_dependencies :: "digest \<Rightarrow> obligation list \<Rightarrow> obligation \<Rightarrow> pystr list res" where
  "unsatisfied_dependencies H obs ob =
     filter_res (\<lambda>d. rbind (by_id H obs d) (\<lambda>dep. Inr (status dep \<noteq> Satisfied))) (dependency_ids ob)"

definition validate_satisfied_dependencies :: "digest \<Rightarrow> obligation list \<Rightarrow> unit res" where
  "validate_satisfied_dependencies H obs =
     for_each (\<lambda>ob.
       if status ob \<noteq> Satisfied then Inr ()
       else rbind (unsatisfied_dependencies H obs ob)
              (\<lambda>us. guard (us = []) (ValueErr ''satisfied obligation has unsatisfied dependencies''))) obs"

definition registry_init :: "digest \<Rightarrow> obligation list \<Rightarrow> int \<Rightarrow> obligation_registry res" where
  "registry_init H supplied limit =
     rbind (require_bounded_positive_int limit max_obligations_limit)
       (\<lambda>_. rbind (materialize limit supplied)
       (\<lambda>supplied. let obs = sort_key (obligation_id H) supplied in
          rbind (guard (int (length obs) \<le> limit) (ValueErr ''obligation registry exceeds max_obligations''))
       (\<lambda>_. rbind (guard (distinct (map (obligation_id H) obs) \<and> distinct (map ob_key obs))
                 (ValueErr ''obligation keys and ids must be unique''))
       (\<lambda>_. rbind (check_known_dependencies H obs)
       (\<lambda>_. rbind (validate_acyclic H obs)
       (\<lambda>_. rbind (validate_satisfied_dependencies H obs)
       (\<lambda>_. Inr \<lparr> obligations = obs, max_obligations = limit \<rparr>)))))))"

definition registry_from_iterable :: "digest \<Rightarrow> obligation list \<Rightarrow> int \<Rightarrow> obligation_registry res" where
  "registry_from_iterable H supplied limit =
     rbind (require_bounded_positive_int limit max_obligations_limit)
       (\<lambda>_. rbind (materialize limit supplied) (\<lambda>obs. registry_init H obs limit))"

definition registry_get :: "digest \<Rightarrow> obligation_registry \<Rightarrow> pystr \<Rightarrow> obligation res" where
  "registry_get H r i = rbind (require_fingerprint i) (\<lambda>_. by_id H (obligations r) i)"

definition known_ids :: "digest \<Rightarrow> obligation_registry \<Rightarrow> pystr list" where
  "known_ids H r = map (obligation_id H) (obligations r)"

definition blocking_dependency_ids :: "digest \<Rightarrow> obligation_registry \<Rightarrow> pystr \<Rightarrow> pystr list res" where
  "blocking_dependency_ids H r i =
     rbind (registry_get H r i) (unsatisfied_dependencies H (obligations r))"

definition readiness :: "digest \<Rightarrow> obligation_registry \<Rightarrow> pystr \<Rightarrow> obligation_readiness res" where
  "readiness H r i =
     rbind (registry_get H r i)
       (\<lambda>ob. if status ob = Satisfied then Inr AlreadySatisfied
             else if status ob = Blocked then Inr ExplicitlyBlocked
             else rbind (blocking_dependency_ids H r i)
                    (\<lambda>bs. Inr (if bs \<noteq> [] then DependencyBlocked else Ready)))"

definition ready_ids :: "digest \<Rightarrow> obligation_registry \<Rightarrow> pystr list res" where
  "ready_ids H r =
     filter_res (\<lambda>i. rbind (readiness H r i) (\<lambda>x. Inr (x = Ready))) (known_ids H r)"

definition topological_ids :: "digest \<Rightarrow> obligation_registry \<Rightarrow> pystr list" where
  "topological_ids H r = fst (topological_sort (obligation_graph H (obligations r)))"

definition registry_with_status ::
  "digest \<Rightarrow> obligation_registry \<Rightarrow> pystr \<Rightarrow> obligation_status \<Rightarrow> pystr option \<Rightarrow> obligation_registry res"
where
  "registry_with_status H r i st reason =
     rbind (registry_get H r i)
       (\<lambda>_. rbind (map_res (\<lambda>ob. if obligation_id H ob = i then obligation_with_status H st reason ob
                                 else Inr ob) (obligations r))
       (\<lambda>obs. registry_init H obs (max_obligations r)))"

definition registry_record :: "digest \<Rightarrow> obligation_registry \<Rightarrow> json" where
  "registry_record H r =
     JObj [(lit ''max_obligations'', JInt (max_obligations r)),
           (lit ''obligations'', JArr (map (obligation_record H) (obligations r)))]"

section \<open>What the constructors accept\<close>

definition obligation_ok :: "digest \<Rightarrow> obligation \<Rightarrow> bool" where
  "obligation_ok H ob \<longleftrightarrow>
     is_symbol (ob_key ob) \<and> is_record_text (description ob) \<and>
     int (length (dependency_ids ob)) \<le> max_obligation_dependencies \<and>
     sorted (dependency_ids ob) \<and> distinct (dependency_ids ob) \<and>
     list_all is_fingerprint (dependency_ids ob) \<and> obligation_id H ob \<notin> set (dependency_ids ob) \<and>
     (case block_reason ob of None \<Rightarrow> status ob \<noteq> Blocked
      | Some reason \<Rightarrow> status ob = Blocked \<and> is_record_text reason)"

lemma obligation_id_update [simp]:
  "obligation_id H (ob \<lparr> dependency_ids := ds \<rparr>) = obligation_id H ob"
  "obligation_id H (ob \<lparr> status := st \<rparr>) = obligation_id H ob"
  "obligation_id H (ob \<lparr> block_reason := reason \<rparr>) = obligation_id H ob"
  by (simp_all add: obligation_id_def)

lemma obligation_init_Inr:
  "obligation_init H ob = Inr ob' \<longleftrightarrow>
     ob' = ob \<lparr> dependency_ids := sort (dependency_ids ob) \<rparr> \<and> obligation_ok H ob'"
  by (auto simp: obligation_init_def obligation_ok_def res_simps accept_simps Let_def list_all_iff
      check_block_reason_def max_obligation_dependencies_def max_obligations_limit_def
      split: if_splits option.splits)

lemma obligation_init_ok: "obligation_ok H ob \<Longrightarrow> obligation_init H ob = Inr ob"
  unfolding obligation_init_Inr by (simp add: obligation_ok_def sort_key_id)

lemma obligation_with_status_Inr:
  assumes "obligation_ok H ob"
  shows "obligation_with_status H st reason ob = Inr ob' \<longleftrightarrow>
    ob' = ob \<lparr> status := st, block_reason := reason \<rparr> \<and>
    (case reason of None \<Rightarrow> st \<noteq> Blocked | Some t \<Rightarrow> st = Blocked \<and> is_record_text t)"
  using assms unfolding obligation_with_status_def obligation_init_Inr
  by (cases reason) (auto simp: obligation_ok_def sort_key_id)

definition satisfied_closed :: "digest \<Rightarrow> obligation list \<Rightarrow> bool" where
  "satisfied_closed H obs \<longleftrightarrow>
     (\<forall>ob \<in> set obs. \<forall>dep \<in> set obs. status ob = Satisfied \<longrightarrow>
        obligation_id H dep \<in> set (dependency_ids ob) \<longrightarrow> status dep = Satisfied)"

definition known_closed :: "digest \<Rightarrow> obligation list \<Rightarrow> bool" where
  "known_closed H obs \<longleftrightarrow> (\<forall>ob \<in> set obs. set (dependency_ids ob) \<subseteq> set (map (obligation_id H) obs))"

lemma check_known_dependencies_Inr: "check_known_dependencies H obs = Inr u \<longleftrightarrow> known_closed H obs"
  by (simp add: check_known_dependencies_def known_closed_def res_simps)

lemma known_closed_set: "set xs = set ys \<Longrightarrow> known_closed H xs = known_closed H ys"
  by (simp add: known_closed_def)

definition registry_ok :: "digest \<Rightarrow> obligation_registry \<Rightarrow> bool" where
  "registry_ok H r \<longleftrightarrow>
     0 < max_obligations r \<and> max_obligations r \<le> max_obligations_limit \<and>
     int (length (obligations r)) \<le> max_obligations r \<and>
     list_all (obligation_ok H) (obligations r) \<and>
     sorted (known_ids H r) \<and> distinct (known_ids H r) \<and> distinct (map ob_key (obligations r)) \<and>
     known_closed H (obligations r) \<and> is_acyclic (obligation_graph H (obligations r)) \<and> satisfied_closed H (obligations r)"

lemma by_id_Inr: "by_id H obs i = Inr ob \<Longrightarrow> ob \<in> set obs \<and> obligation_id H ob = i"
  by (auto simp: by_id_def split: option.splits dest!: map_of_SomeD)

lemma by_id_mem: "distinct (map (obligation_id H) obs) \<Longrightarrow> ob \<in> set obs \<Longrightarrow> by_id H obs (obligation_id H ob) = Inr ob"
  by (simp add: by_id_def map_of_keyed)

lemma unsatisfied_dependencies_eq:
  assumes "distinct (map (obligation_id H) obs)" and "set (dependency_ids ob) \<subseteq> set (map (obligation_id H) obs)"
  shows "unsatisfied_dependencies H obs ob =
    Inr (filter (\<lambda>d. \<exists>dep \<in> set obs. obligation_id H dep = d \<and> status dep \<noteq> Satisfied) (dependency_ids ob))"
  unfolding unsatisfied_dependencies_def
proof (rule filter_res_total)
  fix d assume "d \<in> set (dependency_ids ob)"
  with assms(2) obtain dep where dep: "dep \<in> set obs" "d = obligation_id H dep" by auto
  then have "by_id H obs d = Inr dep" using by_id_mem [OF assms(1)] by simp
  moreover have "dep' = dep" if "dep' \<in> set obs" "obligation_id H dep' = d" for dep'
    using that dep assms(1) by (auto simp: distinct_map inj_on_def)
  then have "(\<exists>dep' \<in> set obs. obligation_id H dep' = d \<and> status dep' \<noteq> Satisfied) \<longleftrightarrow>
      status dep \<noteq> Satisfied"
    using dep by blast
  ultimately show "rbind (by_id H obs d) (\<lambda>dep. Inr (status dep \<noteq> Satisfied)) =
      Inr (\<exists>dep \<in> set obs. obligation_id H dep = d \<and> status dep \<noteq> Satisfied)"
    by simp
qed

lemma validate_satisfied_Inr:
  assumes "distinct (map (obligation_id H) obs)" and "known_closed H obs"
  shows "validate_satisfied_dependencies H obs = Inr u \<longleftrightarrow> satisfied_closed H obs"
proof -
  have "unsatisfied_dependencies H obs ob =
      Inr (filter (\<lambda>d. \<exists>dep \<in> set obs. obligation_id H dep = d \<and> status dep \<noteq> Satisfied) (dependency_ids ob))"
    if "ob \<in> set obs" for ob
    using that assms by (intro unsatisfied_dependencies_eq) (auto simp: known_closed_def)
  then show ?thesis
    by (simp add: validate_satisfied_dependencies_def for_each_eq_Inr satisfied_closed_def filter_empty_conv
        guard_def) blast
qed

lemma satisfied_closed_set: "set xs = set ys \<Longrightarrow> satisfied_closed H xs = satisfied_closed H ys"
  by (simp add: satisfied_closed_def)

lemma registry_init_Inr:
  assumes "list_all (obligation_ok H) obs"
  shows "registry_init H obs limit = Inr r \<longleftrightarrow>
    r = \<lparr> obligations = sort_key (obligation_id H) obs, max_obligations = limit \<rparr> \<and> registry_ok H r"
proof -
  let ?obs = "sort_key (obligation_id H) obs"
  have "sorted (map (obligation_id H) ?obs)" by simp
  moreover have "list_all (obligation_ok H) ?obs" using assms by (simp add: list_all_iff)
  ultimately show ?thesis
    using validate_satisfied_Inr [of H ?obs]
    by (auto simp: registry_init_def registry_ok_def known_ids_def res_simps accept_simps Let_def
        check_known_dependencies_Inr validate_acyclic_def max_obligations_limit_def)
qed

lemma registry_init_ok: "registry_ok H r \<Longrightarrow> registry_init H (obligations r) (max_obligations r) = Inr r"
proof -
  assume ok: "registry_ok H r"
  then have "sort_key (obligation_id H) (obligations r) = obligations r"
    by (intro sort_key_id) (simp add: registry_ok_def known_ids_def)
  with ok show ?thesis
    by (subst registry_init_Inr) (simp_all add: registry_ok_def)
qed

text \<open>The order of the supplied obligations is irrelevant, also to what is raised.\<close>

lemma registry_init_permutes:
  assumes "mset obs' = mset obs"
  shows "registry_init H obs' limit = registry_init H obs limit"
proof (cases "distinct (map (obligation_id H) obs)")
  case True
  then have "sort_key (obligation_id H) obs' = sort_key (obligation_id H) obs"
    by (intro sort_key_perm_eq assms) (simp add: distinct_map mset_eq_setD [OF assms])
  then show ?thesis
    using mset_eq_length [OF assms]
    by (auto simp: registry_init_def Let_def materialize_def materialize_loop_eq rbind_def split: sum.splits)
next
  case False
  have dist: "distinct (map (obligation_id H) (sort_key (obligation_id H) xs)) = distinct (map (obligation_id H) xs)" for xs
    by (metis mset_eq_imp_distinct_iff mset_map mset_sort)
  have "\<not> distinct (map (obligation_id H) obs')"
    using False by (metis assms mset_eq_imp_distinct_iff mset_map)
  with False show ?thesis
    using mset_eq_length [OF assms]
    by (auto simp: registry_init_def Let_def materialize_def materialize_loop_eq rbind_def dist split: sum.splits)
qed

subsection \<open>The registry as a validated graph\<close>

definition registry_graph :: "digest \<Rightarrow> obligation_registry \<Rightarrow> pystr graph" where
  "registry_graph H r = obligation_graph H (obligations r)"

lemma registry_graph_ok: "registry_ok H r \<Longrightarrow> graph_ok (registry_graph H r)"
  by (simp add: registry_ok_def graph_ok_def registry_graph_def obligation_graph_def known_ids_def
      list_all_iff obligation_ok_def comp_def known_closed_def image_image)

interpretation ob: validated_graph "registry_ok H" "registry_graph H" for H
proof
  fix r assume "registry_ok H r"
  then show "graph_ok (registry_graph H r)" and "is_acyclic (registry_graph H r)"
    by (simp_all add: registry_graph_ok) (simp add: registry_ok_def registry_graph_def)
qed


section \<open>Readiness\<close>

lemma registry_get_mem:
  assumes "registry_ok H r" and "ob \<in> set (obligations r)" and "is_fingerprint (obligation_id H ob)"
  shows "registry_get H r (obligation_id H ob) = Inr ob"
  using assms by (simp add: registry_get_def require_fingerprint_def by_id_mem registry_ok_def known_ids_def)

lemma registry_get_Inr:
  "registry_get H r i = Inr ob \<Longrightarrow> ob \<in> set (obligations r) \<and> obligation_id H ob = i \<and> is_fingerprint i"
  by (auto simp: registry_get_def res_simps accept_simps dest: by_id_Inr)

text \<open>The identities of the obligations a given one waits for, directly or not.\<close>

definition prerequisites :: "digest \<Rightarrow> obligation_registry \<Rightarrow> pystr \<Rightarrow> pystr set" where
  "prerequisites H r i = {d. (d, i) \<in> (edges (registry_graph H r))\<^sup>+}"

definition satisfied_ids :: "digest \<Rightarrow> obligation_registry \<Rightarrow> pystr set" where
  "satisfied_ids H r = {obligation_id H ob | ob. ob \<in> set (obligations r) \<and> status ob = Satisfied}"

lemma edges_registry:
  assumes "registry_ok H r"
  shows "(d, i) \<in> edges (registry_graph H r) \<longleftrightarrow>
    (\<exists>ob \<in> set (obligations r). obligation_id H ob = i \<and> d \<in> set (dependency_ids ob))"
proof -
  have "(i, ds) \<in> set (registry_graph H r) \<longleftrightarrow>
      (\<exists>ob \<in> set (obligations r). obligation_id H ob = i \<and> dependency_ids ob = ds)" for ds
    by (auto simp: registry_graph_def obligation_graph_def)
  moreover have "(d, i) \<in> edges (registry_graph H r) \<longleftrightarrow> (\<exists>ds. (i, ds) \<in> set (registry_graph H r) \<and> d \<in> set ds)"
    using deps_of_mem [OF registry_graph_ok [OF assms]] deps_of_in [of d "registry_graph H r" i]
    by (auto simp: edges_def)
  ultimately show ?thesis by auto
qed

lemma obligation_unique:
  "registry_ok H r \<Longrightarrow> ob \<in> set (obligations r) \<Longrightarrow> ob' \<in> set (obligations r) \<Longrightarrow>
   obligation_id H ob = obligation_id H ob' \<Longrightarrow> ob = ob'"
  by (auto simp: registry_ok_def known_ids_def distinct_map inj_on_def)

lemma satisfied_edge:
  assumes "registry_ok H r" and "(d, i) \<in> edges (registry_graph H r)" and "i \<in> satisfied_ids H r"
  shows "d \<in> satisfied_ids H r"
proof -
  from assms(2,3) obtain ob where ob: "ob \<in> set (obligations r)" "status ob = Satisfied" "d \<in> set (dependency_ids ob)"
    using obligation_unique [OF assms(1)] unfolding edges_registry [OF assms(1)] satisfied_ids_def by blast
  then obtain dep where "dep \<in> set (obligations r)" "obligation_id H dep = d"
    using assms(1) unfolding registry_ok_def known_closed_def by fastforce
  with ob assms(1) show ?thesis
    unfolding registry_ok_def satisfied_closed_def satisfied_ids_def by blast
qed

text \<open>A satisfied obligation has every prerequisite satisfied, however far away.\<close>

lemma satisfied_prerequisites:
  assumes "registry_ok H r" and "i \<in> satisfied_ids H r"
  shows "prerequisites H r i \<subseteq> satisfied_ids H r"
proof
  fix d assume "d \<in> prerequisites H r i"
  then have "(d, i) \<in> (edges (registry_graph H r))\<^sup>+" by (simp add: prerequisites_def)
  then show "d \<in> satisfied_ids H r"
    by (induction rule: converse_trancl_induct) (use satisfied_edge [OF assms(1)] assms(2) in blast)+
qed

lemma blocking_dependency_ids_eq:
  assumes "registry_ok H r" and "ob \<in> set (obligations r)" and "is_fingerprint (obligation_id H ob)"
  shows "blocking_dependency_ids H r (obligation_id H ob) =
    Inr (filter (\<lambda>d. d \<notin> satisfied_ids H r) (dependency_ids ob))"
proof -
  have sub: "set (dependency_ids ob) \<subseteq> set (map (obligation_id H) (obligations r))"
    using assms by (auto simp: registry_ok_def known_closed_def)
  have dist: "distinct (map (obligation_id H) (obligations r))"
    using assms(1) by (simp add: registry_ok_def known_ids_def)
  have "(\<exists>dep \<in> set (obligations r). obligation_id H dep = d \<and> status dep \<noteq> Satisfied) \<longleftrightarrow>
      d \<notin> satisfied_ids H r" if "d \<in> set (dependency_ids ob)" for d
    using that sub obligation_unique [OF assms(1)] unfolding satisfied_ids_def by auto
  then show ?thesis
    unfolding blocking_dependency_ids_def registry_get_mem [OF assms] rbind_Inr
      unsatisfied_dependencies_eq [OF dist sub]
    by (simp cong: filter_cong)
qed

lemma readiness_eq:
  assumes "registry_ok H r" and "ob \<in> set (obligations r)" and "is_fingerprint (obligation_id H ob)"
  shows "readiness H r (obligation_id H ob) =
    Inr (case status ob of
           Satisfied \<Rightarrow> AlreadySatisfied
         | Blocked \<Rightarrow> ExplicitlyBlocked
         | Unsatisfied \<Rightarrow>
             if set (dependency_ids ob) \<subseteq> satisfied_ids H r then Ready else DependencyBlocked)"
  using blocking_dependency_ids_eq [OF assms] registry_get_mem [OF assms]
  by (cases "status ob") (auto simp: readiness_def filter_empty_conv)

lemma direct_prerequisites:
  assumes "registry_ok H r" and "ob \<in> set (obligations r)"
  shows "set (dependency_ids ob) \<subseteq> satisfied_ids H r \<longleftrightarrow>
    prerequisites H r (obligation_id H ob) \<subseteq> satisfied_ids H r"
proof
  assume sub: "set (dependency_ids ob) \<subseteq> satisfied_ids H r"
  show "prerequisites H r (obligation_id H ob) \<subseteq> satisfied_ids H r"
  proof
    fix d assume "d \<in> prerequisites H r (obligation_id H ob)"
    then obtain e where e: "(d, e) \<in> (edges (registry_graph H r))\<^sup>*"
      "(e, obligation_id H ob) \<in> edges (registry_graph H r)"
      by (auto simp: prerequisites_def trancl_unfold_right relcomp_unfold)
    then have "e \<in> satisfied_ids H r"
      using sub assms obligation_unique [OF assms(1)] unfolding edges_registry [OF assms(1)] by blast
    with e(1) satisfied_prerequisites [OF assms(1), of e] show "d \<in> satisfied_ids H r"
      by (auto simp: prerequisites_def rtrancl_eq_or_trancl)
  qed
next
  assume "prerequisites H r (obligation_id H ob) \<subseteq> satisfied_ids H r"
  moreover have "set (dependency_ids ob) \<subseteq> prerequisites H r (obligation_id H ob)"
    using assms edges_registry [OF assms(1)] by (auto simp: prerequisites_def)
  ultimately show "set (dependency_ids ob) \<subseteq> satisfied_ids H r" by blast
qed

lemma ready_ids_eq:
  assumes "registry_ok H r" and "\<And>bs. is_fingerprint (H bs)"
  shows "\<exists>is. ready_ids H r = Inr is \<and>
    (\<forall>i. i \<in> set is \<longleftrightarrow> (\<exists>ob \<in> set (obligations r). obligation_id H ob = i \<and> status ob = Unsatisfied \<and>
        set (dependency_ids ob) \<subseteq> satisfied_ids H r))"
proof -
  have fp: "is_fingerprint (obligation_id H ob)" for ob
    by (simp add: obligation_id_def obligation_identity_def domain_id_def assms(2))
  define q where "q i = (\<exists>ob \<in> set (obligations r). obligation_id H ob = i \<and> status ob = Unsatisfied \<and>
        set (dependency_ids ob) \<subseteq> satisfied_ids H r)" for i
  have "rbind (readiness H r i) (\<lambda>x. Inr (x = Ready)) = Inr (q i)" if "i \<in> set (known_ids H r)" for i
  proof -
    from that obtain ob where ob: "ob \<in> set (obligations r)" "i = obligation_id H ob"
      by (auto simp: known_ids_def)
    moreover have "q i \<longleftrightarrow> status ob = Unsatisfied \<and> set (dependency_ids ob) \<subseteq> satisfied_ids H r"
      using ob obligation_unique [OF assms(1) _ ob(1)] unfolding q_def by blast
    ultimately show ?thesis
      using readiness_eq [OF assms(1) ob(1) fp] by (simp split: obligation_status.split)
  qed
  then have "ready_ids H r = Inr (filter q (known_ids H r))"
    unfolding ready_ids_def by (rule filter_res_total)
  moreover have "i \<in> set (filter q (known_ids H r)) \<longleftrightarrow> q i" for i
    by (auto simp: q_def known_ids_def)
  ultimately show ?thesis unfolding q_def by blast
qed


section \<open>Status updates\<close>

definition set_status :: "digest \<Rightarrow> pystr \<Rightarrow> obligation_status \<Rightarrow> pystr option \<Rightarrow> obligation \<Rightarrow> obligation" where
  "set_status H i st reason ob =
     (if obligation_id H ob = i then ob \<lparr> status := st, block_reason := reason \<rparr> else ob)"

definition update_status ::
  "digest \<Rightarrow> pystr \<Rightarrow> obligation_status \<Rightarrow> pystr option \<Rightarrow> obligation_registry \<Rightarrow> obligation_registry"
where
  "update_status H i st reason r = r \<lparr> obligations := map (set_status H i st reason) (obligations r) \<rparr>"

lemma set_status_fields [simp]:
  "obligation_id H (set_status H i st reason ob) = obligation_id H ob"
  "ob_key (set_status H i st reason ob) = ob_key ob"
  "dependency_ids (set_status H i st reason ob) = dependency_ids ob"
  "status (set_status H i st reason ob) = (if obligation_id H ob = i then st else status ob)"
  "description (set_status H i st reason ob) = description ob"
  by (simp_all add: set_status_def)

definition reason_fits :: "obligation_status \<Rightarrow> pystr option \<Rightarrow> bool" where
  "reason_fits st reason \<longleftrightarrow>
     (case reason of None \<Rightarrow> st \<noteq> Blocked | Some t \<Rightarrow> st = Blocked \<and> is_record_text t)"

lemma obligations_update_status:
  "obligations (update_status H i st reason r) = map (set_status H i st reason) (obligations r)"
  by (simp add: update_status_def)

lemma update_status_same [simp]:
  "known_ids H (update_status H i st reason r) = known_ids H r"
  "registry_graph H (update_status H i st reason r) = registry_graph H r"
  "max_obligations (update_status H i st reason r) = max_obligations r"
  "map ob_key (obligations (update_status H i st reason r)) = map ob_key (obligations r)"
  "length (obligations (update_status H i st reason r)) = length (obligations r)"
  by (simp_all add: update_status_def known_ids_def registry_graph_def obligation_graph_def comp_def)

lemma update_status_closed:
  "known_closed H (obligations (update_status H i st reason r)) = known_closed H (obligations r)"
  by (simp add: known_closed_def obligations_update_status image_image)

lemma obligation_ok_set_status:
  "obligation_ok H ob \<Longrightarrow>
   obligation_ok H (set_status H i st reason ob) \<longleftrightarrow> (obligation_id H ob = i \<longrightarrow> reason_fits st reason)"
  by (cases reason) (auto simp: obligation_ok_def reason_fits_def set_status_def)

lemma update_status_obligations_ok:
  assumes "registry_ok H r"
  shows "list_all (obligation_ok H) (obligations (update_status H i st reason r)) \<longleftrightarrow>
    (i \<in> set (known_ids H r) \<longrightarrow> reason_fits st reason)"
  using assms
  by (auto simp: list_all_iff obligations_update_status registry_ok_def known_ids_def obligation_ok_set_status)

lemma update_status_ok:
  assumes "registry_ok H r"
  shows "registry_ok H (update_status H i st reason r) \<longleftrightarrow>
     (i \<in> set (known_ids H r) \<longrightarrow> reason_fits st reason) \<and>
     satisfied_closed H (obligations (update_status H i st reason r))"
proof -
  have "is_acyclic (obligation_graph H (obligations (update_status H i st reason r)))"
    using assms update_status_same(2) [of H i st reason r] by (simp add: registry_ok_def registry_graph_def)
  then show ?thesis
    using assms update_status_obligations_ok [OF assms] update_status_closed [of H i st reason r]
    by (simp add: registry_ok_def)
qed

lemma registry_with_status_Inr:
  assumes "registry_ok H r"
  shows "registry_with_status H r i st reason = Inr r' \<longleftrightarrow>
     is_fingerprint i \<and> i \<in> set (known_ids H r) \<and> reason_fits st reason \<and>
     satisfied_closed H (obligations (update_status H i st reason r)) \<and> r' = update_status H i st reason r"
    (is "?lhs \<longleftrightarrow> ?rhs")
proof -
  let ?u = "update_status H i st reason r"
  have step: "(if obligation_id H ob = i then obligation_with_status H st reason ob else Inr ob) =
      Inr (set_status H i st reason ob)"
    if "ob \<in> set (obligations r)" "reason_fits st reason" for ob
    using that assms obligation_with_status_Inr [of H ob st reason]
    by (simp add: registry_ok_def list_all_iff reason_fits_def set_status_def)
  show ?thesis
  proof (cases "is_fingerprint i \<and> i \<in> set (known_ids H r) \<and> reason_fits st reason")
    case True
    then obtain ob where "ob \<in> set (obligations r)" "obligation_id H ob = i" by (auto simp: known_ids_def)
    with True assms have get: "registry_get H r i = Inr ob" using registry_get_mem by blast
    have "map_res (\<lambda>ob. if obligation_id H ob = i then obligation_with_status H st reason ob else Inr ob)
        (obligations r) = Inr (obligations ?u)"
      unfolding obligations_update_status using step True by (intro map_res_total) blast
    with get have "registry_with_status H r i st reason = registry_init H (obligations ?u) (max_obligations ?u)"
      by (simp add: registry_with_status_def)
    moreover have "list_all (obligation_ok H) (obligations ?u)"
      using True by (simp add: update_status_obligations_ok [OF assms])
    moreover have "sort_key (obligation_id H) (obligations ?u) = obligations ?u"
      using assms update_status_same(1) [of H i st reason r]
      by (intro sort_key_id) (simp add: registry_ok_def known_ids_def)
    moreover have "\<lparr> obligations = obligations ?u, max_obligations = max_obligations ?u \<rparr> = ?u"
      by simp
    ultimately have "?lhs \<longleftrightarrow> r' = ?u \<and> registry_ok H ?u"
      by (simp only: registry_init_Inr) auto
    with True show ?thesis by (auto simp: update_status_ok [OF assms])
  next
    case False
    have "?lhs \<Longrightarrow> ?rhs"
    proof -
      assume ?lhs
      then obtain ob obs where ob: "ob \<in> set (obligations r)" "obligation_id H ob = i" "is_fingerprint i"
        "map_res (\<lambda>ob. if obligation_id H ob = i then obligation_with_status H st reason ob else Inr ob)
          (obligations r) = Inr obs"
        by (auto simp: registry_with_status_def rbind_eq_Inr dest: registry_get_Inr)
      then obtain ob' where "obligation_with_status H st reason ob = Inr ob'"
        by (auto simp: map_res_eq_Inr list_all2_conv_all_nth in_set_conv_nth)
      then have "reason_fits st reason"
        using assms ob(1) by (auto simp: obligation_with_status_Inr registry_ok_def list_all_iff reason_fits_def)
      with ob False show ?rhs by (auto simp: known_ids_def)
    qed
    with False show ?thesis by blast
  qed
qed

lemma satisfied_update:
  assumes "i \<in> set (known_ids H r)"
  shows "satisfied_ids H (update_status H i Satisfied None r) = insert i (satisfied_ids H r)"
proof -
  have "satisfied_ids H (update_status H i Satisfied None r) =
      {obligation_id H ob | ob. ob \<in> set (obligations r) \<and> (obligation_id H ob = i \<or> status ob = Satisfied)}"
    (is "_ = ?S")
  proof (intro set_eqI iffI)
    fix d assume "d \<in> ?S"
    then obtain ob where "d = obligation_id H (set_status H i Satisfied None ob)"
      "ob \<in> set (obligations r)" "status (set_status H i Satisfied None ob) = Satisfied" by auto
    then show "d \<in> satisfied_ids H (update_status H i Satisfied None r)"
      unfolding satisfied_ids_def obligations_update_status set_map by blast
  qed (auto simp: satisfied_ids_def obligations_update_status split: if_splits)
  with assms show ?thesis by (auto simp: satisfied_ids_def known_ids_def)
qed

lemma satisfy_ready:
  assumes "registry_ok H r" and "ob \<in> set (obligations r)" and "is_fingerprint (obligation_id H ob)"
    and "set (dependency_ids ob) \<subseteq> satisfied_ids H r"
  shows "registry_with_status H r (obligation_id H ob) Satisfied None =
    Inr (update_status H (obligation_id H ob) Satisfied None r)"
proof -
  let ?i = "obligation_id H ob" and ?u = "update_status H (obligation_id H ob) Satisfied None r"
  have "obligation_id H dep = ?i \<or> status dep = Satisfied"
    if "x \<in> set (obligations r)" "dep \<in> set (obligations r)"
      "obligation_id H x = ?i \<or> status x = Satisfied" "obligation_id H dep \<in> set (dependency_ids x)" for x dep
  proof (cases "obligation_id H x = ?i")
    case True
    then have "x = ob" using obligation_unique [OF assms(1) that(1) assms(2)] by simp
    with that assms(4) have "obligation_id H dep \<in> satisfied_ids H r" by auto
    then show ?thesis using that(2) obligation_unique [OF assms(1)] unfolding satisfied_ids_def by auto
  next
    case False
    with that assms(1) show ?thesis unfolding registry_ok_def satisfied_closed_def by blast
  qed
  then have "satisfied_closed H (obligations ?u)"
    by (simp add: satisfied_closed_def obligations_update_status) blast
  then show ?thesis
    using assms by (auto simp: registry_with_status_Inr reason_fits_def known_ids_def)
qed

text \<open>Satisfying the obligations one after another.\<close>

fun satisfy_in_order :: "digest \<Rightarrow> obligation_registry \<Rightarrow> pystr list \<Rightarrow> obligation_registry res" where
  "satisfy_in_order H r [] = Inr r"
| "satisfy_in_order H r (i # is) =
     rbind (registry_with_status H r i Satisfied None) (\<lambda>r. satisfy_in_order H r is)"

lemma satisfy_in_order_ok:
  assumes "\<And>bs. is_fingerprint (H bs)" and "registry_ok H r" and "set is \<subseteq> set (known_ids H r)"
    and "\<forall>n < length is. set (deps_of (registry_graph H r) (is ! n)) \<subseteq> satisfied_ids H r \<union> set (take n is)"
  shows "\<exists>r'. satisfy_in_order H r is = Inr r' \<and> registry_ok H r' \<and>
    satisfied_ids H r' = satisfied_ids H r \<union> set is \<and> known_ids H r' = known_ids H r"
  using assms(2-4)
proof (induction "is" arbitrary: r)
  case (Cons i "is")
  from Cons.prems(2) obtain ob where ob: "ob \<in> set (obligations r)" "i = obligation_id H ob"
    by (auto simp: known_ids_def)
  let ?u = "update_status H i Satisfied None r"
  have "(i, dependency_ids ob) \<in> set (registry_graph H r)"
    using ob by (auto simp: registry_graph_def obligation_graph_def)
  then have "deps_of (registry_graph H r) i = dependency_ids ob"
    by (rule deps_of_mem [OF registry_graph_ok [OF Cons.prems(1)]])
  with Cons.prems(3) [rule_format, of 0] have "set (dependency_ids ob) \<subseteq> satisfied_ids H r" by simp
  moreover have "is_fingerprint (obligation_id H ob)"
    by (simp add: obligation_id_def obligation_identity_def domain_id_def assms(1))
  ultimately have step: "registry_with_status H r i Satisfied None = Inr ?u"
    using satisfy_ready [OF Cons.prems(1) ob(1)] ob(2) by simp
  then have ok: "registry_ok H ?u"
    using registry_with_status_Inr [OF Cons.prems(1)] update_status_ok [OF Cons.prems(1)] by blast
  have sat: "satisfied_ids H ?u = insert i (satisfied_ids H r)"
    using Cons.prems(2) by (simp add: satisfied_update)
  have "set (deps_of (registry_graph H ?u) (is ! n)) \<subseteq> satisfied_ids H ?u \<union> set (take n is)"
    if "n < length is" for n
    using Cons.prems(3) [rule_format, of "Suc n"] that sat by auto
  with Cons.IH [OF ok] Cons.prems(2) step sat show ?case by auto
qed simp

section \<open>Properties\<close>

lemma graph_of_obligations:
  "distinct (map (obligation_id H) obs) \<Longrightarrow> list_all (obligation_ok H) obs \<Longrightarrow> known_closed H obs \<Longrightarrow>
   graph_ok (obligation_graph H obs)"
  by (simp add: graph_ok_def obligation_graph_def list_all_iff obligation_ok_def comp_def known_closed_def image_image)

lemma edges_perm:
  assumes "graph_ok g" and "graph_ok g'" and "set g = set g'"
  shows "edges g = edges g'"
proof -
  have "(d, i) \<in> edges h \<longleftrightarrow> (\<exists>ds. (i, ds) \<in> set h \<and> d \<in> set ds)" if "graph_ok h" for d i and h :: "'a graph"
    using deps_of_mem [OF that] deps_of_in [of d h i] by (auto simp: edges_def)
  then show ?thesis using assms by auto
qed

text \<open>
  The examples use a digest that shows the length of its argument in its first character, so
  that distinct keys of distinct lengths get distinct identities.
\<close>

definition length_digest :: digest where
  "length_digest bs = (48 + length bs mod 10) # replicate 63 97"

lemma length_digest_fingerprint: "is_fingerprint (length_digest bs)"
  using mod_less_divisor [of 10 "length bs"]
  by (simp add: is_fingerprint_def length_digest_def list_all_iff hex_char_def in_range_def del: mod_less_divisor)

lemma length_digest_differ:
  assumes "length bs = length as + d" and "0 < d" and "d < 10"
  shows "length_digest as \<noteq> length_digest bs"
proof
  assume "length_digest as = length_digest bs"
  then have "length bs mod 10 = length as mod 10" by (simp add: length_digest_def)
  then have "10 dvd d" using assms(1) by (simp add: mod_eq_dvd_iff_nat)
  then show False using assms(2,3) dvd_imp_le by fastforce
qed

lemma length_ids_differ:
  assumes "jbytes b = jbytes a + d" and "0 < d" and "d < 10"
  shows "domain_id length_digest k a \<noteq> domain_id length_digest k b"
  unfolding domain_id_def
  by (rule length_digest_differ [OF _ assms(2,3)]) (use assms(1) in \<open>simp add: preimage_def jbytes_def\<close>)

definition example_first :: obligation where
  "example_first = \<lparr> ob_key = lit ''a'', description = lit ''first'', dependency_ids = [],
     status = Unsatisfied, block_reason = None \<rparr>"

definition example_second :: obligation where
  "example_second = \<lparr> ob_key = lit ''bb'', description = lit ''second'',
     dependency_ids = [obligation_identity length_digest (lit ''a'')],
     status = Unsatisfied, block_reason = None \<rparr>"

lemma example_ids:
  "obligation_id length_digest example_first = 51 # replicate 63 97"
  "obligation_id length_digest example_second = 52 # replicate 63 97"
  by (simp_all add: obligation_id_def obligation_identity_def domain_id_def preimage_def length_digest_def
      example_first_def example_second_def quote_def escape_char_def lit_def utf8_char_def)


definition example_registry :: obligation_registry where
  "example_registry = \<lparr> obligations = [example_first, example_second], max_obligations = 128 \<rparr>"

lemma example_obligations_ok: "list_all (obligation_ok length_digest) [example_first, example_second]"
proof -
  have desc: "is_record_text (lit ''first'')" "is_record_text (lit ''second'')"
    by (simp_all add: is_record_text_def strip_eq_self is_space_def max_record_text_bytes_def lit_def
        utf8_char_def is_surrogate_def)
  have sym: "is_symbol (lit ''a'')" "is_symbol (lit ''bb'')"
    by (simp_all add: lit_def symbol_char_def in_range_def)
  have dep: "dependency_ids example_second = [obligation_id length_digest example_first]"
    by (simp add: example_second_def obligation_id_def example_first_def)
  have "is_fingerprint (obligation_id length_digest example_first)"
    by (simp add: obligation_id_def obligation_identity_def domain_id_def length_digest_fingerprint)
  then show ?thesis
    using desc sym dep example_ids
    by (simp add: obligation_ok_def max_obligation_dependencies_def max_obligations_limit_def)
       (simp add: example_first_def example_second_def)
qed

lemma example_graph:
  "obligation_graph length_digest [example_first, example_second] =
     [(51 # replicate 63 97, []), (52 # replicate 63 97, [51 # replicate 63 97])]"
  using example_ids
  by (simp add: obligation_graph_def example_first_def example_second_def obligation_id_def)

lemma example_acyclic: "is_acyclic (obligation_graph length_digest [example_first, example_second])"
  unfolding example_graph
  by (simp add: is_acyclic_def topological_sort_def initial_ready_def indegrees_def dependents_def
      degree_def)

lemma example_registry_ok: "registry_ok length_digest example_registry"
proof -
  have "dependency_ids example_first = []" "dependency_ids example_second = [51 # replicate 63 97]"
    "status example_first = Unsatisfied" "status example_second = Unsatisfied"
    "ob_key example_first \<noteq> ob_key example_second"
    using example_ids(1) by (simp_all add: example_first_def example_second_def obligation_id_def lit_eq_iff)
  then show ?thesis
    using example_obligations_ok example_acyclic example_ids
    by (simp add: registry_ok_def example_registry_def known_ids_def max_obligations_limit_def
        known_closed_def satisfied_closed_def)
qed

text \<open>C30 [registry_accepts_exactly]. A registry is built from valid obligations exactly when it is within
  its bound, identities and keys are unique, every dependency is known, the dependency relation has
  no cycle (which is what the heap-driven sort decides) and no satisfied obligation has an
  unsatisfied dependency; it then holds the obligations sorted by identity.\<close>

theorem registry_accepts_exactly:
  assumes "list_all (obligation_ok H) obs"
  shows "registry_init H obs limit = Inr r \<longleftrightarrow>
    r = \<lparr> obligations = sort_key (obligation_id H) obs, max_obligations = limit \<rparr> \<and>
    0 < limit \<and> limit \<le> 128 \<and> int (length obs) \<le> limit \<and>
    distinct (map (obligation_id H) obs) \<and> distinct (map ob_key obs) \<and> known_closed H obs \<and>
    acyclic (edges (obligation_graph H obs)) \<and> satisfied_closed H obs"
proof -
  let ?obs = "sort_key (obligation_id H) obs"
  have dist: "distinct (map f ?obs) = distinct (map f obs)" for f :: "obligation \<Rightarrow> pystr"
    by (metis mset_eq_imp_distinct_iff mset_map mset_sort)
  have acyc: "is_acyclic (obligation_graph H ?obs) \<longleftrightarrow> acyclic (edges (obligation_graph H obs))"
    if "distinct (map (obligation_id H) obs)" "known_closed H obs"
  proof -
    have ok: "graph_ok (obligation_graph H obs)" "graph_ok (obligation_graph H ?obs)"
      using that assms dist known_closed_set [of ?obs obs]
      by (auto intro!: graph_of_obligations simp: list_all_iff)
    moreover have "set (obligation_graph H ?obs) = set (obligation_graph H obs)"
      by (simp add: obligation_graph_def)
    ultimately show ?thesis using edges_perm is_acyclic_iff(1) by metis
  qed
  show ?thesis
    unfolding registry_init_Inr [OF assms] registry_ok_def known_ids_def
    using assms acyc dist [of "obligation_id H"] dist [of ob_key]
      known_closed_set [of ?obs obs H] satisfied_closed_set [of ?obs obs H]
    by (auto simp: list_all_iff max_obligations_limit_def)
qed

theorem registry_accepts_exactly_witness:
  "\<exists>r. registry_init length_digest [example_second, example_first] 128 = Inr r \<and>
     obligations r = [example_first, example_second]"
proof -
  have perm: "sort_key (obligation_id length_digest) [example_second, example_first] = [example_first, example_second]"
    using example_ids by simp
  have ok: "list_all (obligation_ok length_digest) [example_second, example_first]"
    using example_obligations_ok by simp
  have "acyclic (edges (obligation_graph length_digest [example_first, example_second]))"
    using ob.dependencies_acyclic [OF example_registry_ok] by (simp add: registry_graph_def example_registry_def)
  moreover have "edges (obligation_graph length_digest [example_second, example_first]) =
      edges (obligation_graph length_digest [example_first, example_second])"
    using example_registry_ok ok
    by (intro edges_perm graph_of_obligations)
       (auto simp: registry_ok_def example_registry_def known_ids_def known_closed_def obligation_graph_def)
  ultimately show ?thesis
    using registry_accepts_exactly [OF ok, of 128] example_registry_ok perm
      satisfied_closed_set [of "[example_second, example_first]" "[example_first, example_second]" length_digest]
      known_closed_set [of "[example_second, example_first]" "[example_first, example_second]" length_digest]
    by (auto simp: registry_ok_def example_registry_def known_ids_def insert_commute)
qed

text \<open>The order in which obligations are supplied changes neither the
  registry built nor the exception raised.\<close>

theorem registry_order_irrelevant:
  assumes "mset obs' = mset obs"
  shows "registry_init H obs' limit = registry_init H obs limit"
  using assms by (rule registry_init_permutes)

theorem registry_order_irrelevant_witness:
  "registry_init sha256_hex [example_second, example_first] 2 =
   registry_init sha256_hex [example_first, example_second] 2"
  by (rule registry_order_irrelevant) simp

text \<open>C31 [readiness_exact]. In a valid registry an obligation is reported ready exactly when it is
  unsatisfied, not blocked, and every obligation it transitively depends on is satisfied, although
  only direct dependencies are inspected.\<close>

theorem readiness_exact:
  assumes "registry_ok H r" and "ob \<in> set (obligations r)" and "is_fingerprint (obligation_id H ob)"
  shows "readiness H r (obligation_id H ob) = Inr Ready \<longleftrightarrow>
    status ob = Unsatisfied \<and> prerequisites H r (obligation_id H ob) \<subseteq> satisfied_ids H r"
  using readiness_eq [OF assms] direct_prerequisites [OF assms(1,2)]
  by (cases "status ob") auto

theorem readiness_exact_witness:
  "readiness length_digest example_registry (obligation_id length_digest example_first) = Inr Ready \<longleftrightarrow>
   prerequisites length_digest example_registry (obligation_id length_digest example_first) \<subseteq>
     satisfied_ids length_digest example_registry"
  using readiness_exact [OF example_registry_ok, of example_first]
  by (simp add: example_registry_def obligation_id_def obligation_identity_def domain_id_def
      length_digest_fingerprint example_first_def)

lemma topological_order_complete:
  assumes "registry_ok H r"
  shows "distinct (topological_ids H r)" and "set (topological_ids H r) = set (known_ids H r)"
    and "ordered (registry_graph H r) (topological_ids H r)"
proof -
  have "fst ` set (registry_graph H r) = set (known_ids H r)"
    by (simp add: registry_graph_def obligation_graph_def known_ids_def image_image)
  then show "distinct (topological_ids H r)" "set (topological_ids H r) = set (known_ids H r)"
    "ordered (registry_graph H r) (topological_ids H r)"
    using ob.topological_order [OF assms] by (simp_all add: topological_ids_def registry_graph_def)
qed

lemma satisfied_known: "satisfied_ids H r \<subseteq> set (known_ids H r)"
  by (auto simp: satisfied_ids_def known_ids_def)

lemma ready_until_satisfied:
  assumes "\<And>bs. is_fingerprint (H bs)" and "registry_ok H r" and "\<forall>ob \<in> set (obligations r). status ob \<noteq> Blocked"
  shows "\<exists>is. ready_ids H r = Inr is \<and> (is = [] \<longleftrightarrow> satisfied_ids H r = set (known_ids H r))"
proof -
  let ?U = "set (known_ids H r) - satisfied_ids H r"
  obtain "is" where ready: "ready_ids H r = Inr is" "\<And>i. i \<in> set is \<longleftrightarrow> (\<exists>ob \<in> set (obligations r). obligation_id H ob = i \<and>
      status ob = Unsatisfied \<and> set (dependency_ids ob) \<subseteq> satisfied_ids H r)"
    using ready_ids_eq [OF assms(2,1)] by metis
  have "i \<in> ?U" if "i \<in> set is" for i
  proof -
    from that ready(2) obtain ob where ob: "ob \<in> set (obligations r)" "obligation_id H ob = i" "status ob = Unsatisfied" by blast
    then have "i \<notin> satisfied_ids H r" using obligation_unique [OF assms(2)] by (fastforce simp: satisfied_ids_def)
    with ob show ?thesis by (auto simp: known_ids_def)
  qed
  moreover have "is \<noteq> []" if u: "u \<in> ?U" for u
  proof -
    obtain i where i: "i \<in> ?U" "\<And>d. (d, i) \<in> edges (registry_graph H r) \<Longrightarrow> d \<notin> ?U"
      using wfE_min [OF ob.dependencies_wf [OF assms(2)]] u by metis
    then obtain ob where ob: "ob \<in> set (obligations r)" "i = obligation_id H ob" "status ob = Unsatisfied"
      using assms(3) by (auto simp: known_ids_def satisfied_ids_def) (metis obligation_status.exhaust)
    have "set (dependency_ids ob) \<subseteq> satisfied_ids H r"
    proof
      fix d assume d: "d \<in> set (dependency_ids ob)"
      then have "(d, i) \<in> edges (registry_graph H r)" using ob by (auto simp: edges_registry [OF assms(2)])
      moreover have "d \<in> set (known_ids H r)"
        using d ob assms(2) by (auto simp: registry_ok_def known_closed_def known_ids_def)
      ultimately show "d \<in> satisfied_ids H r" using i(2) by blast
    qed
    with ready(2) ob show ?thesis by force
  qed
  ultimately have "is = [] \<longleftrightarrow> satisfied_ids H r = set (known_ids H r)"
    using satisfied_known by (cases "is") fastforce+
  with ready(1) show ?thesis by blast
qed

lemma satisfy_in_order_unblocked:
  assumes "satisfy_in_order H r is = Inr r'" and "registry_ok H r" and "\<forall>ob \<in> set (obligations r). status ob \<noteq> Blocked"
  shows "\<forall>ob \<in> set (obligations r'). status ob \<noteq> Blocked"
  using assms
proof (induction "is" arbitrary: r)
  case (Cons i "is")
  from Cons.prems(1) obtain u where step: "registry_with_status H r i Satisfied None = Inr u" "satisfy_in_order H u is = Inr r'"
    unfolding satisfy_in_order.simps rbind_eq_Inr by blast
  note status = registry_with_status_Inr [OF Cons.prems(2), THEN iffD1, OF step(1)]
  then have u: "u = update_status H i Satisfied None r" by blast
  have "registry_ok H u" unfolding u update_status_ok [OF Cons.prems(2)] using status by blast
  moreover have "\<forall>ob \<in> set (obligations u). status ob \<noteq> Blocked"
    using Cons.prems(3) by (auto simp: u obligations_update_status set_status_def)
  ultimately show ?case using Cons.IH step(2) by blast
qed simp

text \<open>C32 [unblocked_registry_progresses]. Dependencies alone never deadlock a registry without explicitly
  blocked obligations. Its topological order names every obligation once; satisfying the obligations
  one by one in that order, each by a status update, is accepted at every step and leaves a valid
  registry whose satisfied obligations are those satisfied before and those updated so far; and as long
  as one is left unsatisfied some obligation is ready. At the end of the order all are satisfied.\<close>

theorem unblocked_registry_progresses:
  assumes "\<And>bs. is_fingerprint (H bs)" and "registry_ok H r"
    and "\<forall>ob \<in> set (obligations r). status ob \<noteq> Blocked"
  shows "distinct (topological_ids H r) \<and> set (topological_ids H r) = set (known_ids H r) \<and>
    (\<forall>n \<le> length (topological_ids H r). \<exists>r' is.
       satisfy_in_order H r (take n (topological_ids H r)) = Inr r' \<and> registry_ok H r' \<and>
       satisfied_ids H r' = satisfied_ids H r \<union> set (take n (topological_ids H r)) \<and>
       ready_ids H r' = Inr is \<and> (is = [] \<longleftrightarrow> satisfied_ids H r' = set (known_ids H r)))"
proof -
  let ?ids = "topological_ids H r"
  note order = topological_order_complete [OF assms(2)]
  have "\<exists>r' is. satisfy_in_order H r (take n ?ids) = Inr r' \<and> registry_ok H r' \<and>
       satisfied_ids H r' = satisfied_ids H r \<union> set (take n ?ids) \<and>
       ready_ids H r' = Inr is \<and> (is = [] \<longleftrightarrow> satisfied_ids H r' = set (known_ids H r))" for n
  proof -
    have "set (take n ?ids) \<subseteq> set (known_ids H r)" using order(2) set_take_subset by fastforce
    moreover have "\<forall>m < length (take n ?ids). set (deps_of (registry_graph H r) (take n ?ids ! m)) \<subseteq>
        satisfied_ids H r \<union> set (take m (take n ?ids))"
      using order(3) unfolding ordered_def by (simp add: min_absorb1) blast
    ultimately obtain r' where r': "satisfy_in_order H r (take n ?ids) = Inr r'" "registry_ok H r'"
      "satisfied_ids H r' = satisfied_ids H r \<union> set (take n ?ids)" "known_ids H r' = known_ids H r"
      using satisfy_in_order_ok [OF assms(1,2)] by metis
    with ready_until_satisfied [OF assms(1) r'(2) satisfy_in_order_unblocked [OF r'(1) assms(2,3)]] show ?thesis by metis
  qed
  with order(1,2) show ?thesis by blast
qed

theorem unblocked_registry_progresses_witness:
  "\<exists>r'. satisfy_in_order length_digest example_registry (topological_ids length_digest example_registry) = Inr r' \<and>
     ready_ids length_digest r' = Inr []"
proof -
  have "\<forall>ob \<in> set (obligations example_registry). status ob \<noteq> Blocked"
    by (simp add: example_registry_def example_first_def example_second_def)
  note progress = unblocked_registry_progresses [OF length_digest_fingerprint example_registry_ok this]
  then obtain r' "is" where r': "satisfy_in_order length_digest example_registry (topological_ids length_digest example_registry) = Inr r'"
    "ready_ids length_digest r' = Inr is"
    "satisfied_ids length_digest r' =
       satisfied_ids length_digest example_registry \<union> set (topological_ids length_digest example_registry)"
    "is = [] \<longleftrightarrow> satisfied_ids length_digest r' = set (known_ids length_digest example_registry)"
    by (metis order_refl take_all)
  have "set (topological_ids length_digest example_registry) = set (known_ids length_digest example_registry)"
    using progress by blast
  then have "is = []" using r'(3,4) satisfied_known [of length_digest example_registry] by blast
  with r'(1,2) show ?thesis by blast
qed

text \<open>C33 [status_update_exact]. Updating a status succeeds exactly for a known identity, with a block
  reason given if and only if the new status is blocked, and when no satisfied obligation is left
  with an unsatisfied dependency; the result is the same registry with that one status changed, and
  is valid again.\<close>

theorem status_update_exact:
  assumes "registry_ok H r"
  shows "(registry_with_status H r i st reason = Inr r' \<longleftrightarrow>
      is_fingerprint i \<and> i \<in> set (known_ids H r) \<and> reason_fits st reason \<and>
      satisfied_closed H (obligations (update_status H i st reason r)) \<and>
      r' = update_status H i st reason r) \<and>
    (registry_with_status H r i st reason = Inr r' \<longrightarrow> registry_ok H r')"
  using registry_with_status_Inr [OF assms] update_status_ok [OF assms] by auto

theorem status_update_exact_witness:
  "registry_ok length_digest
     (update_status length_digest (obligation_id length_digest example_first) Satisfied None example_registry)"
proof -
  have "registry_with_status length_digest example_registry (obligation_id length_digest example_first)
      Satisfied None =
    Inr (update_status length_digest (obligation_id length_digest example_first) Satisfied None example_registry)"
    by (rule satisfy_ready [OF example_registry_ok])
       (simp_all add: example_registry_def obligation_id_def obligation_identity_def domain_id_def
         length_digest_fingerprint example_first_def)
  with status_update_exact [OF example_registry_ok] show ?thesis by blast
qed

end
