(* ===== verification/Epistemic.thy ===== *)
theory Epistemic
  imports Records Dag
begin

text \<open>
  Model of \<open>src/ibae/epistemic.py\<close>: what the agent may treat as observed, derived, merely
  proposed by a model, or unknown. An omitted \<open>value\<close> argument (\<open>_UNSET\<close>) is \<open>None\<close>.
\<close>

section \<open>Records\<close>

definition max_epistemic_records :: int where "max_epistemic_records = 256"
definition max_epistemic_dependencies :: int where
  "max_epistemic_dependencies = max_epistemic_records - 1"

datatype epistemic_class = Observed | Derived | ModelProposed | Unknown

fun class_value :: "epistemic_class \<Rightarrow> pystr" where
  "class_value Observed = lit ''observed''"
| "class_value Derived = lit ''derived''"
| "class_value ModelProposed = lit ''model_proposed''"
| "class_value Unknown = lit ''unknown''"

record provenance =
  pv_source :: pystr
  source_identity :: pystr
  dependency_identity :: pystr
  reused :: bool

definition provenance_init :: "provenance \<Rightarrow> provenance res" where
  "provenance_init p =
     rbind (require_symbol (pv_source p))
       (\<lambda>_. rbind (require_fingerprint (source_identity p))
       (\<lambda>_. rbind (require_fingerprint (dependency_identity p)) (\<lambda>_. Inr p)))"

definition provenance_record :: "provenance \<Rightarrow> json" where
  "provenance_record p =
     JObj [(lit ''dependency_identity'', JStr (dependency_identity p)),
           (lit ''reused'', JBool (reused p)),
           (lit ''source'', JStr (pv_source p)),
           (lit ''source_identity'', JStr (source_identity p))]"

definition provenance_identity :: "provenance \<Rightarrow> json" where
  "provenance_identity p =
     JObj [(lit ''dependency_identity'', JStr (dependency_identity p)),
           (lit ''source'', JStr (pv_source p)),
           (lit ''source_identity'', JStr (source_identity p))]"

record epistemic_record =
  ep_key :: pystr
  ep_class :: epistemic_class
  ep_dependencies :: "pystr list"
  ep_provenance :: "provenance option"
  ep_value :: "canonical_value option"

definition canonical_class_value ::
  "epistemic_class \<Rightarrow> pyval option \<Rightarrow> provenance option \<Rightarrow> pystr list \<Rightarrow> canonical_value option res"
where
  "canonical_class_value cls v prov deps =
     (if cls = Unknown
      then rbind (guard (v = None) (ValueErr ''unknown epistemic records cannot carry a value''))
             (\<lambda>_. rbind (guard (prov = None \<and> deps = [])
                    (ValueErr ''unknown epistemic records cannot carry provenance or dependencies''))
             (\<lambda>_. Inr None))
      else (case v of
              None \<Rightarrow> Inl (ValueErr ''known epistemic records require a value'')
            | Some x \<Rightarrow> rbind (canonical_value_from_value x) (\<lambda>c. Inr (Some c))))"

definition check_class_links :: "epistemic_class \<Rightarrow> provenance option \<Rightarrow> pystr list \<Rightarrow> unit res" where
  "check_class_links cls prov deps =
     rbind (if cls = Observed
            then rbind (guard (prov \<noteq> None) (ValueErr ''observed records require observation provenance''))
                   (\<lambda>_. guard (deps = []) (ValueErr ''observed dependencies belong in observation provenance''))
            else guard (prov = None) (ValueErr ''only observed records may carry observation provenance''))
       (\<lambda>_. guard (cls = Derived \<or> deps = []) (ValueErr ''only derived records may declare dependencies''))"

definition epistemic_init ::
  "pystr \<Rightarrow> epistemic_class \<Rightarrow> pyval option \<Rightarrow> pystr list \<Rightarrow> provenance option \<Rightarrow> epistemic_record res"
where
  "epistemic_init key cls v dependencies prov =
     rbind (require_symbol key)
       (\<lambda>_. rbind (materialize max_epistemic_dependencies dependencies)
       (\<lambda>ds. let deps = sort ds in
          rbind (guard (distinct deps) (ValueErr ''epistemic dependencies must be unique''))
       (\<lambda>_. rbind (for_each require_symbol deps)
       (\<lambda>_. rbind (guard (key \<notin> set deps) (ValueErr ''an epistemic record cannot depend on itself''))
       (\<lambda>_. rbind (canonical_class_value cls v prov deps)
       (\<lambda>c. rbind (check_class_links cls prov deps)
       (\<lambda>_. Inr \<lparr> ep_key = key, ep_class = cls, ep_dependencies = deps,
                  ep_provenance = prov, ep_value = c \<rparr>)))))))"

definition is_known :: "epistemic_record \<Rightarrow> bool" where
  "is_known r \<longleftrightarrow> ep_class r \<noteq> Unknown"

definition is_resolved :: "epistemic_record \<Rightarrow> bool" where
  "is_resolved r \<longleftrightarrow> ep_class r = Observed \<or> ep_class r = Derived"

definition record_value :: "epistemic_record \<Rightarrow> json res" where
  "record_value r =
     (case ep_value r of
        None \<Rightarrow> Inl (ValueErr ''unknown epistemic records have no value'')
      | Some c \<Rightarrow> to_value c)"

definition record_with :: "json \<Rightarrow> epistemic_record \<Rightarrow> json" where
  "record_with prov r =
     JObj ([(lit ''dependencies'', JArr (map JStr (ep_dependencies r))),
            (lit ''epistemic_class'', JStr (class_value (ep_class r))),
            (lit ''key'', JStr (ep_key r)),
            (lit ''provenance'', prov)] @
           (case ep_value r of None \<Rightarrow> [] | Some c \<Rightarrow> [(lit ''value'', stored_value c)]))"

definition epistemic_canonical_record :: "epistemic_record \<Rightarrow> json" where
  "epistemic_canonical_record r =
     record_with (case ep_provenance r of None \<Rightarrow> JNull | Some p \<Rightarrow> provenance_record p) r"

definition epistemic_identity_record :: "epistemic_record \<Rightarrow> json" where
  "epistemic_identity_record r =
     record_with (case ep_provenance r of None \<Rightarrow> JNull | Some p \<Rightarrow> provenance_identity p) r"

definition record_id :: "digest \<Rightarrow> epistemic_record \<Rightarrow> pystr" where
  "record_id H r = domain_id H ''ibae.epistemic-record.v1'' (epistemic_identity_record r)"

section \<open>State\<close>

record epistemic_state =
  records :: "epistemic_record list"
  max_records :: int

definition epistemic_graph :: "epistemic_record list \<Rightarrow> pystr graph" where
  "epistemic_graph rs = map (\<lambda>r. (ep_key r, ep_dependencies r)) rs"

definition by_key :: "epistemic_record list \<Rightarrow> pystr \<Rightarrow> epistemic_record res" where
  "by_key rs k =
     (case map_of (map (\<lambda>r. (ep_key r, r)) rs) k of
        Some r \<Rightarrow> Inr r
      | None \<Rightarrow> Inl (KeyErr ''epistemic key''))"

definition unresolved_dependencies :: "epistemic_record list \<Rightarrow> epistemic_record \<Rightarrow> pystr list res" where
  "unresolved_dependencies rs r =
     filter_res (\<lambda>d. rbind (by_key rs d) (\<lambda>x. Inr (\<not> is_resolved x))) (ep_dependencies r)"

definition check_known_keys :: "epistemic_record list \<Rightarrow> unit res" where
  "check_known_keys rs =
     for_each (\<lambda>r. guard (set (ep_dependencies r) \<subseteq> set (map ep_key rs)) (ValueErr ''unknown dependencies'')) rs"

definition epistemic_validate_acyclic :: "epistemic_record list \<Rightarrow> unit res" where
  "epistemic_validate_acyclic rs =
     guard (is_acyclic (epistemic_graph rs)) (ValueErr ''epistemic dependency cycle detected'')"

definition check_resolved_dependencies :: "epistemic_record list \<Rightarrow> unit res" where
  "check_resolved_dependencies rs =
     for_each (\<lambda>r. rbind (unresolved_dependencies rs r)
       (\<lambda>us. guard (us = []) (ValueErr ''derived record has unresolved dependencies''))) rs"

definition epistemic_state_init :: "epistemic_record list \<Rightarrow> int \<Rightarrow> epistemic_state res" where
  "epistemic_state_init supplied limit =
     rbind (require_bounded_positive_int limit max_epistemic_records)
       (\<lambda>_. rbind (materialize limit supplied)
       (\<lambda>supplied. let rs = sort_key ep_key supplied in
          rbind (guard (int (length rs) \<le> limit) (ValueErr ''epistemic state exceeds max_records''))
       (\<lambda>_. rbind (guard (distinct (map ep_key rs)) (ValueErr ''epistemic record keys must be unique''))
       (\<lambda>_. rbind (check_known_keys rs)
       (\<lambda>_. rbind (epistemic_validate_acyclic rs)
       (\<lambda>_. rbind (check_resolved_dependencies rs)
       (\<lambda>_. Inr \<lparr> records = rs, max_records = limit \<rparr>)))))))"

definition epistemic_from_iterable :: "epistemic_record list \<Rightarrow> int \<Rightarrow> epistemic_state res" where
  "epistemic_from_iterable supplied limit =
     rbind (require_bounded_positive_int limit max_epistemic_records)
       (\<lambda>_. rbind (materialize limit supplied) (\<lambda>rs. epistemic_state_init rs limit))"

definition epistemic_get :: "epistemic_state \<Rightarrow> pystr \<Rightarrow> epistemic_record res" where
  "epistemic_get s k = rbind (require_symbol k) (\<lambda>_. by_key (records s) k)"

definition key_unresolved :: "epistemic_record list \<Rightarrow> pystr \<Rightarrow> bool" where
  "key_unresolved rs k = (case by_key rs k of Inl _ \<Rightarrow> True | Inr r \<Rightarrow> \<not> is_resolved r)"

definition unresolved_keys :: "epistemic_state \<Rightarrow> pystr list \<Rightarrow> pystr list res" where
  "unresolved_keys s keys =
     rbind (materialize max_epistemic_records keys)
       (\<lambda>ks. Inr (sorted_set (filter (key_unresolved (records s)) ks)))"

definition dependency_digest :: "digest \<Rightarrow> epistemic_state \<Rightarrow> pystr list \<Rightarrow> pystr res" where
  "dependency_digest H s keys =
     rbind (materialize max_epistemic_records keys)
       (\<lambda>ks. let normalized = sort ks in
          rbind (guard (distinct normalized) (ValueErr ''dependency keys must be unique''))
       (\<lambda>_. rbind (unresolved_keys s normalized)
       (\<lambda>us. rbind (guard (us = []) (KeyErr ''unresolved''))
       (\<lambda>_. rbind (map_res (by_key (records s))
                 (sort (dependency_closure (epistemic_graph (records s)) normalized)))
       (\<lambda>rs. Inr (domain_id H ''ibae.epistemic-dependencies.v1''
                (JArr (map epistemic_identity_record rs))))))))"

definition epistemic_state_record :: "epistemic_state \<Rightarrow> json" where
  "epistemic_state_record s =
     JObj [(lit ''max_records'', JInt (max_records s)),
           (lit ''records'', JArr (map epistemic_canonical_record (records s)))]"

definition epistemic_state_identity :: "epistemic_state \<Rightarrow> json" where
  "epistemic_state_identity s =
     JObj [(lit ''max_records'', JInt (max_records s)),
           (lit ''records'', JArr (map epistemic_identity_record
              (filter (\<lambda>r. ep_class r \<noteq> ModelProposed) (records s))))]"

definition projection :: "epistemic_state \<Rightarrow> json" where
  "projection s =
     JObj (map (\<lambda>cls. (class_value cls,
                 JArr (map epistemic_canonical_record (filter (\<lambda>r. ep_class r = cls) (records s)))))
           [Observed, Derived, ModelProposed, Unknown])"

section \<open>What the constructors accept\<close>

definition class_links_ok :: "epistemic_record \<Rightarrow> bool" where
  "class_links_ok r \<longleftrightarrow>
     (ep_class r = Observed \<longleftrightarrow> ep_provenance r \<noteq> None) \<and>
     (ep_dependencies r \<noteq> [] \<longrightarrow> ep_class r = Derived) \<and>
     (ep_class r = Unknown \<longleftrightarrow> ep_value r = None)"

definition epistemic_ok :: "epistemic_record \<Rightarrow> bool" where
  "epistemic_ok r \<longleftrightarrow>
     is_symbol (ep_key r) \<and> int (length (ep_dependencies r)) \<le> max_epistemic_dependencies \<and>
     sorted (ep_dependencies r) \<and> distinct (ep_dependencies r) \<and>
     list_all is_symbol (ep_dependencies r) \<and> ep_key r \<notin> set (ep_dependencies r) \<and> class_links_ok r \<and>
     (case ep_value r of None \<Rightarrow> True | Some c \<Rightarrow> canonical_value_init (canonical_text c) = Inr c)"

lemma epistemic_init_ok:
  assumes "epistemic_init key cls v dependencies prov = Inr r"
  shows "epistemic_ok r \<and> ep_key r = key \<and> ep_class r = cls \<and> ep_dependencies r = sort dependencies \<and>
    ep_provenance r = prov"
proof -
  have from_value: "canonical_value_init (canonical_text c) = Inr c" if "canonical_value_from_value x = Inr c" for x c
    using that text_from_value_validate by (simp add: canonical_value_from_value_def canonical_value_init_def)
  show ?thesis
    using assms
    by (auto simp: epistemic_init_def epistemic_ok_def class_links_ok_def canonical_class_value_def
        check_class_links_def res_simps accept_simps Let_def list_all_iff max_epistemic_dependencies_def
        max_epistemic_records_def dest: from_value split: if_splits option.splits)
qed

lemma stored_value_decodes:
  "epistemic_ok r \<Longrightarrow> ep_value r = Some c \<Longrightarrow> to_value c = Inr (stored_value c)"
proof -
  assume "epistemic_ok r" "ep_value r = Some c"
  then have "validate_text value_profile (canonical_text c) = Inr c"
    by (simp add: epistemic_ok_def canonical_value_init_def)
  from validate_text_Inr [OF this] show ?thesis by (auto simp: stored_value_def)
qed

definition keys_known :: "epistemic_record list \<Rightarrow> bool" where
  "keys_known rs \<longleftrightarrow> (\<forall>r \<in> set rs. set (ep_dependencies r) \<subseteq> set (map ep_key rs))"

definition resolved_closed :: "epistemic_record list \<Rightarrow> bool" where
  "resolved_closed rs \<longleftrightarrow>
     (\<forall>r \<in> set rs. \<forall>x \<in> set rs. ep_key x \<in> set (ep_dependencies r) \<longrightarrow> is_resolved x)"

definition state_ok :: "epistemic_state \<Rightarrow> bool" where
  "state_ok s \<longleftrightarrow>
     0 < max_records s \<and> max_records s \<le> max_epistemic_records \<and>
     int (length (records s)) \<le> max_records s \<and> list_all epistemic_ok (records s) \<and>
     sorted (map ep_key (records s)) \<and> distinct (map ep_key (records s)) \<and>
     keys_known (records s) \<and> is_acyclic (epistemic_graph (records s)) \<and> resolved_closed (records s)"

lemma by_key_Inr: "by_key rs k = Inr r \<Longrightarrow> r \<in> set rs \<and> ep_key r = k"
  by (auto simp: by_key_def split: option.splits dest!: map_of_SomeD)

lemma by_key_mem: "distinct (map ep_key rs) \<Longrightarrow> r \<in> set rs \<Longrightarrow> by_key rs (ep_key r) = Inr r"
  by (simp add: by_key_def map_of_keyed)

lemma record_unique:
  "distinct (map ep_key rs) \<Longrightarrow> r \<in> set rs \<Longrightarrow> x \<in> set rs \<Longrightarrow> ep_key r = ep_key x \<Longrightarrow> r = x"
  by (auto simp: distinct_map inj_on_def)

lemma check_known_keys_Inr: "check_known_keys rs = Inr u \<longleftrightarrow> keys_known rs"
  by (simp add: check_known_keys_def keys_known_def res_simps)

lemma check_resolved_Inr:
  assumes "distinct (map ep_key rs)" and "keys_known rs"
  shows "check_resolved_dependencies rs = Inr u \<longleftrightarrow> resolved_closed rs"
proof -
  have eq: "unresolved_dependencies rs r = Inr (filter (\<lambda>d. \<exists>x \<in> set rs. ep_key x = d \<and> \<not> is_resolved x) (ep_dependencies r))"
    if "r \<in> set rs" for r
    unfolding unresolved_dependencies_def
  proof (rule filter_res_total)
    fix d assume "d \<in> set (ep_dependencies r)"
    with that assms(2) obtain x where x: "x \<in> set rs" "d = ep_key x" by (fastforce simp: keys_known_def)
    then have "(\<exists>y \<in> set rs. ep_key y = d \<and> \<not> is_resolved y) \<longleftrightarrow> \<not> is_resolved x"
      using record_unique [OF assms(1)] by blast
    then show "rbind (by_key rs d) (\<lambda>x. Inr (\<not> is_resolved x)) = Inr (\<exists>x \<in> set rs. ep_key x = d \<and> \<not> is_resolved x)"
      using x by_key_mem [OF assms(1)] by simp
  qed
  have "check_resolved_dependencies rs = Inr u \<longleftrightarrow>
      (\<forall>r \<in> set rs. filter (\<lambda>d. \<exists>x \<in> set rs. ep_key x = d \<and> \<not> is_resolved x) (ep_dependencies r) = [])"
    by (simp add: check_resolved_dependencies_def for_each_eq_Inr eq guard_def)
  also have "\<dots> \<longleftrightarrow> resolved_closed rs"
    by (simp add: filter_empty_conv resolved_closed_def) blast
  finally show ?thesis .
qed

lemma epistemic_state_init_Inr:
  assumes "list_all epistemic_ok rs"
  shows "epistemic_state_init rs limit = Inr s \<longleftrightarrow>
    s = \<lparr> records = sort_key ep_key rs, max_records = limit \<rparr> \<and> state_ok s"
proof -
  let ?rs = "sort_key ep_key rs"
  have "sorted (map ep_key ?rs)" by simp
  moreover have "list_all epistemic_ok ?rs" using assms by (simp add: list_all_iff)
  ultimately show ?thesis
    using check_resolved_Inr [of ?rs]
    by (auto simp: epistemic_state_init_def state_ok_def res_simps accept_simps Let_def
        check_known_keys_Inr epistemic_validate_acyclic_def max_epistemic_records_def)
qed

definition state_graph :: "epistemic_state \<Rightarrow> pystr graph" where
  "state_graph s = epistemic_graph (records s)"

lemma fst_state_graph: "fst ` set (state_graph s) = ep_key ` set (records s)"
  by (simp add: state_graph_def epistemic_graph_def image_image)

lemma state_graph_ok: "state_ok s \<Longrightarrow> graph_ok (state_graph s)"
  by (simp add: state_ok_def graph_ok_def state_graph_def epistemic_graph_def list_all_iff
      epistemic_ok_def comp_def keys_known_def image_image)

interpretation ep: validated_graph state_ok state_graph
proof
  fix s assume "state_ok s"
  then show "graph_ok (state_graph s)" and "is_acyclic (state_graph s)"
    by (simp_all add: state_graph_ok) (simp add: state_ok_def state_graph_def)
qed

section \<open>Only resolved records support conclusions\<close>

definition resolved_keys :: "epistemic_state \<Rightarrow> pystr set" where
  "resolved_keys s = ep_key ` {r \<in> set (records s). is_resolved r}"

lemma edges_state:
  assumes "state_ok s"
  shows "(d, k) \<in> edges (state_graph s) \<longleftrightarrow>
    (\<exists>r \<in> set (records s). ep_key r = k \<and> d \<in> set (ep_dependencies r))"
proof -
  have "(k, ds) \<in> set (state_graph s) \<longleftrightarrow> (\<exists>r \<in> set (records s). ep_key r = k \<and> ep_dependencies r = ds)" for ds
    by (auto simp: state_graph_def epistemic_graph_def)
  moreover have "(d, k) \<in> edges (state_graph s) \<longleftrightarrow> (\<exists>ds. (k, ds) \<in> set (state_graph s) \<and> d \<in> set ds)"
    using deps_of_mem [OF state_graph_ok [OF assms]] deps_of_in [of d "state_graph s" k]
    by (auto simp: edges_def)
  ultimately show ?thesis by auto
qed

lemma resolved_edge:
  assumes "state_ok s" and "(d, k) \<in> edges (state_graph s)"
  shows "d \<in> resolved_keys s \<and> k \<in> resolved_keys s"
proof -
  from assms obtain r where r: "r \<in> set (records s)" "ep_key r = k" "d \<in> set (ep_dependencies r)"
    by (auto simp: edges_state)
  then obtain x where x: "x \<in> set (records s)" "ep_key x = d"
    using assms(1) by (fastforce simp: state_ok_def keys_known_def)
  have "is_resolved x"
    using assms(1) r x unfolding state_ok_def resolved_closed_def by blast
  moreover have "is_resolved r"
    using assms(1) r by (auto simp: state_ok_def list_all_iff epistemic_ok_def class_links_ok_def is_resolved_def)
  ultimately show ?thesis using r x by (auto simp: resolved_keys_def)
qed

lemma resolved_reachable:
  "state_ok s \<Longrightarrow> (d, k) \<in> (edges (state_graph s))\<^sup>+ \<Longrightarrow> d \<in> resolved_keys s"
  by (erule converse_tranclE) (auto dest: resolved_edge)

lemma key_unresolved_iff:
  "state_ok s \<Longrightarrow> key_unresolved (records s) k \<longleftrightarrow> k \<notin> resolved_keys s"
proof -
  assume ok: "state_ok s"
  then have dist: "distinct (map ep_key (records s))" by (simp add: state_ok_def)
  show ?thesis
  proof (cases "by_key (records s) k")
    case (Inl e)
    then have "k \<notin> ep_key ` set (records s)" using by_key_mem [OF dist] by force
    with Inl show ?thesis by (auto simp: key_unresolved_def resolved_keys_def)
  next
    case (Inr r)
    then have "r \<in> set (records s)" "ep_key r = k" using by_key_Inr by auto
    with Inr record_unique [OF dist] show ?thesis
      by (auto simp: key_unresolved_def resolved_keys_def)
  qed
qed

section \<open>Dependency digests\<close>

definition support :: "epistemic_state \<Rightarrow> pystr list \<Rightarrow> pystr set" where
  "support s keys = {d. \<exists>k \<in> set keys. (d, k) \<in> (edges (state_graph s))\<^sup>*}"

definition support_records :: "epistemic_state \<Rightarrow> pystr list \<Rightarrow> epistemic_record list" where
  "support_records s keys = filter (\<lambda>r. ep_key r \<in> support s keys) (records s)"

lemma support_subset: "state_ok s \<Longrightarrow> set keys \<subseteq> resolved_keys s \<Longrightarrow> support s keys \<subseteq> resolved_keys s"
  using resolved_reachable by (fastforce simp: support_def rtrancl_eq_or_trancl)

lemma support_lookup:
  assumes "state_ok s" and "set keys \<subseteq> resolved_keys s" and "distinct keys"
  shows "map_res (by_key (records s)) (sort (dependency_closure (epistemic_graph (records s)) keys)) =
    Inr (support_records s keys)"
proof -
  let ?ks = "sort (dependency_closure (epistemic_graph (records s)) keys)"
  have dist: "distinct (map ep_key (records s))" and sorted: "sorted (map ep_key (records s))"
    using assms(1) by (simp_all add: state_ok_def)
  have ks: "set ?ks = support s keys" "distinct ?ks"
    using assms(3) by (simp_all add: set_dependency_closure distinct_dependency_closure support_def state_graph_def)
  have sub: "support s keys \<subseteq> ep_key ` set (records s)"
    using support_subset [OF assms(1,2)] by (auto simp: resolved_keys_def)
  have "set (map ep_key (support_records s keys)) = support s keys"
    using sub by (auto simp: support_records_def)
  moreover have "sorted (map ep_key (support_records s keys))" "distinct (map ep_key (support_records s keys))"
    using sorted dist by (simp_all add: support_records_def sorted_filter distinct_map_filter)
  ultimately have eq: "?ks = map ep_key (support_records s keys)"
    using ks by (metis sorted_distinct_set_unique sorted_sort)
  have "list_all2 (\<lambda>k r. by_key (records s) k = Inr r) (map ep_key (support_records s keys)) (support_records s keys)"
    by (auto simp: list_all2_map1 list_all2_same support_records_def by_key_mem [OF dist])
  then show ?thesis unfolding eq map_res_eq_Inr .
qed

lemma dependency_digest_Inr:
  assumes "state_ok s"
  shows "dependency_digest H s keys = Inr d \<longleftrightarrow>
    length keys \<le> 256 \<and> distinct keys \<and> set keys \<subseteq> resolved_keys s \<and>
    d = domain_id H ''ibae.epistemic-dependencies.v1'' (JArr (map epistemic_identity_record (support_records s keys)))"
proof -
  have support: "support_records s (sort keys) = support_records s keys"
    by (simp add: support_records_def support_def)
  have "sorted_set (filter (key_unresolved (records s)) (sort keys)) = [] \<longleftrightarrow> set keys \<subseteq> resolved_keys s"
  by (auto simp: key_unresolved_iff [OF assms] filter_empty_conv)
  then show ?thesis
    using support_lookup [OF assms, of "sort keys"] unfolding support
    by (auto simp: dependency_digest_def unresolved_keys_def rbind_eq_Inr guard_eq_Inr accept_simps Let_def
        max_epistemic_records_def)
qed


text \<open>Records outside the support of the keys have no influence.\<close>

lemma support_mono:
  assumes ok: "state_ok s" "state_ok s'" and sub: "set (support_records s keys) \<subseteq> set (records s')"
    and keys: "set keys \<subseteq> resolved_keys s"
  shows "support s' keys = support s keys"
proof -
  have mem: "d \<in> support s keys \<Longrightarrow> \<exists>r \<in> set (records s). r \<in> set (records s') \<and> ep_key r = d" for d
    using support_subset [OF ok(1) keys] sub by (fastforce simp: resolved_keys_def support_records_def)
  have edge: "(d, k) \<in> edges (state_graph s') \<longleftrightarrow> (d, k) \<in> edges (state_graph s)" if k: "k \<in> support s keys" for d k
  proof -
    from mem [OF k] obtain r where r: "r \<in> set (records s)" "r \<in> set (records s')" "ep_key r = k" by blast
    then have "(d, k) \<in> edges (state_graph t) \<longleftrightarrow> d \<in> set (ep_dependencies r)" if "t = s \<or> t = s'" for t
      using that ok record_unique unfolding edges_state [OF ok(1)] edges_state [OF ok(2)] state_ok_def
      by (auto simp: edges_state state_ok_def) blast+
    then show ?thesis by blast
  qed
  have closed: "d \<in> support s keys" if "(d, k) \<in> edges (state_graph s)" "k \<in> support s keys" for d k
    using that by (auto simp: support_def intro: converse_rtrancl_into_rtrancl)
  show ?thesis
  proof (intro set_eqI iffI)
    fix d assume "d \<in> support s' keys"
    then obtain k where "(d, k) \<in> (edges (state_graph s'))\<^sup>*" "k \<in> set keys" by (auto simp: support_def)
    then show "d \<in> support s keys"
    proof (induction rule: converse_rtrancl_induct)
      case base
      then show ?case by (auto simp: support_def)
    next
      case (step d e)
      then show ?case using edge closed by blast
    qed
  next
    fix d assume "d \<in> support s keys"
    then obtain k where k: "k \<in> set keys" "(d, k) \<in> (edges (state_graph s))\<^sup>*" by (auto simp: support_def)
    from k(2,1) have "d \<in> support s keys \<and> (d, k) \<in> (edges (state_graph s'))\<^sup>*"
    proof (induction rule: converse_rtrancl_induct)
      case base
      then show ?case by (auto simp: support_def)
    next
      case (step d e)
      then show ?case using edge closed by (blast intro: converse_rtrancl_into_rtrancl)
    qed
    with k(1) show "d \<in> support s' keys" by (auto simp: support_def)
  qed
qed

lemma support_records_local:
  assumes ok: "state_ok s" "state_ok s'" and sub: "set (support_records s keys) \<subseteq> set (records s')"
    and keys: "set keys \<subseteq> resolved_keys s"
  shows "support_records s' keys = support_records s keys"
proof -
  note supp = support_mono [OF assms]
  have keyed: "distinct (map ep_key (support_records t keys)) \<and> sorted (map ep_key (support_records t keys))"
    if "state_ok t" for t
    using that by (simp add: state_ok_def support_records_def sorted_filter distinct_map_filter)
  have "set (support_records s' keys) = set (support_records s keys)"
  proof
    show "set (support_records s keys) \<subseteq> set (support_records s' keys)"
      using sub supp by (auto simp: support_records_def)
    show "set (support_records s' keys) \<subseteq> set (support_records s keys)"
    proof
      fix r assume r: "r \<in> set (support_records s' keys)"
      then have "ep_key r \<in> support s keys" using supp by (auto simp: support_records_def)
      then obtain x where x: "x \<in> set (records s)" "ep_key x = ep_key r" "x \<in> set (support_records s keys)"
        using support_subset [OF ok(1) keys] by (fastforce simp: resolved_keys_def support_records_def)
      then have "x = r"
        using record_unique [of "records s'" x r] ok(2) sub r by (auto simp: state_ok_def support_records_def)
      with x show "r \<in> set (support_records s keys)" by simp
    qed
  qed
  moreover have "inj_on ep_key (set (support_records s' keys) \<union> set (support_records s keys))"
    using calculation keyed [OF ok(1)] by (simp add: distinct_map)
  ultimately show ?thesis
    using keyed [OF ok(1)] keyed [OF ok(2)]
    by (intro map_inj_on [of ep_key]) (auto intro!: sorted_distinct_set_unique)
qed

lemma resolved_keysI: "r \<in> set (records s) \<Longrightarrow> is_resolved r \<Longrightarrow> ep_key r \<in> resolved_keys s"
  by (simp add: resolved_keys_def)

section \<open>Properties\<close>

definition null_value :: canonical_value where "null_value = \<lparr> canonical_text = render JNull \<rparr>"

definition example_provenance :: provenance where
  "example_provenance = \<lparr> pv_source = lit ''fs'', source_identity = replicate 64 97,
     dependency_identity = replicate 64 98, reused = False \<rparr>"

definition example_observed :: epistemic_record where
  "example_observed = \<lparr> ep_key = lit ''a'', ep_class = Observed, ep_dependencies = [],
     ep_provenance = Some example_provenance, ep_value = Some null_value \<rparr>"

definition example_derived :: epistemic_record where
  "example_derived = \<lparr> ep_key = lit ''b'', ep_class = Derived, ep_dependencies = [lit ''a''],
     ep_provenance = None, ep_value = Some null_value \<rparr>"

definition example_proposed :: epistemic_record where
  "example_proposed = \<lparr> ep_key = lit ''c'', ep_class = ModelProposed, ep_dependencies = [],
     ep_provenance = None, ep_value = Some null_value \<rparr>"

lemma null_value_init: "canonical_value_init (canonical_text null_value) = Inr null_value"
  unfolding canonical_value_init_def null_value_def canonical_value.simps
  by (rule validate_text_render(1), rule text_profiles)
     (simp_all add: fits_def within_def advance_counters_def jbytes_leaves value_profile_def limit_defs)

lemma null_value_from: "canonical_value_from_value PNone = Inr null_value"
proof -
  have "normalize_bounded_json value_profile PNone = Inr JNull"
    by (simp add: normalize_bounded_json_def enter_node_def consume_bytes_def value_profile_def limit_defs)
  then show ?thesis
    unfolding canonical_value_from_value_def null_value_def by (intro text_from_value_Inr) simp_all
qed

lemma example_symbols: "is_symbol (lit ''a'')" "is_symbol (lit ''b'')" "is_symbol (lit ''c'')" "is_symbol (lit ''fs'')"
  by (simp_all add: lit_def symbol_char_def in_range_def)

lemma example_records_ok: "list_all epistemic_ok [example_observed, example_derived, example_proposed]"
  using null_value_init example_symbols
  by (simp add: epistemic_ok_def class_links_ok_def example_observed_def example_derived_def example_proposed_def
      max_epistemic_dependencies_def max_epistemic_records_def)

definition example_state :: epistemic_state where
  "example_state = \<lparr> records = [example_observed, example_derived, example_proposed], max_records = 256 \<rparr>"

lemma example_state_acyclic:
  "is_acyclic (epistemic_graph [example_observed, example_derived, example_proposed])"
  by (simp add: epistemic_graph_def example_observed_def example_derived_def example_proposed_def lit_def
      is_acyclic_def topological_sort_def initial_ready_def indegrees_def dependents_def degree_def)

lemma example_state_ok: "state_ok example_state"
  using example_records_ok example_state_acyclic
  by (simp add: state_ok_def example_state_def max_epistemic_records_def)
     (simp add: keys_known_def resolved_closed_def is_resolved_def example_observed_def example_derived_def
       example_proposed_def lit_def)

lemma example_state_init:
  "epistemic_state_init [example_proposed, example_derived, example_observed] 256 = Inr example_state"
proof -
  have "sort_key ep_key [example_proposed, example_derived, example_observed] =
      [example_observed, example_derived, example_proposed]"
    by (simp add: example_observed_def example_derived_def example_proposed_def lit_def)
  then show ?thesis
    using example_records_ok example_state_ok
    by (subst epistemic_state_init_Inr) (simp_all add: example_state_def)
qed

text \<open>C34 [epistemic_classes_disjoint]. A record that the constructor returns carries the key, class,
  provenance and dependencies it was given, the dependencies sorted and without repetition. It has
  provenance exactly when it is observed and dependencies only when it is derived; it is unknown and
  has no value exactly when none was given, and otherwise stores the canonical form of the given value,
  which decodes.\<close>

theorem epistemic_classes_disjoint:
  assumes "epistemic_init key cls v dependencies prov = Inr r"
  shows "ep_key r = key \<and> ep_class r = cls \<and> ep_provenance r = prov \<and>
    set (ep_dependencies r) = set dependencies \<and> sorted (ep_dependencies r) \<and> distinct (ep_dependencies r) \<and>
    ep_key r \<notin> set (ep_dependencies r) \<and>
    (ep_class r = Observed \<longleftrightarrow> ep_provenance r \<noteq> None) \<and>
    (ep_dependencies r \<noteq> [] \<longrightarrow> ep_class r = Derived) \<and>
    (case v of
       None \<Rightarrow> ep_class r = Unknown \<and> ep_value r = None \<and>
         record_value r = Inl (ValueErr ''unknown epistemic records have no value'')
     | Some x \<Rightarrow> ep_class r \<noteq> Unknown \<and>
         (\<exists>c j. canonical_value_from_value x = Inr c \<and> ep_value r = Some c \<and> record_value r = Inr j))"
proof -
  note ok = epistemic_init_ok [OF assms]
  have value_of: "case v of None \<Rightarrow> cls = Unknown \<and> ep_value r = None
      | Some x \<Rightarrow> cls \<noteq> Unknown \<and> (\<exists>c. canonical_value_from_value x = Inr c \<and> ep_value r = Some c)"
    using assms by (auto simp: epistemic_init_def canonical_class_value_def res_simps Let_def
        split: if_splits option.splits)
  have "\<exists>j. record_value r = Inr j" if "ep_value r = Some c" for c
    using ok that stored_value_decodes by (auto simp: record_value_def)
  with value_of have "case v of
       None \<Rightarrow> ep_class r = Unknown \<and> ep_value r = None \<and>
         record_value r = Inl (ValueErr ''unknown epistemic records have no value'')
     | Some x \<Rightarrow> ep_class r \<noteq> Unknown \<and>
         (\<exists>c j. canonical_value_from_value x = Inr c \<and> ep_value r = Some c \<and> record_value r = Inr j)"
    using ok by (cases v) (auto simp: record_value_def)
  moreover have "set (ep_dependencies r) = set dependencies" using ok by simp
  ultimately show ?thesis using ok unfolding epistemic_ok_def class_links_ok_def by blast
qed

theorem epistemic_classes_disjoint_witness:
  "\<exists>r. epistemic_init (lit ''b'') Derived (Some PNone) [lit ''a''] None = Inr r \<and>
     ep_class r = Derived \<and> set (ep_dependencies r) = {lit ''a''}"
proof -
  have "epistemic_init (lit ''b'') Derived (Some PNone) [lit ''a''] None = Inr example_derived"
    using example_symbols
    by (simp add: epistemic_init_def require_symbol_def materialize_def require_positive_int_def
        max_epistemic_dependencies_def max_epistemic_records_def bit_length_le max_identity_integer_bits_def
        canonical_class_value_def check_class_links_def null_value_from example_derived_def lit_eq_iff)
  with epistemic_classes_disjoint [OF this] show ?thesis by simp
qed

text \<open>C35 [proposals_never_support]. In a state that the constructor accepts, everything a record
  depends on, directly or through other records, is itself observed or derived: neither a model
  proposal nor an unknown ever supports a conclusion, and no conclusion supports itself. The same holds
  for the keys an admission depends on: of up to 256 keys, \<open>unresolved_keys\<close> reports exactly those that
  no observed or derived record holds, sorted and once each, and \<open>dependency_digest\<close> is refused unless
  every key is held by one.\<close>

theorem proposals_never_support:
  assumes "list_all epistemic_ok rs" and "epistemic_state_init rs limit = Inr s"
  shows "(\<forall>d k. (d, k) \<in> (edges (state_graph s))\<^sup>+ \<longrightarrow>
      (\<exists>r \<in> set (records s). ep_key r = d \<and> (ep_class r = Observed \<or> ep_class r = Derived)) \<and> d \<noteq> k) \<and>
    (\<forall>keys. length keys \<le> 256 \<longrightarrow> (\<exists>us. unresolved_keys s keys = Inr us \<and> sorted us \<and> distinct us \<and>
      set us = {k \<in> set keys.
        \<not> (\<exists>r \<in> set (records s). ep_key r = k \<and> (ep_class r = Observed \<or> ep_class r = Derived))})) \<and>
    (\<forall>keys d. dependency_digest H s keys = Inr d \<longrightarrow>
      (\<forall>k \<in> set keys. \<exists>r \<in> set (records s). ep_key r = k \<and> (ep_class r = Observed \<or> ep_class r = Derived)))"
proof (intro conjI allI impI)
  have ok: "state_ok s" using epistemic_state_init_Inr [OF assms(1)] assms(2) by blast
  have resolved: "k \<in> resolved_keys s \<longleftrightarrow>
      (\<exists>r \<in> set (records s). ep_key r = k \<and> (ep_class r = Observed \<or> ep_class r = Derived))" for k
    by (auto simp: resolved_keys_def is_resolved_def)
  { fix d k assume path: "(d, k) \<in> (edges (state_graph s))\<^sup>+"
    show "\<exists>r \<in> set (records s). ep_key r = d \<and> (ep_class r = Observed \<or> ep_class r = Derived)"
      using resolved_reachable [OF ok path] by (simp add: resolved)
    show "d \<noteq> k" using ep.dependencies_acyclic [OF ok] path by (auto simp: acyclic_def) }
  { fix keys :: "pystr list" assume "length keys \<le> 256"
    then have "unresolved_keys s keys = Inr (sorted_set (filter (key_unresolved (records s)) keys))"
      by (simp add: unresolved_keys_def materialize_ok max_epistemic_records_def)
    then show "\<exists>us. unresolved_keys s keys = Inr us \<and> sorted us \<and> distinct us \<and>
      set us = {k \<in> set keys.
        \<not> (\<exists>r \<in> set (records s). ep_key r = k \<and> (ep_class r = Observed \<or> ep_class r = Derived))}"
      by (simp add: key_unresolved_iff [OF ok] resolved [symmetric]) }
  { fix keys d assume "dependency_digest H s keys = Inr d"
    then show "\<forall>k \<in> set keys. \<exists>r \<in> set (records s). ep_key r = k \<and> (ep_class r = Observed \<or> ep_class r = Derived)"
      using dependency_digest_Inr [OF ok] by (auto simp: resolved [symmetric]) }
qed

theorem proposals_never_support_witness:
  "(\<exists>r \<in> set (records example_state). ep_key r = lit ''a'' \<and> (ep_class r = Observed \<or> ep_class r = Derived)) \<and>
   (\<exists>us. unresolved_keys example_state [lit ''a'', lit ''c''] = Inr us \<and> lit ''c'' \<in> set us)"
proof -
  have "(lit ''a'', lit ''b'') \<in> edges (state_graph example_state)"
    unfolding edges_state [OF example_state_ok] by (simp add: example_state_def example_derived_def)
  then have e: "(lit ''a'', lit ''b'') \<in> (edges (state_graph example_state))\<^sup>+" by (rule r_into_trancl)
  have "list_all epistemic_ok [example_proposed, example_derived, example_observed]"
    using example_records_ok by simp
  note supported = proposals_never_support [OF this example_state_init]
  have "length [lit ''a'', lit ''c''] \<le> 256" by simp
  then obtain us where "unresolved_keys example_state [lit ''a'', lit ''c''] = Inr us"
    "set us = {k \<in> set [lit ''a'', lit ''c'']. \<not> (\<exists>r \<in> set (records example_state). ep_key r = k \<and>
       (ep_class r = Observed \<or> ep_class r = Derived))}"
    using supported by blast
  moreover have "\<forall>r \<in> set (records example_state). ep_key r = lit ''c'' \<longrightarrow> ep_class r = ModelProposed"
    by (simp add: example_state_def example_observed_def example_derived_def example_proposed_def)
  ultimately show ?thesis using supported e by auto
qed

text \<open>On a valid state the dependency digest is returned exactly when the
  keys are at most 256, distinct and all observed or derived; it hashes the identity records of the
  records that the keys depend on, directly or not, sorted by key.\<close>

theorem dependency_digest_exact:
  assumes "state_ok s"
  shows "dependency_digest H s keys = Inr d \<longleftrightarrow>
    length keys \<le> 256 \<and> distinct keys \<and> set keys \<subseteq> resolved_keys s \<and>
    d = domain_id H ''ibae.epistemic-dependencies.v1''
          (JArr (map epistemic_identity_record
            (filter (\<lambda>r. \<exists>k \<in> set keys. (ep_key r, k) \<in> (edges (state_graph s))\<^sup>*) (records s))))"
  using dependency_digest_Inr [OF assms, of H keys d] by (simp add: support_records_def support_def)

theorem dependency_digest_exact_witness:
  "\<exists>d. dependency_digest sha256_hex example_state [lit ''b''] = Inr d"
proof -
  have "set [lit ''b''] \<subseteq> resolved_keys example_state"
    using resolved_keysI [of example_derived example_state]
    by (simp add: example_state_def is_resolved_def example_derived_def)
  with dependency_digest_exact [OF example_state_ok, of sha256_hex "[lit ''b'']"] show ?thesis by auto
qed

text \<open>The digest of some keys depends only on the records that support
  them: any other valid state that holds those same records gives the same digest, whatever
  observations, conclusions, proposals or unknowns it adds, drops or changes elsewhere.\<close>

theorem dependency_digest_local:
  assumes "state_ok s" and "state_ok s'"
    and "dependency_digest H s keys = Inr d"
    and "set (support_records s keys) \<subseteq> set (records s')"
  shows "dependency_digest H s' keys = Inr d"
proof -
  have keys: "length keys \<le> 256" "distinct keys" "set keys \<subseteq> resolved_keys s"
    using assms(3) dependency_digest_Inr [OF assms(1)] by auto
  have "set keys \<subseteq> support s keys" by (auto simp: support_def)
  moreover have "support s keys \<subseteq> ep_key ` {r \<in> set (support_records s keys). is_resolved r}"
    using support_subset [OF assms(1) keys(3)] by (fastforce simp: resolved_keys_def support_records_def)
  ultimately have "set keys \<subseteq> resolved_keys s'"
    using assms(4) by (fastforce simp: resolved_keys_def)
  with keys assms(3) support_records_local [OF assms(1,2,4) keys(3)] show ?thesis
    by (simp add: dependency_digest_Inr [OF assms(1)] dependency_digest_Inr [OF assms(2)])
qed

definition example_small_state :: epistemic_state where
  "example_small_state = \<lparr> records = [example_observed], max_records = 1 \<rparr>"

theorem dependency_digest_local_witness:
  "\<exists>d. dependency_digest sha256_hex example_small_state [lit ''a''] = Inr d \<and>
       dependency_digest sha256_hex example_state [lit ''a''] = Inr d"
proof -
  have ok: "state_ok example_small_state"
    using example_records_ok
    by (simp add: state_ok_def example_small_state_def max_epistemic_records_def epistemic_graph_def)
       (simp add: keys_known_def resolved_closed_def example_observed_def is_acyclic_def topological_sort_def
         initial_ready_def indegrees_def dependents_def)
  have "set [lit ''a''] \<subseteq> resolved_keys example_small_state"
    using resolved_keysI [of example_observed example_small_state]
    by (simp add: example_small_state_def is_resolved_def example_observed_def)
  then obtain d where d: "dependency_digest sha256_hex example_small_state [lit ''a''] = Inr d"
    using dependency_digest_Inr [OF ok, of sha256_hex "[lit ''a'']"] by auto
  have "set (support_records example_small_state [lit ''a'']) \<subseteq> set (records example_state)"
    by (auto simp: support_records_def example_small_state_def example_state_def)
  from dependency_digest_local [OF ok example_state_ok d this] d show ?thesis by blast
qed

text \<open>C36 [state_identity_authoritative]. The identity of a state does not see model proposals or the
  path by which an observation was delivered: two states that agree on all other records, up to the
  \<open>reused\<close> flag, have the same identity record.\<close>

definition forget_reuse :: "epistemic_record \<Rightarrow> epistemic_record" where
  "forget_reuse r = r \<lparr> ep_provenance := map_option (\<lambda>p. p \<lparr> reused := False \<rparr>) (ep_provenance r) \<rparr>"

lemma identity_forget_reuse: "epistemic_identity_record (forget_reuse r) = epistemic_identity_record r"
  by (cases "ep_provenance r")
     (simp_all add: epistemic_identity_record_def forget_reuse_def record_with_def provenance_identity_def)

theorem state_identity_authoritative:
  assumes "max_records s = max_records s'"
    and "map forget_reuse (filter (\<lambda>r. ep_class r \<noteq> ModelProposed) (records s)) =
         map forget_reuse (filter (\<lambda>r. ep_class r \<noteq> ModelProposed) (records s'))"
  shows "epistemic_state_identity s = epistemic_state_identity s'"
proof -
  have "map epistemic_identity_record rs = map epistemic_identity_record (map forget_reuse rs)" for rs
    by (simp add: identity_forget_reuse)
  with assms show ?thesis unfolding epistemic_state_identity_def by metis
qed

theorem state_identity_authoritative_witness:
  "epistemic_state_identity example_state =
   epistemic_state_identity (example_state \<lparr> records := [example_observed
      \<lparr> ep_provenance := Some (example_provenance \<lparr> reused := True \<rparr>) \<rparr>, example_derived] \<rparr>)"
  by (rule state_identity_authoritative)
     (simp_all add: example_state_def example_observed_def example_derived_def example_proposed_def
       forget_reuse_def example_provenance_def)

end
