(* ===== verification/Proposals.thy ===== *)
theory Proposals
  imports Obligations Epistemic
begin

text \<open>
  The data model of \<open>src/ibae/orchestration.py\<close> up to proposal batches: strategy parameter
  specifications and schemas, capabilities, limits, strategies, action proposals and batches.
  Enumerations carry their serialised values.
\<close>

section \<open>Limits of the protocol\<close>

definition max_capabilities_limit :: int where "max_capabilities_limit = 64"
definition max_capability_arguments :: int where "max_capability_arguments = 32"
definition max_proposals_per_batch :: int where "max_proposals_per_batch = 64"
definition max_history_events :: int where "max_history_events = 256"
definition max_occurrence_owners_limit :: int where "max_occurrence_owners_limit = 256"
definition max_state_keys_per_declaration :: int where
  "max_state_keys_per_declaration = max_epistemic_records div 2"
definition max_strategy_parameters :: int where "max_strategy_parameters = 32"
definition max_strategy_schemas_limit :: int where "max_strategy_schemas_limit = 32"
definition max_strategy_symbol_list_items :: int where "max_strategy_symbol_list_items = 64"
definition max_invariant_ids_per_rejection :: int where "max_invariant_ids_per_rejection = 64"

lemmas protocol_limit_defs = max_capabilities_limit_def max_capability_arguments_def
  max_proposals_per_batch_def max_history_events_def max_occurrence_owners_limit_def
  max_state_keys_per_declaration_def max_strategy_parameters_def max_strategy_schemas_limit_def
  max_strategy_symbol_list_items_def max_invariant_ids_per_rejection_def max_epistemic_records_def
  max_obligations_limit_def

definition agent_protocol :: pystr where "agent_protocol = lit ''IBAE-AGENT-PROTOCOL-V1''"
definition logical_clock_profile :: pystr where "logical_clock_profile = lit ''IBAE-LOGICAL-CLOCK-V1''"
definition strategy_parameter_schema :: pystr where
  "strategy_parameter_schema = lit ''IBAE-STRATEGY-PARAMETERS-V1''"
definition capability_argument_schema :: pystr where
  "capability_argument_schema = lit ''IBAE-CAPABILITY-ARGUMENTS-V1''"

section \<open>Optional values in records\<close>

definition opt_str :: "pystr option \<Rightarrow> json" where
  "opt_str s = (case s of None \<Rightarrow> JNull | Some t \<Rightarrow> JStr t)"

definition opt_int :: "int option \<Rightarrow> json" where
  "opt_int i = (case i of None \<Rightarrow> JNull | Some n \<Rightarrow> JInt n)"

definition str_list :: "pystr list \<Rightarrow> json" where
  "str_list ss = JArr (map JStr ss)"

text \<open>\<open>sorted\<close> of a bounded iterable that must be free of duplicates.\<close>

definition sorted_unique :: "int \<Rightarrow> string \<Rightarrow> pystr list \<Rightarrow> pystr list res" where
  "sorted_unique limit message xs =
     rbind (materialize limit xs)
       (\<lambda>ys. rbind (guard (distinct (sort ys)) (ValueErr message)) (\<lambda>_. Inr (sort ys)))"

section \<open>Strategy parameters\<close>

datatype strategy_value_kind = BooleanValue | BoundedInteger | SymbolValue | SymbolList

fun value_kind_value :: "strategy_value_kind \<Rightarrow> pystr" where
  "value_kind_value BooleanValue = lit ''boolean''"
| "value_kind_value BoundedInteger = lit ''bounded_integer''"
| "value_kind_value SymbolValue = lit ''symbol''"
| "value_kind_value SymbolList = lit ''symbol_list''"

record parameter_spec =
  ps_name :: pystr
  value_kind :: strategy_value_kind
  required :: bool
  minimum :: "int option"
  maximum :: "int option"
  allowed_symbols :: "pystr list"

definition check_value_constraints :: "parameter_spec \<Rightarrow> pystr list \<Rightarrow> unit res" where
  "check_value_constraints p symbols =
     (case value_kind p of
        BoundedInteger \<Rightarrow>
          (case (minimum p, maximum p) of
             (Some lo, Some hi) \<Rightarrow>
               rbind (require_nonnegative_int lo)
                 (\<lambda>_. rbind (require_nonnegative_int hi)
                 (\<lambda>_. rbind (guard (lo \<le> hi) (ValueErr ''strategy parameter minimum exceeds maximum''))
                 (\<lambda>_. guard (symbols = []) (ValueErr ''bounded integer parameters cannot allow symbols''))))
           | _ \<Rightarrow> Inl (ValueErr ''bounded integer parameters require minimum and maximum''))
      | BooleanValue \<Rightarrow>
          guard (symbols = [] \<and> minimum p = None \<and> maximum p = None)
            (ValueErr ''boolean parameters cannot carry value constraints'')
      | _ \<Rightarrow>
          rbind (guard (symbols \<noteq> []) (ValueErr ''symbol parameters require a finite symbol allowlist''))
            (\<lambda>_. guard (minimum p = None \<and> maximum p = None)
                   (ValueErr ''symbol parameters cannot carry integer bounds'')))"

definition parameter_spec_init :: "parameter_spec \<Rightarrow> parameter_spec res" where
  "parameter_spec_init p =
     rbind (require_symbol (ps_name p))
       (\<lambda>_. rbind (sorted_unique max_strategy_symbol_list_items
                 ''allowed strategy symbols must be unique'' (allowed_symbols p))
       (\<lambda>symbols. rbind (for_each require_symbol symbols)
       (\<lambda>_. rbind (check_value_constraints p symbols)
       (\<lambda>_. Inr (p \<lparr> allowed_symbols := symbols \<rparr>)))))"

text \<open>\<open>require_symbol\<close> on an argument annotated \<open>Any\<close>: what is not a string does not match.\<close>

definition require_symbol_any :: "pyval \<Rightarrow> pystr res" where
  "require_symbol_any v = (case v of PStr s \<Rightarrow> require_symbol s | _ \<Rightarrow> Inl (ValueErr ''symbol''))"

definition require_allowed :: "parameter_spec \<Rightarrow> pyval \<Rightarrow> unit res" where
  "require_allowed p v =
     rbind (require_symbol_any v)
       (\<lambda>s. guard (s \<in> set (allowed_symbols p)) (ValueErr ''strategy parameter is not an allowed symbol''))"

definition parameter_normalize :: "parameter_spec \<Rightarrow> pyval \<Rightarrow> pyval res" where
  "parameter_normalize p v =
     (case value_kind p of
        BooleanValue \<Rightarrow>
          (case v of PBool _ \<Rightarrow> Inr v | _ \<Rightarrow> Inl (TypeErr ''strategy parameter must be boolean''))
      | BoundedInteger \<Rightarrow>
          (case v of
             PInt i \<Rightarrow>
               (case (minimum p, maximum p) of
                  (Some lo, Some hi) \<Rightarrow>
                    rbind (guard (lo \<le> i \<and> i \<le> hi) (ValueErr ''strategy parameter out of range'')) (\<lambda>_. Inr v)
                | _ \<Rightarrow> Inl (OtherErr ''AssertionError''))
           | _ \<Rightarrow> Inl (TypeErr ''strategy parameter must be an integer''))
      | SymbolValue \<Rightarrow> rbind (require_allowed p v) (\<lambda>_. Inr v)
      | SymbolList \<Rightarrow>
          rbind (materialize_any max_strategy_symbol_list_items v)
            (\<lambda>vs. rbind (for_each (require_allowed p) vs) (\<lambda>_. Inr (PList vs))))"

definition parameter_spec_record :: "parameter_spec \<Rightarrow> json" where
  "parameter_spec_record p =
     JObj [(lit ''allowed_symbols'', str_list (allowed_symbols p)),
           (lit ''maximum'', opt_int (maximum p)),
           (lit ''minimum'', opt_int (minimum p)),
           (lit ''name'', JStr (ps_name p)),
           (lit ''required'', JBool (required p)),
           (lit ''value_kind'', JStr (value_kind_value (value_kind p)))]"

section \<open>Strategy schemas\<close>

record strategy_schema =
  schema_key :: pystr
  parameter_specs :: "parameter_spec list"
  schema_version :: int

definition strategy_schema_init :: "strategy_schema \<Rightarrow> strategy_schema res" where
  "strategy_schema_init s =
     rbind (require_symbol (schema_key s))
       (\<lambda>_. rbind (require_positive_int (schema_version s))
       (\<lambda>_. rbind (materialize max_strategy_parameters (parameter_specs s))
       (\<lambda>supplied. let specs = sort_key ps_name supplied in
          rbind (guard (distinct (map ps_name specs)) (ValueErr ''strategy parameter spec names must be unique''))
       (\<lambda>_. Inr (s \<lparr> parameter_specs := specs \<rparr>)))))"

definition strategy_schema_record :: "strategy_schema \<Rightarrow> json" where
  "strategy_schema_record s =
     JObj [(lit ''contract_version'', JInt (schema_version s)),
           (lit ''parameter_schema'', JStr strategy_parameter_schema),
           (lit ''parameter_specs'', JArr (map parameter_spec_record (parameter_specs s))),
           (lit ''strategy_key'', JStr (schema_key s))]"

definition schema_id :: "digest \<Rightarrow> strategy_schema \<Rightarrow> pystr" where
  "schema_id H s = domain_id H ''ibae.strategy-parameter-schema.v1'' (strategy_schema_record s)"

text \<open>The loop that copies the supplied mapping into a dictionary with string keys.\<close>

fun raw_parameters :: "(pystr \<times> pyval) list \<Rightarrow> (pyval \<times> pyval) list \<Rightarrow> (pystr \<times> pyval) list res" where
  "raw_parameters raw [] = Inr raw"
| "raw_parameters raw ((k, v) # items) =
     (case k of
        PStr name \<Rightarrow>
          rbind (guard (name \<notin> fst ` set raw) (ValueErr ''strategy parameter keys must be unique''))
            (\<lambda>_. raw_parameters (raw @ [(name, v)]) items)
      | _ \<Rightarrow> Inl (TypeErr ''strategy parameter keys must be strings''))"

definition find_spec :: "strategy_schema \<Rightarrow> pystr \<Rightarrow> parameter_spec option" where
  "find_spec s name = map_of (map (\<lambda>p. (ps_name p, p)) (parameter_specs s)) name"

definition normalize_member :: "strategy_schema \<Rightarrow> pystr \<times> pyval \<Rightarrow> (pyval \<times> pyval) res" where
  "normalize_member s = (\<lambda>(name, v).
     (case find_spec s name of
        Some p \<Rightarrow> rbind (parameter_normalize p v) (\<lambda>w. Inr (PStr name, w))
      | None \<Rightarrow> Inl (KeyErr ''strategy parameter'')))"

definition normalize_parameters :: "strategy_schema \<Rightarrow> pyval \<Rightarrow> pyval res" where
  "normalize_parameters s parameters =
     (case parameters of
        PMap items \<Rightarrow>
          rbind (materialize max_strategy_parameters items)
            (\<lambda>supplied. rbind (raw_parameters [] supplied)
            (\<lambda>raw. rbind (guard (fst ` set raw \<subseteq> set (map ps_name (parameter_specs s)))
                      (ValueErr ''strategy parameters are not allowed by the schema''))
            (\<lambda>_. rbind (guard (list_all (\<lambda>p. required p \<longrightarrow> ps_name p \<in> fst ` set raw) (parameter_specs s))
                      (ValueErr ''strategy parameters are missing required keys''))
            (\<lambda>_. rbind (map_res (normalize_member s) (sort_key fst raw)) (\<lambda>kvs. Inr (PMap kvs))))))
      | _ \<Rightarrow> Inl (TypeErr ''strategy parameters must be a semantic mapping''))"

section \<open>Capabilities\<close>

datatype replay_safety = CacheableRead | ProvenReplaySafe | OccurrenceSensitive

fun replay_safety_value :: "replay_safety \<Rightarrow> pystr" where
  "replay_safety_value CacheableRead = lit ''cacheable_read''"
| "replay_safety_value ProvenReplaySafe = lit ''proven_replay_safe''"
| "replay_safety_value OccurrenceSensitive = lit ''occurrence_sensitive''"

record capability =
  cap_name :: pystr
  cap_replay_safety :: replay_safety
  cap_description :: pystr
  available :: bool
  contract_version :: int
  cap_required_state_keys :: "pystr list"
  semantic_argument_keys :: "pystr list"
  replay_evidence_id :: "pystr option"

definition check_replay_evidence :: "capability \<Rightarrow> unit res" where
  "check_replay_evidence c =
     (if cap_replay_safety c = ProvenReplaySafe
      then (case replay_evidence_id c of
              None \<Rightarrow> Inl (ValueErr ''proven replay-safe capabilities require replay evidence'')
            | Some e \<Rightarrow> rbind (require_fingerprint e) (\<lambda>_. Inr ()))
      else guard (replay_evidence_id c = None)
             (ValueErr ''only proven replay-safe capabilities may carry replay evidence''))"

definition capability_init :: "capability \<Rightarrow> capability res" where
  "capability_init c =
     rbind (require_symbol (cap_name c))
       (\<lambda>_. rbind (require_text (cap_description c))
       (\<lambda>_. rbind (require_positive_int (contract_version c))
       (\<lambda>_. rbind (sorted_unique max_state_keys_per_declaration
                 ''capability required state keys must be unique'' (cap_required_state_keys c))
       (\<lambda>state_keys. rbind (for_each require_symbol state_keys)
       (\<lambda>_. rbind (sorted_unique max_capability_arguments
                 ''capability semantic argument keys must be unique'' (semantic_argument_keys c))
       (\<lambda>argument_keys. rbind (for_each require_symbol argument_keys)
       (\<lambda>_. rbind (check_replay_evidence c)
       (\<lambda>_. Inr (c \<lparr> cap_required_state_keys := state_keys,
                      semantic_argument_keys := argument_keys \<rparr>)))))))))"

definition is_replay_safe :: "capability \<Rightarrow> bool" where
  "is_replay_safe c \<longleftrightarrow> cap_replay_safety c = CacheableRead \<or> cap_replay_safety c = ProvenReplaySafe"

definition capability_id :: "digest \<Rightarrow> capability \<Rightarrow> pystr" where
  "capability_id H c = domain_id H ''ibae.capability-id.v1''
     (JObj [(lit ''contract_version'', JInt (contract_version c)),
            (lit ''argument_schema'', JStr capability_argument_schema),
            (lit ''name'', JStr (cap_name c)),
            (lit ''replay_evidence_id'', opt_str (replay_evidence_id c)),
            (lit ''replay_safety'', JStr (replay_safety_value (cap_replay_safety c))),
            (lit ''required_state_keys'', str_list (cap_required_state_keys c)),
            (lit ''semantic_argument_keys'', str_list (semantic_argument_keys c))])"

fun raw_arguments :: "(pystr \<times> pyval) list \<Rightarrow> (pyval \<times> pyval) list \<Rightarrow> (pystr \<times> pyval) list res" where
  "raw_arguments normalized [] = Inr normalized"
| "raw_arguments normalized ((k, v) # items) =
     (case k of
        PStr name \<Rightarrow>
          rbind (require_symbol name)
            (\<lambda>_. rbind (guard (name \<notin> fst ` set normalized) (ValueErr ''capability argument keys must be unique''))
            (\<lambda>_. raw_arguments (normalized @ [(name, v)]) items))
      | _ \<Rightarrow> Inl (TypeErr ''capability argument keys must be strings''))"

definition normalize_arguments :: "capability \<Rightarrow> pyval \<Rightarrow> json res" where
  "normalize_arguments c arguments =
     (case arguments of
        PMap items \<Rightarrow>
          rbind (materialize max_capability_arguments items)
            (\<lambda>supplied. rbind (raw_arguments [] supplied)
            (\<lambda>normalized. rbind (guard (fst ` set normalized \<subseteq> set (semantic_argument_keys c))
                      (ValueErr ''capability arguments are not admitted by the schema''))
            (\<lambda>_. rbind (canonical_value_from_value (PMap (map (\<lambda>(k, v). (PStr k, v)) normalized))) to_value)))
      | _ \<Rightarrow> Inl (TypeErr ''capability arguments must be a semantic mapping''))"

definition capability_record :: "digest \<Rightarrow> capability \<Rightarrow> json" where
  "capability_record H c =
     JObj [(lit ''argument_schema'', JStr capability_argument_schema),
           (lit ''available'', JBool (available c)),
           (lit ''capability_id'', JStr (capability_id H c)),
           (lit ''contract_version'', JInt (contract_version c)),
           (lit ''description'', JStr (cap_description c)),
           (lit ''name'', JStr (cap_name c)),
           (lit ''replay_evidence_id'', opt_str (replay_evidence_id c)),
           (lit ''replay_safety'', JStr (replay_safety_value (cap_replay_safety c))),
           (lit ''required_state_keys'', str_list (cap_required_state_keys c)),
           (lit ''semantic_argument_keys'', str_list (semantic_argument_keys c))]"

section \<open>Limits of a state\<close>

record orchestration_limits =
  ol_max_obligations :: int
  ol_max_epistemic_records :: int
  ol_max_capabilities :: int
  ol_max_batch_proposals :: int
  ol_max_history :: int
  ol_max_occurrence_owners :: int
  ol_max_strategy_schemas :: int

definition default_orchestration_limits :: orchestration_limits where
  "default_orchestration_limits =
     \<lparr> ol_max_obligations = max_obligations_limit, ol_max_epistemic_records = max_epistemic_records,
       ol_max_capabilities = max_capabilities_limit, ol_max_batch_proposals = max_proposals_per_batch,
       ol_max_history = max_history_events, ol_max_occurrence_owners = max_occurrence_owners_limit,
       ol_max_strategy_schemas = max_strategy_schemas_limit \<rparr>"

definition orchestration_limits_init :: "orchestration_limits \<Rightarrow> orchestration_limits res" where
  "orchestration_limits_init l =
     rbind (for_each (\<lambda>(v, hard_limit). require_bounded_positive_int v hard_limit)
       [(ol_max_obligations l, max_obligations_limit),
        (ol_max_epistemic_records l, max_epistemic_records),
        (ol_max_capabilities l, max_capabilities_limit),
        (ol_max_batch_proposals l, max_proposals_per_batch),
        (ol_max_history l, max_history_events),
        (ol_max_occurrence_owners l, max_occurrence_owners_limit),
        (ol_max_strategy_schemas l, max_strategy_schemas_limit)])
       (\<lambda>_. Inr l)"

definition orchestration_limits_record :: "orchestration_limits \<Rightarrow> json" where
  "orchestration_limits_record l =
     JObj [(lit ''max_batch_proposals'', JInt (ol_max_batch_proposals l)),
           (lit ''max_capabilities'', JInt (ol_max_capabilities l)),
           (lit ''max_epistemic_records'', JInt (ol_max_epistemic_records l)),
           (lit ''max_history'', JInt (ol_max_history l)),
           (lit ''max_obligations'', JInt (ol_max_obligations l)),
           (lit ''max_occurrence_owners'', JInt (ol_max_occurrence_owners l)),
           (lit ''max_strategy_schemas'', JInt (ol_max_strategy_schemas l))]"

section \<open>Strategies\<close>

record strategy =
  strategy_key :: pystr
  strategy_schema_of :: strategy_schema
  strategy_parameters :: canonical_value

definition strategy_init :: "pystr \<Rightarrow> pyval \<Rightarrow> strategy_schema \<Rightarrow> strategy res" where
  "strategy_init key parameters schema =
     rbind (require_symbol key)
       (\<lambda>_. rbind (guard (schema_key schema = key) (ValueErr ''strategy key must match its admitted schema''))
       (\<lambda>_. rbind (normalize_parameters schema parameters)
       (\<lambda>normalized. rbind (canonical_value_from_value normalized)
       (\<lambda>c. Inr \<lparr> strategy_key = key, strategy_schema_of = schema, strategy_parameters = c \<rparr>))))"

definition strategy_record :: "digest \<Rightarrow> strategy \<Rightarrow> json" where
  "strategy_record H s =
     JObj [(lit ''key'', JStr (strategy_key s)),
           (lit ''parameter_schema'', JStr strategy_parameter_schema),
           (lit ''parameter_schema_id'', JStr (schema_id H (strategy_schema_of s))),
           (lit ''parameters'', stored_value (strategy_parameters s))]"

definition strategy_id :: "digest \<Rightarrow> strategy \<Rightarrow> pystr" where
  "strategy_id H s = domain_id H ''ibae.strategy-id.v1'' (strategy_record H s)"

section \<open>Proposals\<close>

record action_proposal =
  proposal_key :: pystr
  proposal_capability :: pystr
  target_obligation_ids :: "pystr list"
  proposal_state_keys :: "pystr list"
  occurrence_key :: "pystr option"
  proposal_arguments :: canonical_value
  observational_metadata :: "canonical_value option"

definition action_proposal_init ::
  "pystr \<Rightarrow> pystr \<Rightarrow> pyval \<Rightarrow> pystr list \<Rightarrow> pystr list \<Rightarrow> pystr option \<Rightarrow> pyval option \<Rightarrow> action_proposal res"
where
  "action_proposal_init key cap arguments target_ids state_keys occurrence metadata =
     rbind (require_symbol key)
       (\<lambda>_. rbind (require_symbol cap)
       (\<lambda>_. rbind (materialize max_obligations_limit target_ids)
       (\<lambda>ts. let targets = sort ts in
          rbind (guard (targets \<noteq> []) (ValueErr ''an action proposal must target at least one obligation''))
       (\<lambda>_. rbind (guard (distinct targets) (ValueErr ''target obligation ids must be unique''))
       (\<lambda>_. rbind (for_each require_fingerprint targets)
       (\<lambda>_. rbind (sorted_unique max_state_keys_per_declaration
                 ''required state keys must be unique'' state_keys)
       (\<lambda>keys. rbind (for_each require_symbol keys)
       (\<lambda>_. rbind (case occurrence of None \<Rightarrow> Inr () | Some k \<Rightarrow> rbind (require_symbol k) (\<lambda>_. Inr ()))
       (\<lambda>_. rbind (canonical_value_from_value arguments)
       (\<lambda>args. rbind (case metadata of
                  None \<Rightarrow> Inr None
                | Some v \<Rightarrow> rbind (canonical_value_from_value v) (\<lambda>c. Inr (Some c)))
       (\<lambda>meta. Inr \<lparr> proposal_key = key, proposal_capability = cap, target_obligation_ids = targets,
                      proposal_state_keys = keys, occurrence_key = occurrence,
                      proposal_arguments = args, observational_metadata = meta \<rparr>)))))))))))"

definition proposal_members :: "action_proposal \<Rightarrow> (pystr \<times> json) list" where
  "proposal_members p =
     [(lit ''arguments'', stored_value (proposal_arguments p)),
      (lit ''capability'', JStr (proposal_capability p)),
      (lit ''epistemic_class'', JStr (lit ''model_proposed'')),
      (lit ''occurrence_key'', opt_str (occurrence_key p)),
      (lit ''proposal_key'', JStr (proposal_key p)),
      (lit ''required_state_keys'', str_list (proposal_state_keys p)),
      (lit ''target_obligation_ids'', str_list (target_obligation_ids p))]"

definition proposal_record :: "action_proposal \<Rightarrow> json" where
  "proposal_record p = JObj (proposal_members p)"

definition agent_record :: "action_proposal \<Rightarrow> json" where
  "agent_record p =
     JObj (proposal_members p @
       [(lit ''observational_metadata'',
         case observational_metadata p of None \<Rightarrow> JNull | Some c \<Rightarrow> stored_value c)])"

definition proposal_id :: "digest \<Rightarrow> action_proposal \<Rightarrow> pystr" where
  "proposal_id H p = domain_id H ''ibae.proposal-id.v1'' (proposal_record p)"

section \<open>Batches\<close>

datatype proposal_ordering = CanonicalIndependent | DeclaredSequence

fun ordering_value :: "proposal_ordering \<Rightarrow> pystr" where
  "ordering_value CanonicalIndependent = lit ''canonical_independent''"
| "ordering_value DeclaredSequence = lit ''declared_sequence''"

record proposal_batch =
  batch_key :: pystr
  batch_strategy :: strategy
  proposals :: "action_proposal list"
  ordering :: proposal_ordering

definition proposal_batch_init :: "proposal_batch \<Rightarrow> proposal_batch res" where
  "proposal_batch_init b =
     rbind (require_symbol (batch_key b))
       (\<lambda>_. rbind (materialize max_proposals_per_batch (proposals b))
       (\<lambda>ps. rbind (guard (ps \<noteq> []) (ValueErr ''a proposal batch must not be empty''))
       (\<lambda>_. rbind (guard (distinct (map proposal_key ps))
                 (ValueErr ''proposal keys must be unique within a batch''))
       (\<lambda>_. Inr (b \<lparr> proposals := ps \<rparr>)))))"

definition ordered_proposals :: "digest \<Rightarrow> proposal_batch \<Rightarrow> action_proposal list" where
  "ordered_proposals H b =
     (if ordering b = DeclaredSequence then proposals b else sort_key (proposal_id H) (proposals b))"

definition batch_record :: "digest \<Rightarrow> proposal_batch \<Rightarrow> json" where
  "batch_record H b =
     JObj [(lit ''batch_key'', JStr (batch_key b)),
           (lit ''epistemic_class'', JStr (lit ''model_proposed'')),
           (lit ''ordering'', JStr (ordering_value (ordering b))),
           (lit ''proposals'', JArr (map proposal_record (ordered_proposals H b))),
           (lit ''strategy'', strategy_record H (batch_strategy b))]"

definition batch_id :: "digest \<Rightarrow> proposal_batch \<Rightarrow> pystr" where
  "batch_id H b = domain_id H ''ibae.proposal-batch-id.v1'' (batch_record H b)"

section \<open>What the constructors accept\<close>

lemma sorted_unique_Inr [accept_simps]:
  "sorted_unique limit m xs = Inr ys \<longleftrightarrow>
     ys = sort xs \<and> distinct xs \<and> 0 < limit \<and> limit < 2 ^ 256 \<and> int (length xs) \<le> limit"
  by (auto simp: sorted_unique_def res_simps accept_simps)

definition is_allowed :: "parameter_spec \<Rightarrow> pyval \<Rightarrow> bool" where
  "is_allowed p v \<longleftrightarrow> (case v of PStr s \<Rightarrow> is_symbol s \<and> s \<in> set (allowed_symbols p) | _ \<Rightarrow> False)"

definition value_conforms :: "parameter_spec \<Rightarrow> pyval \<Rightarrow> bool" where
  "value_conforms p v =
     (case value_kind p of
        BooleanValue \<Rightarrow> (case v of PBool _ \<Rightarrow> True | _ \<Rightarrow> False)
      | BoundedInteger \<Rightarrow>
          (case (v, minimum p, maximum p) of (PInt i, Some lo, Some hi) \<Rightarrow> lo \<le> i \<and> i \<le> hi | _ \<Rightarrow> False)
      | SymbolValue \<Rightarrow> is_allowed p v
      | SymbolList \<Rightarrow>
          (case v of
             PList vs \<Rightarrow> int (length vs) \<le> max_strategy_symbol_list_items \<and> list_all (is_allowed p) vs
           | _ \<Rightarrow> False))"

lemma require_allowed_Inr: "require_allowed p v = Inr u \<longleftrightarrow> is_allowed p v"
  by (cases v) (auto simp: require_allowed_def require_symbol_any_def is_allowed_def res_simps accept_simps)

lemma parameter_normalize_conforms: "parameter_normalize p v = Inr w \<Longrightarrow> value_conforms p w"
  by (cases "value_kind p")
     (auto simp: parameter_normalize_def value_conforms_def res_simps accept_simps require_allowed_Inr
       list_all_iff split: pyval.splits option.splits prod.splits)

lemma parameter_normalize_stable:
  assumes "value_conforms p v"
  shows "parameter_normalize p v = Inr v"
proof (cases "value_kind p")
  case SymbolList
  with assms obtain vs where v: "v = PList vs" "length vs \<le> 64" "\<forall>x \<in> set vs. is_allowed p x"
    by (auto simp: value_conforms_def max_strategy_symbol_list_items_def list_all_iff split: pyval.splits)
  have "for_each (require_allowed p) vs = Inr ()"
    using v(3) by (intro for_each_total) (simp add: require_allowed_Inr)
  moreover have "materialize_any max_strategy_symbol_list_items v = Inr vs"
    using v by (simp add: materialize_any_Inr iterate_def max_strategy_symbol_list_items_def)
  ultimately show ?thesis using SymbolList v(1) by (simp add: parameter_normalize_def)
next
  case SymbolValue
  with assms have "require_allowed p v = Inr ()" by (simp add: value_conforms_def require_allowed_Inr)
  with SymbolValue show ?thesis by (simp add: parameter_normalize_def)
qed (use assms in \<open>auto simp: parameter_normalize_def value_conforms_def split: pyval.splits option.splits\<close>)

lemma raw_parameters_Inr:
  "raw_parameters raw items = Inr raw' \<Longrightarrow>
     \<exists>new. raw' = raw @ new \<and> items = map (\<lambda>(k, v). (PStr k, v)) new \<and>
       (distinct (map fst raw) \<longrightarrow> distinct (map fst raw'))"
proof (induction raw items arbitrary: raw' rule: raw_parameters.induct)
  case (2 raw k v items)
  then obtain name where k: "k = PStr name" "name \<notin> fst ` set raw"
    and r: "raw_parameters (raw @ [(name, v)]) items = Inr raw'"
    by (cases k) (auto simp: res_simps)
  from "2.IH" [OF k(1) r] obtain new where "raw' = (raw @ [(name, v)]) @ new"
    "items = map (\<lambda>(k, v). (PStr k, v)) new"
    "distinct (map fst (raw @ [(name, v)])) \<longrightarrow> distinct (map fst raw')" by blast
  with k show ?case by (intro exI [of _ "(name, v) # new"]) auto
qed auto

lemma find_spec_Some: "find_spec s name = Some p \<Longrightarrow> p \<in> set (parameter_specs s) \<and> ps_name p = name"
  by (auto simp: find_spec_def dest!: map_of_SomeD)

lemma normalize_member_Inr:
  assumes "normalize_member s kv = Inr x"
  shows "x = (PStr (fst kv), snd x) \<and>
    (\<exists>p \<in> set (parameter_specs s). ps_name p = fst kv \<and> value_conforms p (snd x))"
proof -
  obtain name v where kv: "kv = (name, v)" by (cases kv)
  with assms obtain p where p: "find_spec s name = Some p" by (auto simp: normalize_member_def split: option.splits)
  with assms kv obtain w where "parameter_normalize p v = Inr w" "x = (PStr name, w)"
    by (auto simp: normalize_member_def res_simps)
  with find_spec_Some [OF p] kv parameter_normalize_conforms show ?thesis by auto
qed

lemma normalize_parameters_Inr:
  assumes "normalize_parameters s v = Inr w"
  shows "\<exists>kvs. w = PMap (map (\<lambda>(k, x). (PStr k, x)) kvs) \<and> sorted (map fst kvs) \<and> distinct (map fst kvs) \<and>
    length kvs \<le> 32 \<and>
    (\<forall>(k, x) \<in> set kvs. \<exists>p \<in> set (parameter_specs s). ps_name p = k \<and> value_conforms p x) \<and>
    (\<forall>p \<in> set (parameter_specs s). required p \<longrightarrow> ps_name p \<in> fst ` set kvs)"
proof -
  from assms obtain items raw kvs where items: "v = PMap items" "length items \<le> 32"
    and raw: "raw_parameters [] items = Inr raw"
    and req: "list_all (\<lambda>p. required p \<longrightarrow> ps_name p \<in> fst ` set raw) (parameter_specs s)"
    and kvs: "map_res (normalize_member s) (sort_key fst raw) = Inr kvs" "w = PMap kvs"
    by (cases v) (auto simp: normalize_parameters_def rbind_eq_Inr guard_eq_Inr accept_simps max_strategy_parameters_def)
  from raw_parameters_Inr [OF raw] have r: "items = map (\<lambda>(k, v). (PStr k, v)) raw" "distinct (map fst raw)" by auto
  let ?raw = "sort_key fst raw"
  have all2: "list_all2 (\<lambda>kv x. normalize_member s kv = Inr x) ?raw kvs"
    using kvs(1) by (simp add: map_res_eq_Inr)
  define out where "out = map (\<lambda>(kv, x). (fst kv, snd x)) (zip ?raw kvs)"
  have len: "length kvs = length ?raw" using list_all2_lengthD [OF all2] by simp
  have keys: "map fst out = map fst ?raw"
    using len by (intro nth_equalityI) (simp_all add: out_def)
  have nth: "kvs ! n = (PStr (fst (?raw ! n)), snd (kvs ! n)) \<and>
      (\<exists>p \<in> set (parameter_specs s). ps_name p = fst (?raw ! n) \<and> value_conforms p (snd (kvs ! n)))"
    if "n < length ?raw" for n
    by (rule normalize_member_Inr) (rule list_all2_nthD [OF all2 that])
  have "kvs = map (\<lambda>(k, x). (PStr k, x)) out"
    using len nth by (intro nth_equalityI) (auto simp: out_def)
  moreover have "\<forall>(k, x) \<in> set out. \<exists>p \<in> set (parameter_specs s). ps_name p = k \<and> value_conforms p x"
    using len nth by (fastforce simp: out_def in_set_zip set_zip)
  moreover have "distinct (map fst ?raw)"
    using r(2) by (metis mset_eq_imp_distinct_iff mset_map mset_sort)
  moreover have "fst ` set out = fst ` set raw" using keys by (metis list.set_map set_sort)
  ultimately show ?thesis
    using kvs(2) items r req keys by (intro exI [of _ out]) (auto simp: list_all_iff out_def len)
qed

definition capability_ok :: "capability \<Rightarrow> bool" where
  "capability_ok c \<longleftrightarrow>
     is_symbol (cap_name c) \<and> is_record_text (cap_description c) \<and>
     0 < contract_version c \<and> contract_version c < 2 ^ 256 \<and>
     sorted (cap_required_state_keys c) \<and> distinct (cap_required_state_keys c) \<and>
     length (cap_required_state_keys c) \<le> 128 \<and> list_all is_symbol (cap_required_state_keys c) \<and>
     sorted (semantic_argument_keys c) \<and> distinct (semantic_argument_keys c) \<and>
     length (semantic_argument_keys c) \<le> 32 \<and> list_all is_symbol (semantic_argument_keys c) \<and>
     (case replay_evidence_id c of
        None \<Rightarrow> cap_replay_safety c \<noteq> ProvenReplaySafe
      | Some e \<Rightarrow> cap_replay_safety c = ProvenReplaySafe \<and> is_fingerprint e)"

lemma capability_init_Inr:
  "capability_init c = Inr c' \<longleftrightarrow>
     c' = c \<lparr> cap_required_state_keys := sort (cap_required_state_keys c),
              semantic_argument_keys := sort (semantic_argument_keys c) \<rparr> \<and> capability_ok c'"
  by (auto simp: capability_init_def capability_ok_def check_replay_evidence_def res_simps accept_simps
      list_all_iff protocol_limit_defs split: if_splits option.splits)

lemma capability_init_ok: "capability_ok c \<Longrightarrow> capability_init c = Inr c"
  unfolding capability_init_Inr by (simp add: capability_ok_def sort_key_id)

definition limits_ok :: "orchestration_limits \<Rightarrow> bool" where
  "limits_ok l \<longleftrightarrow>
     0 < ol_max_obligations l \<and> ol_max_obligations l \<le> 128 \<and>
     0 < ol_max_epistemic_records l \<and> ol_max_epistemic_records l \<le> 256 \<and>
     0 < ol_max_capabilities l \<and> ol_max_capabilities l \<le> 64 \<and>
     0 < ol_max_batch_proposals l \<and> ol_max_batch_proposals l \<le> 64 \<and>
     0 < ol_max_history l \<and> ol_max_history l \<le> 256 \<and>
     0 < ol_max_occurrence_owners l \<and> ol_max_occurrence_owners l \<le> 256 \<and>
     0 < ol_max_strategy_schemas l \<and> ol_max_strategy_schemas l \<le> 32"

lemma orchestration_limits_init_Inr: "orchestration_limits_init l = Inr l' \<longleftrightarrow> l' = l \<and> limits_ok l"
  by (auto simp: orchestration_limits_init_def limits_ok_def res_simps accept_simps protocol_limit_defs)

lemma default_orchestration_limits_ok: "limits_ok default_orchestration_limits"
  by (simp add: limits_ok_def default_orchestration_limits_def protocol_limit_defs)

definition value_ok :: "canonical_value \<Rightarrow> bool" where
  "value_ok c \<longleftrightarrow> canonical_value_init (canonical_text c) = Inr c"

lemma value_ok_from_value: "canonical_value_from_value v = Inr c \<Longrightarrow> value_ok c"
  using text_from_value_validate by (simp add: canonical_value_from_value_def canonical_value_init_def value_ok_def)

lemma value_ok_stored: "value_ok c \<Longrightarrow> to_value c = Inr (stored_value c)"
  using validate_text_Inr [of value_profile "canonical_text c" c]
  by (auto simp: value_ok_def canonical_value_init_def stored_value_def)

definition proposal_ok :: "action_proposal \<Rightarrow> bool" where
  "proposal_ok p \<longleftrightarrow>
     is_symbol (proposal_key p) \<and> is_symbol (proposal_capability p) \<and>
     target_obligation_ids p \<noteq> [] \<and> sorted (target_obligation_ids p) \<and> distinct (target_obligation_ids p) \<and>
     length (target_obligation_ids p) \<le> 128 \<and> list_all is_fingerprint (target_obligation_ids p) \<and>
     sorted (proposal_state_keys p) \<and> distinct (proposal_state_keys p) \<and>
     length (proposal_state_keys p) \<le> 128 \<and> list_all is_symbol (proposal_state_keys p) \<and>
     (case occurrence_key p of None \<Rightarrow> True | Some k \<Rightarrow> is_symbol k) \<and>
     value_ok (proposal_arguments p) \<and>
     (case observational_metadata p of None \<Rightarrow> True | Some c \<Rightarrow> value_ok c)"

lemma action_proposal_init_ok:
  "action_proposal_init key cap arguments target_ids state_keys occurrence metadata = Inr p \<Longrightarrow> proposal_ok p"
  by (auto simp: action_proposal_init_def proposal_ok_def res_simps accept_simps list_all_iff Let_def
      protocol_limit_defs dest: value_ok_from_value split: option.splits)

definition strategy_ok :: "strategy \<Rightarrow> bool" where
  "strategy_ok s \<longleftrightarrow>
     is_symbol (strategy_key s) \<and> schema_key (strategy_schema_of s) = strategy_key s \<and>
     value_ok (strategy_parameters s)"

lemma strategy_init_ok:
  "strategy_init key parameters schema = Inr s \<Longrightarrow>
   strategy_ok s \<and> strategy_key s = key \<and> strategy_schema_of s = schema"
  by (auto simp: strategy_init_def strategy_ok_def res_simps accept_simps dest: value_ok_from_value)

definition batch_ok :: "proposal_batch \<Rightarrow> bool" where
  "batch_ok b \<longleftrightarrow>
     is_symbol (batch_key b) \<and> strategy_ok (batch_strategy b) \<and> proposals b \<noteq> [] \<and>
     length (proposals b) \<le> 64 \<and> list_all proposal_ok (proposals b) \<and>
     distinct (map proposal_key (proposals b))"

lemma proposal_batch_init_Inr:
  "strategy_ok (batch_strategy b) \<Longrightarrow> list_all proposal_ok (proposals b) \<Longrightarrow>
   proposal_batch_init b = Inr b' \<longleftrightarrow> b' = b \<and> batch_ok b"
  by (auto simp: proposal_batch_init_def batch_ok_def res_simps accept_simps protocol_limit_defs)

lemma set_ordered_proposals [simp]: "set (ordered_proposals H b) = set (proposals b)"
  by (simp add: ordered_proposals_def)

lemma length_ordered_proposals [simp]: "length (ordered_proposals H b) = length (proposals b)"
  by (simp add: ordered_proposals_def)

lemma mset_ordered_proposals: "mset (ordered_proposals H b) = mset (proposals b)"
  by (simp add: ordered_proposals_def)

text \<open>
  In an independent batch, proposals with distinct identities are processed in an order that
  does not depend on how they were listed.
\<close>

lemma ordered_proposals_permute:
  assumes "ordering b = CanonicalIndependent" and "mset ps = mset (proposals b)"
    and "inj_on (proposal_id H) (set (proposals b))"
  shows "ordered_proposals H (b \<lparr> proposals := ps \<rparr>) = ordered_proposals H b"
  using assms sort_key_perm_eq [OF assms(2), of "proposal_id H"] mset_eq_setD [OF assms(2)]
  by (simp add: ordered_proposals_def)

subsection \<open>Capability arguments\<close>

lemma raw_arguments_Inr:
  "raw_arguments raw items = Inr raw' \<Longrightarrow>
     \<exists>new. raw' = raw @ new \<and> items = map (\<lambda>(k, v). (PStr k, v)) new \<and>
       list_all (\<lambda>(k, v). is_symbol k) new \<and>
       (distinct (map fst raw) \<longrightarrow> distinct (map fst raw'))"
proof (induction raw items arbitrary: raw' rule: raw_arguments.induct)
  case (2 raw k v items)
  then obtain name where k: "k = PStr name" "name \<notin> fst ` set raw" "is_symbol name"
    and r: "raw_arguments (raw @ [(name, v)]) items = Inr raw'"
    by (cases k) (auto simp: res_simps accept_simps)
  from "2.IH" [OF k(1) r] obtain new where "raw' = (raw @ [(name, v)]) @ new"
    "items = map (\<lambda>(k, v). (PStr k, v)) new" "list_all (\<lambda>(k, v). is_symbol k) new"
    "distinct (map fst (raw @ [(name, v)])) \<longrightarrow> distinct (map fst raw')" by blast
  with k show ?case by (intro exI [of _ "(name, v) # new"]) auto
qed auto

lemma normalize_arguments_Inr:
  assumes "normalize_arguments c v = Inr j"
  shows "\<exists>raw value. v = PMap (map (\<lambda>(k, x). (PStr k, x)) raw) \<and> distinct (map fst raw) \<and> length raw \<le> 32 \<and>
    fst ` set raw \<subseteq> set (semantic_argument_keys c) \<and>
    canonical_value_from_value v = Inr value \<and> to_value value = Inr j"
proof -
  from assms obtain items raw where items: "v = PMap items" "length items \<le> 32"
    and raw: "raw_arguments [] items = Inr raw" "fst ` set raw \<subseteq> set (semantic_argument_keys c)"
    and val: "rbind (canonical_value_from_value (PMap (map (\<lambda>(k, v). (PStr k, v)) raw))) to_value = Inr j"
    by (cases v) (auto simp: normalize_arguments_def rbind_eq_Inr guard_eq_Inr accept_simps max_capability_arguments_def)
  from raw_arguments_Inr [OF raw(1)] have "items = map (\<lambda>(k, v). (PStr k, v)) raw" "distinct (map fst raw)" by auto
  with items raw val show ?thesis by (auto simp: rbind_eq_Inr)
qed

end
