(* ===== verification/Admission.thy ===== *)
theory Admission
  imports Proposals
begin

text \<open>
  The admission machine of \<open>src/ibae/orchestration.py\<close>: decisions, receipts, the orchestration
  state with its logical clock, bounded history and occurrence ownership, and the transition
  \<open>admit_batch\<close>.
\<close>

section \<open>Vocabulary of decisions\<close>

datatype authority_layer = Governance | Orchestration | Execution | Benchmark

fun authority_value :: "authority_layer \<Rightarrow> pystr" where
  "authority_value Governance = lit ''governance''"
| "authority_value Orchestration = lit ''orchestration''"
| "authority_value Execution = lit ''execution''"
| "authority_value Benchmark = lit ''benchmark''"

datatype decision_status = Admitted | Deduplicated | Rejected

fun decision_status_value :: "decision_status \<Rightarrow> pystr" where
  "decision_status_value Admitted = lit ''admitted''"
| "decision_status_value Deduplicated = lit ''deduplicated''"
| "decision_status_value Rejected = lit ''rejected''"

datatype batch_status = Processed | BatchRejected

fun batch_status_value :: "batch_status \<Rightarrow> pystr" where
  "batch_status_value Processed = lit ''processed''"
| "batch_status_value BatchRejected = lit ''rejected''"

datatype rejection_reason =
    BatchLimitExceeded | StrategySchemaNotAdmitted | UnknownCapability | CapabilityUnavailable
  | ArgumentSchemaMismatch | UnknownObligation | ObligationSatisfied | ObligationBlocked
  | DependencyUnsatisfied | UnknownState | OccurrenceKeyRequired | UnexpectedOccurrenceKey
  | DuplicateOccurrence | OccurrenceRegistryFull | OrderingContractRequired

fun reason_value :: "rejection_reason \<Rightarrow> pystr" where
  "reason_value BatchLimitExceeded = lit ''IBAE-REJECT-BATCH-LIMIT-EXCEEDED''"
| "reason_value StrategySchemaNotAdmitted = lit ''IBAE-REJECT-STRATEGY-SCHEMA-NOT-ADMITTED''"
| "reason_value UnknownCapability = lit ''IBAE-REJECT-UNKNOWN-CAPABILITY''"
| "reason_value CapabilityUnavailable = lit ''IBAE-REJECT-CAPABILITY-UNAVAILABLE''"
| "reason_value ArgumentSchemaMismatch = lit ''IBAE-REJECT-ARGUMENT-SCHEMA-MISMATCH''"
| "reason_value UnknownObligation = lit ''IBAE-REJECT-UNKNOWN-OBLIGATION''"
| "reason_value ObligationSatisfied = lit ''IBAE-REJECT-OBLIGATION-SATISFIED''"
| "reason_value ObligationBlocked = lit ''IBAE-REJECT-OBLIGATION-BLOCKED''"
| "reason_value DependencyUnsatisfied = lit ''IBAE-REJECT-DEPENDENCY-UNSATISFIED''"
| "reason_value UnknownState = lit ''IBAE-REJECT-UNKNOWN-STATE''"
| "reason_value OccurrenceKeyRequired = lit ''IBAE-REJECT-OCCURRENCE-KEY-REQUIRED''"
| "reason_value UnexpectedOccurrenceKey = lit ''IBAE-REJECT-UNEXPECTED-OCCURRENCE-KEY''"
| "reason_value DuplicateOccurrence = lit ''IBAE-REJECT-DUPLICATE-OCCURRENCE''"
| "reason_value OccurrenceRegistryFull = lit ''IBAE-REJECT-OCCURRENCE-REGISTRY-FULL''"
| "reason_value OrderingContractRequired = lit ''IBAE-REJECT-ORDERING-CONTRACT-REQUIRED''"

datatype recovery_action =
    SplitBatch | UseAdmittedStrategySchema | ChooseAvailableCapability | UseAdmittedArgumentSchema
  | ChooseKnownObligation | TargetUnsatisfiedObligation | ResolveBlocker | SatisfyDependencies
  | ObserveRequiredState | AddOccurrenceKey | RemoveOccurrenceKey | UseDistinctOccurrenceKey
  | RequestNewBoundedScope | UseDeclaredSequence

fun recovery_value :: "recovery_action \<Rightarrow> pystr" where
  "recovery_value SplitBatch = lit ''IBAE-RECOVERY-SPLIT-BATCH''"
| "recovery_value UseAdmittedStrategySchema = lit ''IBAE-RECOVERY-USE-ADMITTED-STRATEGY-SCHEMA''"
| "recovery_value ChooseAvailableCapability = lit ''IBAE-RECOVERY-CHOOSE-AVAILABLE-CAPABILITY''"
| "recovery_value UseAdmittedArgumentSchema = lit ''IBAE-RECOVERY-USE-ADMITTED-ARGUMENT-SCHEMA''"
| "recovery_value ChooseKnownObligation = lit ''IBAE-RECOVERY-CHOOSE-KNOWN-OBLIGATION''"
| "recovery_value TargetUnsatisfiedObligation = lit ''IBAE-RECOVERY-TARGET-UNSATISFIED-OBLIGATION''"
| "recovery_value ResolveBlocker = lit ''IBAE-RECOVERY-RESOLVE-BLOCKER''"
| "recovery_value SatisfyDependencies = lit ''IBAE-RECOVERY-SATISFY-DEPENDENCIES''"
| "recovery_value ObserveRequiredState = lit ''IBAE-RECOVERY-OBSERVE-REQUIRED-STATE''"
| "recovery_value AddOccurrenceKey = lit ''IBAE-RECOVERY-ADD-OCCURRENCE-KEY''"
| "recovery_value RemoveOccurrenceKey = lit ''IBAE-RECOVERY-REMOVE-OCCURRENCE-KEY''"
| "recovery_value UseDistinctOccurrenceKey = lit ''IBAE-RECOVERY-USE-DISTINCT-OCCURRENCE-KEY''"
| "recovery_value RequestNewBoundedScope = lit ''IBAE-RECOVERY-REQUEST-NEW-BOUNDED-SCOPE''"
| "recovery_value UseDeclaredSequence = lit ''IBAE-RECOVERY-USE-DECLARED-SEQUENCE''"

definition recovery_action_count :: int where "recovery_action_count = 14"

fun rejection_invariants :: "rejection_reason \<Rightarrow> pystr list" where
  "rejection_invariants BatchLimitExceeded = [lit ''IBAE-BND-008'', lit ''IBAE-ORCH-006'']"
| "rejection_invariants StrategySchemaNotAdmitted =
     [lit ''IBAE-AI-002'', lit ''IBAE-CLK-002'', lit ''IBAE-PROG-005'']"
| "rejection_invariants UnknownCapability = [lit ''IBAE-GOV-006'', lit ''IBAE-ORCH-001'']"
| "rejection_invariants CapabilityUnavailable = [lit ''IBAE-ORCH-001'']"
| "rejection_invariants ArgumentSchemaMismatch =
     [lit ''IBAE-CLK-002'', lit ''IBAE-ORCH-001'', lit ''IBAE-ORCH-003'']"
| "rejection_invariants UnknownObligation = [lit ''IBAE-ORCH-005'']"
| "rejection_invariants ObligationSatisfied = [lit ''IBAE-ORCH-005'', lit ''IBAE-PROG-003'']"
| "rejection_invariants ObligationBlocked = [lit ''IBAE-ORCH-005'', lit ''IBAE-PROG-003'']"
| "rejection_invariants DependencyUnsatisfied = [lit ''IBAE-ORCH-005'']"
| "rejection_invariants UnknownState = [lit ''IBAE-AI-004'', lit ''IBAE-ORCH-005'']"
| "rejection_invariants OccurrenceKeyRequired = [lit ''IBAE-ORCH-007'']"
| "rejection_invariants UnexpectedOccurrenceKey = [lit ''IBAE-ORCH-003'']"
| "rejection_invariants DuplicateOccurrence = [lit ''IBAE-ORCH-007'']"
| "rejection_invariants OccurrenceRegistryFull =
     [lit ''IBAE-BND-008'', lit ''IBAE-ORCH-006'', lit ''IBAE-ORCH-007'']"
| "rejection_invariants OrderingContractRequired =
     [lit ''IBAE-DET-004'', lit ''IBAE-ORCH-004'', lit ''IBAE-ORCH-007'']"

section \<open>Decisions\<close>

record admission_decision =
  dec_proposal_id :: pystr
  dec_proposal_key :: pystr
  dec_status :: decision_status
  dec_tick :: int
  dec_authority :: authority_layer
  dec_invariant_ids :: "pystr list"
  dec_action_id :: "pystr option"
  dec_equivalent :: "pystr option"
  dec_reason :: "rejection_reason option"
  dec_recoveries :: "recovery_action list"
  dec_blocking :: "pystr list"
  dec_dependency_keys :: "pystr list"
  dec_unresolved :: "pystr list"

definition require_optional_fingerprint :: "pystr option \<Rightarrow> unit res" where
  "require_optional_fingerprint x =
     (case x of None \<Rightarrow> Inr () | Some s \<Rightarrow> rbind (require_fingerprint s) (\<lambda>_. Inr ()))"

definition sorted_recoveries :: "recovery_action list \<Rightarrow> recovery_action list" where
  "sorted_recoveries rs = sort_key recovery_value (remdups rs)"

definition check_decision_shape :: "admission_decision \<Rightarrow> unit res" where
  "check_decision_shape d =
     (case dec_status d of
        Admitted \<Rightarrow>
          rbind (guard (dec_action_id d \<noteq> None) (ValueErr ''admitted decisions require an action id''))
            (\<lambda>_. rbind (guard (dec_equivalent d = None)
                      (ValueErr ''admitted decisions cannot name an equivalent proposal''))
            (\<lambda>_. rbind (guard (dec_reason d = None \<and> dec_recoveries d = [])
                      (ValueErr ''admitted decisions cannot carry rejection state''))
            (\<lambda>_. guard (dec_invariant_ids d = [])
                      (ValueErr ''admitted decisions cannot carry rejection invariants''))))
      | Deduplicated \<Rightarrow>
          rbind (guard (dec_action_id d \<noteq> None \<and> dec_equivalent d \<noteq> None)
                  (ValueErr ''deduplicated decisions require action and equivalent proposal ids''))
            (\<lambda>_. rbind (guard (dec_reason d = None \<and> dec_recoveries d = [])
                      (ValueErr ''deduplicated decisions cannot carry rejection state''))
            (\<lambda>_. guard (dec_invariant_ids d = [])
                      (ValueErr ''deduplicated decisions cannot carry rejection invariants'')))
      | Rejected \<Rightarrow>
          rbind (guard (dec_action_id d = None \<and> dec_equivalent d = None)
                  (ValueErr ''rejected decisions cannot carry admitted identities''))
            (\<lambda>_. rbind (guard (dec_reason d \<noteq> None) (ValueErr ''rejected decisions require a reason code''))
            (\<lambda>_. guard (dec_invariant_ids d \<noteq> [])
                      (ValueErr ''rejected decisions require relevant invariant ids''))))"

definition admission_decision_init :: "admission_decision \<Rightarrow> admission_decision res" where
  "admission_decision_init d =
     rbind (require_fingerprint (dec_proposal_id d))
       (\<lambda>_. rbind (require_symbol (dec_proposal_key d))
       (\<lambda>_. rbind (require_nonnegative_int (dec_tick d))
       (\<lambda>_. rbind (require_optional_fingerprint (dec_action_id d))
       (\<lambda>_. rbind (require_optional_fingerprint (dec_equivalent d))
       (\<lambda>_. rbind (materialize recovery_action_count (dec_recoveries d))
       (\<lambda>recoveries. rbind (materialize max_obligations_limit (dec_blocking d))
       (\<lambda>blocking. rbind (materialize max_epistemic_records (dec_dependency_keys d))
       (\<lambda>dependency. rbind (materialize max_epistemic_records (dec_unresolved d))
       (\<lambda>unresolved. rbind (materialize max_invariant_ids_per_rejection (dec_invariant_ids d))
       (\<lambda>invariants.
          rbind (for_each (\<lambda>xs. guard (distinct xs) (ValueErr ''must be unique''))
                  [sort blocking, sort dependency, sort unresolved, sort invariants])
       (\<lambda>_. rbind (for_each require_fingerprint (sort blocking))
       (\<lambda>_. rbind (for_each require_symbol (sort unresolved))
       (\<lambda>_. rbind (for_each require_symbol (sort dependency))
       (\<lambda>_. rbind (for_each require_invariant_id (sort invariants))
       (\<lambda>_. let d' = d \<lparr> dec_recoveries := sorted_recoveries recoveries, dec_blocking := sort blocking,
                         dec_dependency_keys := sort dependency, dec_unresolved := sort unresolved,
                         dec_invariant_ids := sort invariants \<rparr>
             in rbind (check_decision_shape d') (\<lambda>_. Inr d'))))))))))))))))"

definition decision_record :: "admission_decision \<Rightarrow> json" where
  "decision_record d =
     JObj [(lit ''action_id'', opt_str (dec_action_id d)),
           (lit ''authority_layer'', JStr (authority_value (dec_authority d))),
           (lit ''blocking_obligation_ids'', str_list (dec_blocking d)),
           (lit ''dependency_state_keys'', str_list (dec_dependency_keys d)),
           (lit ''equivalent_proposal_id'', opt_str (dec_equivalent d)),
           (lit ''logical_tick'', JInt (dec_tick d)),
           (lit ''invariant_ids'', str_list (dec_invariant_ids d)),
           (lit ''proposal_id'', JStr (dec_proposal_id d)),
           (lit ''proposal_key'', JStr (dec_proposal_key d)),
           (lit ''recovery_actions'', str_list (map recovery_value (dec_recoveries d))),
           (lit ''rejection_reason'', opt_str (map_option reason_value (dec_reason d))),
           (lit ''status'', JStr (decision_status_value (dec_status d))),
           (lit ''unresolved_state_keys'', str_list (dec_unresolved d))]"

record batch_rejection =
  br_reason :: rejection_reason
  br_recoveries :: "recovery_action list"
  br_tick :: int
  br_authority :: authority_layer
  br_invariant_ids :: "pystr list"

definition batch_rejection_init :: "batch_rejection \<Rightarrow> batch_rejection res" where
  "batch_rejection_init r =
     rbind (materialize recovery_action_count (br_recoveries r))
       (\<lambda>recoveries. rbind (require_nonnegative_int (br_tick r))
       (\<lambda>_. rbind (materialize max_invariant_ids_per_rejection (br_invariant_ids r))
       (\<lambda>invariants. rbind (guard (sort invariants \<noteq> [])
                 (ValueErr ''batch rejections require relevant invariant ids''))
       (\<lambda>_. rbind (for_each require_invariant_id (sort invariants))
       (\<lambda>_. Inr (r \<lparr> br_recoveries := sorted_recoveries recoveries,
                      br_invariant_ids := sort invariants \<rparr>))))))"

definition batch_rejection_record :: "batch_rejection \<Rightarrow> json" where
  "batch_rejection_record r =
     JObj [(lit ''authority_layer'', JStr (authority_value (br_authority r))),
           (lit ''invariant_ids'', str_list (br_invariant_ids r)),
           (lit ''logical_tick'', JInt (br_tick r)),
           (lit ''reason'', JStr (reason_value (br_reason r))),
           (lit ''recovery_actions'', str_list (map recovery_value (br_recoveries r)))]"

record occurrence_ownership =
  own_key :: pystr
  own_action_id :: pystr
  own_proposal_id :: pystr

definition occurrence_ownership_init :: "occurrence_ownership \<Rightarrow> occurrence_ownership res" where
  "occurrence_ownership_init w =
     rbind (require_symbol (own_key w))
       (\<lambda>_. rbind (require_fingerprint (own_action_id w))
       (\<lambda>_. rbind (require_fingerprint (own_proposal_id w)) (\<lambda>_. Inr w)))"

definition ownership_record :: "occurrence_ownership \<Rightarrow> json" where
  "ownership_record w =
     JObj [(lit ''action_id'', JStr (own_action_id w)),
           (lit ''occurrence_key'', JStr (own_key w)),
           (lit ''proposal_id'', JStr (own_proposal_id w))]"

section \<open>Receipts\<close>

record admission_receipt =
  rc_batch_id :: pystr
  rc_strategy_id :: pystr
  rc_prior_state_id :: pystr
  rc_next_state_id :: pystr
  rc_status :: batch_status
  rc_ordering :: proposal_ordering
  rc_tick_start :: int
  rc_tick_end :: int
  rc_decisions :: "admission_decision list"
  rc_batch_rejection :: "batch_rejection option"

definition check_receipt_shape :: "admission_receipt \<Rightarrow> unit res" where
  "check_receipt_shape r =
     (case rc_status r of
        BatchRejected \<Rightarrow>
          (case rc_batch_rejection r of
             None \<Rightarrow> Inl (ValueErr ''rejected batches require one batch rejection and no decisions'')
           | Some b \<Rightarrow>
               rbind (guard (rc_decisions r = [])
                       (ValueErr ''rejected batches require one batch rejection and no decisions''))
                 (\<lambda>_. rbind (guard (rc_tick_end r = rc_tick_start r + 1)
                           (ValueErr ''a batch rejection consumes exactly one logical tick''))
                 (\<lambda>_. guard (br_tick b = rc_tick_end r)
                           (ValueErr ''batch rejection tick must match receipt end tick''))))
      | Processed \<Rightarrow>
          rbind (guard (rc_batch_rejection r = None)
                  (ValueErr ''processed batches cannot carry a batch rejection''))
            (\<lambda>_. rbind (guard (rc_decisions r \<noteq> []) (ValueErr ''a processed batch must contain decisions''))
            (\<lambda>_. rbind (guard (map dec_tick (rc_decisions r) = [rc_tick_start r + 1 .. rc_tick_end r])
                      (ValueErr ''processed proposal decisions must consume contiguous logical ticks''))
            (\<lambda>_. guard (rc_ordering r \<noteq> CanonicalIndependent \<or>
                        map dec_proposal_id (rc_decisions r) = sort (map dec_proposal_id (rc_decisions r)))
                      (ValueErr ''proposal decisions must use canonical id ordering'')))))"

definition admission_receipt_init :: "admission_receipt \<Rightarrow> admission_receipt res" where
  "admission_receipt_init r =
     rbind (for_each require_fingerprint
             [rc_batch_id r, rc_strategy_id r, rc_prior_state_id r, rc_next_state_id r])
       (\<lambda>_. rbind (require_nonnegative_int (rc_tick_start r))
       (\<lambda>_. rbind (require_nonnegative_int (rc_tick_end r))
       (\<lambda>_. rbind (guard (rc_tick_start r \<le> rc_tick_end r) (ValueErr ''logical tick cannot move backwards''))
       (\<lambda>_. rbind (materialize max_proposals_per_batch (rc_decisions r))
       (\<lambda>_. rbind (check_receipt_shape r) (\<lambda>_. Inr r))))))"

definition receipt_record :: "admission_receipt \<Rightarrow> json" where
  "receipt_record r =
     JObj [(lit ''batch_id'', JStr (rc_batch_id r)),
           (lit ''batch_rejection'',
              case rc_batch_rejection r of None \<Rightarrow> JNull | Some b \<Rightarrow> batch_rejection_record b),
           (lit ''decisions'', JArr (map decision_record (rc_decisions r))),
           (lit ''logical_clock_profile'', JStr logical_clock_profile),
           (lit ''logical_tick_end'', JInt (rc_tick_end r)),
           (lit ''logical_tick_start'', JInt (rc_tick_start r)),
           (lit ''next_state_id'', JStr (rc_next_state_id r)),
           (lit ''prior_state_id'', JStr (rc_prior_state_id r)),
           (lit ''proposal_ordering'', JStr (ordering_value (rc_ordering r))),
           (lit ''protocol'', JStr agent_protocol),
           (lit ''status'', JStr (batch_status_value (rc_status r))),
           (lit ''strategy_id'', JStr (rc_strategy_id r))]"

definition receipt_id :: "digest \<Rightarrow> admission_receipt \<Rightarrow> pystr" where
  "receipt_id H r = domain_id H ''ibae.admission-receipt-id.v1'' (receipt_record r)"

end
