(* ===== verification/Admit_Batch.thy ===== *)
theory Admit_Batch
  imports Admission
begin

text \<open>
  The orchestration state and the transition \<open>admit_batch\<close> of \<open>src/ibae/orchestration.py\<close>. The
  dictionaries that the transition updates are association lists in insertion order. Each
  proposal is decided by one function whose stages follow the successive
  \<open>if decision is None\<close> blocks of the loop body.
\<close>

section \<open>State\<close>

record orchestration_state =
  os_obligations :: obligation_registry
  os_epistemic :: epistemic_state
  os_capabilities :: "capability list"
  os_limits :: orchestration_limits
  os_tick :: int
  os_history :: "pystr list"
  os_owners :: "occurrence_ownership list"
  os_schemas :: "strategy_schema list"

definition check_capabilities :: "orchestration_state \<Rightarrow> capability list res" where
  "check_capabilities s =
     rbind (materialize (ol_max_capabilities (os_limits s)) (os_capabilities s))
       (\<lambda>supplied. let caps = sort_key cap_name supplied in
          rbind (guard (int (length caps) \<le> ol_max_capabilities (os_limits s))
                  (ValueErr ''capability registry exceeds max_capabilities''))
       (\<lambda>_. rbind (guard (distinct (map cap_name caps)) (ValueErr ''capability names must be unique''))
       (\<lambda>_. Inr caps)))"

definition check_history :: "orchestration_state \<Rightarrow> pystr list res" where
  "check_history s =
     rbind (materialize (ol_max_history (os_limits s)) (os_history s))
       (\<lambda>history. rbind (guard (int (length history) \<le> ol_max_history (os_limits s))
                  (ValueErr ''orchestration history exceeds max_history''))
       (\<lambda>_. rbind (for_each require_fingerprint history) (\<lambda>_. Inr history)))"

definition check_owners :: "orchestration_state \<Rightarrow> occurrence_ownership list res" where
  "check_owners s =
     rbind (materialize (ol_max_occurrence_owners (os_limits s)) (os_owners s))
       (\<lambda>supplied. let owners = sort_key own_key supplied in
          rbind (guard (int (length owners) \<le> ol_max_occurrence_owners (os_limits s))
                  (ValueErr ''occurrence ownership exceeds max_occurrence_owners''))
       (\<lambda>_. rbind (guard (distinct (map own_key owners)) (ValueErr ''occurrence ownership keys must be unique''))
       (\<lambda>_. Inr owners)))"

definition check_schemas :: "orchestration_state \<Rightarrow> strategy_schema list res" where
  "check_schemas s =
     rbind (materialize (ol_max_strategy_schemas (os_limits s)) (os_schemas s))
       (\<lambda>supplied. let schemas = sort_key schema_key supplied in
          rbind (guard (distinct (map schema_key schemas)) (ValueErr ''strategy schema keys must be unique''))
       (\<lambda>_. Inr schemas))"

definition orchestration_state_init :: "orchestration_state \<Rightarrow> orchestration_state res" where
  "orchestration_state_init s =
     rbind (require_nonnegative_int (os_tick s))
       (\<lambda>_. rbind (guard (max_obligations (os_obligations s) = ol_max_obligations (os_limits s))
                 (ValueErr ''obligation registry bound must match state limits''))
       (\<lambda>_. rbind (guard (max_records (os_epistemic s) = ol_max_epistemic_records (os_limits s))
                 (ValueErr ''epistemic state bound must match state limits''))
       (\<lambda>_. rbind (check_capabilities s)
       (\<lambda>caps. rbind (check_history s)
       (\<lambda>history. rbind (check_owners s)
       (\<lambda>owners. rbind (check_schemas s)
       (\<lambda>schemas. Inr (s \<lparr> os_capabilities := caps, os_history := history,
                           os_owners := owners, os_schemas := schemas \<rparr>))))))))"

definition orchestration_state_create ::
  "digest \<Rightarrow> obligation list \<Rightarrow> epistemic_state option \<Rightarrow> capability list \<Rightarrow> strategy_schema list \<Rightarrow>
   orchestration_limits option \<Rightarrow> orchestration_state res"
where
  "orchestration_state_create H obs epistemic caps schemas limits_arg =
     (let active = (case limits_arg of None \<Rightarrow> default_orchestration_limits | Some l \<Rightarrow> l)
      in rbind (case epistemic of
                  None \<Rightarrow> epistemic_state_init [] (ol_max_epistemic_records active)
                | Some e \<Rightarrow> Inr e)
           (\<lambda>e. rbind (registry_from_iterable H obs (ol_max_obligations active))
           (\<lambda>r. rbind (materialize (ol_max_capabilities active) caps)
           (\<lambda>cs. rbind (materialize (ol_max_strategy_schemas active) schemas)
           (\<lambda>ss. orchestration_state_init
                   \<lparr> os_obligations = r, os_epistemic = e, os_capabilities = cs, os_limits = active,
                     os_tick = 0, os_history = [], os_owners = [], os_schemas = ss \<rparr>)))))"

definition find_capability :: "orchestration_state \<Rightarrow> pystr \<Rightarrow> capability option res" where
  "find_capability s name =
     rbind (require_symbol name) (\<lambda>_. Inr (find (\<lambda>c. cap_name c = name) (os_capabilities s)))"

definition find_schema :: "orchestration_state \<Rightarrow> pystr \<Rightarrow> strategy_schema option res" where
  "find_schema s key =
     rbind (require_symbol key) (\<lambda>_. Inr (find (\<lambda>x. schema_key x = key) (os_schemas s)))"

definition clock_record :: "int \<Rightarrow> json" where
  "clock_record tick = JObj [(lit ''profile'', JStr logical_clock_profile), (lit ''tick'', JInt tick)]"

definition state_record :: "digest \<Rightarrow> orchestration_state \<Rightarrow> json" where
  "state_record H s =
     JObj [(lit ''capabilities'', JArr (map (capability_record H) (os_capabilities s))),
           (lit ''epistemic_state'', epistemic_state_identity (os_epistemic s)),
           (lit ''history'', str_list (os_history s)),
           (lit ''limits'', orchestration_limits_record (os_limits s)),
           (lit ''logical_clock'', clock_record (os_tick s)),
           (lit ''obligations'', registry_record H (os_obligations s)),
           (lit ''occurrence_owners'', JArr (map ownership_record (os_owners s))),
           (lit ''protocol'', JStr agent_protocol),
           (lit ''strategy_schemas'', JArr (map strategy_schema_record (os_schemas s)))]"

definition state_id :: "digest \<Rightarrow> orchestration_state \<Rightarrow> pystr" where
  "state_id H s = domain_id H ''ibae.orchestration-state-id.v1'' (state_record H s)"

definition advance ::
  "int \<Rightarrow> pystr list \<Rightarrow> occurrence_ownership list option \<Rightarrow> orchestration_state \<Rightarrow> orchestration_state res"
where
  "advance tick event_ids owners s =
     rbind (require_nonnegative_int tick)
       (\<lambda>_. rbind (guard (os_tick s \<le> tick) (ValueErr ''logical tick cannot move backwards''))
       (\<lambda>_. rbind (materialize max_proposals_per_batch event_ids)
       (\<lambda>additions. rbind (for_each require_fingerprint additions)
       (\<lambda>_. rbind (guard (tick - os_tick s = int (length additions))
                 (ValueErr ''each orchestration event must consume one logical tick''))
       (\<lambda>_. rbind (case owners of
                  None \<Rightarrow> Inr (os_owners s)
                | Some ws \<Rightarrow> materialize (ol_max_occurrence_owners (os_limits s)) ws)
       (\<lambda>next_owners. orchestration_state_init
              (s \<lparr> os_tick := tick,
                   os_history := take_last (nat (ol_max_history (os_limits s))) (os_history s @ additions),
                   os_owners := next_owners \<rparr>)))))))"

record admission_transition =
  next_state :: orchestration_state
  receipt :: admission_receipt

definition admission_transition_init :: "digest \<Rightarrow> admission_transition \<Rightarrow> admission_transition res" where
  "admission_transition_init H t =
     rbind (guard (state_id H (next_state t) = rc_next_state_id (receipt t))
             (ValueErr ''receipt next state identity does not match next_state''))
       (\<lambda>_. Inr t)"

section \<open>Batch-level rejection\<close>

definition event_id :: "digest \<Rightarrow> pystr \<Rightarrow> (pystr \<times> json) list \<Rightarrow> pystr" where
  "event_id H batch members =
     domain_id H ''ibae.orchestration-event-id.v1''
       (JObj [(lit ''batch_id'', JStr batch), (lit ''event'', JObj members)])"

definition rejected_batch_transition ::
  "digest \<Rightarrow> orchestration_state \<Rightarrow> proposal_batch \<Rightarrow> rejection_reason \<Rightarrow> recovery_action list \<Rightarrow>
   admission_transition res"
where
  "rejected_batch_transition H s b reason recoveries =
     rbind (batch_rejection_init
              \<lparr> br_reason = reason, br_recoveries = recoveries, br_tick = os_tick s + 1,
                br_authority = Orchestration, br_invariant_ids = rejection_invariants reason \<rparr>)
       (\<lambda>rejection. rbind (advance (os_tick s + 1)
                [event_id H (batch_id H b) [(lit ''batch_rejection'', batch_rejection_record rejection)]]
                None s)
       (\<lambda>s'. rbind (admission_receipt_init
                \<lparr> rc_batch_id = batch_id H b, rc_strategy_id = strategy_id H (batch_strategy b),
                  rc_prior_state_id = state_id H s, rc_next_state_id = state_id H s',
                  rc_status = BatchRejected, rc_ordering = ordering b,
                  rc_tick_start = os_tick s, rc_tick_end = os_tick s + 1,
                  rc_decisions = [], rc_batch_rejection = Some rejection \<rparr>)
       (\<lambda>r. admission_transition_init H \<lparr> next_state = s', receipt = r \<rparr>)))"

section \<open>Deciding one proposal\<close>

definition rejected_decision ::
  "digest \<Rightarrow> action_proposal \<Rightarrow> int \<Rightarrow> rejection_reason \<Rightarrow> recovery_action list \<Rightarrow> pystr list \<Rightarrow>
   pystr list \<Rightarrow> pystr list \<Rightarrow> admission_decision res"
where
  "rejected_decision H p tick reason recoveries blocking dependency unresolved =
     admission_decision_init
       \<lparr> dec_proposal_id = proposal_id H p, dec_proposal_key = proposal_key p, dec_status = Rejected,
         dec_tick = tick, dec_authority = Orchestration,
         dec_invariant_ids = rejection_invariants reason, dec_action_id = None,
         dec_equivalent = None, dec_reason = Some reason, dec_recoveries = recoveries,
         dec_blocking = blocking, dec_dependency_keys = dependency, dec_unresolved = unresolved \<rparr>"

definition accepted_decision ::
  "digest \<Rightarrow> action_proposal \<Rightarrow> int \<Rightarrow> decision_status \<Rightarrow> pystr \<Rightarrow> pystr option \<Rightarrow> pystr list \<Rightarrow>
   admission_decision res"
where
  "accepted_decision H p tick st action equivalent dependency =
     admission_decision_init
       \<lparr> dec_proposal_id = proposal_id H p, dec_proposal_key = proposal_key p, dec_status = st,
         dec_tick = tick, dec_authority = Orchestration,
         dec_invariant_ids = [], dec_action_id = Some action,
         dec_equivalent = equivalent, dec_reason = None, dec_recoveries = [],
         dec_blocking = [], dec_dependency_keys = dependency, dec_unresolved = [] \<rparr>"

definition targets_with ::
  "digest \<Rightarrow> orchestration_state \<Rightarrow> action_proposal \<Rightarrow> obligation_readiness \<Rightarrow> pystr list res"
where
  "targets_with H s p wanted =
     filter_res (\<lambda>t. rbind (readiness H (os_obligations s) t) (\<lambda>x. Inr (x = wanted)))
       (target_obligation_ids p)"

definition validate_targets ::
  "digest \<Rightarrow> orchestration_state \<Rightarrow> action_proposal \<Rightarrow> int \<Rightarrow> pystr list \<Rightarrow> admission_decision option res"
where
  "validate_targets H s p tick dependency =
     (let unknown = filter (\<lambda>t. t \<notin> set (known_ids H (os_obligations s))) (target_obligation_ids p)
      in if unknown \<noteq> [] then
           rbind (rejected_decision H p tick UnknownObligation [ChooseKnownObligation] unknown dependency [])
             (\<lambda>d. Inr (Some d))
         else rbind (targets_with H s p AlreadySatisfied) (\<lambda>satisfied.
           if satisfied \<noteq> [] then
             rbind (rejected_decision H p tick ObligationSatisfied [TargetUnsatisfiedObligation]
                      satisfied dependency []) (\<lambda>d. Inr (Some d))
           else rbind (targets_with H s p ExplicitlyBlocked) (\<lambda>blocked.
             if blocked \<noteq> [] then
               rbind (rejected_decision H p tick ObligationBlocked [ResolveBlocker] blocked dependency [])
                 (\<lambda>d. Inr (Some d))
             else rbind (targets_with H s p DependencyBlocked) (\<lambda>waiting.
               if waiting \<noteq> [] then
                 rbind (map_res (blocking_dependency_ids H (os_obligations s)) waiting) (\<lambda>blockers.
                   rbind (rejected_decision H p tick DependencyUnsatisfied [SatisfyDependencies]
                            (sorted_set (concat blockers)) dependency []) (\<lambda>d. Inr (Some d)))
               else Inr None))))"

definition action_identity :: "digest \<Rightarrow> capability \<Rightarrow> json \<Rightarrow> pystr option \<Rightarrow> pystr \<Rightarrow> pystr" where
  "action_identity H c arguments occurrence dependency_state =
     domain_id H ''ibae.action-id.v1''
       (JObj ([(lit ''arguments'', arguments),
               (lit ''capability_id'', JStr (capability_id H c)),
               (lit ''dependency_state_id'', JStr dependency_state)] @
              (if cap_replay_safety c = OccurrenceSensitive
               then [(lit ''occurrence_key'', opt_str occurrence)] else [])))"

definition dependency_state_keys :: "capability \<Rightarrow> action_proposal \<Rightarrow> pystr list" where
  "dependency_state_keys c p = sorted_set (cap_required_state_keys c @ proposal_state_keys p)"

text \<open>\<open>except (TypeError, ValueError)\<close>: other exceptions propagate.\<close>

definition is_schema_error :: "pyexn \<Rightarrow> bool" where
  "is_schema_error e \<longleftrightarrow> (case e of TypeErr _ \<Rightarrow> True | ValueErr _ \<Rightarrow> True | UnicodeErr _ \<Rightarrow> True | _ \<Rightarrow> False)"

text \<open>
  The checks on a known, available capability: argument schema, ordering contract, targets,
  required state, occurrence key. \<open>Inl\<close> is the decision that ends them, \<open>Inr\<close> the semantic
  arguments.
\<close>

definition stop :: "admission_decision res \<Rightarrow> (admission_decision + json) res" where
  "stop d = rbind d (\<lambda>x. Inr (Inl x))"

definition check_occurrence_key ::
  "digest \<Rightarrow> action_proposal \<Rightarrow> int \<Rightarrow> capability \<Rightarrow> json \<Rightarrow> (admission_decision + json) res"
where
  "check_occurrence_key H p tick c arguments =
     (if cap_replay_safety c = OccurrenceSensitive \<and> occurrence_key p = None
      then stop (rejected_decision H p tick OccurrenceKeyRequired [AddOccurrenceKey] []
                   (dependency_state_keys c p) [])
      else if is_replay_safe c \<and> occurrence_key p \<noteq> None
      then stop (rejected_decision H p tick UnexpectedOccurrenceKey [RemoveOccurrenceKey] []
                   (dependency_state_keys c p) [])
      else Inr (Inr arguments))"

definition check_required_state ::
  "digest \<Rightarrow> orchestration_state \<Rightarrow> action_proposal \<Rightarrow> int \<Rightarrow> capability \<Rightarrow> json \<Rightarrow>
   (admission_decision + json) res"
where
  "check_required_state H s p tick c arguments =
     rbind (unresolved_keys (os_epistemic s) (dependency_state_keys c p)) (\<lambda>unresolved.
       if unresolved \<noteq> []
       then stop (rejected_decision H p tick UnknownState [ObserveRequiredState] []
                    (dependency_state_keys c p) unresolved)
       else check_occurrence_key H p tick c arguments)"

definition check_proposal ::
  "digest \<Rightarrow> orchestration_state \<Rightarrow> proposal_ordering \<Rightarrow> action_proposal \<Rightarrow> int \<Rightarrow> capability \<Rightarrow>
   (admission_decision + json) res"
where
  "check_proposal H s order p tick c =
     (case rbind (to_value (proposal_arguments p)) (\<lambda>j. normalize_arguments c (of_json j)) of
        Inl e \<Rightarrow>
          if is_schema_error e
          then stop (rejected_decision H p tick ArgumentSchemaMismatch [UseAdmittedArgumentSchema] []
                       (dependency_state_keys c p) [])
          else Inl e
      | Inr arguments \<Rightarrow>
          if cap_replay_safety c \<noteq> CacheableRead \<and> order \<noteq> DeclaredSequence
          then stop (rejected_decision H p tick OrderingContractRequired [UseDeclaredSequence] []
                       (dependency_state_keys c p) [])
          else rbind (validate_targets H s p tick (dependency_state_keys c p)) (\<lambda>verdict.
                 case verdict of
                   Some d \<Rightarrow> Inr (Inl d)
                 | None \<Rightarrow> check_required_state H s p tick c arguments))"

text \<open>What the loop carries from proposal to proposal.\<close>

record admission_memory =
  replay_safe_actions :: "(pystr \<times> pystr) list"
  owner_table :: "(pystr \<times> occurrence_ownership) list"

definition admit_replay_safe ::
  "digest \<Rightarrow> action_proposal \<Rightarrow> int \<Rightarrow> capability \<Rightarrow> pystr \<Rightarrow> admission_memory \<Rightarrow>
   (admission_decision \<times> admission_memory) res"
where
  "admit_replay_safe H p tick c action m =
     (case map_of (replay_safe_actions m) action of
        None \<Rightarrow>
          rbind (accepted_decision H p tick Admitted action None (dependency_state_keys c p))
            (\<lambda>d. Inr (d, m \<lparr> replay_safe_actions :=
                             AList.update action (proposal_id H p) (replay_safe_actions m) \<rparr>))
      | Some equivalent \<Rightarrow>
          rbind (accepted_decision H p tick Deduplicated action (Some equivalent) (dependency_state_keys c p))
            (\<lambda>d. Inr (d, m)))"

definition admit_occurrence ::
  "digest \<Rightarrow> orchestration_state \<Rightarrow> action_proposal \<Rightarrow> int \<Rightarrow> capability \<Rightarrow> pystr \<Rightarrow> admission_memory \<Rightarrow>
   (admission_decision \<times> admission_memory) res"
where
  "admit_occurrence H s p tick c action m =
     (case occurrence_key p of
        None \<Rightarrow> Inl (OtherErr ''AssertionError'')
      | Some key \<Rightarrow>
          if map_of (owner_table m) key \<noteq> None
          then rbind (rejected_decision H p tick DuplicateOccurrence [UseDistinctOccurrenceKey] []
                        (dependency_state_keys c p) []) (\<lambda>d. Inr (d, m))
          else if int (length (owner_table m)) = ol_max_occurrence_owners (os_limits s)
          then rbind (rejected_decision H p tick OccurrenceRegistryFull [RequestNewBoundedScope] []
                        (dependency_state_keys c p) []) (\<lambda>d. Inr (d, m))
          else rbind (occurrence_ownership_init
                        \<lparr> own_key = key, own_action_id = action, own_proposal_id = proposal_id H p \<rparr>)
                 (\<lambda>w. rbind (accepted_decision H p tick Admitted action None (dependency_state_keys c p))
                 (\<lambda>d. Inr (d, m \<lparr> owner_table := AList.update key w (owner_table m) \<rparr>))))"

definition decide_proposal ::
  "digest \<Rightarrow> orchestration_state \<Rightarrow> proposal_ordering \<Rightarrow> int \<Rightarrow> action_proposal \<Rightarrow> admission_memory \<Rightarrow>
   (admission_decision \<times> admission_memory) res"
where
  "decide_proposal H s order tick p m =
     rbind (find_capability s (proposal_capability p)) (\<lambda>found.
       case found of
         None \<Rightarrow>
           rbind (rejected_decision H p tick UnknownCapability [ChooseAvailableCapability] []
                    (proposal_state_keys p) []) (\<lambda>d. Inr (d, m))
       | Some c \<Rightarrow>
           if \<not> available c
           then rbind (rejected_decision H p tick CapabilityUnavailable [ChooseAvailableCapability] []
                         (dependency_state_keys c p) []) (\<lambda>d. Inr (d, m))
           else rbind (check_proposal H s order p tick c) (\<lambda>checked.
                  case checked of
                    Inl d \<Rightarrow> Inr (d, m)
                  | Inr arguments \<Rightarrow>
                      rbind (dependency_digest H (os_epistemic s) (dependency_state_keys c p)) (\<lambda>dep.
                        let action = action_identity H c arguments (occurrence_key p) dep
                        in if is_replay_safe c then admit_replay_safe H p tick c action m
                           else admit_occurrence H s p tick c action m)))"

section \<open>The transition\<close>

fun decide_all ::
  "digest \<Rightarrow> orchestration_state \<Rightarrow> proposal_ordering \<Rightarrow> int \<Rightarrow> action_proposal list \<Rightarrow> admission_memory \<Rightarrow>
   (admission_decision list \<times> admission_memory) res"
where
  "decide_all H s order tick [] m = Inr ([], m)"
| "decide_all H s order tick (p # ps) m =
     rbind (decide_proposal H s order (tick + 1) p m) (\<lambda>(d, m).
       rbind (decide_all H s order (tick + 1) ps m) (\<lambda>(ds, m). Inr (d # ds, m)))"

definition initial_memory :: "orchestration_state \<Rightarrow> admission_memory" where
  "initial_memory s =
     \<lparr> replay_safe_actions = [], owner_table = map (\<lambda>w. (own_key w, w)) (os_owners s) \<rparr>"

definition decision_event :: "digest \<Rightarrow> proposal_batch \<Rightarrow> admission_decision \<Rightarrow> pystr" where
  "decision_event H b d =
     event_id H (batch_id H b)
       [(lit ''decision'', decision_record d), (lit ''strategy_id'', JStr (strategy_id H (batch_strategy b)))]"

definition process_batch ::
  "digest \<Rightarrow> orchestration_state \<Rightarrow> proposal_batch \<Rightarrow> admission_transition res"
where
  "process_batch H s b =
     rbind (decide_all H s (ordering b) (os_tick s) (ordered_proposals H b) (initial_memory s))
       (\<lambda>(decisions, m). let tick = os_tick s + int (length decisions) in
          rbind (advance tick (map (decision_event H b) decisions) (Some (map snd (owner_table m))) s)
       (\<lambda>s'. rbind (admission_receipt_init
                \<lparr> rc_batch_id = batch_id H b, rc_strategy_id = strategy_id H (batch_strategy b),
                  rc_prior_state_id = state_id H s, rc_next_state_id = state_id H s',
                  rc_status = Processed, rc_ordering = ordering b,
                  rc_tick_start = os_tick s, rc_tick_end = tick,
                  rc_decisions = decisions, rc_batch_rejection = None \<rparr>)
       (\<lambda>r. admission_transition_init H \<lparr> next_state = s', receipt = r \<rparr>)))"

definition admit_batch ::
  "digest \<Rightarrow> orchestration_state \<Rightarrow> proposal_batch \<Rightarrow> admission_transition res"
where
  "admit_batch H s b =
     rbind (find_schema s (strategy_key (batch_strategy b))) (\<lambda>found.
       if (case found of None \<Rightarrow> True
           | Some schema \<Rightarrow> schema_id H schema \<noteq> schema_id H (strategy_schema_of (batch_strategy b)))
       then rejected_batch_transition H s b StrategySchemaNotAdmitted [UseAdmittedStrategySchema]
       else if int (length (proposals b)) > ol_max_batch_proposals (os_limits s)
       then rejected_batch_transition H s b BatchLimitExceeded [SplitBatch]
       else process_batch H s b)"

section \<open>Projection for the agent\<close>

fun readiness_value :: "obligation_readiness \<Rightarrow> pystr" where
  "readiness_value Ready = lit ''ready''"
| "readiness_value DependencyBlocked = lit ''dependency_blocked''"
| "readiness_value ExplicitlyBlocked = lit ''explicitly_blocked''"
| "readiness_value AlreadySatisfied = lit ''satisfied''"

fun readiness_group :: "obligation_readiness \<Rightarrow> pystr" where
  "readiness_group Ready = lit ''ready''"
| "readiness_group AlreadySatisfied = lit ''satisfied''"
| "readiness_group _ = lit ''blocked''"

definition project_obligation :: "digest \<Rightarrow> obligation_registry \<Rightarrow> obligation \<Rightarrow> (obligation_readiness \<times> json) res" where
  "project_obligation H r ob =
     rbind (readiness H r (obligation_id H ob))
       (\<lambda>rd. rbind (blocking_dependency_ids H r (obligation_id H ob))
       (\<lambda>bs. Inr (rd, JObj [(lit ''blocking_dependency_ids'', str_list bs),
                            (lit ''block_reason'', opt_str (block_reason ob)),
                            (lit ''description'', JStr (description ob)),
                            (lit ''key'', JStr (ob_key ob)),
                            (lit ''obligation_id'', JStr (obligation_id H ob)),
                            (lit ''readiness'', JStr (readiness_value rd)),
                            (lit ''status'', JStr (status_value (status ob)))])))"

definition obligation_groups :: "digest \<Rightarrow> obligation_registry \<Rightarrow> json res" where
  "obligation_groups H r =
     rbind (map_res (project_obligation H r) (obligations r))
       (\<lambda>rows. Inr (JObj (map (\<lambda>g. (g, JArr (map snd (filter (\<lambda>(rd, _). readiness_group rd = g) rows))))
                      [lit ''blocked'', lit ''ready'', lit ''satisfied''])))"

definition compact_projection :: "digest \<Rightarrow> orchestration_state \<Rightarrow> json res" where
  "compact_projection H s =
     rbind (obligation_groups H (os_obligations s)) (\<lambda>groups.
       Inr (JObj
         [(lit ''bounds'', orchestration_limits_record (os_limits s)),
          (lit ''capabilities'', JArr (map (capability_record H) (os_capabilities s))),
          (lit ''capacity'', JObj
             [(lit ''capability_slots_remaining'',
                 JInt (ol_max_capabilities (os_limits s) - int (length (os_capabilities s)))),
              (lit ''epistemic_slots_remaining'',
                 JInt (ol_max_epistemic_records (os_limits s) - int (length (records (os_epistemic s))))),
              (lit ''obligation_slots_remaining'',
                 JInt (ol_max_obligations (os_limits s) - int (length (obligations (os_obligations s))))),
              (lit ''occurrence_owner_slots_remaining'',
                 JInt (ol_max_occurrence_owners (os_limits s) - int (length (os_owners s)))),
              (lit ''strategy_schema_slots_remaining'',
                 JInt (ol_max_strategy_schemas (os_limits s) - int (length (os_schemas s))))]),
          (lit ''canonical_state_identity'', JStr (state_id H s)),
          (lit ''epistemic_state'', projection (os_epistemic s)),
          (lit ''logical_clock'', clock_record (os_tick s)),
          (lit ''obligations'', groups),
          (lit ''occurrence_owners'', JArr (map ownership_record (os_owners s))),
          (lit ''protocol'', JStr agent_protocol),
          (lit ''strategy_schemas'', JArr (map strategy_schema_record (os_schemas s)))]))"

end
