(* ===== verification/Admit_Verdicts.thy ===== *)
theory Admit_Verdicts
  imports Admit_Batch
begin

text \<open>
  What \<open>admit_batch\<close> decides about one proposal, stated without the intermediate checks: on a
  valid state every proposal gets exactly one verdict, either the rejection of the first
  failing check or the action identity of an eligible proposal.
\<close>

section \<open>Decisions that the machine builds are accepted\<close>

text \<open>Every value of the hash function is a lowercase hexadecimal SHA-256 digest.\<close>

definition digest_ok :: "digest \<Rightarrow> bool" where
  "digest_ok H \<longleftrightarrow> (\<forall>bs. is_fingerprint (H bs))"

lemma digest_okD: "digest_ok H \<Longrightarrow> is_fingerprint (H bs)"
  by (simp add: digest_ok_def)

lemma domain_id_fingerprint: "digest_ok H \<Longrightarrow> is_fingerprint (domain_id H d j)"
  by (simp add: domain_id_def digest_ok_def)

lemma obligation_id_fingerprint: "digest_ok H \<Longrightarrow> is_fingerprint (obligation_id H ob)"
  by (simp add: obligation_id_def obligation_identity_def domain_id_fingerprint)

lemma proposal_id_fingerprint: "digest_ok H \<Longrightarrow> is_fingerprint (proposal_id H p)"
  by (simp add: proposal_id_def domain_id_fingerprint)

definition rejection_of ::
  "digest \<Rightarrow> action_proposal \<Rightarrow> int \<Rightarrow> rejection_reason \<Rightarrow> recovery_action list \<Rightarrow> pystr list \<Rightarrow>
   pystr list \<Rightarrow> pystr list \<Rightarrow> admission_decision"
where
  "rejection_of H p tick reason recoveries blocking dependency unresolved =
     \<lparr> dec_proposal_id = proposal_id H p, dec_proposal_key = proposal_key p, dec_status = Rejected,
       dec_tick = tick, dec_authority = Orchestration,
       dec_invariant_ids = rejection_invariants reason, dec_action_id = None,
       dec_equivalent = None, dec_reason = Some reason, dec_recoveries = recoveries,
       dec_blocking = blocking, dec_dependency_keys = dependency, dec_unresolved = unresolved \<rparr>"

definition acceptance_of ::
  "digest \<Rightarrow> action_proposal \<Rightarrow> int \<Rightarrow> decision_status \<Rightarrow> pystr \<Rightarrow> pystr option \<Rightarrow> pystr list \<Rightarrow> admission_decision"
where
  "acceptance_of H p tick st action equivalent dependency =
     \<lparr> dec_proposal_id = proposal_id H p, dec_proposal_key = proposal_key p, dec_status = st,
       dec_tick = tick, dec_authority = Orchestration,
       dec_invariant_ids = [], dec_action_id = Some action,
       dec_equivalent = equivalent, dec_reason = None, dec_recoveries = [],
       dec_blocking = [], dec_dependency_keys = dependency, dec_unresolved = [] \<rparr>"

definition tick_ok :: "int \<Rightarrow> bool" where
  "tick_ok t \<longleftrightarrow> 0 \<le> t \<and> t < 2 ^ 256"

definition symbol_set :: "pystr list \<Rightarrow> bool" where
  "symbol_set ks \<longleftrightarrow> sorted ks \<and> distinct ks \<and> length ks \<le> 256 \<and> list_all is_symbol ks"

definition fingerprint_set :: "pystr list \<Rightarrow> bool" where
  "fingerprint_set ks \<longleftrightarrow> sorted ks \<and> distinct ks \<and> length ks \<le> 128 \<and> list_all is_fingerprint ks"

lemma symbol_set_Nil [simp]: "symbol_set []" and fingerprint_set_Nil [simp]: "fingerprint_set []"
  by (simp_all add: symbol_set_def fingerprint_set_def)

lemma rejection_invariants_ok:
  "sorted (rejection_invariants r)" "distinct (rejection_invariants r)"
  "list_all is_invariant_id (rejection_invariants r)" "rejection_invariants r \<noteq> []"
  "length (rejection_invariants r) \<le> 3"
  by (cases r; simp add: lit_def is_invariant_id_def in_range_def)+

lemma sorted_recoveries_single [simp]: "sorted_recoveries [r] = [r]" "sorted_recoveries [] = []"
  by (simp_all add: sorted_recoveries_def)

lemmas decision_init_simps = admission_decision_init_def accept_simps require_optional_fingerprint_def
  recovery_action_count_def protocol_limit_defs sort_key_id Let_def

lemma require_ok:
  "is_symbol s \<Longrightarrow> require_symbol s = Inr s" "is_fingerprint s \<Longrightarrow> require_fingerprint s = Inr s"
  "is_invariant_id s \<Longrightarrow> require_invariant_id s = Inr s"
  "tick_ok t \<Longrightarrow> require_nonnegative_int t = Inr t"
  by (simp_all add: accept_simps tick_ok_def)

lemma for_each_require:
  "list_all is_symbol xs \<Longrightarrow> for_each require_symbol xs = Inr ()"
  "list_all is_fingerprint xs \<Longrightarrow> for_each require_fingerprint xs = Inr ()"
  "list_all is_invariant_id xs \<Longrightarrow> for_each require_invariant_id xs = Inr ()"
  by (auto intro!: for_each_total simp: list_all_iff require_ok)

lemma rejected_decision_eq:
  assumes "digest_ok H" and "proposal_ok p" and "tick_ok tick"
    and "fingerprint_set blocking" and "symbol_set dependency" and "symbol_set unresolved"
  shows "rejected_decision H p tick reason [r] blocking dependency unresolved =
    Inr (rejection_of H p tick reason [r] blocking dependency unresolved)"
proof -
  have "is_fingerprint (proposal_id H p)" by (rule proposal_id_fingerprint [OF assms(1)])
  moreover have "is_symbol (proposal_key p)" using assms(2) by (simp add: proposal_ok_def)
  ultimately show ?thesis
    using assms(3-6) rejection_invariants_ok [of reason]
    unfolding rejected_decision_def admission_decision_init_def rejection_of_def
    by (simp add: require_ok materialize_ok for_each_require require_optional_fingerprint_def
        recovery_action_count_def protocol_limit_defs sort_key_id symbol_set_def fingerprint_set_def
        check_decision_shape_def Let_def)
qed

lemma accepted_decision_eq:
  assumes "digest_ok H" and "proposal_ok p" and "tick_ok tick"
    and "is_fingerprint action" and "symbol_set dependency"
    and "(st = Admitted \<and> equivalent = None) \<or>
         (st = Deduplicated \<and> (\<exists>e. equivalent = Some e \<and> is_fingerprint e))"
  shows "accepted_decision H p tick st action equivalent dependency =
    Inr (acceptance_of H p tick st action equivalent dependency)"
proof -
  have "is_fingerprint (proposal_id H p)" by (rule proposal_id_fingerprint [OF assms(1)])
  moreover have "is_symbol (proposal_key p)" using assms(2) by (simp add: proposal_ok_def)
  ultimately show ?thesis
    using assms(3-6)
    unfolding accepted_decision_def admission_decision_init_def acceptance_of_def
    by (auto simp: require_ok materialize_ok for_each_require require_optional_fingerprint_def
        recovery_action_count_def protocol_limit_defs sort_key_id symbol_set_def
        check_decision_shape_def Let_def)
qed

section \<open>Arguments\<close>

text \<open>A stored value that passes the bounded copy again is stored as the same text.\<close>

lemma from_stored_value:
  assumes "value_ok c"
  shows "canonical_value_from_value (of_json (stored_value c)) = Inr c"
proof -
  from assms have val: "validate_text value_profile (canonical_text c) = Inr c"
    by (simp add: value_ok_def canonical_value_init_def)
  from validate_text_Inr [OF this] obtain j where j: "to_value c = Inr j" "fits value_profile 0 (0, 0) j"
    "canonical_text c = render j" by auto
  then have "normalize_bounded_json value_profile (of_json j) = Inr j"
    by (intro normalize_bounded_json_of_json) simp_all
  moreover have "canonical_json (of_json j) = Inr (render j)"
    using j(2) by (intro canonical_json_plain leaves_fit_plain [of "max_items value_profile"]) (simp add: fits_def)
  moreover have "stored_value c = j" using j(1) by (simp add: stored_value_def)
  ultimately show ?thesis
    using val j(3) by (simp add: canonical_value_from_value_def text_from_value_def)
qed

definition arguments_admitted :: "capability \<Rightarrow> json \<Rightarrow> bool" where
  "arguments_admitted c j \<longleftrightarrow>
     (case j of JObj kvs \<Rightarrow> length kvs \<le> 32 \<and> fst ` set kvs \<subseteq> set (semantic_argument_keys c) | _ \<Rightarrow> False)"


lemma of_json_items_map: "of_json_items kvs = map (\<lambda>(k, v). (PStr k, of_json v)) kvs"
  by (induction kvs) auto

lemma length_of_json_items [simp]: "length (of_json_items kvs) = length kvs"
  by (simp add: of_json_items_map)

lemma raw_arguments_total:
  "list_all (\<lambda>kv. is_symbol (fst kv)) kvs \<Longrightarrow> distinct (map fst raw @ map fst kvs) \<Longrightarrow>
   raw_arguments raw (of_json_items kvs) = Inr (raw @ map (\<lambda>(k, v). (k, of_json v)) kvs)"
  by (induction kvs arbitrary: raw) (auto simp: require_ok image_iff)

lemma schema_error_ValueErr: "is_schema_error (ValueErr m)" "is_schema_error (TypeErr m)"
  by (simp_all add: is_schema_error_def)

lemma raw_arguments_error: "raw_arguments raw items = Inl e \<Longrightarrow> is_schema_error e"
  by (induction raw items rule: raw_arguments.induct)
     (auto simp: rbind_eq_Inl guard_def accept_simps is_schema_error_def require_symbol_def
       split: pyval.splits if_splits)

lemma materialize_loop_error: "materialize_loop n acc xs = Inl e \<Longrightarrow> e = ValueErr ''exceeds the hard limit''"
  by (induction n acc xs rule: materialize_loop.induct) (auto split: if_splits)

lemma materialize_error:
  "materialize n xs = Inl e \<Longrightarrow> 0 < n \<Longrightarrow> n < 2 ^ 256 \<Longrightarrow> e = ValueErr ''exceeds the hard limit''"
  by (auto simp: materialize_def rbind_eq_Inl require_positive_int_total dest: materialize_loop_error)

lemma same_keys: "map (\<lambda>(k, v). (PStr k, f v)) xs = map (\<lambda>(k, v). (PStr k, v)) ys \<Longrightarrow> map fst xs = map fst ys"
  by (induction xs arbitrary: ys) (auto simp: Cons_eq_map_conv)

lemma stored_arguments_distinct:
  assumes "value_ok a" and "stored_value a = JObj kvs"
  shows "distinct (map fst kvs)"
proof -
  from assms(1) have "validate_text value_profile (canonical_text a) = Inr a"
    by (simp add: value_ok_def canonical_value_init_def)
  from validate_text_Inr [OF this] assms(2) have "leaves_fit (max_items value_profile) (JObj kvs)"
    by (auto simp: stored_value_def fits_def)
  then show ?thesis by simp
qed

lemma normalize_stored_arguments:
  assumes "value_ok a" and "capability_ok c"
  shows "arguments_admitted c (stored_value a) \<Longrightarrow>
      normalize_arguments c (of_json (stored_value a)) = Inr (stored_value a)"
    and "\<not> arguments_admitted c (stored_value a) \<Longrightarrow>
      \<exists>e. normalize_arguments c (of_json (stored_value a)) = Inl e \<and> is_schema_error e"
proof -
  note restore = from_stored_value [OF assms(1)] value_ok_stored [OF assms(1)]
  { assume "arguments_admitted c (stored_value a)"
    then obtain kvs where kvs: "stored_value a = JObj kvs" "length kvs \<le> 32"
      "fst ` set kvs \<subseteq> set (semantic_argument_keys c)"
      by (auto simp: arguments_admitted_def split: json.splits)
    moreover have "list_all (\<lambda>kv. is_symbol (fst kv)) kvs"
      using kvs(3) assms(2) by (auto simp: capability_ok_def list_all_iff)
    ultimately have "raw_arguments [] (of_json_items kvs) = Inr (map (\<lambda>(k, v). (k, of_json v)) kvs)"
      using stored_arguments_distinct [OF assms(1) kvs(1)] by (simp add: raw_arguments_total)
    moreover have "map (\<lambda>(k, v). (PStr k, v)) (map (\<lambda>(k, v). (k, of_json v)) kvs) = of_json_items kvs"
      by (simp add: of_json_items_map case_prod_unfold)
    moreover have "fst ` set (map (\<lambda>(k, v). (k, of_json v)) kvs) = fst ` set kvs" by (force simp: image_iff)
    ultimately show "normalize_arguments c (of_json (stored_value a)) = Inr (stored_value a)"
      using restore kvs by (simp add: normalize_arguments_def materialize_ok max_capability_arguments_def) }
  assume no: "\<not> arguments_admitted c (stored_value a)"
  show "\<exists>e. normalize_arguments c (of_json (stored_value a)) = Inl e \<and> is_schema_error e"
  proof (cases "normalize_arguments c (of_json (stored_value a))")
    case (Inr j)
    from normalize_arguments_Inr [OF this] obtain raw where
      raw: "of_json (stored_value a) = PMap (map (\<lambda>(k, x). (PStr k, x)) raw)" "length raw \<le> 32"
      "fst ` set raw \<subseteq> set (semantic_argument_keys c)" by auto
    then obtain kvs where kvs: "stored_value a = JObj kvs" by (cases "stored_value a") simp_all
    with raw(1) have m: "map (\<lambda>(k, v). (PStr k, of_json v)) kvs = map (\<lambda>(k, x). (PStr k, x)) raw"
      by (simp add: of_json_items_map)
    have "map fst kvs = map fst raw" by (rule same_keys [OF m])
    then have "length kvs = length raw" "fst ` set kvs = fst ` set raw" by (metis length_map, metis list.set_map)
    with kvs raw have "arguments_admitted c (stored_value a)" by (simp add: arguments_admitted_def)
    with no show ?thesis by simp
  next
    case (Inl e)
    have "is_schema_error e"
    proof (cases "stored_value a")
      case (JObj kvs)
      with restore have same: "canonical_value_from_value (PMap (of_json_items kvs)) = Inr a" by simp
      have "canonical_value_from_value (PMap (map (\<lambda>(k, v). (PStr k, v)) raw)) = Inr a"
        if "raw_arguments [] (of_json_items kvs) = Inr raw" for raw
        using same raw_arguments_Inr [OF that] by auto
      with JObj restore Inl show ?thesis
        by (auto simp: normalize_arguments_def rbind_eq_Inl guard_def schema_error_ValueErr
            accept_simps max_capability_arguments_def split: if_splits dest!: materialize_error raw_arguments_error)
    qed (use Inl in \<open>auto simp: normalize_arguments_def schema_error_ValueErr\<close>)
    with Inl show ?thesis by simp
  qed
qed

section \<open>Valid states\<close>

definition ownership_ok :: "occurrence_ownership \<Rightarrow> bool" where
  "ownership_ok w \<longleftrightarrow> is_symbol (own_key w) \<and> is_fingerprint (own_action_id w) \<and> is_fingerprint (own_proposal_id w)"

lemma occurrence_ownership_init_Inr: "occurrence_ownership_init w = Inr w' \<longleftrightarrow> w' = w \<and> ownership_ok w"
  by (auto simp: occurrence_ownership_init_def ownership_ok_def res_simps accept_simps)

definition keyed_list :: "('a \<Rightarrow> pystr) \<Rightarrow> int \<Rightarrow> 'a list \<Rightarrow> bool" where
  "keyed_list key limit xs \<longleftrightarrow>
     sorted (map key xs) \<and> distinct (map key xs) \<and> int (length xs) \<le> limit"

definition ostate_ok :: "digest \<Rightarrow> orchestration_state \<Rightarrow> bool" where
  "ostate_ok H s \<longleftrightarrow>
     registry_ok H (os_obligations s) \<and> state_ok (os_epistemic s) \<and> limits_ok (os_limits s) \<and>
     max_obligations (os_obligations s) = ol_max_obligations (os_limits s) \<and>
     max_records (os_epistemic s) = ol_max_epistemic_records (os_limits s) \<and>
     tick_ok (os_tick s) \<and>
     keyed_list cap_name (ol_max_capabilities (os_limits s)) (os_capabilities s) \<and>
     list_all capability_ok (os_capabilities s) \<and>
     int (length (os_history s)) \<le> ol_max_history (os_limits s) \<and> list_all is_fingerprint (os_history s) \<and>
     keyed_list own_key (ol_max_occurrence_owners (os_limits s)) (os_owners s) \<and>
     list_all ownership_ok (os_owners s) \<and>
     keyed_list schema_key (ol_max_strategy_schemas (os_limits s)) (os_schemas s)"

text \<open>What the arguments of the constructor are when each was built by its own constructor.\<close>

definition parts_ok :: "digest \<Rightarrow> orchestration_state \<Rightarrow> bool" where
  "parts_ok H s \<longleftrightarrow>
     registry_ok H (os_obligations s) \<and> state_ok (os_epistemic s) \<and> limits_ok (os_limits s) \<and>
     list_all capability_ok (os_capabilities s) \<and> list_all ownership_ok (os_owners s)"

definition canonical_lists :: "orchestration_state \<Rightarrow> orchestration_state" where
  "canonical_lists s = s \<lparr> os_capabilities := sort_key cap_name (os_capabilities s),
     os_owners := sort_key own_key (os_owners s), os_schemas := sort_key schema_key (os_schemas s) \<rparr>"

lemma distinct_keys_sort: "distinct (map f (sort_key f xs)) = distinct (map f xs)"
  by (metis mset_eq_imp_distinct_iff mset_map mset_sort)

lemma limits_materialize:
  "limits_ok l \<Longrightarrow> ol_max_capabilities l < 2 ^ 256 \<and> ol_max_history l < 2 ^ 256 \<and>
     ol_max_occurrence_owners l < 2 ^ 256 \<and> ol_max_strategy_schemas l < 2 ^ 256"
  by (simp add: limits_ok_def)

lemma keyed_list_sort: "keyed_list key n (sort_key key xs) \<longleftrightarrow> distinct (map key xs) \<and> int (length xs) \<le> n"
  by (simp add: keyed_list_def distinct_keys_sort)

lemma orchestration_state_init_Inr:
  assumes "parts_ok H s"
  shows "orchestration_state_init s = Inr s' \<longleftrightarrow> s' = canonical_lists s \<and> ostate_ok H s'"
proof -
  have lim: "limits_ok (os_limits s)" using assms by (simp add: parts_ok_def)
  have caps: "check_capabilities s = Inr cs \<longleftrightarrow>
      cs = sort_key cap_name (os_capabilities s) \<and> keyed_list cap_name (ol_max_capabilities (os_limits s)) cs" for cs
    using lim by (auto simp: check_capabilities_def res_simps accept_simps Let_def keyed_list_def limits_ok_def)
  have hist: "check_history s = Inr hs \<longleftrightarrow>
      hs = os_history s \<and> int (length hs) \<le> ol_max_history (os_limits s) \<and> list_all is_fingerprint hs" for hs
    using lim by (auto simp: check_history_def res_simps accept_simps limits_ok_def list_all_iff)
  have own: "check_owners s = Inr ws \<longleftrightarrow>
      ws = sort_key own_key (os_owners s) \<and> keyed_list own_key (ol_max_occurrence_owners (os_limits s)) ws" for ws
    using lim by (auto simp: check_owners_def res_simps accept_simps Let_def keyed_list_def limits_ok_def)
  have sch: "check_schemas s = Inr ss \<longleftrightarrow>
      ss = sort_key schema_key (os_schemas s) \<and> keyed_list schema_key (ol_max_strategy_schemas (os_limits s)) ss" for ss
    using lim by (auto simp: check_schemas_def res_simps accept_simps Let_def keyed_list_def limits_ok_def)
  have "orchestration_state_init s = Inr s' \<longleftrightarrow>
      tick_ok (os_tick s) \<and> max_obligations (os_obligations s) = ol_max_obligations (os_limits s) \<and>
      max_records (os_epistemic s) = ol_max_epistemic_records (os_limits s) \<and>
      keyed_list cap_name (ol_max_capabilities (os_limits s)) (sort_key cap_name (os_capabilities s)) \<and>
      int (length (os_history s)) \<le> ol_max_history (os_limits s) \<and> list_all is_fingerprint (os_history s) \<and>
      keyed_list own_key (ol_max_occurrence_owners (os_limits s)) (sort_key own_key (os_owners s)) \<and>
      keyed_list schema_key (ol_max_strategy_schemas (os_limits s)) (sort_key schema_key (os_schemas s)) \<and>
      s' = canonical_lists s"
    by (auto simp: orchestration_state_init_def rbind_eq_Inr guard_eq_Inr caps hist own sch canonical_lists_def
        tick_ok_def accept_simps)
  then show ?thesis
    using assms by (auto simp: ostate_ok_def parts_ok_def canonical_lists_def list_all_iff)
qed

lemma ostate_ok_canonical: "ostate_ok H s \<Longrightarrow> canonical_lists s = s"
  by (simp add: ostate_ok_def canonical_lists_def keyed_list_def sort_key_id)

lemma ostate_ok_parts: "ostate_ok H s \<Longrightarrow> parts_ok H s"
  by (simp add: ostate_ok_def parts_ok_def)

lemma orchestration_state_init_ok: "ostate_ok H s \<Longrightarrow> orchestration_state_init s = Inr s"
  by (simp add: orchestration_state_init_Inr [OF ostate_ok_parts] ostate_ok_canonical)

lemma find_capability_eq:
  "proposal_ok p \<Longrightarrow>
   find_capability s (proposal_capability p) = Inr (find (\<lambda>c. cap_name c = proposal_capability p) (os_capabilities s))"
  by (simp add: find_capability_def proposal_ok_def require_ok)

lemma find_capability_ok:
  "ostate_ok H s \<Longrightarrow> find (\<lambda>c. cap_name c = n) (os_capabilities s) = Some c \<Longrightarrow>
   c \<in> set (os_capabilities s) \<and> cap_name c = n \<and> capability_ok c"
  by (auto simp: ostate_ok_def list_all_iff find_Some_iff)

section \<open>The verdict on a proposal\<close>

definition readiness_of :: "digest \<Rightarrow> orchestration_state \<Rightarrow> pystr \<Rightarrow> obligation_readiness" where
  "readiness_of H s t = (case readiness H (os_obligations s) t of Inr rd \<Rightarrow> rd | Inl _ \<Rightarrow> DependencyBlocked)"

definition blockers_of :: "digest \<Rightarrow> orchestration_state \<Rightarrow> pystr \<Rightarrow> pystr list" where
  "blockers_of H s t = (case blocking_dependency_ids H (os_obligations s) t of Inr bs \<Rightarrow> bs | Inl _ \<Rightarrow> [])"

definition unknown_targets :: "digest \<Rightarrow> orchestration_state \<Rightarrow> action_proposal \<Rightarrow> pystr list" where
  "unknown_targets H s p = filter (\<lambda>t. t \<notin> set (known_ids H (os_obligations s))) (target_obligation_ids p)"

definition targets_in :: "digest \<Rightarrow> orchestration_state \<Rightarrow> obligation_readiness \<Rightarrow> action_proposal \<Rightarrow> pystr list" where
  "targets_in H s rd p = filter (\<lambda>t. readiness_of H s t = rd) (target_obligation_ids p)"

definition unresolved_of :: "orchestration_state \<Rightarrow> capability \<Rightarrow> action_proposal \<Rightarrow> pystr list" where
  "unresolved_of s c p = filter (\<lambda>k. k \<notin> resolved_keys (os_epistemic s)) (dependency_state_keys c p)"

text \<open>The recovery that goes with each reason for refusing a proposal.\<close>

fun recovery_for :: "rejection_reason \<Rightarrow> recovery_action" where
  "recovery_for BatchLimitExceeded = SplitBatch"
| "recovery_for StrategySchemaNotAdmitted = UseAdmittedStrategySchema"
| "recovery_for UnknownCapability = ChooseAvailableCapability"
| "recovery_for CapabilityUnavailable = ChooseAvailableCapability"
| "recovery_for ArgumentSchemaMismatch = UseAdmittedArgumentSchema"
| "recovery_for UnknownObligation = ChooseKnownObligation"
| "recovery_for ObligationSatisfied = TargetUnsatisfiedObligation"
| "recovery_for ObligationBlocked = ResolveBlocker"
| "recovery_for DependencyUnsatisfied = SatisfyDependencies"
| "recovery_for UnknownState = ObserveRequiredState"
| "recovery_for OccurrenceKeyRequired = AddOccurrenceKey"
| "recovery_for UnexpectedOccurrenceKey = RemoveOccurrenceKey"
| "recovery_for DuplicateOccurrence = UseDistinctOccurrenceKey"
| "recovery_for OccurrenceRegistryFull = RequestNewBoundedScope"
| "recovery_for OrderingContractRequired = UseDeclaredSequence"

datatype verdict =
    Refuse rejection_reason "pystr list" "pystr list" "pystr list"
  | Eligible capability

definition verdict_for :: "digest \<Rightarrow> orchestration_state \<Rightarrow> proposal_ordering \<Rightarrow> action_proposal \<Rightarrow> capability \<Rightarrow> verdict" where
  "verdict_for H s order p c =
     (let keys = dependency_state_keys c p in
      if \<not> available c then Refuse CapabilityUnavailable [] keys []
      else if \<not> arguments_admitted c (stored_value (proposal_arguments p))
      then Refuse ArgumentSchemaMismatch [] keys []
      else if cap_replay_safety c \<noteq> CacheableRead \<and> order \<noteq> DeclaredSequence
      then Refuse OrderingContractRequired [] keys []
      else if unknown_targets H s p \<noteq> [] then Refuse UnknownObligation (unknown_targets H s p) keys []
      else if targets_in H s AlreadySatisfied p \<noteq> []
      then Refuse ObligationSatisfied (targets_in H s AlreadySatisfied p) keys []
      else if targets_in H s ExplicitlyBlocked p \<noteq> []
      then Refuse ObligationBlocked (targets_in H s ExplicitlyBlocked p) keys []
      else if targets_in H s DependencyBlocked p \<noteq> []
      then Refuse DependencyUnsatisfied
             (sorted_set (concat (map (blockers_of H s) (targets_in H s DependencyBlocked p)))) keys []
      else if unresolved_of s c p \<noteq> [] then Refuse UnknownState [] keys (unresolved_of s c p)
      else if cap_replay_safety c = OccurrenceSensitive \<and> occurrence_key p = None
      then Refuse OccurrenceKeyRequired [] keys []
      else if is_replay_safe c \<and> occurrence_key p \<noteq> None then Refuse UnexpectedOccurrenceKey [] keys []
      else Eligible c)"

definition verdict_on :: "digest \<Rightarrow> orchestration_state \<Rightarrow> proposal_ordering \<Rightarrow> action_proposal \<Rightarrow> verdict" where
  "verdict_on H s order p =
     (case find (\<lambda>c. cap_name c = proposal_capability p) (os_capabilities s) of
        None \<Rightarrow> Refuse UnknownCapability [] (proposal_state_keys p) []
      | Some c \<Rightarrow> verdict_for H s order p c)"

text \<open>The identity of the action an eligible proposal stands for.\<close>

definition action_of :: "digest \<Rightarrow> orchestration_state \<Rightarrow> capability \<Rightarrow> action_proposal \<Rightarrow> pystr" where
  "action_of H s c p =
     action_identity H c (stored_value (proposal_arguments p)) (occurrence_key p)
       (domain_id H ''ibae.epistemic-dependencies.v1''
         (JArr (map epistemic_identity_record
                 (support_records (os_epistemic s) (dependency_state_keys c p)))))"

definition reject :: "digest \<Rightarrow> action_proposal \<Rightarrow> int \<Rightarrow> rejection_reason \<Rightarrow> pystr list \<Rightarrow> pystr list \<Rightarrow> pystr list \<Rightarrow> admission_decision" where
  "reject H p tick reason blocking keys unresolved =
     rejection_of H p tick reason [recovery_for reason] blocking keys unresolved"

definition settle_replay_safe ::
  "digest \<Rightarrow> orchestration_state \<Rightarrow> int \<Rightarrow> action_proposal \<Rightarrow> capability \<Rightarrow> admission_memory \<Rightarrow>
   admission_decision \<times> admission_memory"
where
  "settle_replay_safe H s tick p c m =
     (let action = action_of H s c p; keys = dependency_state_keys c p in
      case map_of (replay_safe_actions m) action of
        None \<Rightarrow> (acceptance_of H p tick Admitted action None keys,
                 m \<lparr> replay_safe_actions := replay_safe_actions m @ [(action, proposal_id H p)] \<rparr>)
      | Some q \<Rightarrow> (acceptance_of H p tick Deduplicated action (Some q) keys, m))"

definition settle_occurrence ::
  "digest \<Rightarrow> orchestration_state \<Rightarrow> int \<Rightarrow> action_proposal \<Rightarrow> capability \<Rightarrow> pystr \<Rightarrow> admission_memory \<Rightarrow>
   admission_decision \<times> admission_memory"
where
  "settle_occurrence H s tick p c key m =
     (let action = action_of H s c p; keys = dependency_state_keys c p in
      if key \<in> fst ` set (owner_table m) then (reject H p tick DuplicateOccurrence [] keys [], m)
      else if int (length (owner_table m)) = ol_max_occurrence_owners (os_limits s)
      then (reject H p tick OccurrenceRegistryFull [] keys [], m)
      else (acceptance_of H p tick Admitted action None keys,
            m \<lparr> owner_table := owner_table m @
                  [(key, \<lparr> own_key = key, own_action_id = action, own_proposal_id = proposal_id H p \<rparr>)] \<rparr>))"

definition settle ::
  "digest \<Rightarrow> orchestration_state \<Rightarrow> int \<Rightarrow> action_proposal \<Rightarrow> verdict \<Rightarrow> admission_memory \<Rightarrow>
   admission_decision \<times> admission_memory"
where
  "settle H s tick p v m =
     (case v of
        Refuse reason blocking keys unresolved \<Rightarrow> (reject H p tick reason blocking keys unresolved, m)
      | Eligible c \<Rightarrow>
          (case occurrence_key p of
             None \<Rightarrow> settle_replay_safe H s tick p c m
           | Some key \<Rightarrow> settle_occurrence H s tick p c key m))"

section \<open>The checks compute the verdict\<close>

definition memory_ok :: "admission_memory \<Rightarrow> bool" where
  "memory_ok m \<longleftrightarrow> list_all (\<lambda>(a, q). is_fingerprint a \<and> is_fingerprint q) (replay_safe_actions m)"

lemma symbol_set_filter: "symbol_set ks \<Longrightarrow> symbol_set (filter q ks)"
  using length_filter_le [of q ks]
  by (auto simp: symbol_set_def list_all_iff sorted_wrt_filter intro: order_trans simp del: length_filter_le)

lemma fingerprint_set_filter: "fingerprint_set ks \<Longrightarrow> fingerprint_set (filter q ks)"
  using length_filter_le [of q ks]
  by (auto simp: fingerprint_set_def list_all_iff sorted_wrt_filter intro: order_trans simp del: length_filter_le)

lemma proposal_sets:
  "proposal_ok p \<Longrightarrow> symbol_set (proposal_state_keys p) \<and> fingerprint_set (target_obligation_ids p)"
  by (simp add: proposal_ok_def symbol_set_def fingerprint_set_def)

lemma dependency_keys_set:
  assumes "proposal_ok p" and "capability_ok c"
  shows "symbol_set (dependency_state_keys c p)"
proof -
  have "length (dependency_state_keys c p) \<le> length (cap_required_state_keys c @ proposal_state_keys p)"
    using length_remdups_leq [of "cap_required_state_keys c @ proposal_state_keys p"]
    by (simp add: dependency_state_keys_def sorted_set_def)
  also have "\<dots> \<le> 256" using assms by (simp add: proposal_ok_def capability_ok_def)
  finally show ?thesis
    using assms by (auto simp: symbol_set_def dependency_state_keys_def proposal_ok_def capability_ok_def list_all_iff)
qed

lemma known_ids_set:
  assumes "digest_ok H" and "registry_ok H r" and "set ks \<subseteq> set (known_ids H r)"
  shows "fingerprint_set (sorted_set ks)"
proof -
  have "length (sorted_set ks) = card (set ks)"
    by (metis distinct_card distinct_sorted_set set_sorted_set)
  also have "\<dots> \<le> card (set (known_ids H r))" using assms(3) by (simp add: card_mono)
  also have "\<dots> \<le> length (known_ids H r)" by (rule card_length)
  also have "\<dots> \<le> 128" using assms(2) by (simp add: registry_ok_def known_ids_def max_obligations_limit_def)
  finally show ?thesis
    using assms(1,3) by (auto simp: fingerprint_set_def list_all_iff known_ids_def obligation_id_fingerprint)
qed

lemma readiness_of_eq:
  assumes "digest_ok H" and "ostate_ok H s" and "t \<in> set (known_ids H (os_obligations s))"
  shows "readiness H (os_obligations s) t = Inr (readiness_of H s t)"
    and "blocking_dependency_ids H (os_obligations s) t = Inr (blockers_of H s t)"
    and "set (blockers_of H s t) \<subseteq> set (known_ids H (os_obligations s))"
proof -
  let ?r = "os_obligations s"
  have ok: "registry_ok H ?r" using assms(2) by (simp add: ostate_ok_def)
  from assms(3) obtain ob where ob: "ob \<in> set (obligations ?r)" "t = obligation_id H ob"
    by (auto simp: known_ids_def)
  note fp = obligation_id_fingerprint [OF assms(1), of ob]
  show "readiness H ?r t = Inr (readiness_of H s t)"
    unfolding readiness_of_def ob(2) readiness_eq [OF ok ob(1) fp] by simp
  show b: "blocking_dependency_ids H ?r t = Inr (blockers_of H s t)"
    unfolding blockers_of_def ob(2) blocking_dependency_ids_eq [OF ok ob(1) fp] by simp
  have "set (blockers_of H s t) \<subseteq> set (dependency_ids ob)"
    unfolding blockers_of_def ob(2) blocking_dependency_ids_eq [OF ok ob(1) fp] by auto
  also have "\<dots> \<subseteq> set (known_ids H ?r)"
    using ok ob(1) by (auto simp: registry_ok_def known_closed_def known_ids_def)
  finally show "set (blockers_of H s t) \<subseteq> set (known_ids H ?r)" .
qed

lemma targets_with_eq:
  assumes "digest_ok H" and "ostate_ok H s" and "unknown_targets H s p = []"
  shows "targets_with H s p rd = Inr (targets_in H s rd p)"
  unfolding targets_with_def targets_in_def
proof (rule filter_res_total)
  fix t assume "t \<in> set (target_obligation_ids p)"
  with assms(3) have "t \<in> set (known_ids H (os_obligations s))"
    by (auto simp: unknown_targets_def filter_empty_conv)
  then show "rbind (readiness H (os_obligations s) t) (\<lambda>x. Inr (x = rd)) = Inr (readiness_of H s t = rd)"
    using readiness_of_eq(1) [OF assms(1,2)] by simp
qed

lemma reject_eq:
  assumes "digest_ok H" and "proposal_ok p" and "tick_ok tick"
    and "fingerprint_set blocking" and "symbol_set keys" and "symbol_set unresolved" and "rs = [recovery_for reason]"
  shows "rejected_decision H p tick reason rs blocking keys unresolved = Inr (reject H p tick reason blocking keys unresolved)"
  using rejected_decision_eq [OF assms(1-6)] assms(7) by (simp add: reject_def)

definition target_verdict :: "digest \<Rightarrow> orchestration_state \<Rightarrow> action_proposal \<Rightarrow> pystr list \<Rightarrow> verdict option" where
  "target_verdict H s p keys =
     (if unknown_targets H s p \<noteq> [] then Some (Refuse UnknownObligation (unknown_targets H s p) keys [])
      else if targets_in H s AlreadySatisfied p \<noteq> []
      then Some (Refuse ObligationSatisfied (targets_in H s AlreadySatisfied p) keys [])
      else if targets_in H s ExplicitlyBlocked p \<noteq> []
      then Some (Refuse ObligationBlocked (targets_in H s ExplicitlyBlocked p) keys [])
      else if targets_in H s DependencyBlocked p \<noteq> []
      then Some (Refuse DependencyUnsatisfied
             (sorted_set (concat (map (blockers_of H s) (targets_in H s DependencyBlocked p)))) keys [])
      else None)"

fun refusal :: "digest \<Rightarrow> action_proposal \<Rightarrow> int \<Rightarrow> verdict \<Rightarrow> admission_decision" where
  "refusal H p tick (Refuse reason blocking keys unresolved) = reject H p tick reason blocking keys unresolved"
| "refusal H p tick (Eligible c) = undefined"

lemma validate_targets_eq:
  assumes H: "digest_ok H" and s: "ostate_ok H s" and p: "proposal_ok p" and t: "tick_ok tick"
    and keys: "symbol_set keys"
  shows "validate_targets H s p tick keys = Inr (map_option (refusal H p tick) (target_verdict H s p keys))"
proof (cases "unknown_targets H s p = []")
  case False
  have "fingerprint_set (unknown_targets H s p)"
    using proposal_sets [OF p] by (simp add: unknown_targets_def fingerprint_set_filter)
  with False show ?thesis
    by (simp add: reject_eq [OF H p t _ keys] validate_targets_def target_verdict_def Let_def unknown_targets_def [symmetric])
next
  case True
  have fs: "fingerprint_set (targets_in H s rd p)" for rd
    using proposal_sets [OF p] by (simp add: targets_in_def fingerprint_set_filter)
  let ?waiting = "targets_in H s DependencyBlocked p"
  have known: "set ?waiting \<subseteq> set (known_ids H (os_obligations s))"
    using True by (auto simp: unknown_targets_def filter_empty_conv targets_in_def)
  then have "map_res (blocking_dependency_ids H (os_obligations s)) ?waiting = Inr (map (blockers_of H s) ?waiting)"
    using readiness_of_eq(2) [OF H s] by (intro map_res_total) blast
  moreover have "fingerprint_set (sorted_set (concat (map (blockers_of H s) ?waiting)))"
  proof (rule known_ids_set [OF H])
    show "registry_ok H (os_obligations s)" using s by (simp add: ostate_ok_def)
    show "set (concat (map (blockers_of H s) ?waiting)) \<subseteq> set (known_ids H (os_obligations s))"
      using known readiness_of_eq(3) [OF H s] by fastforce
  qed
  ultimately show ?thesis
    using True targets_with_eq [OF H s True] fs
    by (simp add: reject_eq [OF H p t _ keys] validate_targets_def target_verdict_def Let_def unknown_targets_def [symmetric])
qed

lemma sorted_set_id: "sorted xs \<Longrightarrow> distinct xs \<Longrightarrow> sorted_set xs = xs"
  by (simp add: sorted_set_def sort_key_id)

lemma unresolved_keys_eq:
  assumes "ostate_ok H s" and "proposal_ok p" and "capability_ok c"
  shows "unresolved_keys (os_epistemic s) (dependency_state_keys c p) = Inr (unresolved_of s c p)"
proof -
  have ok: "state_ok (os_epistemic s)" using assms(1) by (simp add: ostate_ok_def)
  have ks: "symbol_set (dependency_state_keys c p)" by (rule dependency_keys_set [OF assms(2,3)])
  have "sorted_set (unresolved_of s c p) = unresolved_of s c p"
    using ks by (intro sorted_set_id) (simp_all add: symbol_set_def unresolved_of_def sorted_wrt_filter)
  moreover have "filter (key_unresolved (records (os_epistemic s))) (dependency_state_keys c p) = unresolved_of s c p"
    by (simp add: unresolved_of_def key_unresolved_iff [OF ok] cong: filter_cong)
  ultimately show ?thesis
    using ks by (simp add: unresolved_keys_def materialize_ok symbol_set_def max_epistemic_records_def)
qed

lemma check_required_state_eq:
  assumes H: "digest_ok H" and s: "ostate_ok H s" and p: "proposal_ok p" and t: "tick_ok tick" and c: "capability_ok c"
  shows "check_required_state H s p tick c arguments =
    (let keys = dependency_state_keys c p in
     if unresolved_of s c p \<noteq> [] then Inr (Inl (reject H p tick UnknownState [] keys (unresolved_of s c p)))
     else if cap_replay_safety c = OccurrenceSensitive \<and> occurrence_key p = None
     then Inr (Inl (reject H p tick OccurrenceKeyRequired [] keys []))
     else if is_replay_safe c \<and> occurrence_key p \<noteq> None
     then Inr (Inl (reject H p tick UnexpectedOccurrenceKey [] keys []))
     else Inr (Inr arguments))"
proof -
  have keys: "symbol_set (dependency_state_keys c p)" by (rule dependency_keys_set [OF p c])
  then have "symbol_set (unresolved_of s c p)" by (simp add: unresolved_of_def symbol_set_filter)
  then show ?thesis
    by (auto simp: check_required_state_def check_occurrence_key_def unresolved_keys_eq [OF s p c] Let_def
        reject_eq [OF H p t _ keys] stop_def)
qed

lemma check_proposal_eq:
  assumes H: "digest_ok H" and s: "ostate_ok H s" and p: "proposal_ok p" and t: "tick_ok tick" and c: "capability_ok c"
    and "available c"
  shows "check_proposal H s order p tick c =
    Inr (case verdict_for H s order p c of
           Eligible _ \<Rightarrow> Inr (stored_value (proposal_arguments p))
         | v \<Rightarrow> Inl (refusal H p tick v))"
proof -
  have keys: "symbol_set (dependency_state_keys c p)" by (rule dependency_keys_set [OF p c])
  have val: "value_ok (proposal_arguments p)" using p by (simp add: proposal_ok_def)
  note reject = reject_eq [OF H p t _ keys]
  show ?thesis
  proof (cases "arguments_admitted c (stored_value (proposal_arguments p))")
    case False
    from normalize_stored_arguments(2) [OF val c this] False assms(6) show ?thesis
      by (auto simp: check_proposal_def value_ok_stored [OF val] verdict_for_def Let_def reject stop_def)
  next
    case True
    from normalize_stored_arguments(1) [OF val c this] True assms(6) show ?thesis
      by (auto simp: check_proposal_def value_ok_stored [OF val] verdict_for_def Let_def reject stop_def
          validate_targets_eq [OF H s p t keys] target_verdict_def check_required_state_eq [OF H s p t c])
  qed
qed

lemma verdict_for_Eligible:
  "verdict_for H s order p c = Eligible c' \<longleftrightarrow>
     c' = c \<and> available c \<and> arguments_admitted c (stored_value (proposal_arguments p)) \<and>
     (cap_replay_safety c = CacheableRead \<or> order = DeclaredSequence) \<and>
     unknown_targets H s p = [] \<and> targets_in H s AlreadySatisfied p = [] \<and>
     targets_in H s ExplicitlyBlocked p = [] \<and> targets_in H s DependencyBlocked p = [] \<and>
     unresolved_of s c p = [] \<and> (is_replay_safe c \<longleftrightarrow> occurrence_key p = None)"
  by (cases "cap_replay_safety c") (auto simp: verdict_for_def Let_def is_replay_safe_def)

lemma dependency_digest_eq:
  assumes "ostate_ok H s" and "proposal_ok p" and "capability_ok c" and "unresolved_of s c p = []"
  shows "dependency_digest H (os_epistemic s) (dependency_state_keys c p) =
    Inr (domain_id H ''ibae.epistemic-dependencies.v1''
      (JArr (map epistemic_identity_record (support_records (os_epistemic s) (dependency_state_keys c p)))))"
proof -
  have "symbol_set (dependency_state_keys c p)" by (rule dependency_keys_set [OF assms(2,3)])
  moreover have "set (dependency_state_keys c p) \<subseteq> resolved_keys (os_epistemic s)"
    using assms(4) by (auto simp: unresolved_of_def filter_empty_conv)
  moreover have "state_ok (os_epistemic s)" using assms(1) by (simp add: ostate_ok_def)
  ultimately show ?thesis by (simp add: dependency_digest_Inr symbol_set_def)
qed

lemma action_of_fingerprint: "digest_ok H \<Longrightarrow> is_fingerprint (action_of H s c p)"
  by (simp add: action_of_def action_identity_def domain_id_fingerprint)

lemma alist_update_new: "k \<notin> fst ` set xs \<Longrightarrow> AList.update k v xs = xs @ [(k, v)]"
  by (induction xs) auto

lemma admit_replay_safe_eq:
  assumes H: "digest_ok H" and p: "proposal_ok p" and t: "tick_ok tick" and c: "capability_ok c" and m: "memory_ok m"
  shows "admit_replay_safe H p tick c (action_of H s c p) m = Inr (settle_replay_safe H s tick p c m)"
proof -
  note keys = dependency_keys_set [OF p c] and fp = action_of_fingerprint [OF H]
  show ?thesis
  proof (cases "map_of (replay_safe_actions m) (action_of H s c p)")
    case None
    then have "AList.update (action_of H s c p) (proposal_id H p) (replay_safe_actions m) =
        replay_safe_actions m @ [(action_of H s c p, proposal_id H p)]"
      by (intro alist_update_new) (simp add: map_of_eq_None_iff)
    with None show ?thesis
      by (simp add: admit_replay_safe_def settle_replay_safe_def accepted_decision_eq [OF H p t fp keys] Let_def)
  next
    case (Some q)
    then have "is_fingerprint q" using m by (auto simp: memory_ok_def list_all_iff dest: map_of_SomeD)
    with Some show ?thesis
      by (simp add: admit_replay_safe_def settle_replay_safe_def accepted_decision_eq [OF H p t fp keys] Let_def)
  qed
qed

lemma admit_occurrence_eq:
  assumes H: "digest_ok H" and p: "proposal_ok p" and t: "tick_ok tick" and c: "capability_ok c"
    and k: "occurrence_key p = Some key"
  shows "admit_occurrence H s p tick c (action_of H s c p) m = Inr (settle_occurrence H s tick p c key m)"
proof -
  note keys = dependency_keys_set [OF p c] and fp = action_of_fingerprint [OF H]
  let ?w = "\<lparr> own_key = key, own_action_id = action_of H s c p, own_proposal_id = proposal_id H p \<rparr>"
  have "occurrence_ownership_init ?w = Inr ?w"
    using p k by (simp add: occurrence_ownership_init_Inr ownership_ok_def proposal_ok_def fp
        proposal_id_fingerprint [OF H])
  moreover have "map_of (owner_table m) key \<noteq> None \<longleftrightarrow> key \<in> fst ` set (owner_table m)"
    by (simp add: map_of_eq_None_iff)
  ultimately show ?thesis
    using k by (simp add: admit_occurrence_def settle_occurrence_def Let_def reject_eq [OF H p t _ keys]
        accepted_decision_eq [OF H p t fp keys] alist_update_new)
qed

text \<open>One proposal is decided without error, and the decision is the verdict.\<close>

lemma decide_proposal_eq:
  assumes H: "digest_ok H" and s: "ostate_ok H s" and p: "proposal_ok p" and t: "tick_ok tick" and m: "memory_ok m"
  shows "decide_proposal H s order tick p m = Inr (settle H s tick p (verdict_on H s order p) m)"
proof (cases "find (\<lambda>c. cap_name c = proposal_capability p) (os_capabilities s)")
  case None
  then show ?thesis
    using proposal_sets [OF p]
    by (simp add: decide_proposal_def find_capability_eq [OF p] verdict_on_def settle_def reject_eq [OF H p t])
next
  case (Some c)
  then have c: "capability_ok c" using find_capability_ok [OF s] by blast
  have keys: "symbol_set (dependency_state_keys c p)" by (rule dependency_keys_set [OF p c])
  show ?thesis
  proof (cases "available c")
    case False
    with Some keys show ?thesis
      by (simp add: decide_proposal_def find_capability_eq [OF p] verdict_on_def verdict_for_def settle_def
          reject_eq [OF H p t])
  next
    case True
    show ?thesis
    proof (cases "verdict_for H s order p c")
      case (Refuse reason blocking ks unresolved)
      with Some True show ?thesis
        by (simp add: decide_proposal_def find_capability_eq [OF p] verdict_on_def settle_def
            check_proposal_eq [OF H s p t c True])
    next
      case (Eligible c')
      then have el: "c' = c" "unresolved_of s c p = []" "is_replay_safe c \<longleftrightarrow> occurrence_key p = None"
        by (simp_all add: verdict_for_Eligible)
      have "decide_proposal H s order tick p m =
          (if is_replay_safe c then admit_replay_safe H p tick c (action_of H s c p) m
           else admit_occurrence H s p tick c (action_of H s c p) m)"
        using Some True Eligible
        by (simp add: decide_proposal_def find_capability_eq [OF p] check_proposal_eq [OF H s p t c True]
            dependency_digest_eq [OF s p c el(2)] action_of_def Let_def)
      with Some Eligible el show ?thesis
        by (cases "occurrence_key p")
           (simp_all add: verdict_on_def settle_def admit_replay_safe_eq [OF H p t c m] admit_occurrence_eq [OF H p t c])
    qed
  qed
qed

end
