(* ===== verification/Admit_Correct.thy ===== *)
theory Admit_Correct
  imports Admit_Verdicts
begin

text \<open>
  Whole batches: the transition is total on valid states, it keeps them valid, and what a
  receipt says is what the verdicts of \<open>Admit_Verdicts\<close> say, one proposal and one tick at a time.
\<close>

section \<open>Deciding a sequence of proposals\<close>

fun settle_all ::
  "digest \<Rightarrow> orchestration_state \<Rightarrow> proposal_ordering \<Rightarrow> int \<Rightarrow> action_proposal list \<Rightarrow> admission_memory \<Rightarrow>
   admission_decision list \<times> admission_memory"
where
  "settle_all H s order tick [] m = ([], m)"
| "settle_all H s order tick (p # ps) m =
     (let (d, m1) = settle H s (tick + 1) p (verdict_on H s order p) m;
          (ds, m2) = settle_all H s order (tick + 1) ps m1
      in (d # ds, m2))"

text \<open>The fields that every decision takes from its proposal and its place in the batch.\<close>

lemma settle_fields:
  "dec_tick (fst (settle H s tick p v m)) = tick"
  "dec_proposal_id (fst (settle H s tick p v m)) = proposal_id H p"
  "dec_proposal_key (fst (settle H s tick p v m)) = proposal_key p"
  "dec_authority (fst (settle H s tick p v m)) = Orchestration"
  by (auto simp: settle_def settle_replay_safe_def settle_occurrence_def reject_def rejection_of_def
      acceptance_of_def Let_def split: verdict.split option.split)

lemma settle_memory_ok:
  "digest_ok H \<Longrightarrow> memory_ok m \<Longrightarrow> memory_ok (snd (settle H s tick p v m))"
  by (auto simp: settle_def settle_replay_safe_def settle_occurrence_def memory_ok_def Let_def
      action_of_fingerprint proposal_id_fingerprint split: verdict.split option.split)

lemma decide_all_eq:
  assumes "digest_ok H" and "ostate_ok H s" and "list_all proposal_ok ps" and "memory_ok m"
    and "0 \<le> tick" and "tick + int (length ps) < 2 ^ 256"
  shows "decide_all H s order tick ps m = Inr (settle_all H s order tick ps m)"
  using assms(3-)
proof (induction ps arbitrary: tick m)
  case (Cons p ps)
  then have "tick_ok (tick + 1)" by (simp add: tick_ok_def)
  with Cons have dec: "decide_proposal H s order (tick + 1) p m =
      Inr (settle H s (tick + 1) p (verdict_on H s order p) m)"
    by (intro decide_proposal_eq [OF assms(1,2)]) simp_all
  obtain d m1 where st: "settle H s (tick + 1) p (verdict_on H s order p) m = (d, m1)" by fastforce
  have "memory_ok m1" using settle_memory_ok [OF assms(1) Cons.prems(2)] st by (metis snd_conv)
  with Cons have "decide_all H s order (tick + 1) ps m1 = Inr (settle_all H s order (tick + 1) ps m1)"
    by (intro Cons.IH) simp_all
  with dec st show ?case by (simp add: case_prod_unfold Let_def)
qed simp

lemma settle_all_Cons:
  "settle_all H s order tick (p # ps) m =
     (fst (settle H s (tick + 1) p (verdict_on H s order p) m) #
        fst (settle_all H s order (tick + 1) ps (snd (settle H s (tick + 1) p (verdict_on H s order p) m))),
      snd (settle_all H s order (tick + 1) ps (snd (settle H s (tick + 1) p (verdict_on H s order p) m))))"
  by (simp add: case_prod_unfold Let_def)

lemmas settle_all_simps = settle_all.simps(1) settle_all_Cons

declare settle_all.simps(2) [simp del]

lemma settle_all_shape:
  "length (fst (settle_all H s order tick ps m)) = length ps"
  "map dec_proposal_id (fst (settle_all H s order tick ps m)) = map (proposal_id H) ps"
  "map dec_proposal_key (fst (settle_all H s order tick ps m)) = map proposal_key ps"
  "map dec_tick (fst (settle_all H s order tick ps m)) = [tick + 1 .. tick + int (length ps)]"
proof (induction ps arbitrary: tick m)
  case (Cons p ps)
  { case 4 show ?case
      using Cons(4) upto_rec1 [of "tick + 1" "tick + int (length (p # ps))"]
      by (simp add: settle_all_simps settle_fields add.assoc) }
qed (simp_all add: settle_all_simps settle_fields)

section \<open>Ownership of occurrences\<close>

text \<open>The table only grows at its end, with new keys, up to the bound.\<close>

definition table_ok :: "int \<Rightarrow> (pystr \<times> occurrence_ownership) list \<Rightarrow> bool" where
  "table_ok n t \<longleftrightarrow>
     distinct (map fst t) \<and> int (length t) \<le> n \<and> list_all (\<lambda>(k, w). own_key w = k \<and> ownership_ok w) t"

lemma settle_owners:
  assumes "digest_ok H" and "proposal_ok p" and "table_ok (ol_max_occurrence_owners (os_limits s)) (owner_table m)"
  shows "table_ok (ol_max_occurrence_owners (os_limits s)) (owner_table (snd (settle H s tick p v m))) \<and>
    (\<exists>new. owner_table (snd (settle H s tick p v m)) = owner_table m @ new)"
  using assms
  by (auto simp: settle_def settle_replay_safe_def settle_occurrence_def table_ok_def Let_def ownership_ok_def
      action_of_fingerprint proposal_id_fingerprint proposal_ok_def split: verdict.split option.split)

lemma settle_all_owners:
  assumes "digest_ok H" and "list_all proposal_ok ps"
    and "table_ok (ol_max_occurrence_owners (os_limits s)) (owner_table m)"
  shows "table_ok (ol_max_occurrence_owners (os_limits s)) (owner_table (snd (settle_all H s order tick ps m))) \<and>
    (\<exists>new. owner_table (snd (settle_all H s order tick ps m)) = owner_table m @ new)"
  using assms(2,3)
proof (induction ps arbitrary: tick m)
  case (Cons p ps)
  let ?m = "snd (settle H s (tick + 1) p (verdict_on H s order p) m)"
  have step: "table_ok (ol_max_occurrence_owners (os_limits s)) (owner_table ?m)"
    "\<exists>new. owner_table ?m = owner_table m @ new"
    using settle_owners [OF assms(1)] Cons.prems by simp_all
  with Cons.IH [of ?m "tick + 1"] Cons.prems show ?case by (auto simp: settle_all_simps)
qed (simp add: settle_all_simps)

lemma initial_table_ok:
  "ostate_ok H s \<Longrightarrow> table_ok (ol_max_occurrence_owners (os_limits s)) (owner_table (initial_memory s))"
  by (auto simp: ostate_ok_def initial_memory_def table_ok_def keyed_list_def list_all_iff comp_def)

lemma initial_memory_ok: "memory_ok (initial_memory s)"
  by (simp add: memory_ok_def initial_memory_def)

lemma table_keys: "table_ok n t \<Longrightarrow> map own_key (map snd t) = map fst t"
  by (induction t) (auto simp: table_ok_def)

section \<open>Advancing the state\<close>

definition advanced ::
  "int \<Rightarrow> pystr list \<Rightarrow> occurrence_ownership list \<Rightarrow> orchestration_state \<Rightarrow> orchestration_state"
where
  "advanced tick events owners s =
     s \<lparr> os_tick := tick,
         os_history := take_last (nat (ol_max_history (os_limits s))) (os_history s @ events),
         os_owners := sort_key own_key owners \<rparr>"

lemma advance_eq:
  assumes s: "ostate_ok H s" and ev: "list_all is_fingerprint events" "length events \<le> 64"
    and tick: "tick = os_tick s + int (length events)" "tick < 2 ^ 256"
    and own: "distinct (map own_key ws)" "list_all ownership_ok ws"
      "int (length ws) \<le> ol_max_occurrence_owners (os_limits s)"
      "owners = Some ws \<or> owners = None \<and> ws = os_owners s"
  shows "advance tick events owners s = Inr (advanced tick events ws s) \<and> ostate_ok H (advanced tick events ws s)"
proof -
  let ?s = "s \<lparr> os_tick := tick,
      os_history := take_last (nat (ol_max_history (os_limits s))) (os_history s @ events), os_owners := ws \<rparr>"
  have lim: "limits_ok (os_limits s)" using s by (simp add: ostate_ok_def)
  have t: "tick_ok tick" using tick s by (simp add: tick_ok_def ostate_ok_def)
  have "canonical_lists ?s = advanced tick events ws s"
    using s by (simp add: canonical_lists_def advanced_def ostate_ok_def keyed_list_def sort_key_id)
  moreover have ok: "ostate_ok H (advanced tick events ws s)"
    using s t own(1-3) lim ev(1) set_take_last [of "nat (ol_max_history (os_limits s))" "os_history s @ events"]
    by (auto simp: ostate_ok_def advanced_def keyed_list_sort list_all_iff limits_ok_def)
  moreover have "parts_ok H ?s" using s own(2) by (simp add: ostate_ok_def parts_ok_def)
  ultimately have init: "orchestration_state_init ?s = Inr (advanced tick events ws s)"
    by (simp add: orchestration_state_init_Inr)
  have "(case owners of None \<Rightarrow> Inr (os_owners s) | Some ws \<Rightarrow> materialize (ol_max_occurrence_owners (os_limits s)) ws) = Inr ws"
    using own(3,4) lim by (auto simp: materialize_ok limits_ok_def)
  with init ok ev tick(1) require_ok(4) [OF t] show ?thesis
    by (simp add: advance_def materialize_ok max_proposals_per_batch_def for_each_require)
qed

section \<open>The transition\<close>

definition decisions_of :: "digest \<Rightarrow> orchestration_state \<Rightarrow> proposal_batch \<Rightarrow> admission_decision list" where
  "decisions_of H s b =
     fst (settle_all H s (ordering b) (os_tick s) (ordered_proposals H b) (initial_memory s))"

definition owners_after :: "digest \<Rightarrow> orchestration_state \<Rightarrow> proposal_batch \<Rightarrow> occurrence_ownership list" where
  "owners_after H s b =
     map snd (owner_table (snd (settle_all H s (ordering b) (os_tick s) (ordered_proposals H b) (initial_memory s))))"

definition processed :: "digest \<Rightarrow> orchestration_state \<Rightarrow> proposal_batch \<Rightarrow> admission_transition" where
  "processed H s b =
     (let ds = decisions_of H s b;
          tick = os_tick s + int (length ds);
          s' = advanced tick (map (decision_event H b) ds) (owners_after H s b) s
      in \<lparr> next_state = s',
           receipt = \<lparr> rc_batch_id = batch_id H b, rc_strategy_id = strategy_id H (batch_strategy b),
                       rc_prior_state_id = state_id H s, rc_next_state_id = state_id H s',
                       rc_status = Processed, rc_ordering = ordering b,
                       rc_tick_start = os_tick s, rc_tick_end = tick,
                       rc_decisions = ds, rc_batch_rejection = None \<rparr> \<rparr>)"

definition whole_rejection :: "orchestration_state \<Rightarrow> rejection_reason \<Rightarrow> batch_rejection" where
  "whole_rejection s reason =
     \<lparr> br_reason = reason, br_recoveries = [recovery_for reason], br_tick = os_tick s + 1,
       br_authority = Orchestration, br_invariant_ids = rejection_invariants reason \<rparr>"

definition refused :: "digest \<Rightarrow> orchestration_state \<Rightarrow> proposal_batch \<Rightarrow> rejection_reason \<Rightarrow> admission_transition" where
  "refused H s b reason =
     (let s' = advanced (os_tick s + 1)
                 [event_id H (batch_id H b)
                    [(lit ''batch_rejection'', batch_rejection_record (whole_rejection s reason))]]
                 (os_owners s) s
      in \<lparr> next_state = s',
           receipt = \<lparr> rc_batch_id = batch_id H b, rc_strategy_id = strategy_id H (batch_strategy b),
                       rc_prior_state_id = state_id H s, rc_next_state_id = state_id H s',
                       rc_status = BatchRejected, rc_ordering = ordering b,
                       rc_tick_start = os_tick s, rc_tick_end = os_tick s + 1,
                       rc_decisions = [], rc_batch_rejection = Some (whole_rejection s reason) \<rparr> \<rparr>)"

definition schema_admitted :: "digest \<Rightarrow> orchestration_state \<Rightarrow> proposal_batch \<Rightarrow> bool" where
  "schema_admitted H s b \<longleftrightarrow>
     (\<exists>x \<in> set (os_schemas s). schema_key x = strategy_key (batch_strategy b) \<and>
        schema_id H x = schema_id H (strategy_schema_of (batch_strategy b)))"

definition batch_refusal :: "digest \<Rightarrow> orchestration_state \<Rightarrow> proposal_batch \<Rightarrow> rejection_reason option" where
  "batch_refusal H s b =
     (if \<not> schema_admitted H s b then Some StrategySchemaNotAdmitted
      else if int (length (proposals b)) > ol_max_batch_proposals (os_limits s) then Some BatchLimitExceeded
      else None)"

definition transition :: "digest \<Rightarrow> orchestration_state \<Rightarrow> proposal_batch \<Rightarrow> admission_transition" where
  "transition H s b =
     (case batch_refusal H s b of Some reason \<Rightarrow> refused H s b reason | None \<Rightarrow> processed H s b)"

lemma identity_fingerprints:
  "digest_ok H \<Longrightarrow> is_fingerprint (batch_id H b)" "digest_ok H \<Longrightarrow> is_fingerprint (strategy_id H st)"
  "digest_ok H \<Longrightarrow> is_fingerprint (state_id H s)" "digest_ok H \<Longrightarrow> is_fingerprint (event_id H i ms)"
  by (simp_all add: batch_id_def strategy_id_def state_id_def event_id_def domain_id_fingerprint)

lemma batch_rejection_init_eq:
  "tick_ok (os_tick s + 1) \<Longrightarrow> batch_rejection_init (whole_rejection s reason) = Inr (whole_rejection s reason)"
  using rejection_invariants_ok [of reason]
  by (simp add: batch_rejection_init_def whole_rejection_def require_ok materialize_ok recovery_action_count_def
      max_invariant_ids_per_rejection_def sort_key_id for_each_require)

lemma rejected_batch_transition_eq:
  assumes H: "digest_ok H" and s: "ostate_ok H s" and t: "os_tick s + 1 < 2 ^ 256"
    and rs: "rs = [recovery_for reason]"
  shows "rejected_batch_transition H s b reason rs = Inr (refused H s b reason) \<and>
    ostate_ok H (next_state (refused H s b reason))"
proof -
  let ?e = "[event_id H (batch_id H b) [(lit ''batch_rejection'', batch_rejection_record (whole_rejection s reason))]]"
  have tick: "tick_ok (os_tick s)" "tick_ok (os_tick s + 1)" using s t by (simp_all add: ostate_ok_def tick_ok_def)
  have adv: "advance (os_tick s + 1) ?e None s = Inr (advanced (os_tick s + 1) ?e (os_owners s) s) \<and>
      ostate_ok H (advanced (os_tick s + 1) ?e (os_owners s) s)"
    using s t by (intro advance_eq) (simp_all add: identity_fingerprints [OF H] ostate_ok_def keyed_list_def)
  have wr: "\<lparr> br_reason = reason, br_recoveries = rs, br_tick = os_tick s + 1,
       br_authority = Orchestration, br_invariant_ids = rejection_invariants reason \<rparr> = whole_rejection s reason"
    by (simp add: whole_rejection_def rs)
  have fps: "for_each require_fingerprint [batch_id H b, strategy_id H (batch_strategy b), state_id H s, state_id H s'] = Inr ()"
    for s' by (intro for_each_require) (simp add: identity_fingerprints [OF H])
  have br: "br_tick (whole_rejection s reason) = os_tick s + 1" by (simp add: whole_rejection_def)
  show ?thesis
    using adv unfolding rejected_batch_transition_def wr
    by (simp add: batch_rejection_init_eq tick admission_receipt_init_def fps require_ok
        materialize_ok max_proposals_per_batch_def check_receipt_shape_def br admission_transition_init_def
        refused_def Let_def del: for_each.simps)
qed

lemma process_batch_eq:
  assumes H: "digest_ok H" and s: "ostate_ok H s" and b: "batch_ok b"
    and t: "os_tick s + int (length (proposals b)) < 2 ^ 256"
  shows "process_batch H s b = Inr (processed H s b) \<and> ostate_ok H (next_state (processed H s b))"
proof -
  let ?ps = "ordered_proposals H b"
  let ?ds = "decisions_of H s b"
  let ?m = "snd (settle_all H s (ordering b) (os_tick s) ?ps (initial_memory s))"
  let ?tick = "os_tick s + int (length ?ds)" and ?e = "map (decision_event H b) ?ds"
  let ?s = "advanced ?tick ?e (owners_after H s b) s"
  have ps: "list_all proposal_ok ?ps" using b by (simp add: batch_ok_def list_all_iff)
  have len: "length ?ds = length (proposals b)" by (simp add: decisions_of_def settle_all_shape)
  have tick: "tick_ok (os_tick s)" "tick_ok ?tick" using s t len by (simp_all add: ostate_ok_def tick_ok_def)
  have dec: "decide_all H s (ordering b) (os_tick s) ?ps (initial_memory s) = Inr (?ds, ?m)"
    using decide_all_eq [OF H s ps initial_memory_ok] tick t
    by (simp add: decisions_of_def tick_ok_def)
  have tab: "table_ok (ol_max_occurrence_owners (os_limits s)) (owner_table ?m)"
    using settle_all_owners [OF H ps initial_table_ok [OF s]] by blast
  have "advance ?tick ?e (Some (owners_after H s b)) s = Inr ?s \<and> ostate_ok H ?s"
  proof (rule advance_eq [OF s])
    show "list_all is_fingerprint ?e"
      by (auto simp: list_all_iff decision_event_def identity_fingerprints [OF H])
    show "length ?e \<le> 64" using b len by (simp add: batch_ok_def)
    show "distinct (map own_key (owners_after H s b))"
      using tab unfolding owners_after_def table_keys [OF tab] by (simp add: table_ok_def)
    show "list_all ownership_ok (owners_after H s b)"
      "int (length (owners_after H s b)) \<le> ol_max_occurrence_owners (os_limits s)"
      using tab by (auto simp: owners_after_def table_ok_def list_all_iff)
  qed (use tick in \<open>simp_all add: tick_ok_def\<close>)
  moreover have fps: "for_each require_fingerprint [batch_id H b, strategy_id H (batch_strategy b), state_id H s, state_id H s'] = Inr ()"
    for s' by (intro for_each_require) (simp add: identity_fingerprints [OF H])
  moreover have "map dec_tick ?ds = [os_tick s + 1 .. ?tick]"
    using len by (simp add: decisions_of_def settle_all_shape)
  moreover have "ordering b \<noteq> CanonicalIndependent \<or>
      map dec_proposal_id ?ds = sort (map dec_proposal_id ?ds)"
    by (simp add: decisions_of_def settle_all_shape sort_key_id ordered_proposals_def)
  moreover have "?ds \<noteq> []" "length ?ds \<le> 64" using b len by (auto simp: batch_ok_def)
  ultimately show ?thesis
    using tick unfolding process_batch_def dec
    by (simp add: owners_after_def [symmetric] admission_receipt_init_def require_ok materialize_ok
        max_proposals_per_batch_def check_receipt_shape_def admission_transition_init_def processed_def Let_def
        del: for_each.simps)
qed

lemma find_unique_key:
  assumes "distinct (map f xs)"
  shows "find (\<lambda>x. f x = k) xs = Some x \<longleftrightarrow> x \<in> set xs \<and> f x = k"
  using assms by (induction xs) (auto simp: image_iff)

text \<open>The logical ticks a batch consumes.\<close>

definition consumed :: "digest \<Rightarrow> orchestration_state \<Rightarrow> proposal_batch \<Rightarrow> int" where
  "consumed H s b = (if batch_refusal H s b = None then int (length (proposals b)) else 1)"

text \<open>The two guards of \<open>admit_batch\<close> decide which transition is taken.\<close>

lemma admit_batch_dispatch:
  assumes s: "ostate_ok H s" and b: "batch_ok b"
  shows "admit_batch H s b =
    (case batch_refusal H s b of
       Some reason \<Rightarrow> rejected_batch_transition H s b reason [recovery_for reason]
     | None \<Rightarrow> process_batch H s b)"
proof -
  let ?key = "strategy_key (batch_strategy b)"
  have dist: "distinct (map schema_key (os_schemas s))" using s by (simp add: ostate_ok_def keyed_list_def)
  have find: "find_schema s ?key = Inr (find (\<lambda>x. schema_key x = ?key) (os_schemas s))"
    using b by (simp add: find_schema_def require_ok batch_ok_def strategy_ok_def)
  have adm: "schema_admitted H s b \<longleftrightarrow> (case find (\<lambda>x. schema_key x = ?key) (os_schemas s) of None \<Rightarrow> False
      | Some x \<Rightarrow> schema_id H x = schema_id H (strategy_schema_of (batch_strategy b)))"
    using find_unique_key [OF dist, of ?key]
    by (auto simp: schema_admitted_def find_None_iff split: option.split) (metis option.inject)
  show ?thesis
    by (auto simp: admit_batch_def find batch_refusal_def adm split: option.split)
qed

lemma admit_batch_eq:
  assumes H: "digest_ok H" and s: "ostate_ok H s" and b: "batch_ok b"
    and t: "os_tick s + consumed H s b < 2 ^ 256"
  shows "admit_batch H s b = Inr (transition H s b)" and "ostate_ok H (next_state (transition H s b))"
proof -
  have "admit_batch H s b = Inr (transition H s b) \<and> ostate_ok H (next_state (transition H s b))"
    using t process_batch_eq [OF H s b]
    by (auto simp: rejected_batch_transition_eq [OF H s] admit_batch_dispatch [OF s b] transition_def consumed_def
        split: option.split if_splits)
  then show "admit_batch H s b = Inr (transition H s b)" "ostate_ok H (next_state (transition H s b))" by simp_all
qed

text \<open>A transition that returns had room on the clock.\<close>

lemma decide_all_length: "decide_all H s order tick ps m = Inr (ds, m') \<Longrightarrow> length ds = length ps"
  by (induction H s order tick ps m arbitrary: ds m' rule: decide_all.induct) (auto simp: rbind_eq_Inr)

lemma advance_room: "advance tick es ws s = Inr s' \<Longrightarrow> tick < 2 ^ 256"
  by (auto simp: advance_def rbind_eq_Inr accept_simps)

lemma admit_batch_room:
  assumes s: "ostate_ok H s" and b: "batch_ok b" and t: "admit_batch H s b = Inr t"
  shows "os_tick s + consumed H s b < 2 ^ 256"
proof (cases "batch_refusal H s b")
  case (Some reason)
  with t show ?thesis
    by (auto simp: admit_batch_dispatch [OF s b] consumed_def rejected_batch_transition_def rbind_eq_Inr
        dest!: advance_room)
next
  case None
  with t have "process_batch H s b = Inr t" by (simp add: admit_batch_dispatch [OF s b])
  with None show ?thesis
    by (auto simp: consumed_def process_batch_def rbind_eq_Inr Let_def dest!: advance_room decide_all_length)
qed

lemma admit_batch_Inr:
  assumes "digest_ok H" and "ostate_ok H s" and "batch_ok b"
  shows "admit_batch H s b = Inr t \<longleftrightarrow> t = transition H s b \<and> os_tick s + consumed H s b < 2 ^ 256"
  using admit_batch_eq [OF assms] admit_batch_room [OF assms(2,3)] by auto

lemma admit_batch_valid:
  assumes "digest_ok H" and "ostate_ok H s" and "batch_ok b" and "admit_batch H s b = Inr t"
  shows "ostate_ok H (next_state t)"
  using admit_batch_eq(2) [OF assms(1-3)] admit_batch_Inr [OF assms(1-3), of t] assms(4) by simp

section \<open>Positions in a batch\<close>

lemma settle_all_append:
  "settle_all H s order tick (ps @ qs) m =
     (fst (settle_all H s order tick ps m) @
        fst (settle_all H s order (tick + int (length ps)) qs (snd (settle_all H s order tick ps m))),
      snd (settle_all H s order (tick + int (length ps)) qs (snd (settle_all H s order tick ps m))))"
  by (induction ps arbitrary: tick m) (simp_all add: settle_all_simps algebra_simps)

text \<open>What the loop carries when it reaches position \<open>n\<close>.\<close>

definition memory_at :: "digest \<Rightarrow> orchestration_state \<Rightarrow> proposal_batch \<Rightarrow> nat \<Rightarrow> admission_memory" where
  "memory_at H s b n =
     snd (settle_all H s (ordering b) (os_tick s) (take n (ordered_proposals H b)) (initial_memory s))"

lemma decisions_nth:
  assumes "n < length (proposals b)"
  shows "decisions_of H s b ! n =
    fst (settle H s (os_tick s + int n + 1) (ordered_proposals H b ! n)
           (verdict_on H s (ordering b) (ordered_proposals H b ! n)) (memory_at H s b n))"
proof -
  let ?ps = "ordered_proposals H b"
  have split: "?ps = take n ?ps @ ?ps ! n # drop (Suc n) ?ps"
    using assms by (simp add: id_take_nth_drop)
  have len: "length (fst (settle_all H s (ordering b) (os_tick s) (take n ?ps) (initial_memory s))) = n"
    using assms by (simp add: settle_all_shape)
  show ?thesis
    unfolding decisions_of_def
    by (subst split) (use assms len in \<open>simp add: settle_all_append settle_all_simps nth_append memory_at_def\<close>)
qed

lemma memory_at_0: "memory_at H s b 0 = initial_memory s"
  by (simp add: memory_at_def settle_all_simps)

lemma memory_at_Suc:
  "n < length (proposals b) \<Longrightarrow>
   memory_at H s b (Suc n) =
     snd (settle H s (os_tick s + int n + 1) (ordered_proposals H b ! n)
            (verdict_on H s (ordering b) (ordered_proposals H b ! n)) (memory_at H s b n))"
  by (simp add: memory_at_def take_Suc_conv_app_nth settle_all_append settle_all_simps)

lemma owners_after_memory: "owners_after H s b = map snd (owner_table (memory_at H s b (length (proposals b))))"
  by (simp add: owners_after_def memory_at_def)

lemma owner_table_mono:
  assumes "n \<le> k" and "k \<le> length (proposals b)"
  shows "set (owner_table (memory_at H s b n)) \<subseteq> set (owner_table (memory_at H s b k))"
  using assms
proof (induction k rule: dec_induct)
  case (step k)
  then show ?case
    by (auto simp: memory_at_Suc settle_def settle_replay_safe_def settle_occurrence_def Let_def
        split: verdict.split option.split)
qed simp

subsection \<open>Why a proposal is admitted\<close>

definition targets_ready :: "digest \<Rightarrow> orchestration_state \<Rightarrow> action_proposal \<Rightarrow> bool" where
  "targets_ready H s p \<longleftrightarrow>
     (\<forall>t \<in> set (target_obligation_ids p).
        \<exists>ob \<in> set (obligations (os_obligations s)).
          obligation_id H ob = t \<and> status ob = Unsatisfied \<and>
          prerequisites H (os_obligations s) t \<subseteq> satisfied_ids H (os_obligations s))"

definition admissible :: "digest \<Rightarrow> orchestration_state \<Rightarrow> proposal_ordering \<Rightarrow> action_proposal \<Rightarrow> capability \<Rightarrow> bool" where
  "admissible H s order p c \<longleftrightarrow>
     c \<in> set (os_capabilities s) \<and> cap_name c = proposal_capability p \<and> available c \<and>
     arguments_admitted c (stored_value (proposal_arguments p)) \<and>
     (cap_replay_safety c = CacheableRead \<or> order = DeclaredSequence) \<and>
     targets_ready H s p \<and>
     set (cap_required_state_keys c) \<union> set (proposal_state_keys p) \<subseteq> resolved_keys (os_epistemic s) \<and>
     (is_replay_safe c \<longleftrightarrow> occurrence_key p = None)"

lemma ready_cases:
  "rd = Ready \<longleftrightarrow> rd \<noteq> AlreadySatisfied \<and> rd \<noteq> ExplicitlyBlocked \<and> rd \<noteq> DependencyBlocked"
  by (cases rd) simp_all

lemma targets_ready_iff:
  assumes H: "digest_ok H" and s: "ostate_ok H s"
  shows "targets_ready H s p \<longleftrightarrow>
    unknown_targets H s p = [] \<and> targets_in H s AlreadySatisfied p = [] \<and>
    targets_in H s ExplicitlyBlocked p = [] \<and> targets_in H s DependencyBlocked p = []"
proof -
  let ?r = "os_obligations s"
  have ok: "registry_ok H ?r" using s by (simp add: ostate_ok_def)
  have one: "t \<in> set (known_ids H ?r) \<and> readiness_of H s t = Ready \<longleftrightarrow>
      (\<exists>ob \<in> set (obligations ?r). obligation_id H ob = t \<and> status ob = Unsatisfied \<and>
          prerequisites H ?r t \<subseteq> satisfied_ids H ?r)" for t
  proof -
    have "readiness_of H s (obligation_id H ob) = Ready \<longleftrightarrow>
        status ob = Unsatisfied \<and> prerequisites H ?r (obligation_id H ob) \<subseteq> satisfied_ids H ?r"
      if "ob \<in> set (obligations ?r)" for ob
      using readiness_eq [OF ok that obligation_id_fingerprint [OF H]] direct_prerequisites [OF ok that]
      by (simp add: readiness_of_def split: obligation_status.split)
    then show ?thesis by (auto simp: known_ids_def)
  qed
  have "targets_ready H s p \<longleftrightarrow>
      (\<forall>t \<in> set (target_obligation_ids p). t \<in> set (known_ids H ?r) \<and> readiness_of H s t = Ready)"
    unfolding targets_ready_def one ..
  also have "\<dots> \<longleftrightarrow> unknown_targets H s p = [] \<and> targets_in H s AlreadySatisfied p = [] \<and>
    targets_in H s ExplicitlyBlocked p = [] \<and> targets_in H s DependencyBlocked p = []"
    unfolding unknown_targets_def targets_in_def filter_empty_conv ready_cases by blast
  finally show ?thesis .
qed

lemma verdict_on_Eligible:
  assumes H: "digest_ok H" and s: "ostate_ok H s"
  shows "verdict_on H s order p = Eligible c \<longleftrightarrow> admissible H s order p c"
proof -
  have dist: "distinct (map cap_name (os_capabilities s))" using s by (simp add: ostate_ok_def keyed_list_def)
  have "verdict_on H s order p = Eligible c \<longleftrightarrow>
      (\<exists>c'. find (\<lambda>c. cap_name c = proposal_capability p) (os_capabilities s) = Some c' \<and>
            verdict_for H s order p c' = Eligible c)"
    by (simp add: verdict_on_def split: option.split)
  also have "\<dots> \<longleftrightarrow> c \<in> set (os_capabilities s) \<and> cap_name c = proposal_capability p \<and>
      verdict_for H s order p c = Eligible c"
    unfolding find_unique_key [OF dist] verdict_for_Eligible by auto
  also have "\<dots> \<longleftrightarrow> admissible H s order p c"
    unfolding verdict_for_Eligible admissible_def targets_ready_iff [OF H s]
    by (auto simp: unresolved_of_def filter_empty_conv dependency_state_keys_def)
  finally show ?thesis .
qed

section \<open>An example state and batch\<close>

text \<open>
  Two occurrences of a sensitive write under one key, then one read twice: the first of each
  pair is admitted.
\<close>

definition empty_object :: canonical_value where "empty_object = \<lparr> canonical_text = render (JObj []) \<rparr>"

lemma empty_object_fits: "fits value_profile 0 (0, 0) (JObj [])"
  by (simp add: fits_def within_def advance_counters_def jbytes_def utf8_char_def lit_def value_profile_def limit_defs)

lemma empty_object_ok: "value_ok empty_object"
  unfolding value_ok_def canonical_value_init_def empty_object_def canonical_value.simps
  by (rule validate_text_render(1), rule text_profiles, rule empty_object_fits) simp

lemma empty_object_stored: "stored_value empty_object = JObj []"
  using validate_text_render(2) [OF text_profiles(1) empty_object_fits]
  by (simp add: stored_value_def empty_object_def)

definition example_write :: capability where
  "example_write = \<lparr> cap_name = lit ''write'', cap_replay_safety = OccurrenceSensitive,
     cap_description = lit ''first'', available = True, contract_version = 1,
     cap_required_state_keys = [], semantic_argument_keys = [], replay_evidence_id = None \<rparr>"

definition example_read :: capability where
  "example_read = \<lparr> cap_name = lit ''read'', cap_replay_safety = CacheableRead,
     cap_description = lit ''first'', available = True, contract_version = 1,
     cap_required_state_keys = [lit ''a''], semantic_argument_keys = [], replay_evidence_id = None \<rparr>"

definition example_schema :: strategy_schema where
  "example_schema = \<lparr> schema_key = lit ''a'', parameter_specs = [], schema_version = 1 \<rparr>"

definition example_ostate :: orchestration_state where
  "example_ostate =
     \<lparr> os_obligations = example_registry, os_epistemic = example_state,
       os_capabilities = [example_read, example_write], os_limits = default_orchestration_limits,
       os_tick = 0, os_history = [], os_owners = [], os_schemas = [example_schema] \<rparr>"

definition example_proposal :: "string \<Rightarrow> string \<Rightarrow> string option \<Rightarrow> action_proposal" where
  "example_proposal key cap occ =
     \<lparr> proposal_key = lit key, proposal_capability = lit cap,
       target_obligation_ids = [obligation_id length_digest example_first], proposal_state_keys = [],
       occurrence_key = map_option lit occ, proposal_arguments = empty_object, observational_metadata = None \<rparr>"

definition example_batch :: proposal_batch where
  "example_batch =
     \<lparr> batch_key = lit ''a'',
       batch_strategy = \<lparr> strategy_key = lit ''a'', strategy_schema_of = example_schema,
                          strategy_parameters = empty_object \<rparr>,
       proposals = [example_proposal ''a'' ''write'' (Some ''b''), example_proposal ''b'' ''write'' (Some ''b''),
                    example_proposal ''c'' ''read'' None, example_proposal ''fs'' ''read'' None],
       ordering = DeclaredSequence \<rparr>"

lemma length_digest_ok: "digest_ok length_digest"
  by (simp add: digest_ok_def length_digest_fingerprint)

lemma more_symbols: "is_symbol (lit ''read'')" "is_symbol (lit ''write'')"
  by (simp_all add: lit_def symbol_char_def in_range_def)

lemma example_description: "is_record_text (lit ''first'')"
  by (simp add: is_record_text_def strip_eq_self is_space_def max_record_text_bytes_def lit_def
      utf8_char_def is_surrogate_def)

lemma example_capabilities_ok: "capability_ok example_read" "capability_ok example_write"
  using more_symbols example_symbols example_description
  by (simp_all add: capability_ok_def example_read_def example_write_def)

lemma example_ostate_ok: "ostate_ok length_digest example_ostate"
  using example_registry_ok example_state_ok default_orchestration_limits_ok example_capabilities_ok
  by (simp add: ostate_ok_def example_ostate_def keyed_list_def tick_ok_def example_registry_def
      example_state_def default_orchestration_limits_def protocol_limit_defs)
     (simp add: example_read_def example_write_def lit_def)

lemma example_proposal_ok:
  "is_symbol (lit key) \<Longrightarrow> is_symbol (lit cap) \<Longrightarrow> (\<forall>k. occ = Some k \<longrightarrow> is_symbol (lit k)) \<Longrightarrow>
   proposal_ok (example_proposal key cap occ)"
  using obligation_id_fingerprint [OF length_digest_ok, of example_first] empty_object_ok
  by (auto simp: proposal_ok_def example_proposal_def split: option.split)

lemma example_batch_ok: "batch_ok example_batch"
proof -
  have keys: "map proposal_key (proposals example_batch) = [lit ''a'', lit ''b'', lit ''c'', lit ''fs'']"
    by (simp add: example_batch_def example_proposal_def)
  have "list_all proposal_ok (proposals example_batch)"
    using example_symbols more_symbols
    by (simp add: example_batch_def) (auto intro!: example_proposal_ok)
  then show ?thesis
    using example_symbols empty_object_ok unfolding batch_ok_def keys
    by (simp add: lit_eq_iff) (simp add: example_batch_def strategy_ok_def example_schema_def)
qed

lemma example_admissible:
  "admissible length_digest example_ostate DeclaredSequence (example_proposal key ''write'' (Some k)) example_write"
  "admissible length_digest example_ostate DeclaredSequence (example_proposal key ''read'' None) example_read"
proof -
  have ready: "targets_ready length_digest example_ostate (example_proposal key cap occ)" for key cap occ
  proof -
    have ob: "example_first \<in> set (obligations (os_obligations example_ostate))"
      by (simp add: example_ostate_def example_registry_def)
    moreover have "registry_ok length_digest (os_obligations example_ostate)"
      using example_registry_ok by (simp add: example_ostate_def)
    moreover have "set (dependency_ids example_first) \<subseteq> satisfied_ids length_digest (os_obligations example_ostate)"
      by (simp add: example_first_def)
    ultimately have "prerequisites length_digest (os_obligations example_ostate) (obligation_id length_digest example_first)
        \<subseteq> satisfied_ids length_digest (os_obligations example_ostate)"
      using direct_prerequisites by blast
    with ob show ?thesis
      by (auto simp: targets_ready_def example_proposal_def intro!: bexI [of _ example_first])
         (simp add: example_first_def)
  qed
  have "lit ''a'' \<in> resolved_keys (os_epistemic example_ostate)"
    using resolved_keysI [of example_observed example_state]
    by (simp add: example_ostate_def example_state_def is_resolved_def example_observed_def)
  with ready show
    "admissible length_digest example_ostate DeclaredSequence (example_proposal key ''write'' (Some k)) example_write"
    "admissible length_digest example_ostate DeclaredSequence (example_proposal key ''read'' None) example_read"
    by (simp_all add: admissible_def example_ostate_def)
       (simp_all add: example_proposal_def example_read_def example_write_def arguments_admitted_def
         empty_object_stored is_replay_safe_def)
qed

lemmas example_verdicts =
  verdict_on_Eligible [OF length_digest_ok example_ostate_ok, THEN iffD2, OF example_admissible(1)]
  verdict_on_Eligible [OF length_digest_ok example_ostate_ok, THEN iffD2, OF example_admissible(2)]

lemma example_actions:
  "action_of H s c (example_proposal key cap occ) = action_of H s c (example_proposal key' cap occ)"
  by (simp add: action_of_def example_proposal_def dependency_state_keys_def)

lemma example_ticks: "os_tick example_ostate + int (length (proposals example_batch)) < 2 ^ 256"
  by (simp add: example_ostate_def example_batch_def)

lemma example_not_refused: "batch_refusal length_digest example_ostate example_batch = None"
  by (simp add: batch_refusal_def schema_admitted_def example_ostate_def example_batch_def
      default_orchestration_limits_def protocol_limit_defs) (simp add: example_schema_def)

lemma example_statuses:
  "map dec_status (decisions_of length_digest example_ostate example_batch) =
     [Admitted, Rejected, Admitted, Deduplicated]"
proof -
  have ord: "ordered_proposals length_digest example_batch = proposals example_batch" "ordering example_batch = DeclaredSequence"
    by (simp_all add: ordered_proposals_def example_batch_def)
  have lim: "ol_max_occurrence_owners (os_limits example_ostate) = 256"
    by (simp add: example_ostate_def default_orchestration_limits_def protocol_limit_defs)
  have occ: "occurrence_key (example_proposal key cap o') = map_option lit o'" for key cap o'
    by (simp add: example_proposal_def)
  have init: "initial_memory example_ostate = \<lparr> replay_safe_actions = [], owner_table = [] \<rparr>"
    by (simp add: initial_memory_def example_ostate_def)
  show ?thesis
    unfolding decisions_of_def ord init
    by (simp add: example_batch_def settle_all_simps example_verdicts settle_def occ settle_occurrence_def
        settle_replay_safe_def Let_def lim acceptance_of_def reject_def rejection_of_def
        example_actions [of _ _ _ "''fs''" _ _ "''c''"])
qed

end
