(* ===== verification/Ledger.thy ===== *)
theory Ledger
  imports Prelude
begin

text \<open>
  The contract of an append-only ledger: entries are kept by every step and their keys are
  unique in every valid state. What a client may conclude over any number of steps is proved
  once here.
\<close>

locale append_only_ledger =
  fixes valid :: "'s \<Rightarrow> bool" and step :: "'s \<Rightarrow> 's \<Rightarrow> bool"
    and entries :: "'s \<Rightarrow> 'e list" and key :: "'e \<Rightarrow> 'k"
  assumes step_valid: "valid s \<Longrightarrow> step s s' \<Longrightarrow> valid s'"
    and keys_unique: "valid s \<Longrightarrow> distinct (map key (entries s))"
    and step_keeps: "valid s \<Longrightarrow> step s s' \<Longrightarrow> set (entries s) \<subseteq> set (entries s')"
begin

lemma run_valid: "step\<^sup>*\<^sup>* s s' \<Longrightarrow> valid s \<Longrightarrow> valid s'"
  by (induction rule: rtranclp_induct) (auto intro: step_valid)

lemma run_keeps: "step\<^sup>*\<^sup>* s s' \<Longrightarrow> valid s \<Longrightarrow> set (entries s) \<subseteq> set (entries s')"
proof (induction rule: rtranclp_induct)
  case (step s' s'')
  then show ?case using run_valid step_keeps by blast
qed simp

lemma entry_unique: "valid s \<Longrightarrow> e \<in> set (entries s) \<Longrightarrow> e' \<in> set (entries s) \<Longrightarrow> key e = key e' \<Longrightarrow> e = e'"
  using keys_unique by (auto simp: distinct_map inj_on_def)

lemma run_owner_stable:
  "step\<^sup>*\<^sup>* s s' \<Longrightarrow> valid s \<Longrightarrow> e \<in> set (entries s) \<Longrightarrow> e' \<in> set (entries s') \<Longrightarrow> key e' = key e \<Longrightarrow> e' = e"
  using run_keeps run_valid entry_unique by (metis subsetD)

end

end
