(* ===== verification/Admit_Properties.thy ===== *)
theory Admit_Properties
  imports Admit_Correct Ledger
begin

text \<open>
  The properties of \<open>admit_batch\<close>: totality and validity, the logical clock, why proposals are
  admitted, deduplication, ownership of occurrences over any run, and order independence.
\<close>

section \<open>One transition\<close>

lemma example_consumed:
  "os_tick example_ostate + consumed length_digest example_ostate example_batch < 2 ^ 256"
  using example_not_refused by (simp add: consumed_def example_ostate_def example_batch_def)

lemmas example_admit = admit_batch_eq [OF length_digest_ok example_ostate_ok example_batch_ok example_consumed]

text \<open>C1 [admit_batch_refines_verdicts]. On a valid state and batch the transition returns, whenever the
  logical clock has room, exactly what the abstract transition gives: one settled verdict per
  proposal, or the refusal of the whole batch.\<close>

theorem admit_batch_refines_verdicts:
  assumes "digest_ok H" and "ostate_ok H s" and "batch_ok b"
  shows "admit_batch H s b = Inr t \<longleftrightarrow> t = transition H s b \<and> os_tick s + consumed H s b < 2 ^ 256"
  by (rule admit_batch_Inr [OF assms])

theorem admit_batch_refines_verdicts_witness:
  "admit_batch length_digest example_ostate example_batch =
     Inr (transition length_digest example_ostate example_batch)"
  using admit_batch_refines_verdicts [OF length_digest_ok example_ostate_ok example_batch_ok] example_consumed
  by blast

text \<open>C4 [admit_batch_keeps_valid]. A transition returns exactly when the clock has room for the ticks it
  consumes; the state it returns satisfies every check of the state constructor, its limits,
  obligations, epistemic records, capabilities and schemas are those of the prior state, and the
  receipt names the prior and the next state by their identities.\<close>

theorem admit_batch_keeps_valid:
  assumes "digest_ok H" and "ostate_ok H s" and "batch_ok b"
  shows "(os_tick s + consumed H s b < 2 ^ 256 \<longleftrightarrow> (\<exists>t. admit_batch H s b = Inr t)) \<and>
    (\<forall>t. admit_batch H s b = Inr t \<longrightarrow>
       ostate_ok H (next_state t) \<and> orchestration_state_init (next_state t) = Inr (next_state t) \<and>
       os_limits (next_state t) = os_limits s \<and> os_obligations (next_state t) = os_obligations s \<and>
       os_epistemic (next_state t) = os_epistemic s \<and> os_capabilities (next_state t) = os_capabilities s \<and>
       os_schemas (next_state t) = os_schemas s \<and>
       rc_prior_state_id (receipt t) = state_id H s \<and> rc_next_state_id (receipt t) = state_id H (next_state t))"
proof (intro conjI allI impI)
  show "os_tick s + consumed H s b < 2 ^ 256 \<longleftrightarrow> (\<exists>t. admit_batch H s b = Inr t)"
    using admit_batch_Inr [OF assms] by blast
  fix t assume t: "admit_batch H s b = Inr t"
  then show ok: "ostate_ok H (next_state t)" by (rule admit_batch_valid [OF assms])
  then show "orchestration_state_init (next_state t) = Inr (next_state t)" by (rule orchestration_state_init_ok)
  have "t = transition H s b" using admit_batch_Inr [OF assms] t by blast
  then show "os_limits (next_state t) = os_limits s" "os_obligations (next_state t) = os_obligations s"
    "os_epistemic (next_state t) = os_epistemic s" "os_capabilities (next_state t) = os_capabilities s"
    "os_schemas (next_state t) = os_schemas s"
    "rc_prior_state_id (receipt t) = state_id H s" "rc_next_state_id (receipt t) = state_id H (next_state t)"
    by (simp_all add: transition_def refused_def processed_def Let_def advanced_def split: option.split)
qed

theorem admit_batch_keeps_valid_witness:
  "ostate_ok length_digest (next_state (transition length_digest example_ostate example_batch))"
  using admit_batch_keeps_valid [OF length_digest_ok example_ostate_ok example_batch_ok] example_admit(1) by blast

text \<open>C5 [logical_clock_exact]. A processed batch decides every proposal once, in processing order, at
  consecutive ticks; a refused batch consumes one tick and decides nothing. The history keeps the
  most recent events up to its bound, one per tick.\<close>

theorem logical_clock_exact:
  assumes "digest_ok H" and "ostate_ok H s" and "batch_ok b" and "admit_batch H s b = Inr t"
  shows "os_tick (next_state t) = rc_tick_end (receipt t) \<and> rc_tick_start (receipt t) = os_tick s \<and>
    (case rc_batch_rejection (receipt t) of
       None \<Rightarrow>
         map dec_proposal_id (rc_decisions (receipt t)) = map (proposal_id H) (ordered_proposals H b) \<and>
         map dec_tick (rc_decisions (receipt t)) = [os_tick s + 1 .. os_tick s + int (length (proposals b))] \<and>
         os_tick (next_state t) = os_tick s + int (length (proposals b))
     | Some r \<Rightarrow> rc_decisions (receipt t) = [] \<and> os_tick (next_state t) = os_tick s + 1 \<and> br_tick r = os_tick s + 1) \<and>
    (\<exists>events. int (length events) = os_tick (next_state t) - os_tick s \<and>
       os_history (next_state t) = take_last (nat (ol_max_history (os_limits s))) (os_history s @ events))"
proof -
  have t: "t = transition H s b" using assms admit_batch_Inr by blast
  show ?thesis
  proof (cases "batch_refusal H s b")
    case None
    have "length (decisions_of H s b) = length (proposals b)"
      "map dec_proposal_id (decisions_of H s b) = map (proposal_id H) (ordered_proposals H b)"
      "map dec_tick (decisions_of H s b) = [os_tick s + 1 .. os_tick s + int (length (proposals b))]"
      by (simp_all add: decisions_of_def settle_all_shape)
    with None t show ?thesis
      by (simp add: transition_def processed_def Let_def advanced_def)
         (rule exI [of _ "map (decision_event H b) (decisions_of H s b)"], simp)
  next
    case (Some reason)
    with t show ?thesis
      by (simp add: transition_def refused_def Let_def advanced_def whole_rejection_def) (rule exI, rule conjI [rotated], rule refl, simp)
  qed
qed

theorem logical_clock_exact_witness:
  "map dec_tick (rc_decisions (receipt (transition length_digest example_ostate example_batch))) = [1, 2, 3, 4]"
proof -
  have "rc_batch_rejection (receipt (transition length_digest example_ostate example_batch)) = None"
    using example_not_refused by (simp add: transition_def processed_def Let_def)
  then have "map dec_tick (rc_decisions (receipt (transition length_digest example_ostate example_batch))) = [0 + 1 .. 0 + 4]"
    using logical_clock_exact [OF length_digest_ok example_ostate_ok example_batch_ok example_admit(1)]
    by (simp add: example_ostate_def example_batch_def)
  then show ?thesis by (simp add: upto_rec1)
qed

section \<open>What the decisions say\<close>

lemma transition_decisions:
  assumes "digest_ok H" and "ostate_ok H s" and "batch_ok b" and "admit_batch H s b = Inr t"
    and "n < length (rc_decisions (receipt t))"
  shows "rc_decisions (receipt t) = decisions_of H s b" and "n < length (proposals b)"
    and "next_state t = next_state (processed H s b)"
proof -
  have t: "t = transition H s b" using assms admit_batch_Inr by blast
  with assms(5) have "batch_refusal H s b = None"
    by (cases "batch_refusal H s b") (auto simp: transition_def refused_def Let_def)
  with t show eq: "rc_decisions (receipt t) = decisions_of H s b" "next_state t = next_state (processed H s b)"
    by (simp_all add: transition_def processed_def Let_def)
  show "n < length (proposals b)"
    using assms(5) unfolding eq by (simp add: decisions_of_def settle_all_shape)
qed

lemma settle_accepted:
  assumes "dec_status (fst (settle H s tick p v m)) \<noteq> Rejected"
  shows "\<exists>c. v = Eligible c \<and> dec_action_id (fst (settle H s tick p v m)) = Some (action_of H s c p)"
  using assms
  by (auto simp: settle_def settle_replay_safe_def settle_occurrence_def Let_def reject_def rejection_of_def
      acceptance_of_def split: verdict.splits option.splits if_splits)

lemma settle_rejected:
  assumes "dec_status (fst (settle H s tick p v m)) = Rejected"
  shows "\<exists>r. dec_reason (fst (settle H s tick p v m)) = Some r \<and>
    dec_invariant_ids (fst (settle H s tick p v m)) = rejection_invariants r \<and>
    dec_recoveries (fst (settle H s tick p v m)) = [recovery_for r] \<and>
    (case v of Eligible c \<Rightarrow> r = DuplicateOccurrence \<or> r = OccurrenceRegistryFull | Refuse r' _ _ _ \<Rightarrow> r = r')"
  using assms
  by (auto simp: settle_def settle_replay_safe_def settle_occurrence_def Let_def reject_def rejection_of_def
      acceptance_of_def split: verdict.splits option.splits if_splits)

text \<open>C2 [admitted_only_when_admissible]. A proposal is admitted or deduplicated only when its capability is
  registered and available, its arguments are within the capability's schema, a capability that is
  not a cacheable read stands in a declared sequence, every target is an unsatisfied obligation all
  of whose direct and indirect prerequisites are satisfied, every required state key is observed or
  derived, and an occurrence key is present exactly for an occurrence-sensitive capability. Every
  other decision is a rejection with a reason, the invariants it protects and a recovery; an
  admissible proposal is rejected only for its occurrence key.\<close>

theorem admitted_only_when_admissible:
  assumes "digest_ok H" and "ostate_ok H s" and "batch_ok b" and "admit_batch H s b = Inr t"
    and "n < length (rc_decisions (receipt t))"
  shows "(dec_status (rc_decisions (receipt t) ! n) \<noteq> Rejected \<longrightarrow>
       (\<exists>c. admissible H s (ordering b) (ordered_proposals H b ! n) c \<and>
            dec_action_id (rc_decisions (receipt t) ! n) = Some (action_of H s c (ordered_proposals H b ! n)))) \<and>
    (dec_status (rc_decisions (receipt t) ! n) = Rejected \<longrightarrow>
       (\<exists>r. dec_reason (rc_decisions (receipt t) ! n) = Some r \<and>
            dec_invariant_ids (rc_decisions (receipt t) ! n) = rejection_invariants r \<and>
            rejection_invariants r \<noteq> [] \<and>
            dec_recoveries (rc_decisions (receipt t) ! n) = [recovery_for r] \<and>
            ((\<exists>c. admissible H s (ordering b) (ordered_proposals H b ! n) c) \<longrightarrow>
               r = DuplicateOccurrence \<or> r = OccurrenceRegistryFull)))"
proof -
  note d = transition_decisions [OF assms]
  let ?p = "ordered_proposals H b ! n"
  let ?d = "fst (settle H s (os_tick s + int n + 1) ?p (verdict_on H s (ordering b) ?p) (memory_at H s b n))"
  have nth: "rc_decisions (receipt t) ! n = ?d" unfolding d(1) by (rule decisions_nth [OF d(2)])
  have "dec_status ?d \<noteq> Rejected \<Longrightarrow>
      \<exists>c. admissible H s (ordering b) ?p c \<and> dec_action_id ?d = Some (action_of H s c ?p)"
    using settle_accepted verdict_on_Eligible [OF assms(1,2)] by metis
  moreover have "\<exists>r. dec_reason ?d = Some r \<and> dec_invariant_ids ?d = rejection_invariants r \<and>
      rejection_invariants r \<noteq> [] \<and> dec_recoveries ?d = [recovery_for r] \<and>
      ((\<exists>c. admissible H s (ordering b) ?p c) \<longrightarrow> r = DuplicateOccurrence \<or> r = OccurrenceRegistryFull)"
    if "dec_status ?d = Rejected"
  proof -
    from settle_rejected [OF that] obtain r where r: "dec_reason ?d = Some r"
      "dec_invariant_ids ?d = rejection_invariants r" "dec_recoveries ?d = [recovery_for r]"
      "case verdict_on H s (ordering b) ?p of Eligible c \<Rightarrow> r = DuplicateOccurrence \<or> r = OccurrenceRegistryFull
       | Refuse r' _ _ _ \<Rightarrow> r = r'" by blast
    have "r = DuplicateOccurrence \<or> r = OccurrenceRegistryFull" if "admissible H s (ordering b) ?p c" for c
      using r(4) verdict_on_Eligible [OF assms(1,2), THEN iffD2, OF that] by simp
    with r(1-3) rejection_invariants_ok(4) show ?thesis by blast
  qed
  ultimately show ?thesis unfolding nth by blast
qed

lemma example_receipt:
  "rc_decisions (receipt (transition length_digest example_ostate example_batch)) =
     decisions_of length_digest example_ostate example_batch"
  using example_not_refused by (simp add: transition_def processed_def Let_def)

lemma example_status_nth:
  "dec_status (decisions_of length_digest example_ostate example_batch ! 0) = Admitted"
  "dec_status (decisions_of length_digest example_ostate example_batch ! 1) = Rejected"
  "dec_status (decisions_of length_digest example_ostate example_batch ! 2) = Admitted"
  "dec_status (decisions_of length_digest example_ostate example_batch ! 3) = Deduplicated"
  "length (decisions_of length_digest example_ostate example_batch) = 4"
proof -
  let ?ds = "decisions_of length_digest example_ostate example_batch"
  show len: "length ?ds = 4"
    using arg_cong [OF example_statuses, of length] by simp
  have "map dec_status ?ds ! n = [Admitted, Rejected, Admitted, Deduplicated] ! n" for n
    by (simp only: example_statuses)
  then have nth: "n < 4 \<Longrightarrow> dec_status (?ds ! n) = [Admitted, Rejected, Admitted, Deduplicated] ! n" for n
    using len by (metis nth_map)
  show "dec_status (?ds ! 0) = Admitted" "dec_status (?ds ! 1) = Rejected" "dec_status (?ds ! 2) = Admitted"
    "dec_status (?ds ! 3) = Deduplicated"
    using nth [of 0] nth [of 1] nth [of 2] nth [of 3] by simp_all
qed

theorem admitted_only_when_admissible_witness:
  "\<exists>c. admissible length_digest example_ostate DeclaredSequence (example_proposal ''c'' ''read'' None) c"
  using admitted_only_when_admissible [OF length_digest_ok example_ostate_ok example_batch_ok example_admit(1), of 2]
    example_status_nth(3,5)
  by (auto simp: example_receipt) (auto simp: example_batch_def ordered_proposals_def)

section \<open>Deduplication\<close>

definition admitted_at :: "digest \<Rightarrow> orchestration_state \<Rightarrow> proposal_batch \<Rightarrow> nat \<Rightarrow> pystr \<Rightarrow> bool" where
  "admitted_at H s b n a \<longleftrightarrow>
     dec_status (decisions_of H s b ! n) = Admitted \<and> dec_action_id (decisions_of H s b ! n) = Some a"

lemma decisions_id: "n < length (proposals b) \<Longrightarrow>
  dec_proposal_id (decisions_of H s b ! n) = proposal_id H (ordered_proposals H b ! n)"
  by (simp add: decisions_nth settle_fields)

lemma settle_replay_memory:
  "(a, q) \<in> set (replay_safe_actions (snd (settle H s tick p v m))) \<longleftrightarrow>
     (a, q) \<in> set (replay_safe_actions m) \<or>
     (occurrence_key p = None \<and> dec_status (fst (settle H s tick p v m)) = Admitted \<and>
      dec_action_id (fst (settle H s tick p v m)) = Some a \<and> q = proposal_id H p)"
  by (auto simp: settle_def settle_replay_safe_def settle_occurrence_def Let_def reject_def rejection_of_def
      acceptance_of_def split: verdict.splits option.splits)

lemma replay_memory_at:
  "n \<le> length (proposals b) \<Longrightarrow>
   (a, q) \<in> set (replay_safe_actions (memory_at H s b n)) \<longleftrightarrow>
     (\<exists>i < n. occurrence_key (ordered_proposals H b ! i) = None \<and> admitted_at H s b i a \<and>
        q = proposal_id H (ordered_proposals H b ! i))"
proof (induction n)
  case 0
  then show ?case by (simp add: memory_at_0 initial_memory_def)
next
  case (Suc n)
  then show ?case
    by (auto simp: memory_at_Suc settle_replay_memory admitted_at_def decisions_nth [symmetric] less_Suc_eq)
qed

lemma settle_replay_status:
  assumes "occurrence_key p = None" and "dec_action_id (fst (settle H s tick p v m)) = Some a"
  shows "dec_status (fst (settle H s tick p v m)) = Admitted \<Longrightarrow> a \<notin> fst ` set (replay_safe_actions m)"
  using assms
  by (auto simp: settle_def settle_replay_safe_def Let_def reject_def rejection_of_def map_of_eq_None_iff
      acceptance_of_def split: verdict.splits option.splits)

lemma settle_deduplicated:
  assumes "dec_status (fst (settle H s tick p v m)) = Deduplicated"
  shows "occurrence_key p = None \<and> (\<exists>a q. dec_action_id (fst (settle H s tick p v m)) = Some a \<and>
    dec_equivalent (fst (settle H s tick p v m)) = Some q \<and> (a, q) \<in> set (replay_safe_actions m))"
  using assms
  by (auto simp: settle_def settle_replay_safe_def settle_occurrence_def Let_def reject_def rejection_of_def
      acceptance_of_def dest: map_of_SomeD split: verdict.splits option.splits if_splits)

lemma deduplicated_earlier:
  assumes "n < length (proposals b)" and "dec_status (decisions_of H s b ! n) = Deduplicated"
  shows "occurrence_key (ordered_proposals H b ! n) = None \<and>
    (\<exists>i < n. dec_status (decisions_of H s b ! i) = Admitted \<and>
       dec_action_id (decisions_of H s b ! i) = dec_action_id (decisions_of H s b ! n) \<and>
       dec_equivalent (decisions_of H s b ! n) = Some (dec_proposal_id (decisions_of H s b ! i)))"
proof -
  note nth = decisions_nth [OF assms(1), of H s]
  from settle_deduplicated [OF assms(2) [unfolded nth]] obtain a q where
    q: "occurrence_key (ordered_proposals H b ! n) = None" "dec_action_id (decisions_of H s b ! n) = Some a"
    "dec_equivalent (decisions_of H s b ! n) = Some q" "(a, q) \<in> set (replay_safe_actions (memory_at H s b n))"
    unfolding nth by blast
  with replay_memory_at [OF less_imp_le [OF assms(1)]] obtain i where
    "i < n" "admitted_at H s b i a" "q = proposal_id H (ordered_proposals H b ! i)" by blast
  with q assms(1) show ?thesis by (auto simp: admitted_at_def decisions_id intro!: exI [of _ i])
qed

text \<open>C6 [deduplication_exact]. Among the replay-safe proposals of a batch each action is admitted at most
  once, and a deduplicated proposal names an earlier proposal of the batch that was admitted for the
  very same action.\<close>

theorem deduplication_exact:
  assumes "digest_ok H" and "ostate_ok H s" and "batch_ok b" and "admit_batch H s b = Inr t"
    and "n < length (rc_decisions (receipt t))"
  shows "(dec_status (rc_decisions (receipt t) ! n) = Deduplicated \<longrightarrow>
       occurrence_key (ordered_proposals H b ! n) = None \<and>
       (\<exists>i < n. dec_status (rc_decisions (receipt t) ! i) = Admitted \<and>
          dec_action_id (rc_decisions (receipt t) ! i) = dec_action_id (rc_decisions (receipt t) ! n) \<and>
          dec_equivalent (rc_decisions (receipt t) ! n) = Some (dec_proposal_id (rc_decisions (receipt t) ! i)))) \<and>
    (dec_status (rc_decisions (receipt t) ! n) = Admitted \<longrightarrow>
       (\<forall>i < n. dec_status (rc_decisions (receipt t) ! i) = Admitted \<and>
          occurrence_key (ordered_proposals H b ! i) = None \<and> occurrence_key (ordered_proposals H b ! n) = None \<longrightarrow>
          dec_action_id (rc_decisions (receipt t) ! i) \<noteq> dec_action_id (rc_decisions (receipt t) ! n)))"
proof -
  note d = transition_decisions [OF assms]
  let ?p = "ordered_proposals H b ! n" and ?d = "decisions_of H s b"
  have nth: "?d ! n = fst (settle H s (os_tick s + int n + 1) ?p (verdict_on H s (ordering b) ?p) (memory_at H s b n))"
    by (rule decisions_nth [OF d(2)])
  note mem = replay_memory_at [OF less_imp_le [OF d(2)], of _ _ H s]
  have "occurrence_key ?p = None \<and> (\<exists>i < n. dec_status (?d ! i) = Admitted \<and>
      dec_action_id (?d ! i) = dec_action_id (?d ! n) \<and> dec_equivalent (?d ! n) = Some (dec_proposal_id (?d ! i)))"
    if "dec_status (?d ! n) = Deduplicated"
    using deduplicated_earlier [OF d(2) that] .
  moreover have "dec_action_id (?d ! i) \<noteq> dec_action_id (?d ! n)"
    if "dec_status (?d ! n) = Admitted" "i < n" "dec_status (?d ! i) = Admitted"
      "occurrence_key (ordered_proposals H b ! i) = None" "occurrence_key ?p = None" for i
  proof
    assume same: "dec_action_id (?d ! i) = dec_action_id (?d ! n)"
    have "dec_status (?d ! n) \<noteq> Rejected" using that(1) by simp
    then obtain a where a: "dec_action_id (?d ! n) = Some a" using settle_accepted unfolding nth by blast
    then have "(a, proposal_id H (ordered_proposals H b ! i)) \<in> set (replay_safe_actions (memory_at H s b n))"
      using that same mem by (auto simp: admitted_at_def)
    moreover have "a \<notin> fst ` set (replay_safe_actions (memory_at H s b n))"
      using settle_replay_status [OF that(5) a [unfolded nth]] that(1) unfolding nth by blast
    ultimately show False by force
  qed
  ultimately show ?thesis unfolding d(1) by blast
qed

theorem deduplication_exact_witness:
  "\<exists>i < 3. dec_equivalent (decisions_of length_digest example_ostate example_batch ! 3) =
     Some (dec_proposal_id (decisions_of length_digest example_ostate example_batch ! i))"
  using deduplication_exact [OF length_digest_ok example_ostate_ok example_batch_ok example_admit(1), of 3]
    example_status_nth(4,5)
  by (auto simp: example_receipt)

section \<open>Ownership of occurrences over a run\<close>

text \<open>One accepted call of \<open>admit_batch\<close>, seen from the state.\<close>

definition admit_step :: "digest \<Rightarrow> orchestration_state \<Rightarrow> orchestration_state \<Rightarrow> bool" where
  "admit_step H s s' \<longleftrightarrow> (\<exists>b t. batch_ok b \<and> admit_batch H s b = Inr t \<and> s' = next_state t)"

lemma set_owners_after: "set (os_owners s) \<subseteq> set (owners_after H s b)"
proof -
  have "set (owner_table (initial_memory s)) \<subseteq> set (owner_table (memory_at H s b (length (proposals b))))"
    using owner_table_mono [of 0] by (simp add: memory_at_0)
  then show ?thesis by (force simp: owners_after_memory initial_memory_def)
qed

lemma admit_owners:
  assumes "digest_ok H" and "ostate_ok H s" and "batch_ok b" and "admit_batch H s b = Inr t"
  shows "set (os_owners s) \<subseteq> set (os_owners (next_state t))"
proof -
  have "t = transition H s b" using assms admit_batch_Inr by blast
  then show ?thesis
    using set_owners_after [of s H b]
    by (simp add: transition_def processed_def refused_def Let_def advanced_def split: option.split)
qed

interpretation owners: append_only_ledger "\<lambda>s. digest_ok H \<and> ostate_ok H s" "admit_step H" os_owners own_key for H
proof
  fix s s' assume ok: "digest_ok H \<and> ostate_ok H s"
  then show "distinct (map own_key (os_owners s))" by (simp add: ostate_ok_def keyed_list_def)
  assume "admit_step H s s'"
  with ok show "digest_ok H \<and> ostate_ok H s'" "set (os_owners s) \<subseteq> set (os_owners s')"
    using admit_batch_valid admit_owners unfolding admit_step_def by blast+
qed

text \<open>Where an admitted occurrence is recorded, and when one is refused.\<close>

lemma settle_occurrence_owner:
  assumes "occurrence_key p = Some k" and "dec_status (fst (settle H s tick p v m)) = Admitted"
  shows "k \<notin> fst ` set (owner_table m) \<and>
    (\<exists>w. (k, w) \<in> set (owner_table (snd (settle H s tick p v m))) \<and> own_key w = k \<and>
       own_proposal_id w = proposal_id H p \<and> Some (own_action_id w) = dec_action_id (fst (settle H s tick p v m)))"
  using assms
  by (auto simp: settle_def settle_replay_safe_def settle_occurrence_def Let_def reject_def rejection_of_def
      acceptance_of_def split: verdict.splits option.splits if_splits)

lemma settle_owned_rejected:
  assumes "occurrence_key p = Some k" and "k \<in> fst ` set (owner_table m)"
  shows "dec_status (fst (settle H s tick p v m)) = Rejected"
  using assms
  by (auto simp: settle_def settle_occurrence_def Let_def reject_def rejection_of_def split: verdict.split)

lemma owned_key_at:
  assumes "n \<le> length (proposals b)"
  shows "own_key ` set (os_owners s) \<subseteq> fst ` set (owner_table (memory_at H s b n))"
  using owner_table_mono [of 0 n b H s] assms by (force simp: memory_at_0 initial_memory_def)

lemma owned_occurrence_rejected:
  assumes "digest_ok H" and "ostate_ok H s" and "batch_ok b" and "admit_batch H s b = Inr t"
    and "n < length (rc_decisions (receipt t))"
    and "occurrence_key (ordered_proposals H b ! n) = Some k" and "k \<in> own_key ` set (os_owners s)"
  shows "dec_status (rc_decisions (receipt t) ! n) = Rejected"
proof -
  note d = transition_decisions [OF assms(1-5)]
  have "k \<in> fst ` set (owner_table (memory_at H s b n))"
    using owned_key_at [OF less_imp_le [OF d(2)]] assms(7) by blast
  then show ?thesis unfolding d(1) decisions_nth [OF d(2)] by (rule settle_owned_rejected [OF assms(6)])
qed

lemma admitted_occurrence_owner:
  assumes "digest_ok H" and "ostate_ok H s" and "batch_ok b" and "admit_batch H s b = Inr t"
    and "n < length (rc_decisions (receipt t))"
    and "occurrence_key (ordered_proposals H b ! n) = Some k"
    and "dec_status (rc_decisions (receipt t) ! n) = Admitted"
  shows "\<exists>w \<in> set (os_owners (next_state t)). own_key w = k \<and>
    own_proposal_id w = dec_proposal_id (rc_decisions (receipt t) ! n) \<and>
    Some (own_action_id w) = dec_action_id (rc_decisions (receipt t) ! n)"
proof -
  note d = transition_decisions [OF assms(1-5)]
  let ?p = "ordered_proposals H b ! n"
  have nth: "rc_decisions (receipt t) ! n =
      fst (settle H s (os_tick s + int n + 1) ?p (verdict_on H s (ordering b) ?p) (memory_at H s b n))"
    unfolding d(1) by (rule decisions_nth [OF d(2)])
  from settle_occurrence_owner [OF assms(6) assms(7) [unfolded nth]] obtain w where
    w: "(k, w) \<in> set (owner_table (memory_at H s b (Suc n)))" "own_key w = k" "own_proposal_id w = proposal_id H ?p"
      "Some (own_action_id w) = dec_action_id (rc_decisions (receipt t) ! n)"
    unfolding memory_at_Suc [OF d(2)] nth by blast
  have "(k, w) \<in> set (owner_table (memory_at H s b (length (proposals b))))"
    using w(1) owner_table_mono [of "Suc n" "length (proposals b)" b H s] d(2) by auto
  then have "w \<in> set (owners_after H s b)" by (force simp: owners_after_memory)
  then have "w \<in> set (os_owners (next_state t))"
    unfolding d(3) by (simp add: processed_def Let_def advanced_def)
  with w show ?thesis unfolding nth by (auto simp: settle_fields)
qed

lemma batch_keys_once:
  assumes "digest_ok H" and "ostate_ok H s" and "batch_ok b" and "admit_batch H s b = Inr t"
    and "n < length (rc_decisions (receipt t))" and "i < n"
    and "occurrence_key (ordered_proposals H b ! i) = Some k" and "occurrence_key (ordered_proposals H b ! n) = Some k"
    and "dec_status (rc_decisions (receipt t) ! i) = Admitted"
  shows "dec_status (rc_decisions (receipt t) ! n) = Rejected"
proof -
  note d = transition_decisions [OF assms(1-5)]
  have i: "i < length (proposals b)" using assms(6) d(2) by simp
  from settle_occurrence_owner [OF assms(7) assms(9) [unfolded d(1) decisions_nth [OF i]]]
  have "k \<in> fst ` set (owner_table (memory_at H s b (Suc i)))"
    unfolding memory_at_Suc [OF i] by force
  then have "k \<in> fst ` set (owner_table (memory_at H s b n))"
    using owner_table_mono [of "Suc i" n b H s] assms(6) d(2) by auto
  then show ?thesis unfolding d(1) decisions_nth [OF d(2)] by (rule settle_owned_rejected [OF assms(8)])
qed

text \<open>C3 [occurrence_admitted_once]. Once a proposal was admitted under an occurrence key, its ownership
  record stays in every later state, and every other proposal under that key is rejected: later in
  the same batch and in every batch of any run of admissions that follows.\<close>

theorem occurrence_admitted_once:
  assumes "digest_ok H" and "ostate_ok H s" and "batch_ok b" and "admit_batch H s b = Inr t"
    and "n < length (rc_decisions (receipt t))"
    and "occurrence_key (ordered_proposals H b ! n) = Some k"
    and "dec_status (rc_decisions (receipt t) ! n) = Admitted"
    and "(admit_step H)\<^sup>*\<^sup>* (next_state t) s'" and "batch_ok b'" and "admit_batch H s' b' = Inr t'"
  shows "(\<exists>w \<in> set (os_owners s'). own_key w = k \<and>
       own_proposal_id w = dec_proposal_id (rc_decisions (receipt t) ! n) \<and>
       Some (own_action_id w) = dec_action_id (rc_decisions (receipt t) ! n)) \<and>
    (\<forall>i < length (rc_decisions (receipt t')). occurrence_key (ordered_proposals H b' ! i) = Some k \<longrightarrow>
       dec_status (rc_decisions (receipt t') ! i) = Rejected) \<and>
    (\<forall>i < length (rc_decisions (receipt t)). occurrence_key (ordered_proposals H b ! i) = Some k \<longrightarrow> i \<noteq> n \<longrightarrow>
       dec_status (rc_decisions (receipt t) ! i) = Rejected)"
proof (intro conjI allI impI)
  have ok: "digest_ok H \<and> ostate_ok H (next_state t)" using assms(1-4) admit_batch_valid by blast
  have ok': "ostate_ok H s'" using owners.run_valid [OF assms(8) ok] by blast
  show owner: "\<exists>w \<in> set (os_owners s'). own_key w = k \<and>
       own_proposal_id w = dec_proposal_id (rc_decisions (receipt t) ! n) \<and>
       Some (own_action_id w) = dec_action_id (rc_decisions (receipt t) ! n)"
    using admitted_occurrence_owner [OF assms(1-7)] owners.run_keeps [OF assms(8) ok] by blast
  show "dec_status (rc_decisions (receipt t') ! i) = Rejected"
    if "i < length (rc_decisions (receipt t'))" "occurrence_key (ordered_proposals H b' ! i) = Some k" for i
    using owner by (intro owned_occurrence_rejected [OF assms(1) ok' assms(9,10) that]) auto
  show "dec_status (rc_decisions (receipt t) ! i) = Rejected"
    if i: "i < length (rc_decisions (receipt t))" "occurrence_key (ordered_proposals H b ! i) = Some k" "i \<noteq> n" for i
  proof (cases "i < n")
    case True
    show ?thesis
    proof (rule ccontr)
      assume "dec_status (rc_decisions (receipt t) ! i) \<noteq> Rejected"
      moreover have "dec_status (rc_decisions (receipt t) ! i) \<noteq> Deduplicated"
        using settle_deduplicated i(2) transition_decisions(1,2) [OF assms(1-4) i(1)]
        by (metis decisions_nth option.distinct(1))
      ultimately have "dec_status (rc_decisions (receipt t) ! i) = Admitted" by (metis decision_status.exhaust)
      from batch_keys_once [OF assms(1-5) True i(2) assms(6) this] assms(7) show False by simp
    qed
  next
    case False
    then show ?thesis using batch_keys_once [OF assms(1-4) i(1) _ assms(6) i(2) assms(7)] i(3) by simp
  qed
qed

lemma example_next_ok: "ostate_ok length_digest (next_state (transition length_digest example_ostate example_batch))"
  by (rule example_admit(2))

lemma example_next_admit:
  "\<exists>t. admit_batch length_digest (next_state (transition length_digest example_ostate example_batch)) example_batch = Inr t"
proof -
  let ?s = "next_state (transition length_digest example_ostate example_batch)"
  have "os_tick ?s = 4"
    using example_not_refused example_status_nth(5)
    by (simp add: transition_def processed_def Let_def advanced_def) (simp add: example_ostate_def)
  moreover have "consumed length_digest ?s example_batch \<le> 4"
    by (simp add: consumed_def example_batch_def)
  ultimately have "os_tick ?s + consumed length_digest ?s example_batch < 2 ^ 256" by simp
  from admit_batch_eq(1) [OF length_digest_ok example_next_ok example_batch_ok this] show ?thesis by blast
qed

theorem occurrence_admitted_once_witness:
  "\<exists>w \<in> set (os_owners (next_state (transition length_digest example_ostate example_batch))). own_key w = lit ''b''"
proof -
  from example_next_admit obtain t' where
    "admit_batch length_digest (next_state (transition length_digest example_ostate example_batch)) example_batch = Inr t'" ..
  moreover have "occurrence_key (ordered_proposals length_digest example_batch ! 0) = Some (lit ''b'')"
    by (simp add: example_batch_def ordered_proposals_def example_proposal_def)
  ultimately show ?thesis
    using occurrence_admitted_once [OF length_digest_ok example_ostate_ok example_batch_ok example_admit(1), of 0
      "lit ''b''", OF _ _ _ rtranclp.rtrancl_refl example_batch_ok] example_status_nth(1,5)
    by (auto simp: example_receipt)
qed

section \<open>Order of listing\<close>

lemma admit_batch_cong:
  assumes "ordered_proposals H b' = ordered_proposals H b" and "length (proposals b') = length (proposals b)"
    and "batch_key b' = batch_key b" and "batch_strategy b' = batch_strategy b" and "ordering b' = ordering b"
  shows "admit_batch H s b' = admit_batch H s b"
proof -
  have id: "batch_id H b' = batch_id H b" using assms by (simp add: batch_id_def batch_record_def)
  then have ev: "decision_event H b' = decision_event H b" using assms(4) by (simp add: decision_event_def fun_eq_iff)
  have "rejected_batch_transition H s b' reason rs = rejected_batch_transition H s b reason rs" for reason rs
    by (simp only: rejected_batch_transition_def id assms)
  moreover have "process_batch H s b' = process_batch H s b"
    by (simp only: process_batch_def id ev assms)
  ultimately show ?thesis by (simp only: admit_batch_def assms)
qed

text \<open>C7 [listing_order_irrelevant]. The order in which an independent batch lists its proposals has no
  influence on the transition: receipt, identities and next state are the same, errors included, as
  long as distinct proposals have distinct identities.\<close>

theorem listing_order_irrelevant:
  assumes "ordering b = CanonicalIndependent" and "mset ps = mset (proposals b)"
    and "inj_on (proposal_id H) (set (proposals b))"
  shows "admit_batch H s (b \<lparr> proposals := ps \<rparr>) = admit_batch H s b"
  using ordered_proposals_permute [OF assms] mset_eq_length [OF assms(2)]
  by (intro admit_batch_cong) simp_all

lemma example_ids_differ:
  "proposal_id length_digest (example_proposal ''a'' cap occ) \<noteq>
   proposal_id length_digest (example_proposal ''abc'' cap occ)"
proof -
  define k where "k = jbytes (proposal_record (example_proposal [] cap occ))"
  have q: "length (utf8_bytes (quote (lit ''a''))) = 3" "length (utf8_bytes (quote (lit ''abc''))) = 5"
    "length (utf8_bytes (quote (lit []))) = 2"
    by (simp_all add: quote_def escape_char_def utf8_char_def utf8_width_def lit_def)
  have "jbytes (proposal_record (example_proposal ''a'' cap occ)) = k + 1"
    "jbytes (proposal_record (example_proposal ''abc'' cap occ)) = k + 3"
    using q by (simp_all add: k_def proposal_record_def proposal_members_def jbytes_JObj example_proposal_def
        jbytes_leaves)
  then show ?thesis unfolding proposal_id_def by (intro length_ids_differ [where d = 2]) simp_all
qed

theorem listing_order_irrelevant_witness:
  "admit_batch length_digest example_ostate
     (example_batch \<lparr> ordering := CanonicalIndependent,
        proposals := [example_proposal ''abc'' ''read'' None, example_proposal ''a'' ''read'' None] \<rparr>) =
   admit_batch length_digest example_ostate
     (example_batch \<lparr> ordering := CanonicalIndependent,
        proposals := [example_proposal ''a'' ''read'' None, example_proposal ''abc'' ''read'' None] \<rparr>)"
proof -
  have "proposal_id length_digest (example_proposal ''a'' ''read'' None) \<noteq>
      proposal_id length_digest (example_proposal ''abc'' ''read'' None)"
    by (rule example_ids_differ)
  then show ?thesis
    using listing_order_irrelevant [of "example_batch \<lparr> ordering := CanonicalIndependent,
        proposals := [example_proposal ''a'' ''read'' None, example_proposal ''abc'' ''read'' None] \<rparr>"
        "[example_proposal ''abc'' ''read'' None, example_proposal ''a'' ''read'' None]" length_digest example_ostate]
    by (auto simp: add.commute)
qed

end
