(* ===== verification/Budget.thy ===== *)
theory Budget
  imports Records "HOL-Library.Word"
begin

text \<open>
  Continuation budgets of \<open>src/ibae/continuation.py\<close>: vectors of unsigned 64-bit resources with
  checked arithmetic, the continuation policy that precommits a finite lease schedule, and the
  experimental policy presets. Python integers are unbounded, so the 64-bit range is a check of
  the code (\<open>_u64\<close>) and the fields are integers here too; the properties relate the checked
  arithmetic to 64-bit words.
\<close>

section \<open>Unsigned 64-bit integers\<close>

definition max_u64 :: int where "max_u64 = 2 ^ 64 - 1"

definition require_u64 :: "int \<Rightarrow> int res" where
  "require_u64 n =
     rbind (guard (0 \<le> n \<and> n \<le> max_u64) (ValueErr ''must be an exact unsigned 64-bit integer'')) (\<lambda>_. Inr n)"

definition require_u64_json :: "json \<Rightarrow> int res" where
  "require_u64_json j =
     (case j of JInt n \<Rightarrow> require_u64 n | _ \<Rightarrow> Inl (ValueErr ''must be an exact unsigned 64-bit integer''))"

section \<open>Budget vectors\<close>

record budget_vector =
  request_delta :: int
  execution_delta :: int
  retry_delta :: int
  mutation_delta :: int
  history_delta :: int

text \<open>The fields in the order of the canonical record, by name.\<close>

definition budget_items :: "budget_vector \<Rightarrow> (pystr \<times> int) list" where
  "budget_items b =
     [(lit ''execution_delta'', execution_delta b), (lit ''history_delta'', history_delta b),
      (lit ''mutation_delta'', mutation_delta b), (lit ''request_delta'', request_delta b),
      (lit ''retry_delta'', retry_delta b)]"

definition budget_values :: "budget_vector \<Rightarrow> int list" where
  "budget_values b = map snd (budget_items b)"

text \<open>\<open>BudgetVector(**values)\<close> for the values of the five fields in that order.\<close>

definition budget_of :: "int list \<Rightarrow> budget_vector" where
  "budget_of vs =
     \<lparr> request_delta = vs ! 3, execution_delta = vs ! 0, retry_delta = vs ! 4,
       mutation_delta = vs ! 2, history_delta = vs ! 1 \<rparr>"

definition budget_init :: "budget_vector \<Rightarrow> budget_vector res" where
  "budget_init b = rbind (for_each require_u64 (budget_values b)) (\<lambda>_. Inr b)"

definition budget_zero :: budget_vector where
  "budget_zero = \<lparr> request_delta = 0, execution_delta = 0, retry_delta = 0, mutation_delta = 0, history_delta = 0 \<rparr>"

definition budget_record :: "budget_vector \<Rightarrow> json" where
  "budget_record b = JObj (map (\<lambda>(k, v). (k, JInt v)) (budget_items b))"

definition budget_from_record :: "json \<Rightarrow> budget_vector res" where
  "budget_from_record j =
     (case j of
        JObj kvs \<Rightarrow>
          rbind (guard (set (map fst kvs) = set (map fst (budget_items budget_zero)))
                  (ValueErr ''budget vector does not match the v1 schema''))
            (\<lambda>_. rbind (map_res (\<lambda>k. case map_of kvs k of Some v \<Rightarrow> require_u64_json v
                                       | None \<Rightarrow> Inl (KeyErr ''budget field'')) (map fst (budget_items budget_zero)))
            (\<lambda>vs. budget_init (budget_of vs)))
      | _ \<Rightarrow> Inl (ValueErr ''budget vector does not match the v1 schema''))"

definition budget_is_zero :: "budget_vector \<Rightarrow> bool" where
  "budget_is_zero b \<longleftrightarrow> list_all (\<lambda>v. v = 0) (budget_values b)"

definition budget_add :: "budget_vector \<Rightarrow> budget_vector \<Rightarrow> budget_vector res" where
  "budget_add a b =
     rbind (map_res (\<lambda>(l, r). rbind (guard (l + r \<le> max_u64) (OtherErr ''OverflowError: overflow''))
                                (\<lambda>_. Inr (l + r)))
              (zip (budget_values a) (budget_values b)))
       (\<lambda>vs. budget_init (budget_of vs))"

definition budget_subtract :: "budget_vector \<Rightarrow> budget_vector \<Rightarrow> budget_vector res" where
  "budget_subtract a b =
     rbind (map_res (\<lambda>(l, r). rbind (guard (r \<le> l) (OtherErr ''OverflowError: underflow''))
                                (\<lambda>_. Inr (l - r)))
              (zip (budget_values a) (budget_values b)))
       (\<lambda>vs. budget_init (budget_of vs))"

definition budget_within :: "budget_vector \<Rightarrow> budget_vector \<Rightarrow> bool" where
  "budget_within a ceiling \<longleftrightarrow> list_all (\<lambda>(v, c). v \<le> c) (zip (budget_values a) (budget_values ceiling))"

section \<open>Continuation policies\<close>

datatype progress_classification = MeasurableProgress | NoProgress | Regression | NewInformation | Incomparable

fun classification_value :: "progress_classification \<Rightarrow> pystr" where
  "classification_value MeasurableProgress = lit ''measurable_progress''"
| "classification_value NoProgress = lit ''no_progress''"
| "classification_value Regression = lit ''regression''"
| "classification_value NewInformation = lit ''new_information''"
| "classification_value Incomparable = lit ''incomparable''"

definition max_leases_limit :: int where "max_leases_limit = 64"
definition max_lease_requests_limit :: int where "max_lease_requests_limit = 128"
definition min_cycle_history :: int where "min_cycle_history = 6"
definition classification_count :: int where "classification_count = 5"
definition max_runtime_requests :: int where "max_runtime_requests = 1000000"
definition max_runtime_executions :: int where "max_runtime_executions = 4096"
definition max_runtime_retries :: int where "max_runtime_retries = 1000000"
definition max_runtime_history :: int where "max_runtime_history = 4096"

definition continuation_protocol_version :: pystr where
  "continuation_protocol_version = lit ''IBAE-CONTINUATION-LEASE-V1''"

record continuation_policy =
  cp_policy_key :: pystr
  cp_policy_version :: int
  cp_task_profile :: pystr
  cp_task_profile_version :: int
  cp_initial_budget :: budget_vector
  cp_lease_schedule :: "budget_vector list"
  cp_total_ceiling :: budget_vector
  cp_max_lease_requests :: int
  cp_progress_contract_id :: pystr
  cp_admitted_progress :: "progress_classification list"
  cp_max_strategy_recoveries :: int

fun accumulate_schedule :: "budget_vector \<Rightarrow> budget_vector list \<Rightarrow> budget_vector res" where
  "accumulate_schedule cumulative [] = Inr cumulative"
| "accumulate_schedule cumulative (item # items) =
     rbind (guard (mutation_delta item = 0) (ValueErr ''v0.5 lease schedules cannot extend mutations''))
       (\<lambda>_. rbind (budget_add cumulative item) (\<lambda>c. accumulate_schedule c items))"

definition runtime_hard_limits :: "int list" where
  "runtime_hard_limits =
     [max_runtime_executions, max_runtime_history, 0, max_runtime_requests, max_runtime_retries]"

definition validate_runtime_hard_limits :: "continuation_policy \<Rightarrow> unit res" where
  "validate_runtime_hard_limits p =
     rbind (for_each (\<lambda>(v, m). guard (v \<le> m) (ValueErr ''exceeds runtime hard limit''))
              (zip (budget_values (cp_total_ceiling p)) runtime_hard_limits))
       (\<lambda>_. rbind (for_each (\<lambda>v. guard (v \<noteq> 0) (ValueErr ''initial budget must be positive''))
                [request_delta (cp_initial_budget p), execution_delta (cp_initial_budget p),
                 retry_delta (cp_initial_budget p), history_delta (cp_initial_budget p)])
       (\<lambda>_. guard (min_cycle_history \<le> history_delta (cp_initial_budget p))
              (ValueErr ''initial history must retain the six-transition cycle window'')))"

definition validate_admitted_progress :: "continuation_policy \<Rightarrow> unit res" where
  "validate_admitted_progress p =
     guard (cp_admitted_progress p = [MeasurableProgress])
       (ValueErr ''admitted_progress must remain the exact measurable-progress tuple'')"

definition check_lease_requests :: "continuation_policy \<Rightarrow> budget_vector list \<Rightarrow> unit res" where
  "check_lease_requests p leases =
     rbind (require_u64 (cp_max_lease_requests p))
       (\<lambda>_. rbind (guard (cp_max_lease_requests p \<noteq> 0 \<and> cp_max_lease_requests p \<le> max_lease_requests_limit)
                 (ValueErr ''max_lease_requests is outside the v1 hard bound''))
       (\<lambda>_. rbind (guard (int (length leases) < cp_max_lease_requests p)
                 (ValueErr ''max_lease_requests must reserve one terminal decision beyond leases''))
       (\<lambda>_. rbind (require_fingerprint (cp_progress_contract_id p))
       (\<lambda>_. rbind (require_u64 (cp_max_strategy_recoveries p))
       (\<lambda>_. guard (cp_max_strategy_recoveries p \<le> int (length leases))
                 (ValueErr ''strategy recoveries cannot exceed scheduled leases''))))))"

definition admitted_classifications :: "continuation_policy \<Rightarrow> progress_classification list res" where
  "admitted_classifications p =
     rbind (materialize classification_count (cp_admitted_progress p))
       (\<lambda>supplied. rbind (guard (supplied \<noteq> []) (ValueErr ''at least one progress classification must be admitted''))
       (\<lambda>_. let admitted = sort_key classification_value (remdups supplied) in
          rbind (guard (admitted = [MeasurableProgress])
                  (ValueErr ''only measurable_progress may independently justify continuation''))
       (\<lambda>_. Inr admitted)))"

definition continuation_policy_init :: "continuation_policy \<Rightarrow> continuation_policy res" where
  "continuation_policy_init p =
     rbind (require_symbol (cp_policy_key p))
       (\<lambda>_. rbind (require_positive_int (cp_policy_version p))
       (\<lambda>_. rbind (require_symbol (cp_task_profile p))
       (\<lambda>_. rbind (require_positive_int (cp_task_profile_version p))
       (\<lambda>_. rbind (materialize max_leases_limit (cp_lease_schedule p))
       (\<lambda>leases. rbind (guard (\<not> list_ex budget_is_zero leases)
                 (ValueErr ''each scheduled continuation lease must be non-empty''))
       (\<lambda>_. rbind (check_lease_requests p leases)
       (\<lambda>_. rbind (admitted_classifications p)
       (\<lambda>admitted. let p' = p \<lparr> cp_lease_schedule := leases, cp_admitted_progress := admitted \<rparr> in
          rbind (validate_admitted_progress p')
       (\<lambda>_. rbind (guard (mutation_delta (cp_initial_budget p) = 0)
                 (ValueErr ''v0.5 does not support mutation budget''))
       (\<lambda>_. rbind (accumulate_schedule (cp_initial_budget p) leases)
       (\<lambda>cumulative. rbind (guard (cumulative = cp_total_ceiling p)
                 (ValueErr ''total_ceiling must exactly equal base budget plus the full schedule''))
       (\<lambda>_. rbind (validate_runtime_hard_limits p') (\<lambda>_. Inr p')))))))))))))"

definition max_leases :: "continuation_policy \<Rightarrow> int" where
  "max_leases p = int (length (cp_lease_schedule p))"

definition continuation_capacity :: "continuation_policy \<Rightarrow> budget_vector res" where
  "continuation_capacity p = budget_subtract (cp_total_ceiling p) (cp_initial_budget p)"

definition continuation_policy_record :: "continuation_policy \<Rightarrow> json res" where
  "continuation_policy_record p =
     rbind (validate_admitted_progress p)
       (\<lambda>_. Inr (JObj
          [(lit ''admitted_progress'', JArr (map (\<lambda>c. JStr (classification_value c)) (cp_admitted_progress p))),
           (lit ''authority_layer'', JStr (lit ''governance'')),
           (lit ''initial_budget'', budget_record (cp_initial_budget p)),
           (lit ''lease_schedule'', JArr (map budget_record (cp_lease_schedule p))),
           (lit ''max_lease_requests'', JInt (cp_max_lease_requests p)),
           (lit ''max_leases'', JInt (max_leases p)),
           (lit ''max_strategy_recoveries'', JInt (cp_max_strategy_recoveries p)),
           (lit ''policy_key'', JStr (cp_policy_key p)),
           (lit ''policy_version'', JInt (cp_policy_version p)),
           (lit ''progress_contract_id'', JStr (cp_progress_contract_id p)),
           (lit ''protocol_version'', JStr continuation_protocol_version),
           (lit ''task_profile'', JStr (cp_task_profile p)),
           (lit ''task_profile_version'', JInt (cp_task_profile_version p)),
           (lit ''total_ceiling'', budget_record (cp_total_ceiling p))]))"

definition continuation_policy_id :: "digest \<Rightarrow> continuation_policy \<Rightarrow> pystr res" where
  "continuation_policy_id H p =
     rbind (continuation_policy_record p) (\<lambda>j. Inr (domain_id H ''ibae.continuation-policy-id.v1'' j))"

section \<open>Checked arithmetic\<close>

definition budget_ok :: "budget_vector \<Rightarrow> bool" where
  "budget_ok b \<longleftrightarrow> list_all (\<lambda>v. 0 \<le> v \<and> v \<le> max_u64) (budget_values b)"

definition budget_plus :: "budget_vector \<Rightarrow> budget_vector \<Rightarrow> budget_vector" where
  "budget_plus a b =
     \<lparr> request_delta = request_delta a + request_delta b, execution_delta = execution_delta a + execution_delta b,
       retry_delta = retry_delta a + retry_delta b, mutation_delta = mutation_delta a + mutation_delta b,
       history_delta = history_delta a + history_delta b \<rparr>"

definition budget_minus :: "budget_vector \<Rightarrow> budget_vector \<Rightarrow> budget_vector" where
  "budget_minus a b =
     \<lparr> request_delta = request_delta a - request_delta b, execution_delta = execution_delta a - execution_delta b,
       retry_delta = retry_delta a - retry_delta b, mutation_delta = mutation_delta a - mutation_delta b,
       history_delta = history_delta a - history_delta b \<rparr>"

lemmas budget_unfold = budget_values_def budget_items_def

lemma require_u64_Inr [accept_simps]: "require_u64 n = Inr m \<longleftrightarrow> m = n \<and> 0 \<le> n \<and> n \<le> max_u64"
  by (auto simp: require_u64_def res_simps)

lemma budget_init_Inr: "budget_init b = Inr c \<longleftrightarrow> c = b \<and> budget_ok b"
  by (auto simp: budget_init_def budget_ok_def res_simps accept_simps list_all_iff)

lemma budget_within_iff:
  "budget_within a c \<longleftrightarrow> request_delta a \<le> request_delta c \<and> execution_delta a \<le> execution_delta c \<and>
     retry_delta a \<le> retry_delta c \<and> mutation_delta a \<le> mutation_delta c \<and> history_delta a \<le> history_delta c"
  by (auto simp: budget_within_def budget_unfold)

lemma budget_add_cases:
  assumes "budget_ok a" and "budget_ok b"
  shows "budget_add a b =
    (if budget_ok (budget_plus a b) then Inr (budget_plus a b) else Inl (OtherErr ''OverflowError: overflow''))"
  using assms
  by (auto simp: budget_add_def budget_ok_def budget_unfold budget_plus_def guard_def budget_of_def budget_init_def
      require_u64_def)

lemma budget_subtract_cases:
  assumes "budget_ok a" and "budget_ok b"
  shows "budget_subtract a b =
    (if budget_within b a then Inr (budget_minus a b) else Inl (OtherErr ''OverflowError: underflow''))"
  using assms
  by (auto simp: budget_subtract_def budget_ok_def budget_unfold budget_minus_def guard_def budget_of_def
      budget_init_def require_u64_def budget_within_iff)

definition budget_words :: "budget_vector \<Rightarrow> 64 word list" where
  "budget_words b = map word_of_int (budget_values b)"

lemma word_add_no_wrap:
  assumes "0 \<le> l" "l \<le> max_u64" "0 \<le> r" "r \<le> max_u64"
  shows "(word_of_int l :: 64 word) \<le> word_of_int l + word_of_int r \<longleftrightarrow> l + r \<le> max_u64"
  using assms by (auto simp: no_olen_add max_u64_def take_bit_int_eq_self unsigned_of_int)

lemma word_le_int:
  assumes "0 \<le> l" "l \<le> max_u64" "0 \<le> r" "r \<le> max_u64"
  shows "(word_of_int r :: 64 word) \<le> word_of_int l \<longleftrightarrow> r \<le> l"
  using assms by (simp add: word_le_def max_u64_def take_bit_int_eq_self unsigned_of_int)

text \<open>On budgets of unsigned 64-bit fields addition raises exactly when some
  64-bit sum wraps around and subtraction exactly when some field would go below zero; otherwise the
  result is the field-wise 64-bit sum or difference, and subtraction undoes addition.\<close>

theorem budget_arithmetic_exact:
  assumes "budget_ok a" and "budget_ok b"
  shows "(budget_add a b = Inl (OtherErr ''OverflowError: overflow'') \<longleftrightarrow>
       (\<exists>(x, y) \<in> set (zip (budget_words a) (budget_words b)). x + y < x)) \<and>
    (budget_subtract a b = Inl (OtherErr ''OverflowError: underflow'') \<longleftrightarrow>
       (\<exists>(x, y) \<in> set (zip (budget_words a) (budget_words b)). x < y)) \<and>
    (\<forall>c. budget_add a b = Inr c \<longrightarrow> budget_ok c \<and> budget_words c = map2 (+) (budget_words a) (budget_words b) \<and>
       budget_subtract c b = Inr a) \<and>
    (\<forall>c. budget_subtract a b = Inr c \<longrightarrow> budget_ok c \<and> budget_words c = map2 (-) (budget_words a) (budget_words b) \<and>
       budget_add c b = Inr a)"
proof (intro conjI allI impI)
  show "budget_add a b = Inl (OtherErr ''OverflowError: overflow'') \<longleftrightarrow>
       (\<exists>(x, y) \<in> set (zip (budget_words a) (budget_words b)). x + y < x)"
    using assms unfolding budget_add_cases [OF assms]
    by (auto simp: budget_words_def budget_unfold budget_ok_def budget_plus_def not_le [symmetric] word_add_no_wrap)
  show "budget_subtract a b = Inl (OtherErr ''OverflowError: underflow'') \<longleftrightarrow>
       (\<exists>(x, y) \<in> set (zip (budget_words a) (budget_words b)). x < y)"
    using assms unfolding budget_subtract_cases [OF assms]
    by (auto simp: budget_words_def budget_unfold budget_ok_def budget_within_iff not_le [symmetric] word_le_int)
  { fix c assume "budget_add a b = Inr c"
    then have c: "c = budget_plus a b" "budget_ok c" by (simp_all add: budget_add_cases [OF assms] split: if_splits)
    then show "budget_ok c" "budget_words c = map2 (+) (budget_words a) (budget_words b)"
      by (simp_all add: budget_words_def budget_unfold budget_plus_def)
    have "budget_within b c" "budget_minus c b = a"
      using c(1) assms(1) by (simp_all add: budget_within_iff budget_plus_def budget_minus_def budget_ok_def budget_unfold)
    then show "budget_subtract c b = Inr a" by (simp add: budget_subtract_cases [OF c(2) assms(2)]) }
  { fix c assume "budget_subtract a b = Inr c"
    then have c: "c = budget_minus a b" "budget_within b a"
      by (simp_all add: budget_subtract_cases [OF assms] split: if_splits)
    then show ok: "budget_ok c"
      using assms by (auto simp: budget_ok_def budget_unfold budget_minus_def budget_within_iff)
    show "budget_words c = map2 (-) (budget_words a) (budget_words b)"
      using c by (simp add: budget_words_def budget_unfold budget_minus_def)
    have "budget_plus c b = a" using c(1) by (simp add: budget_plus_def budget_minus_def)
    then show "budget_add c b = Inr a" using assms(1) by (simp add: budget_add_cases [OF ok assms(2)]) }
qed

theorem budget_arithmetic_exact_witness:
  "budget_add (budget_zero \<lparr> request_delta := 2 ^ 64 - 1 \<rparr>) (budget_zero \<lparr> request_delta := 1 \<rparr>) =
     Inl (OtherErr ''OverflowError: overflow'')"
proof -
  have "budget_ok (budget_zero \<lparr> request_delta := 2 ^ 64 - 1 \<rparr>)" "budget_ok (budget_zero \<lparr> request_delta := 1 \<rparr>)"
    by (simp_all add: budget_ok_def budget_unfold budget_zero_def max_u64_def)
  then show ?thesis
    by (subst conjunct1 [OF budget_arithmetic_exact])
       (simp_all add: budget_words_def budget_unfold budget_zero_def)
qed

section \<open>Lease schedules\<close>

definition budget_sum :: "budget_vector \<Rightarrow> budget_vector list \<Rightarrow> budget_vector" where
  "budget_sum b bs = foldl budget_plus b bs"

lemma accumulate_schedule_Inr:
  assumes "budget_ok b" and "list_all budget_ok bs" and "accumulate_schedule b bs = Inr c"
  shows "c = budget_sum b bs \<and> budget_ok c \<and> list_all (\<lambda>x. mutation_delta x = 0) bs"
  using assms
proof (induction bs arbitrary: b)
  case (Cons x bs)
  then obtain d where "mutation_delta x = 0" "budget_add b x = Inr d" "accumulate_schedule d bs = Inr c"
    by (auto simp: res_simps)
  moreover from this(2) have "d = budget_plus b x" "budget_ok d"
    using Cons.prems by (simp_all add: budget_add_cases split: if_splits)
  ultimately show ?case using Cons by (simp add: budget_sum_def)
qed (simp add: budget_sum_def)

lemma budget_within_refl [simp]: "budget_within b b" by (simp add: budget_within_iff)

lemma budget_within_trans: "budget_within a b \<Longrightarrow> budget_within b c \<Longrightarrow> budget_within a c"
  by (auto simp: budget_within_iff)

lemma budget_sum_grows: "list_all budget_ok bs \<Longrightarrow> budget_within b (budget_sum b bs)"
proof (induction bs arbitrary: b)
  case (Cons x bs)
  then have "budget_within b (budget_plus b x)"
    by (simp add: budget_within_iff budget_plus_def budget_ok_def budget_unfold)
  with Cons show ?case by (auto simp: budget_sum_def intro: budget_within_trans)
qed (simp add: budget_sum_def)

lemma budget_sum_append: "budget_sum b (xs @ ys) = budget_sum (budget_sum b xs) ys"
  by (simp add: budget_sum_def)

lemma budget_sum_mutation:
  "list_all (\<lambda>x. mutation_delta x = 0) bs \<Longrightarrow> mutation_delta (budget_sum b bs) = mutation_delta b"
  by (induction bs arbitrary: b) (simp_all add: budget_sum_def budget_plus_def)

definition policy_parts_ok :: "continuation_policy \<Rightarrow> bool" where
  "policy_parts_ok p \<longleftrightarrow> budget_ok (cp_initial_budget p) \<and> budget_ok (cp_total_ceiling p) \<and>
     list_all budget_ok (cp_lease_schedule p)"

definition hard_limits_ok :: "budget_vector \<Rightarrow> bool" where
  "hard_limits_ok b \<longleftrightarrow> request_delta b \<le> 1000000 \<and> execution_delta b \<le> 4096 \<and> retry_delta b \<le> 1000000 \<and>
     mutation_delta b \<le> 0 \<and> history_delta b \<le> 4096"

lemma continuation_policy_init_Inr:
  assumes "policy_parts_ok p" and "continuation_policy_init p = Inr p'"
  shows "p' = p \<lparr> cp_admitted_progress := [MeasurableProgress] \<rparr>"
    and "cp_total_ceiling p = budget_sum (cp_initial_budget p) (cp_lease_schedule p)"
    and "list_all (\<lambda>x. mutation_delta x = 0 \<and> \<not> budget_is_zero x) (cp_lease_schedule p)"
    and "mutation_delta (cp_initial_budget p) = 0" and "hard_limits_ok (cp_total_ceiling p)"
    and "length (cp_lease_schedule p) \<le> 64" and "int (length (cp_lease_schedule p)) < cp_max_lease_requests p"
    and "cp_max_lease_requests p \<le> 128"
    and "0 < request_delta (cp_initial_budget p) \<and> 0 < execution_delta (cp_initial_budget p) \<and>
      0 < retry_delta (cp_initial_budget p) \<and> 6 \<le> history_delta (cp_initial_budget p)"
proof -
  from assms(2) obtain leases admitted c where
    leases: "leases = cp_lease_schedule p" "length leases \<le> 64" "\<not> list_ex budget_is_zero leases"
    and req: "check_lease_requests p leases = Inr ()" and adm: "admitted_classifications p = Inr admitted"
    and mut: "mutation_delta (cp_initial_budget p) = 0"
    and acc: "accumulate_schedule (cp_initial_budget p) leases = Inr c" "c = cp_total_ceiling p"
    and hard: "validate_runtime_hard_limits (p \<lparr> cp_lease_schedule := leases, cp_admitted_progress := admitted \<rparr>) = Inr ()"
    and p': "p' = p \<lparr> cp_lease_schedule := leases, cp_admitted_progress := admitted \<rparr>"
    by (auto simp: continuation_policy_init_def rbind_eq_Inr guard_eq_Inr Let_def accept_simps max_leases_limit_def)
  have "admitted = [MeasurableProgress]"
    using adm by (auto simp: admitted_classifications_def rbind_eq_Inr guard_eq_Inr Let_def)
  with p' leases(1) show "p' = p \<lparr> cp_admitted_progress := [MeasurableProgress] \<rparr>" by simp
  have sum: "c = budget_sum (cp_initial_budget p) leases" "list_all (\<lambda>x. mutation_delta x = 0) leases"
    using accumulate_schedule_Inr [OF _ _ acc(1)] assms(1) leases(1) by (auto simp: policy_parts_ok_def)
  show "cp_total_ceiling p = budget_sum (cp_initial_budget p) (cp_lease_schedule p)" using sum(1) acc(2) leases(1) by simp
  show "list_all (\<lambda>x. mutation_delta x = 0 \<and> \<not> budget_is_zero x) (cp_lease_schedule p)"
    using sum(2) leases by (simp add: list_all_iff list_ex_iff)
  show "mutation_delta (cp_initial_budget p) = 0" by (rule mut)
  show "hard_limits_ok (cp_total_ceiling p)" "0 < request_delta (cp_initial_budget p) \<and> 0 < execution_delta (cp_initial_budget p) \<and>
      0 < retry_delta (cp_initial_budget p) \<and> 6 \<le> history_delta (cp_initial_budget p)"
    using hard assms(1)
    by (auto simp: validate_runtime_hard_limits_def hard_limits_ok_def res_simps budget_unfold runtime_hard_limits_def
        max_runtime_requests_def max_runtime_executions_def max_runtime_retries_def max_runtime_history_def
        min_cycle_history_def policy_parts_ok_def budget_ok_def)
  show "length (cp_lease_schedule p) \<le> 64" using leases by simp
  show "int (length (cp_lease_schedule p)) < cp_max_lease_requests p" "cp_max_lease_requests p \<le> 128"
    using req leases(1) by (auto simp: check_lease_requests_def res_simps accept_simps max_lease_requests_limit_def)
qed

lemma schedule_prefix:
  assumes "budget_ok b" and "list_all budget_ok bs" and "accumulate_schedule b bs = Inr c"
  shows "accumulate_schedule b (take n bs) = Inr (budget_sum b (take n bs))"
  using assms
proof (induction bs arbitrary: b n)
  case (Cons x bs)
  then obtain d where d: "mutation_delta x = 0" "budget_add b x = Inr d" "accumulate_schedule d bs = Inr c"
    by (auto simp: res_simps)
  then have "d = budget_plus b x" "budget_ok d"
    using Cons.prems by (simp_all add: budget_add_cases split: if_splits)
  with d Cons show ?case by (cases n) (simp_all add: budget_sum_def)
qed (simp add: budget_sum_def)

lemma accumulate_of_init:
  assumes "continuation_policy_init p = Inr p'"
  shows "accumulate_schedule (cp_initial_budget p) (cp_lease_schedule p) = Inr (cp_total_ceiling p)"
  using assms by (auto simp: continuation_policy_init_def rbind_eq_Inr guard_eq_Inr Let_def accept_simps)

lemma budget_sum_minus: "budget_minus (budget_sum b bs) b = budget_sum budget_zero bs"
proof -
  have "budget_sum b bs = budget_plus b (budget_sum budget_zero bs)"
    by (induction bs rule: rev_induct) (simp_all add: budget_sum_def budget_plus_def budget_zero_def)
  then show ?thesis by (simp add: budget_minus_def budget_plus_def)
qed

definition example_policy :: continuation_policy where
  "example_policy =
     \<lparr> cp_policy_key = lit ''a'', cp_policy_version = 1, cp_task_profile = lit ''a'', cp_task_profile_version = 1,
       cp_initial_budget = \<lparr> request_delta = 8, execution_delta = 4, retry_delta = 2, mutation_delta = 0, history_delta = 8 \<rparr>,
       cp_lease_schedule = [\<lparr> request_delta = 4, execution_delta = 2, retry_delta = 1, mutation_delta = 0, history_delta = 4 \<rparr>],
       cp_total_ceiling = \<lparr> request_delta = 12, execution_delta = 6, retry_delta = 3, mutation_delta = 0, history_delta = 12 \<rparr>,
       cp_max_lease_requests = 2, cp_progress_contract_id = replicate 64 97,
       cp_admitted_progress = [MeasurableProgress], cp_max_strategy_recoveries = 1 \<rparr>"

lemma example_policy_parts: "policy_parts_ok example_policy"
  by (simp add: policy_parts_ok_def example_policy_def budget_ok_def budget_unfold max_u64_def)

lemma example_policy_init: "continuation_policy_init example_policy = Inr example_policy"
proof -
  have "is_symbol (lit ''a'')" by (simp add: lit_def symbol_char_def in_range_def)
  moreover have "is_fingerprint (replicate 64 97)" by (simp add: is_fingerprint_def hex_char_def in_range_def list_all_iff)
  ultimately show ?thesis
    by (simp add: continuation_policy_init_def example_policy_def require_total require_positive_int_total
        materialize_ok max_leases_limit_def check_lease_requests_def require_u64_def max_u64_def
        max_lease_requests_limit_def admitted_classifications_def classification_count_def
        validate_admitted_progress_def validate_runtime_hard_limits_def runtime_hard_limits_def budget_unfold
        budget_is_zero_def budget_add_def budget_init_def budget_of_def max_runtime_requests_def
        max_runtime_executions_def max_runtime_retries_def max_runtime_history_def min_cycle_history_def Let_def)
qed

text \<open>C39 [lease_schedule_bounded]. Under an accepted policy, whatever number of the scheduled leases is added
  to the initial budget, the arithmetic does not overflow, the total stays within the ceiling and so
  within the hard limits of the runtime, mutations stay at zero, and the capacity beyond the initial
  budget is the sum of the schedule; there are at most 64 leases, fewer than the lease requests.\<close>

theorem lease_schedule_bounded:
  assumes "policy_parts_ok p" and "continuation_policy_init p = Inr p'"
  shows "(\<forall>n. \<exists>b. accumulate_schedule (cp_initial_budget p') (take n (cp_lease_schedule p')) = Inr b \<and>
       budget_within b (cp_total_ceiling p') \<and> hard_limits_ok b \<and> mutation_delta b = 0) \<and>
    continuation_capacity p' = Inr (budget_sum budget_zero (cp_lease_schedule p')) \<and>
    max_leases p' \<le> 64 \<and> max_leases p' < cp_max_lease_requests p' \<and> cp_max_lease_requests p' \<le> 128"
proof -
  note init = continuation_policy_init_Inr [OF assms]
  let ?b = "cp_initial_budget p" and ?ls = "cp_lease_schedule p" and ?c = "cp_total_ceiling p"
  have ok: "budget_ok ?b" "list_all budget_ok ?ls" "budget_ok ?c" using assms(1) by (auto simp: policy_parts_ok_def)
  have within: "budget_within (budget_sum ?b (take n ?ls)) ?c" for n
  proof -
    have "list_all budget_ok (drop n ?ls)" using ok(2) set_drop_subset [of n ?ls] by (auto simp: list_all_iff)
    then have "budget_within (budget_sum ?b (take n ?ls)) (budget_sum (budget_sum ?b (take n ?ls)) (drop n ?ls))"
      by (rule budget_sum_grows)
    then show ?thesis using init(2) by (simp add: budget_sum_append [symmetric])
  qed
  have "hard_limits_ok (budget_sum ?b (take n ?ls))" for n
    using within [of n] init(5) by (auto simp: hard_limits_ok_def budget_within_iff)
  moreover have "mutation_delta (budget_sum ?b (take n ?ls)) = 0" for n
  proof -
    have "list_all (\<lambda>x. mutation_delta x = 0) (take n ?ls)"
      using init(3) set_take_subset [of n ?ls] by (auto simp: list_all_iff)
    then show ?thesis using init(4) by (simp add: budget_sum_mutation)
  qed
  moreover have "continuation_capacity p' = Inr (budget_sum budget_zero ?ls)"
    using budget_subtract_cases [OF ok(3,1)] within [of 0] budget_sum_minus [of ?b ?ls] init(1,2)
    by (simp add: continuation_capacity_def budget_sum_def)
  ultimately show ?thesis
    using schedule_prefix [OF ok(1,2) accumulate_of_init [OF assms(2)]] within init(1,6-8)
    by (simp add: max_leases_def)
qed

theorem lease_schedule_bounded_witness:
  "continuation_capacity example_policy = Inr (budget_sum budget_zero (cp_lease_schedule example_policy))"
  using lease_schedule_bounded [OF example_policy_parts example_policy_init] by blast

lemma budget_from_record_record: "budget_ok b \<Longrightarrow> budget_from_record (budget_record b) = Inr b"
  by (simp add: budget_from_record_def budget_record_def budget_unfold budget_ok_def require_u64_json_def require_u64_def
      budget_of_def budget_init_def)

end
