(* ===== verification/Progress.thy ===== *)
theory Progress
  imports Budget Admit_Verdicts
begin

text \<open>
  Objective progress of \<open>src/ibae/continuation.py\<close>: dimensions and contracts, measures taken from
  the obligation state or from governed counters, the classification of two measurements, and the
  progress record that revalidates every claim against the states it is bound to.

  A governed counter keeps the native receipt it was read from; the check of that provenance
  (\<open>ProgressCounterEvidence._validate_source\<close>) is the parameter \<open>V\<close> of the definitions.
\<close>

section \<open>Dimensions and contracts\<close>

definition max_progress_dimensions :: int where "max_progress_dimensions = 64"
definition progress_protocol_version :: pystr where "progress_protocol_version = lit ''IBAE-OBJECTIVE-PROGRESS-V1''"

datatype progress_direction = Decrease | Increase

fun direction_value :: "progress_direction \<Rightarrow> pystr" where
  "direction_value Decrease = lit ''decrease''"
| "direction_value Increase = lit ''increase''"

datatype progress_source =
    UnsatisfiedObligationCount | BlockedObligationCount | SatisfiedObligationCount | GovernedExternalCounter

fun source_value :: "progress_source \<Rightarrow> pystr" where
  "source_value UnsatisfiedObligationCount = lit ''unsatisfied_obligation_count''"
| "source_value BlockedObligationCount = lit ''blocked_obligation_count''"
| "source_value SatisfiedObligationCount = lit ''satisfied_obligation_count''"
| "source_value GovernedExternalCounter = lit ''governed_external_counter''"

record progress_dimension =
  pd_key :: pystr
  pd_source :: progress_source
  pd_direction :: progress_direction
  pd_threshold :: "int option"

fun required_direction :: "progress_source \<Rightarrow> progress_direction option" where
  "required_direction UnsatisfiedObligationCount = Some Decrease"
| "required_direction BlockedObligationCount = Some Decrease"
| "required_direction SatisfiedObligationCount = Some Increase"
| "required_direction GovernedExternalCounter = None"

definition require_optional_u64 :: "int option \<Rightarrow> unit res" where
  "require_optional_u64 x = (case x of None \<Rightarrow> Inr () | Some n \<Rightarrow> rbind (require_u64 n) (\<lambda>_. Inr ()))"

fun default_threshold :: "progress_source \<Rightarrow> int option" where
  "default_threshold UnsatisfiedObligationCount = Some 0"
| "default_threshold BlockedObligationCount = Some 0"
| "default_threshold _ = None"

definition progress_dimension_init :: "progress_dimension \<Rightarrow> progress_dimension res" where
  "progress_dimension_init d =
     rbind (require_symbol (pd_key d))
       (\<lambda>_. rbind (guard (required_direction (pd_source d) = None \<or>
                          required_direction (pd_source d) = Some (pd_direction d))
                 (ValueErr ''canonical obligation progress source has an unsafe direction''))
       (\<lambda>_. rbind (require_optional_u64 (pd_threshold d))
       (\<lambda>_. Inr (if pd_source d \<noteq> GovernedExternalCounter \<and> pd_threshold d = None
                 then d \<lparr> pd_threshold := default_threshold (pd_source d) \<rparr> else d))))"

definition progress_dimension_validate :: "progress_dimension \<Rightarrow> unit res" where
  "progress_dimension_validate d =
     rbind (require_symbol (pd_key d)) (\<lambda>_. require_optional_u64 (pd_threshold d))"

definition progress_dimension_record :: "progress_dimension \<Rightarrow> json" where
  "progress_dimension_record d =
     JObj [(lit ''completion_threshold'', opt_int (pd_threshold d)),
           (lit ''direction'', JStr (direction_value (pd_direction d))),
           (lit ''key'', JStr (pd_key d)),
           (lit ''source'', JStr (source_value (pd_source d)))]"

record progress_contract =
  pc_key :: pystr
  pc_version :: int
  pc_dimensions :: "progress_dimension list"

definition progress_contract_validate :: "progress_contract \<Rightarrow> unit res" where
  "progress_contract_validate c =
     rbind (require_symbol (pc_key c))
       (\<lambda>_. rbind (require_positive_int (pc_version c))
       (\<lambda>_. rbind (guard (pc_dimensions c \<noteq> []) (TypeErr ''progress dimensions must remain a non-empty exact tuple''))
       (\<lambda>_. rbind (guard (int (length (pc_dimensions c)) \<le> max_progress_dimensions)
                 (ValueErr ''progress dimensions exceed the protocol bound''))
       (\<lambda>_. for_each progress_dimension_validate (pc_dimensions c)))))"

definition progress_contract_init :: "progress_contract \<Rightarrow> progress_contract res" where
  "progress_contract_init c =
     rbind (require_symbol (pc_key c))
       (\<lambda>_. rbind (require_positive_int (pc_version c))
       (\<lambda>_. rbind (materialize max_progress_dimensions (pc_dimensions c))
       (\<lambda>supplied. rbind (guard (supplied \<noteq> []) (ValueErr ''progress contract requires at least one dimension''))
       (\<lambda>_. let dims = sort_key pd_key supplied in
          rbind (guard (distinct (map pd_key dims)) (ValueErr ''progress dimension keys must be unique''))
       (\<lambda>_. let c' = c \<lparr> pc_dimensions := dims \<rparr> in
          rbind (progress_contract_validate c') (\<lambda>_. Inr c'))))))"

definition progress_contract_record :: "progress_contract \<Rightarrow> json" where
  "progress_contract_record c =
     JObj [(lit ''contract_key'', JStr (pc_key c)),
           (lit ''contract_version'', JInt (pc_version c)),
           (lit ''dimensions'', JArr (map progress_dimension_record (pc_dimensions c))),
           (lit ''protocol_version'', JStr progress_protocol_version)]"

definition contract_id :: "digest \<Rightarrow> progress_contract \<Rightarrow> pystr" where
  "contract_id H c = domain_id H ''ibae.progress-contract-id.v1'' (progress_contract_record c)"

definition default_obligation_progress_contract :: "progress_contract res" where
  "default_obligation_progress_contract =
     rbind (progress_dimension_init
              \<lparr> pd_key = lit ''blocked'', pd_source = BlockedObligationCount, pd_direction = Decrease,
                pd_threshold = None \<rparr>)
       (\<lambda>blocked. rbind (progress_dimension_init
              \<lparr> pd_key = lit ''unsatisfied'', pd_source = UnsatisfiedObligationCount, pd_direction = Decrease,
                pd_threshold = None \<rparr>)
       (\<lambda>unsatisfied. progress_contract_init
              \<lparr> pc_key = lit ''ibae.obligation-progress'', pc_version = 1,
                pc_dimensions = [blocked, unsatisfied] \<rparr>))"

section \<open>Policy presets\<close>

definition budget5 :: "int \<Rightarrow> int \<Rightarrow> int \<Rightarrow> int \<Rightarrow> int \<Rightarrow> budget_vector" where
  "budget5 a b c d e =
     \<lparr> request_delta = a, execution_delta = b, retry_delta = c, mutation_delta = d, history_delta = e \<rparr>"

fun add_all :: "budget_vector \<Rightarrow> budget_vector list \<Rightarrow> budget_vector res" where
  "add_all ceiling [] = Inr ceiling"
| "add_all ceiling (item # items) = rbind (budget_add ceiling item) (\<lambda>c. add_all c items)"

definition profile_policy ::
  "digest \<Rightarrow> pystr \<Rightarrow> budget_vector \<Rightarrow> budget_vector list \<Rightarrow> progress_contract \<Rightarrow> continuation_policy res"
where
  "profile_policy H name base leases contract =
     rbind (add_all base leases)
       (\<lambda>ceiling. continuation_policy_init
          \<lparr> cp_policy_key = lit ''experimental.'' @ name, cp_policy_version = 1,
            cp_task_profile = name, cp_task_profile_version = 1, cp_initial_budget = base,
            cp_lease_schedule = leases, cp_total_ceiling = ceiling,
            cp_max_lease_requests = max 2 (int (length leases) * 2),
            cp_progress_contract_id = contract_id H contract,
            cp_admitted_progress = [MeasurableProgress],
            cp_max_strategy_recoveries = min 1 (int (length leases)) \<rparr>)"

definition experimental_profiles :: "(string \<times> budget_vector \<times> budget_vector list) list" where
  "experimental_profiles =
     [(''tiny'', budget5 8 4 2 0 8, [budget5 4 2 1 0 4]),
      (''standard'', budget5 32 16 4 0 32, [budget5 16 8 2 0 16, budget5 8 4 1 0 8]),
      (''extended'', budget5 64 32 8 0 64,
         [budget5 32 16 4 0 32, budget5 16 8 2 0 16, budget5 8 4 1 0 8]),
      (''repository'', budget5 128 64 16 0 128,
         [budget5 64 32 8 0 64, budget5 32 16 4 0 32, budget5 16 8 2 0 16])]"

definition experimental_continuation_profile ::
  "digest \<Rightarrow> pystr \<Rightarrow> progress_contract option \<Rightarrow> continuation_policy res"
where
  "experimental_continuation_profile H name contract =
     rbind (require_symbol name)
       (\<lambda>_. rbind (case contract of None \<Rightarrow> default_obligation_progress_contract | Some c \<Rightarrow> Inr c)
       (\<lambda>active. case map_of (map (\<lambda>(n, x). (lit n, x)) experimental_profiles) name of
                   None \<Rightarrow> Inl (ValueErr ''unknown experimental continuation profile'')
                 | Some (base, leases) \<Rightarrow> profile_policy H name base leases active))"

section \<open>Measures\<close>

record counter_evidence =
  ce_task_id :: pystr
  ce_governance_id :: pystr
  ce_dimension_key :: pystr
  ce_value :: int
  ce_basis_identity :: pystr
  ce_source_receipt_id :: pystr
  ce_class :: epistemic_class

definition counter_evidence_record :: "(counter_evidence \<Rightarrow> unit res) \<Rightarrow> counter_evidence \<Rightarrow> json res" where
  "counter_evidence_record V e =
     rbind (V e)
       (\<lambda>_. Inr (JObj [(lit ''basis_identity'', JStr (ce_basis_identity e)),
                       (lit ''dimension_key'', JStr (ce_dimension_key e)),
                       (lit ''epistemic_class'', JStr (class_value (ce_class e))),
                       (lit ''governance_id'', JStr (ce_governance_id e)),
                       (lit ''source_receipt_id'', JStr (ce_source_receipt_id e)),
                       (lit ''task_id'', JStr (ce_task_id e)),
                       (lit ''value'', JInt (ce_value e))]))"

definition counter_evidence_id :: "digest \<Rightarrow> (counter_evidence \<Rightarrow> unit res) \<Rightarrow> counter_evidence \<Rightarrow> pystr res" where
  "counter_evidence_id H V e =
     rbind (counter_evidence_record V e) (\<lambda>j. Inr (domain_id H ''ibae.progress-evidence-id.v1'' j))"

record progress_measure =
  pm_key :: pystr
  pm_value :: "int option"
  pm_basis :: "pystr option"
  pm_evidence :: "pystr option"

definition progress_measure_init :: "progress_measure \<Rightarrow> progress_measure res" where
  "progress_measure_init m =
     rbind (require_symbol (pm_key m))
       (\<lambda>_. case pm_value m of
              None \<Rightarrow> rbind (guard (pm_basis m = None \<and> pm_evidence m = None)
                              (ValueErr ''unknown progress measures cannot carry evidence'')) (\<lambda>_. Inr m)
            | Some v \<Rightarrow>
                rbind (require_u64 v)
                  (\<lambda>_. case (pm_basis m, pm_evidence m) of
                         (Some b, Some e) \<Rightarrow>
                           rbind (require_fingerprint b) (\<lambda>_. rbind (require_fingerprint e) (\<lambda>_. Inr m))
                       | _ \<Rightarrow> Inl (ValueErr ''known progress measures require exact evidence'')))"

definition progress_measure_validate :: "progress_measure \<Rightarrow> unit res" where
  "progress_measure_validate m =
     rbind (require_symbol (pm_key m))
       (\<lambda>_. rbind (require_optional_u64 (pm_value m))
       (\<lambda>_. rbind (require_optional_fingerprint (pm_basis m))
       (\<lambda>_. require_optional_fingerprint (pm_evidence m))))"

definition progress_measure_record :: "progress_measure \<Rightarrow> json" where
  "progress_measure_record m =
     JObj [(lit ''basis_identity'', opt_str (pm_basis m)),
           (lit ''dimension_key'', JStr (pm_key m)),
           (lit ''evidence_id'', opt_str (pm_evidence m)),
           (lit ''value'', opt_int (pm_value m))]"

section \<open>Classification\<close>

record progress_tally =
  improvements :: nat
  regressions :: nat
  new_information :: bool

definition tally_step :: "progress_dimension \<times> progress_measure \<times> progress_measure \<Rightarrow> progress_tally \<Rightarrow> progress_tally" where
  "tally_step x t = (case x of (dimension, prior, current) \<Rightarrow>
     (case (pm_value prior, pm_value current) of
        (Some p, Some c) \<Rightarrow>
          if pm_basis prior \<noteq> pm_basis current
          then (if prior \<noteq> current then t \<lparr> new_information := True \<rparr> else t)
          else if p = c then t
          else if (if pd_direction dimension = Decrease then c < p else c > p)
          then t \<lparr> improvements := improvements t + 1 \<rparr>
          else t \<lparr> regressions := regressions t + 1 \<rparr>
      | _ \<Rightarrow> if prior \<noteq> current then t \<lparr> new_information := True \<rparr> else t))"

definition tally :: "progress_contract \<Rightarrow> progress_measure list \<Rightarrow> progress_measure list \<Rightarrow> progress_tally" where
  "tally c prior current =
     fold tally_step (zip (pc_dimensions c) (zip prior current))
       \<lparr> improvements = 0, regressions = 0, new_information = False \<rparr>"

definition classify :: "progress_tally \<Rightarrow> progress_classification" where
  "classify t =
     (if new_information t then NewInformation
      else if improvements t \<noteq> 0 \<and> regressions t \<noteq> 0 then Incomparable
      else if improvements t \<noteq> 0 then MeasurableProgress
      else if regressions t \<noteq> 0 then Regression
      else NoProgress)"

text \<open>\<open>zip(..., strict=True)\<close> raises when the lengths differ.\<close>

definition derive_progress_classification ::
  "progress_contract \<Rightarrow> progress_measure list \<Rightarrow> progress_measure list \<Rightarrow> progress_classification res"
where
  "derive_progress_classification c prior current =
     rbind (guard (length prior = length (pc_dimensions c) \<and> length current = length (pc_dimensions c))
             (ValueErr ''zip() arguments have different lengths''))
       (\<lambda>_. Inr (classify (tally c prior current)))"

fun thresholds_met :: "progress_dimension list \<Rightarrow> (pystr \<rightharpoonup> progress_measure) \<Rightarrow> bool res" where
  "thresholds_met [] by_dimension = Inr True"
| "thresholds_met (d # ds) by_dimension =
     (case pd_threshold d of
        None \<Rightarrow> thresholds_met ds by_dimension
      | Some threshold \<Rightarrow>
          (case by_dimension (pd_key d) of
             None \<Rightarrow> Inl (KeyErr ''progress dimension'')
           | Some found \<Rightarrow>
               (case pm_value found of
                  None \<Rightarrow> Inr False
                | Some v \<Rightarrow>
                    if (if pd_direction d = Decrease then v > threshold else v < threshold) then Inr False
                    else thresholds_met ds by_dimension)))"

definition derive_task_complete ::
  "progress_contract \<Rightarrow> progress_measure list \<Rightarrow> orchestration_state \<Rightarrow> bool res"
where
  "derive_task_complete c current s =
     (if \<not> list_all (\<lambda>ob. status ob = Satisfied) (obligations (os_obligations s)) then Inr False
      else thresholds_met (pc_dimensions c) (map_of (rev (map (\<lambda>m. (pm_key m, m)) current))))"

section \<open>Measuring\<close>

definition obligation_definition_identity :: "digest \<Rightarrow> orchestration_state \<Rightarrow> pystr" where
  "obligation_definition_identity H s =
     domain_id H ''ibae.obligation-definition-set-id.v1''
       (JObj [(lit ''obligations'',
          JArr (map (\<lambda>ob. JObj [(lit ''dependencies'', str_list (dependency_ids ob)),
                                (lit ''description'', JStr (description ob)),
                                (lit ''key'', JStr (ob_key ob)),
                                (lit ''obligation_id'', JStr (obligation_id H ob))])
                 (obligations (os_obligations s))))])"

definition status_count :: "obligation_status \<Rightarrow> orchestration_state \<Rightarrow> int" where
  "status_count st s = int (length (filter (\<lambda>ob. status ob = st) (obligations (os_obligations s))))"

fun source_count :: "progress_source \<Rightarrow> orchestration_state \<Rightarrow> int option" where
  "source_count UnsatisfiedObligationCount s = Some (status_count Unsatisfied s)"
| "source_count BlockedObligationCount s = Some (status_count Blocked s)"
| "source_count SatisfiedObligationCount s = Some (status_count Satisfied s)"
| "source_count GovernedExternalCounter s = None"

definition state_measure :: "digest \<Rightarrow> progress_dimension \<Rightarrow> orchestration_state \<Rightarrow> progress_measure res" where
  "state_measure H d s =
     (case source_count (pd_source d) s of
        None \<Rightarrow> Inl (KeyErr ''progress source'')
      | Some n \<Rightarrow>
          progress_measure_init
            \<lparr> pm_key = pd_key d, pm_value = Some n,
              pm_basis = Some (obligation_definition_identity H s), pm_evidence = Some (state_id H s) \<rparr>)"

definition external_measure ::
  "digest \<Rightarrow> (counter_evidence \<Rightarrow> unit res) \<Rightarrow> progress_dimension \<Rightarrow> (pystr \<rightharpoonup> counter_evidence) \<Rightarrow>
   pystr \<Rightarrow> pystr \<Rightarrow> progress_measure res"
where
  "external_measure H V d evidence task governance =
     (case evidence (pd_key d) of
        None \<Rightarrow> progress_measure_init \<lparr> pm_key = pd_key d, pm_value = None, pm_basis = None, pm_evidence = None \<rparr>
      | Some item \<Rightarrow>
          rbind (guard (ce_dimension_key item = pd_key d) (ValueErr ''external progress evidence dimension mismatch''))
            (\<lambda>_. rbind (guard (ce_task_id item = task \<and> ce_governance_id item = governance)
                      (ValueErr ''external progress evidence authority binding mismatch''))
            (\<lambda>_. rbind (counter_evidence_id H V item)
            (\<lambda>i. progress_measure_init
                   \<lparr> pm_key = pd_key d, pm_value = Some (ce_value item),
                     pm_basis = Some (ce_basis_identity item), pm_evidence = Some i \<rparr>))))"

text \<open>The measure of one dimension, from the state or from a governed counter.\<close>

definition take_measure ::
  "digest \<Rightarrow> (counter_evidence \<Rightarrow> unit res) \<Rightarrow> pystr \<Rightarrow> pystr \<Rightarrow> orchestration_state \<Rightarrow>
   (pystr \<rightharpoonup> counter_evidence) \<Rightarrow> progress_dimension \<Rightarrow> progress_measure res"
where
  "take_measure H V task governance s evidence d =
     (if pd_source d = GovernedExternalCounter then external_measure H V d evidence task governance
      else state_measure H d s)"

section \<open>Progress records\<close>

record progress_record =
  pr_task_id :: pystr
  pr_governance_id :: pystr
  pr_contract :: progress_contract
  pr_prior_state_id :: pystr
  pr_current_state_id :: pystr
  pr_prior_measures :: "progress_measure list"
  pr_current_measures :: "progress_measure list"
  pr_classification :: progress_classification
  pr_task_complete :: bool
  pr_prior_state :: orchestration_state
  pr_current_state :: orchestration_state
  pr_prior_evidence :: "counter_evidence list"
  pr_current_evidence :: "counter_evidence list"

definition external_keys :: "progress_contract \<Rightarrow> pystr set" where
  "external_keys c = set (map pd_key (filter (\<lambda>d. pd_source d = GovernedExternalCounter) (pc_dimensions c)))"

definition evidence_map :: "counter_evidence list \<Rightarrow> pystr \<rightharpoonup> counter_evidence" where
  "evidence_map es = map_of (rev (map (\<lambda>e. (ce_dimension_key e, e)) es))"

definition check_evidence_order :: "counter_evidence list \<Rightarrow> unit res" where
  "check_evidence_order es =
     rbind (guard (sort_key ce_dimension_key es = es) (ValueErr ''evidence is not canonically ordered''))
       (\<lambda>_. guard (distinct (map ce_dimension_key es)) (ValueErr ''evidence contains duplicate dimensions''))"

definition check_bound_measure ::
  "digest \<Rightarrow> (counter_evidence \<Rightarrow> unit res) \<Rightarrow> progress_record \<Rightarrow>
   progress_dimension \<times> progress_measure \<times> progress_measure \<Rightarrow> unit res"
where
  "check_bound_measure H V r x = (case x of (d, prior, current) \<Rightarrow>
     rbind (take_measure H V (pr_task_id r) (pr_governance_id r) (pr_prior_state r)
              (evidence_map (pr_prior_evidence r)) d)
       (\<lambda>expected_prior.
          rbind (take_measure H V (pr_task_id r) (pr_governance_id r) (pr_current_state r)
                   (evidence_map (pr_current_evidence r)) d)
       (\<lambda>expected_current.
          guard (prior = expected_prior \<and> current = expected_current)
            (ValueErr ''progress measures do not match their bound sources''))))"

definition validate_bound_claims ::
  "digest \<Rightarrow> (counter_evidence \<Rightarrow> unit res) \<Rightarrow> progress_record \<Rightarrow> unit res"
where
  "validate_bound_claims H V r =
     rbind (guard (state_id H (pr_prior_state r) = pr_prior_state_id r \<and>
                   state_id H (pr_current_state r) = pr_current_state_id r)
             (ValueErr ''progress state objects do not match their declared identities''))
       (\<lambda>_. rbind (for_each check_evidence_order [pr_prior_evidence r, pr_current_evidence r])
       (\<lambda>_. rbind (guard (set (map ce_dimension_key (pr_prior_evidence r @ pr_current_evidence r))
                           \<subseteq> external_keys (pr_contract r))
                 (ValueErr ''progress record carries undeclared external evidence''))
       (\<lambda>_. rbind (for_each (check_bound_measure H V r)
                 (zip (pc_dimensions (pr_contract r)) (zip (pr_prior_measures r) (pr_current_measures r))))
       (\<lambda>_. rbind (derive_progress_classification (pr_contract r) (pr_prior_measures r) (pr_current_measures r))
       (\<lambda>cls. rbind (guard (pr_classification r = cls)
                 (ValueErr ''progress classification does not match bound measures''))
       (\<lambda>_. rbind (derive_task_complete (pr_contract r) (pr_current_measures r) (pr_current_state r))
       (\<lambda>complete. guard (pr_task_complete r = complete)
                 (ValueErr ''task completion does not match bound measures and state''))))))))"

definition check_measure_keys :: "progress_contract \<Rightarrow> progress_measure list \<Rightarrow> unit res" where
  "check_measure_keys c ms =
     rbind (materialize max_progress_dimensions ms)
       (\<lambda>active. guard (map pm_key active = map pd_key (pc_dimensions c))
                   (ValueErr ''measures do not match the declared dimensions''))"

definition canonical_evidence :: "counter_evidence list \<Rightarrow> counter_evidence list res" where
  "canonical_evidence es =
     rbind (materialize max_progress_dimensions es)
       (\<lambda>active. let ordered = sort_key ce_dimension_key active in
          rbind (guard (distinct (map ce_dimension_key ordered)) (ValueErr ''evidence contains duplicate dimensions''))
            (\<lambda>_. Inr ordered))"

definition progress_record_init ::
  "digest \<Rightarrow> (counter_evidence \<Rightarrow> unit res) \<Rightarrow> progress_record \<Rightarrow> progress_record res"
where
  "progress_record_init H V r =
     rbind (for_each require_fingerprint
              [pr_task_id r, pr_governance_id r, pr_prior_state_id r, pr_current_state_id r])
       (\<lambda>_. rbind (for_each (check_measure_keys (pr_contract r)) [pr_prior_measures r, pr_current_measures r])
       (\<lambda>_. rbind (canonical_evidence (pr_prior_evidence r))
       (\<lambda>prior. rbind (canonical_evidence (pr_current_evidence r))
       (\<lambda>current. let r' = r \<lparr> pr_prior_evidence := prior, pr_current_evidence := current \<rparr> in
          rbind (validate_bound_claims H V r') (\<lambda>_. Inr r')))))"

definition progress_record_validate :: "progress_record \<Rightarrow> unit res" where
  "progress_record_validate r =
     rbind (for_each require_fingerprint
              [pr_task_id r, pr_governance_id r, pr_prior_state_id r, pr_current_state_id r])
       (\<lambda>_. rbind (progress_contract_validate (pr_contract r))
       (\<lambda>_. for_each progress_measure_validate (pr_prior_measures r @ pr_current_measures r)))"

definition external_endpoint_id :: "digest \<Rightarrow> progress_record \<Rightarrow> progress_measure list \<Rightarrow> pystr option" where
  "external_endpoint_id H r ms =
     (let endpoint = map snd (filter (\<lambda>(d, m). pd_source d = GovernedExternalCounter)
                                (zip (pc_dimensions (pr_contract r)) ms))
      in if endpoint = [] then None
         else Some (domain_id H ''ibae.progress-external-endpoint-id.v1''
           (JObj [(lit ''measure_contract_id'', JStr (contract_id H (pr_contract r))),
                  (lit ''measures'', JArr (map (\<lambda>m. JObj
                     [(lit ''basis_identity'', opt_str (pm_basis m)),
                      (lit ''dimension_key'', JStr (pm_key m)),
                      (lit ''value'', opt_int (pm_value m))]) endpoint))])))"

definition evidence_ids :: "progress_record \<Rightarrow> pystr list" where
  "evidence_ids r =
     sorted_set (List.map_filter pm_evidence (pr_prior_measures r @ pr_current_measures r))"

definition progress_record_json ::
  "digest \<Rightarrow> (counter_evidence \<Rightarrow> unit res) \<Rightarrow> progress_record \<Rightarrow> json res"
where
  "progress_record_json H V r =
     rbind (progress_record_validate r)
       (\<lambda>_. rbind (validate_bound_claims H V r)
       (\<lambda>_. Inr (JObj
          [(lit ''classification'', JStr (classification_value (pr_classification r))),
           (lit ''current_measures'', JArr (map progress_measure_record (pr_current_measures r))),
           (lit ''current_orchestration_state_id'', JStr (pr_current_state_id r)),
           (lit ''evidence_ids'', str_list (evidence_ids r)),
           (lit ''governance_id'', JStr (pr_governance_id r)),
           (lit ''measure_contract'', progress_contract_record (pr_contract r)),
           (lit ''measure_contract_id'', JStr (contract_id H (pr_contract r))),
           (lit ''prior_measures'', JArr (map progress_measure_record (pr_prior_measures r))),
           (lit ''prior_orchestration_state_id'', JStr (pr_prior_state_id r)),
           (lit ''protocol_version'', JStr progress_protocol_version),
           (lit ''task_complete'', JBool (pr_task_complete r)),
           (lit ''task_id'', JStr (pr_task_id r))])))"

definition progress_id :: "digest \<Rightarrow> (counter_evidence \<Rightarrow> unit res) \<Rightarrow> progress_record \<Rightarrow> pystr res" where
  "progress_id H V r =
     rbind (progress_record_json H V r) (\<lambda>j. Inr (domain_id H ''ibae.progress-record-id.v1'' j))"

definition measure_pair ::
  "digest \<Rightarrow> (counter_evidence \<Rightarrow> unit res) \<Rightarrow> pystr \<Rightarrow> pystr \<Rightarrow> orchestration_state \<Rightarrow> orchestration_state \<Rightarrow>
   (pystr \<times> counter_evidence) list \<Rightarrow> (pystr \<times> counter_evidence) list \<Rightarrow> progress_dimension \<Rightarrow>
   (progress_measure \<times> progress_measure) res"
where
  "measure_pair H V task governance prior current prior_ev current_ev d =
     rbind (take_measure H V task governance prior (map_of prior_ev) d)
       (\<lambda>p. rbind (take_measure H V task governance current (map_of current_ev) d)
       (\<lambda>c. Inr (p, c)))"

definition evaluate_progress ::
  "digest \<Rightarrow> (counter_evidence \<Rightarrow> unit res) \<Rightarrow> pystr \<Rightarrow> pystr \<Rightarrow> progress_contract \<Rightarrow> orchestration_state \<Rightarrow>
   orchestration_state \<Rightarrow> (pystr \<times> counter_evidence) list \<Rightarrow> (pystr \<times> counter_evidence) list \<Rightarrow> progress_record res"
where
  "evaluate_progress H V task governance c prior current prior_ev current_ev =
     rbind (require_fingerprint task)
       (\<lambda>_. rbind (require_fingerprint governance)
       (\<lambda>_. rbind (for_each (\<lambda>ev. guard (fst ` set ev \<subseteq> external_keys c)
                              (ValueErr ''progress evidence contains an undeclared dimension'')) [prior_ev, current_ev])
       (\<lambda>_. rbind (map_res (measure_pair H V task governance prior current prior_ev current_ev) (pc_dimensions c))
       (\<lambda>pairs. rbind (derive_progress_classification c (map fst pairs) (map snd pairs))
       (\<lambda>cls. rbind (derive_task_complete c (map snd pairs) current)
       (\<lambda>complete. progress_record_init H V
          \<lparr> pr_task_id = task, pr_governance_id = governance, pr_contract = c,
            pr_prior_state_id = state_id H prior, pr_current_state_id = state_id H current,
            pr_prior_measures = map fst pairs, pr_current_measures = map snd pairs,
            pr_classification = cls, pr_task_complete = complete,
            pr_prior_state = prior, pr_current_state = current,
            pr_prior_evidence = map snd (sort_key fst prior_ev),
            pr_current_evidence = map snd (sort_key fst current_ev) \<rparr>))))))"

section \<open>What the classification means\<close>

definition comparable :: "progress_measure \<Rightarrow> progress_measure \<Rightarrow> bool" where
  "comparable p c \<longleftrightarrow> pm_value p \<noteq> None \<and> pm_value c \<noteq> None \<and> pm_basis p = pm_basis c"

definition improved :: "progress_dimension \<Rightarrow> progress_measure \<Rightarrow> progress_measure \<Rightarrow> bool" where
  "improved d p c \<longleftrightarrow> comparable p c \<and>
     (if pd_direction d = Decrease then the (pm_value c) < the (pm_value p) else the (pm_value p) < the (pm_value c))"

definition regressed :: "progress_dimension \<Rightarrow> progress_measure \<Rightarrow> progress_measure \<Rightarrow> bool" where
  "regressed d p c \<longleftrightarrow> improved d c p"

definition renewed :: "progress_measure \<Rightarrow> progress_measure \<Rightarrow> bool" where
  "renewed p c \<longleftrightarrow> \<not> comparable p c \<and> p \<noteq> c"

lemma comparable_sym: "comparable p c = comparable c p"
  by (auto simp: comparable_def)

lemma tally_step_eq:
  "tally_step (d, p, c) t =
     t \<lparr> improvements := improvements t + (if improved d p c then 1 else 0),
         regressions := regressions t + (if regressed d p c then 1 else 0),
         new_information := (new_information t \<or> renewed p c) \<rparr>"
  by (auto simp: tally_step_def improved_def regressed_def renewed_def comparable_def split: option.splits)

lemma fold_tally:
  "fold tally_step xs t =
     \<lparr> improvements = improvements t + length (filter (\<lambda>(d, p, c). improved d p c) xs),
       regressions = regressions t + length (filter (\<lambda>(d, p, c). regressed d p c) xs),
       new_information = (new_information t \<or> (\<exists>(d, p, c) \<in> set xs. renewed p c)) \<rparr>"
proof (induction xs arbitrary: t)
  case Nil
  then show ?case by simp
next
  case (Cons x xs)
  obtain d p c where "x = (d, p, c)" by (cases x)
  then show ?case by (simp add: Cons tally_step_eq)
qed

definition triples :: "progress_contract \<Rightarrow> progress_measure list \<Rightarrow> progress_measure list \<Rightarrow>
    (progress_dimension \<times> progress_measure \<times> progress_measure) set" where
  "triples k ps cs = set (zip (pc_dimensions k) (zip ps cs))"

lemma tally_fields:
  "improvements (tally k ps cs) \<noteq> 0 \<longleftrightarrow> (\<exists>d p c. (d, p, c) \<in> triples k ps cs \<and> improved d p c)"
  "regressions (tally k ps cs) \<noteq> 0 \<longleftrightarrow> (\<exists>d p c. (d, p, c) \<in> triples k ps cs \<and> regressed d p c)"
  "new_information (tally k ps cs) \<longleftrightarrow> (\<exists>d p c. (d, p, c) \<in> triples k ps cs \<and> renewed p c)"
  by (auto simp: tally_def fold_tally triples_def filter_empty_conv)

lemma classify_iff:
  "classify t = NewInformation \<longleftrightarrow> new_information t"
  "classify t = MeasurableProgress \<longleftrightarrow> \<not> new_information t \<and> improvements t \<noteq> 0 \<and> regressions t = 0"
  "classify t = Regression \<longleftrightarrow> \<not> new_information t \<and> improvements t = 0 \<and> regressions t \<noteq> 0"
  "classify t = Incomparable \<longleftrightarrow> \<not> new_information t \<and> improvements t \<noteq> 0 \<and> regressions t \<noteq> 0"
  "classify t = NoProgress \<longleftrightarrow> \<not> new_information t \<and> improvements t = 0 \<and> regressions t = 0"
  by (auto simp: classify_def)

lemma triples_swap:
  assumes "length ps = length (pc_dimensions k)" and "length cs = length (pc_dimensions k)"
  shows "(d, p, c) \<in> triples k ps cs \<longleftrightarrow> (d, c, p) \<in> triples k cs ps"
  using assms by (auto simp: triples_def set_zip)

lemma tally_swap:
  assumes "length ps = length (pc_dimensions k)" and "length cs = length (pc_dimensions k)"
  shows "improvements (tally k cs ps) \<noteq> 0 \<longleftrightarrow> regressions (tally k ps cs) \<noteq> 0"
    and "regressions (tally k cs ps) \<noteq> 0 \<longleftrightarrow> improvements (tally k ps cs) \<noteq> 0"
    and "new_information (tally k cs ps) \<longleftrightarrow> new_information (tally k ps cs)"
proof -
  note sw = triples_swap [OF assms]
  show "improvements (tally k cs ps) \<noteq> 0 \<longleftrightarrow> regressions (tally k ps cs) \<noteq> 0"
    unfolding tally_fields regressed_def using sw by blast
  show "regressions (tally k cs ps) \<noteq> 0 \<longleftrightarrow> improvements (tally k ps cs) \<noteq> 0"
    unfolding tally_fields regressed_def using sw by blast
  show "new_information (tally k cs ps) \<longleftrightarrow> new_information (tally k ps cs)"
    unfolding tally_fields renewed_def using sw comparable_sym by metis
qed

text \<open>Two measurements count as measurable progress exactly when every
  dimension is comparable or unchanged, some dimension moved in its declared direction and none moved
  against it; new information, regression and incomparability are as exact, and exchanging the two
  measurements exchanges progress and regression. Measurements of the wrong length raise.\<close>

theorem progress_classification_exact:
  assumes "length ps = length (pc_dimensions k)" and "length cs = length (pc_dimensions k)"
  shows "\<exists>x y. derive_progress_classification k ps cs = Inr x \<and> derive_progress_classification k cs ps = Inr y \<and>
    (x = NewInformation \<longleftrightarrow> (\<exists>d p c. (d, p, c) \<in> triples k ps cs \<and> renewed p c)) \<and>
    (x = MeasurableProgress \<longleftrightarrow>
       (\<forall>d p c. (d, p, c) \<in> triples k ps cs \<longrightarrow> \<not> renewed p c \<and> \<not> regressed d p c) \<and>
       (\<exists>d p c. (d, p, c) \<in> triples k ps cs \<and> improved d p c)) \<and>
    (x = NoProgress \<longleftrightarrow>
       (\<forall>d p c. (d, p, c) \<in> triples k ps cs \<longrightarrow> \<not> renewed p c \<and> \<not> regressed d p c \<and> \<not> improved d p c)) \<and>
    (x = MeasurableProgress \<longleftrightarrow> y = Regression) \<and> (x = Incomparable \<longleftrightarrow> y = Incomparable) \<and>
    (x = NewInformation \<longleftrightarrow> y = NewInformation)"
proof -
  have "derive_progress_classification k ps cs = Inr (classify (tally k ps cs))"
    "derive_progress_classification k cs ps = Inr (classify (tally k cs ps))"
    using assms by (simp_all add: derive_progress_classification_def)
  moreover have "classify (tally k ps cs) = MeasurableProgress \<longleftrightarrow> classify (tally k cs ps) = Regression"
    "classify (tally k ps cs) = Incomparable \<longleftrightarrow> classify (tally k cs ps) = Incomparable"
    "classify (tally k ps cs) = NewInformation \<longleftrightarrow> classify (tally k cs ps) = NewInformation"
    using tally_swap [OF assms] by (auto simp: classify_iff)
  moreover have "classify (tally k ps cs) = NewInformation \<longleftrightarrow> (\<exists>d p c. (d, p, c) \<in> triples k ps cs \<and> renewed p c)"
    "classify (tally k ps cs) = MeasurableProgress \<longleftrightarrow>
       (\<forall>d p c. (d, p, c) \<in> triples k ps cs \<longrightarrow> \<not> renewed p c \<and> \<not> regressed d p c) \<and>
       (\<exists>d p c. (d, p, c) \<in> triples k ps cs \<and> improved d p c)"
    "classify (tally k ps cs) = NoProgress \<longleftrightarrow>
       (\<forall>d p c. (d, p, c) \<in> triples k ps cs \<longrightarrow> \<not> renewed p c \<and> \<not> regressed d p c \<and> \<not> improved d p c)"
    unfolding classify_iff using tally_fields [of k ps cs] by metis+
  ultimately show ?thesis by blast
qed

definition example_contract :: progress_contract where
  "example_contract = \<lparr> pc_key = lit ''a'', pc_version = 1, pc_dimensions =
     [\<lparr> pd_key = lit ''a'', pd_source = UnsatisfiedObligationCount, pd_direction = Decrease, pd_threshold = Some 0 \<rparr>] \<rparr>"

definition example_measure :: "int \<Rightarrow> progress_measure" where
  "example_measure v = \<lparr> pm_key = lit ''a'', pm_value = Some v, pm_basis = Some (replicate 64 97),
     pm_evidence = Some (replicate 64 97) \<rparr>"

lemma example_progress:
  "derive_progress_classification example_contract [example_measure 3] [example_measure 2] = Inr MeasurableProgress"
  by (simp add: derive_progress_classification_def tally_def tally_step_def classify_def example_contract_def
      example_measure_def)

theorem progress_classification_exact_witness:
  "derive_progress_classification example_contract [example_measure 2] [example_measure 3] = Inr Regression"
  using progress_classification_exact [of "[example_measure 3]" example_contract "[example_measure 2]"] example_progress
  by (auto simp: example_contract_def)

section \<open>Progress cannot go on for ever\<close>

text \<open>What is left to do in one dimension; a measure without a value counts for nothing.\<close>

definition measure_left :: "progress_dimension \<Rightarrow> progress_measure \<Rightarrow> nat" where
  "measure_left d m = (case pm_value m of None \<Rightarrow> 0
     | Some v \<Rightarrow> if pd_direction d = Decrease then nat v else nat (max_u64 - v))"

definition work_left :: "progress_contract \<Rightarrow> progress_measure list \<Rightarrow> nat" where
  "work_left k ms = sum_list (map (\<lambda>(d, m). measure_left d m) (zip (pc_dimensions k) ms))"

definition measure_ok :: "progress_measure \<Rightarrow> bool" where
  "measure_ok m \<longleftrightarrow> (\<forall>v. pm_value m = Some v \<longrightarrow> 0 \<le> v \<and> v \<le> max_u64)"

lemma measure_left_improved:
  "measure_ok p \<Longrightarrow> measure_ok c \<Longrightarrow> improved d p c \<Longrightarrow> measure_left d c < measure_left d p"
  by (auto simp: measure_left_def measure_ok_def improved_def comparable_def)

lemma measure_left_same:
  assumes "\<not> improved d p c" and "\<not> regressed d p c" and "\<not> renewed p c"
  shows "measure_left d c = measure_left d p"
proof (cases "comparable p c")
  case True
  then obtain v w where "pm_value p = Some v" "pm_value c = Some w" by (auto simp: comparable_def)
  with True assms(1,2) show ?thesis
    by (auto simp: measure_left_def improved_def regressed_def comparable_sym [of c p] split: if_splits)
next
  case False
  with assms(3) show ?thesis by (simp add: renewed_def)
qed

lemma work_left_decreases:
  assumes "derive_progress_classification k ps cs = Inr MeasurableProgress"
    and "list_all measure_ok ps" and "list_all measure_ok cs"
  shows "work_left k cs < work_left k ps"
proof -
  let ?ds = "pc_dimensions k"
  from assms(1) have len: "length ps = length ?ds" "length cs = length ?ds"
    and cls: "classify (tally k ps cs) = MeasurableProgress"
    by (auto simp: derive_progress_classification_def res_simps)
  have none: "\<not> renewed p c \<and> \<not> regressed d p c" if "(d, p, c) \<in> triples k ps cs" for d p c
    using cls that tally_fields [of k ps cs] unfolding classify_iff by (metis neq0_conv)
  obtain d p c where imp: "(d, p, c) \<in> triples k ps cs" "improved d p c"
    using cls tally_fields(1) [of k ps cs] unfolding classify_iff by metis
  have mem: "(?ds ! i, ps ! i, cs ! i) \<in> triples k ps cs" if "i < length ?ds" for i
    using that len by (auto simp: triples_def in_set_zip intro!: exI [of _ i])
  have sums: "work_left k ms = (\<Sum>i < length ?ds. measure_left (?ds ! i) (ms ! i))" if "length ms = length ?ds" for ms
    using that by (simp add: work_left_def sum_list_sum_nth atLeast0LessThan)
  have le: "measure_left (?ds ! i) (cs ! i) \<le> measure_left (?ds ! i) (ps ! i)" if "i < length ?ds" for i
    using measure_left_improved measure_left_same none [OF mem [OF that]] assms(2,3) that len
    by (metis less_imp_le order_refl list_all_length)
  obtain j where "j < length ?ds" "d = ?ds ! j" "p = ps ! j" "c = cs ! j"
    using imp(1) len by (auto simp: triples_def in_set_zip)
  then have "measure_left (?ds ! j) (cs ! j) < measure_left (?ds ! j) (ps ! j)" "j \<in> {..<length ?ds}"
    using imp(2) measure_left_improved assms(2,3) len by (auto simp: list_all_length)
  with le show ?thesis
    unfolding sums [OF len(1)] sums [OF len(2)] by (intro sum_strict_mono_ex1) auto
qed

lemma progress_chain:
  assumes "\<forall>i < n. derive_progress_classification k (ms i) (ms (Suc i)) = Inr MeasurableProgress"
    and "\<forall>i \<le> n. list_all measure_ok (ms i)"
  shows "n + work_left k (ms n) \<le> work_left k (ms 0)"
  using assms
proof (induction n)
  case (Suc n)
  then have "work_left k (ms (Suc n)) < work_left k (ms n)" by (intro work_left_decreases) auto
  with Suc show ?case by simp
qed simp

section \<open>Evaluating obligation progress\<close>

definition contract_ok :: "progress_contract \<Rightarrow> bool" where
  "contract_ok c \<longleftrightarrow> progress_contract_init c = Inr c"

lemma progress_dimension_validate_Inr:
  "progress_dimension_validate d = Inr u \<longleftrightarrow>
     is_symbol (pd_key d) \<and> (\<forall>t. pd_threshold d = Some t \<longrightarrow> 0 \<le> t \<and> t \<le> max_u64)"
  by (cases "pd_threshold d")
     (auto simp: progress_dimension_validate_def require_optional_u64_def res_simps accept_simps)

lemma contract_ok_iff:
  "contract_ok c \<longleftrightarrow>
     is_symbol (pc_key c) \<and> 0 < pc_version c \<and> pc_version c < 2 ^ 256 \<and> pc_dimensions c \<noteq> [] \<and>
     length (pc_dimensions c) \<le> 64 \<and> sorted (map pd_key (pc_dimensions c)) \<and> distinct (map pd_key (pc_dimensions c)) \<and>
     (\<forall>d \<in> set (pc_dimensions c). is_symbol (pd_key d) \<and> (\<forall>t. pd_threshold d = Some t \<longrightarrow> 0 \<le> t \<and> t \<le> max_u64))"
  (is "_ \<longleftrightarrow> ?rhs")
proof
  assume "contract_ok c"
  then have "c = c \<lparr> pc_dimensions := sort_key pd_key (pc_dimensions c) \<rparr>"
    by (auto simp: contract_ok_def progress_contract_init_def rbind_eq_Inr guard_eq_Inr Let_def accept_simps)
  then have sorted: "sort_key pd_key (pc_dimensions c) = pc_dimensions c"
    by (metis progress_contract.select_convs(3) progress_contract.update_convs(3) progress_contract.surjective)
  with \<open>contract_ok c\<close> show ?rhs
    by (auto simp: contract_ok_def progress_contract_init_def res_simps Let_def accept_simps
        progress_contract_validate_def progress_dimension_validate_Inr max_progress_dimensions_def)
       (metis sorted_sort_key)+
next
  assume ?rhs
  then show "contract_ok c"
    by (auto simp: contract_ok_def progress_contract_init_def res_simps Let_def accept_simps sort_key_id
        progress_contract_validate_def progress_dimension_validate_Inr max_progress_dimensions_def)
qed

definition obligation_only :: "progress_contract \<Rightarrow> bool" where
  "obligation_only c \<longleftrightarrow> list_all (\<lambda>d. pd_source d \<noteq> GovernedExternalCounter) (pc_dimensions c)"

definition measured :: "digest \<Rightarrow> orchestration_state \<Rightarrow> progress_dimension \<Rightarrow> progress_measure" where
  "measured H s d =
     \<lparr> pm_key = pd_key d, pm_value = source_count (pd_source d) s,
       pm_basis = Some (obligation_definition_identity H s), pm_evidence = Some (state_id H s) \<rparr>"

lemma status_count_bounds:
  assumes "ostate_ok H s"
  shows "0 \<le> status_count st s \<and> status_count st s \<le> 128"
proof -
  have "length (filter (\<lambda>ob. status ob = st) (obligations (os_obligations s))) \<le> length (obligations (os_obligations s))"
    by (rule length_filter_le)
  also have "\<dots> \<le> 128"
    using assms by (simp add: ostate_ok_def registry_ok_def max_obligations_limit_def)
  finally show ?thesis by (simp add: status_count_def)
qed

lemma status_counts_total:
  "status_count Unsatisfied s + status_count Blocked s + status_count Satisfied s =
     int (length (obligations (os_obligations s)))"
proof -
  have "length (filter (\<lambda>ob. status ob = Unsatisfied) xs) + length (filter (\<lambda>ob. status ob = Blocked) xs) +
      length (filter (\<lambda>ob. status ob = Satisfied) xs) = length xs" for xs
  proof (induction xs)
    case (Cons x xs)
    then show ?case by (cases "status x") simp_all
  qed simp
  from this [of "obligations (os_obligations s)"] show ?thesis by (simp add: status_count_def)
qed

lemma source_count_obligation:
  assumes "src \<noteq> GovernedExternalCounter"
  shows "\<exists>st. source_count src s = Some (status_count st s)"
  using assms by (cases src) auto

lemma take_measure_eq:
  assumes "digest_ok H" and "ostate_ok H s" and "pd_source d \<noteq> GovernedExternalCounter" and "is_symbol (pd_key d)"
  shows "take_measure H V task governance s ev d = Inr (measured H s d)"
proof -
  obtain st where st: "source_count (pd_source d) s = Some (status_count st s)"
    using source_count_obligation [OF assms(3)] by blast
  have "require_u64 (status_count st s) = Inr (status_count st s)"
    using status_count_bounds [OF assms(2), of st] by (simp add: accept_simps max_u64_def)
  moreover have "is_fingerprint (obligation_definition_identity H s)" "is_fingerprint (state_id H s)"
    by (simp_all add: obligation_definition_identity_def state_id_def domain_id_fingerprint [OF assms(1)])
  ultimately show ?thesis
    using assms(3,4) st
    by (simp add: take_measure_def state_measure_def progress_measure_init_def require_total measured_def)
qed

definition measurement :: "digest \<Rightarrow> progress_contract \<Rightarrow> orchestration_state \<Rightarrow> progress_measure list" where
  "measurement H c s = map (measured H s) (pc_dimensions c)"

lemma thresholds_met_total:
  assumes "\<forall>d \<in> set ds. \<exists>m. by_dimension (pd_key d) = Some m"
  shows "\<exists>b. thresholds_met ds by_dimension = Inr b"
  using assms
proof (induction ds)
  case (Cons d ds)
  then obtain m b where "by_dimension (pd_key d) = Some m" "thresholds_met ds by_dimension = Inr b" by auto
  then show ?case by (cases "pd_threshold d"; cases "pm_value m") (simp_all, blast+)
qed auto

lemma derive_task_complete_total:
  assumes "map pm_key ms = map pd_key (pc_dimensions c)"
  shows "\<exists>b. derive_task_complete c ms s = Inr b"
proof -
  have "\<exists>m. map_of (rev (map (\<lambda>m. (pm_key m, m)) ms)) (pd_key d) = Some m" if "d \<in> set (pc_dimensions c)" for d
  proof -
    have "pd_key d \<in> set (map pm_key ms)" using that unfolding assms by simp
    then have "map_of (rev (map (\<lambda>m. (pm_key m, m)) ms)) (pd_key d) \<noteq> None"
      by (auto simp: map_of_eq_None_iff image_image)
    then show ?thesis by blast
  qed
  then show ?thesis using thresholds_met_total by (auto simp: derive_task_complete_def)
qed

lemma evaluate_progress_eq:
  assumes H: "digest_ok H" and c: "contract_ok c" "obligation_only c"
    and s: "ostate_ok H prior" "ostate_ok H current" and ids: "is_fingerprint task" "is_fingerprint governance"
  shows "\<exists>cls complete. derive_progress_classification c (measurement H c prior) (measurement H c current) = Inr cls \<and>
    derive_task_complete c (measurement H c current) current = Inr complete \<and>
    evaluate_progress H V task governance c prior current [] [] =
      Inr \<lparr> pr_task_id = task, pr_governance_id = governance, pr_contract = c,
            pr_prior_state_id = state_id H prior, pr_current_state_id = state_id H current,
            pr_prior_measures = measurement H c prior, pr_current_measures = measurement H c current,
            pr_classification = cls, pr_task_complete = complete,
            pr_prior_state = prior, pr_current_state = current,
            pr_prior_evidence = [], pr_current_evidence = [] \<rparr>"
proof -
  have dims: "pd_source d \<noteq> GovernedExternalCounter \<and> is_symbol (pd_key d)" if "d \<in> set (pc_dimensions c)" for d
    using c that by (simp add: contract_ok_iff obligation_only_def list_all_iff)
  have take: "take_measure H V task governance prior ev d = Inr (measured H prior d)"
    "take_measure H V task governance current ev d = Inr (measured H current d)"
    if "d \<in> set (pc_dimensions c)" for d ev
    using dims [OF that] by (simp_all add: take_measure_eq [OF H s(1)] take_measure_eq [OF H s(2)])
  have pairs: "map_res (measure_pair H V task governance prior current [] []) (pc_dimensions c) =
      Inr (map (\<lambda>d. (measured H prior d, measured H current d)) (pc_dimensions c))"
    by (rule map_res_total) (simp add: measure_pair_def take)
  have keys: "map pm_key (measurement H c t) = map pd_key (pc_dimensions c)" for t
    by (simp add: measurement_def measured_def)
  have len: "length (measurement H c t) = length (pc_dimensions c)" for t by (simp add: measurement_def)
  obtain cls where cls: "derive_progress_classification c (measurement H c prior) (measurement H c current) = Inr cls"
    using len by (auto simp: derive_progress_classification_def)
  obtain complete where complete: "derive_task_complete c (measurement H c current) current = Inr complete"
    using derive_task_complete_total [OF keys] by blast
  let ?r = "\<lparr> pr_task_id = task, pr_governance_id = governance, pr_contract = c,
            pr_prior_state_id = state_id H prior, pr_current_state_id = state_id H current,
            pr_prior_measures = measurement H c prior, pr_current_measures = measurement H c current,
            pr_classification = cls, pr_task_complete = complete,
            pr_prior_state = prior, pr_current_state = current,
            pr_prior_evidence = [], pr_current_evidence = [] \<rparr>"
  have bound: "for_each (check_bound_measure H V ?r)
      (zip (pc_dimensions c) (zip (measurement H c prior) (measurement H c current))) = Inr ()"
  proof (rule for_each_total)
    fix x assume "x \<in> set (zip (pc_dimensions c) (zip (measurement H c prior) (measurement H c current)))"
    then obtain d where "d \<in> set (pc_dimensions c)" "x = (d, measured H prior d, measured H current d)"
      by (auto simp: measurement_def set_zip)
    then show "\<exists>y. check_bound_measure H V ?r x = Inr y" by (simp add: check_bound_measure_def take)
  qed
  have claims: "validate_bound_claims H V ?r = Inr ()"
    using bound cls complete by (simp add: validate_bound_claims_def check_evidence_order_def)
  have "is_fingerprint (state_id H t)" for t by (simp add: state_id_def domain_id_fingerprint [OF H])
  moreover have "check_measure_keys c (measurement H c t) = Inr ()" for t
    using c(1) keys len by (simp add: check_measure_keys_def materialize_ok max_progress_dimensions_def contract_ok_iff)
  moreover have "canonical_evidence [] = Inr []"
    by (simp add: canonical_evidence_def materialize_ok max_progress_dimensions_def)
  ultimately have "progress_record_init H V ?r = Inr ?r"
    using ids claims by (simp add: progress_record_init_def require_total)
  then show ?thesis
    using cls complete ids pairs
    by (auto simp: evaluate_progress_def require_total comp_def measurement_def)
qed

end
