(* ===== verification/Strategy_Change.thy ===== *)
theory Strategy_Change
  imports Progress
begin

text \<open>
  Material strategy change of \<open>src/ibae/continuation.py\<close>: the revalidation of the orchestration state
  and of the strategies a receipt is bound to, cycle evidence read off a native transition history,
  the structured meaning of a strategy and the decision whether a proposed strategy is a material
  change.
\<close>

section \<open>Revalidating a bound orchestration state\<close>

definition max_strategy_frontier :: int where "max_strategy_frontier = 128"
definition max_strategy_targets :: int where "max_strategy_targets = 128"
definition max_dependency_path :: int where "max_dependency_path = 128"
definition max_transition_pattern :: int where "max_transition_pattern = 12"

definition max_authority_nodes :: int where
  "max_authority_nodes =
     32 + max_obligations_limit * (16 + max_obligation_dependencies)
     + max_epistemic_records * (32 + max_epistemic_dependencies)
     + max_capabilities_limit * (16 + max_state_keys_per_declaration + max_capability_arguments)
     + max_history_events
     + max_occurrence_owners_limit * 8
     + max_strategy_schemas_limit * (8 + max_strategy_parameters * (16 + max_strategy_symbol_list_items))"

text \<open>
  \<open>_copy_orchestration_authority\<close> walks the state in declaration order with a counter of the
  nodes that are left, rebuilds every record with its constructor and rejects the state when a
  copy differs from the original. A copy that does not differ is the original, so only the
  counter is handed on. \<open>visit k\<close> takes \<open>k\<close> nodes in a row that hold scalars.
\<close>

definition visit :: "int \<Rightarrow> int \<Rightarrow> int res" where
  "visit k remaining =
     rbind (guard (k \<le> remaining) (ValueErr ''bound orchestration graph exceeds authority bounds''))
       (\<lambda>_. Inr (remaining - k))"

definition retained :: "'a \<Rightarrow> 'a res \<Rightarrow> unit res" where
  "retained x copied =
     rbind copied (\<lambda>y. guard (y = x) (ValueErr ''bound orchestration record must retain its canonical form''))"

definition visit_length :: "int \<Rightarrow> 'a list \<Rightarrow> int \<Rightarrow> int res" where
  "visit_length cap xs remaining =
     rbind (visit 1 remaining)
       (\<lambda>r. rbind (guard (int (length xs) \<le> cap) (ValueErr ''bound orchestration tuple exceeds authority bounds''))
       (\<lambda>_. Inr r))"

definition visit_texts :: "int \<Rightarrow> pystr list \<Rightarrow> int \<Rightarrow> int res" where
  "visit_texts cap xs remaining = rbind (visit_length cap xs remaining) (visit (int (length xs)))"

fun visit_each :: "('a \<Rightarrow> int \<Rightarrow> int res) \<Rightarrow> 'a list \<Rightarrow> int \<Rightarrow> int res" where
  "visit_each f [] remaining = Inr remaining"
| "visit_each f (x # xs) remaining = rbind (f x remaining) (visit_each f xs)"

definition visit_tuple :: "int \<Rightarrow> ('a \<Rightarrow> int \<Rightarrow> int res) \<Rightarrow> 'a list \<Rightarrow> int \<Rightarrow> int res" where
  "visit_tuple cap f xs remaining = rbind (visit_length cap xs remaining) (visit_each f xs)"

definition copy_obligation :: "digest \<Rightarrow> obligation \<Rightarrow> int \<Rightarrow> int res" where
  "copy_obligation H ob remaining =
     rbind (visit 3 remaining)
       (\<lambda>r. rbind (visit_texts max_obligation_dependencies (dependency_ids ob) r)
       (\<lambda>r. rbind (visit 2 r)
       (\<lambda>r. rbind (retained ob (obligation_init H ob)) (\<lambda>_. Inr r))))"

definition copy_registry :: "digest \<Rightarrow> obligation_registry \<Rightarrow> int \<Rightarrow> int res" where
  "copy_registry H g remaining =
     rbind (visit 1 remaining)
       (\<lambda>r. rbind (visit_tuple max_obligations_limit (copy_obligation H) (obligations g) r)
       (\<lambda>r. rbind (visit 1 r)
       (\<lambda>r. rbind (retained g (registry_init H (obligations g) (max_obligations g))) (\<lambda>_. Inr r))))"

definition copy_provenance :: "provenance option \<Rightarrow> int \<Rightarrow> int res" where
  "copy_provenance prov remaining =
     rbind (visit 1 remaining)
       (\<lambda>r. case prov of
              None \<Rightarrow> Inr r
            | Some p \<Rightarrow> rbind (visit 4 r) (\<lambda>r. rbind (retained p (provenance_init p)) (\<lambda>_. Inr r)))"

definition copy_payload :: "canonical_value option \<Rightarrow> int \<Rightarrow> int res" where
  "copy_payload payload remaining =
     rbind (visit 1 remaining)
       (\<lambda>r. case payload of
              None \<Rightarrow> Inr r
            | Some c \<Rightarrow> rbind (visit 1 r)
                (\<lambda>r. rbind (retained c (canonical_value_init (canonical_text c))) (\<lambda>_. Inr r)))"

definition rebuild_epistemic :: "epistemic_record \<Rightarrow> epistemic_record res" where
  "rebuild_epistemic e =
     rbind (case ep_value e of
              None \<Rightarrow> Inr None
            | Some c \<Rightarrow> rbind (to_value c) (\<lambda>j. Inr (Some (of_json j))))
       (\<lambda>v. epistemic_init (ep_key e) (ep_class e) v (ep_dependencies e) (ep_provenance e))"

definition copy_epistemic :: "epistemic_record \<Rightarrow> int \<Rightarrow> int res" where
  "copy_epistemic e remaining =
     rbind (visit 3 remaining)
       (\<lambda>r. rbind (visit_texts max_epistemic_dependencies (ep_dependencies e) r)
       (\<lambda>r. rbind (copy_provenance (ep_provenance e) r)
       (\<lambda>r. rbind (copy_payload (ep_value e) r)
       (\<lambda>r. rbind (retained e (rebuild_epistemic e)) (\<lambda>_. Inr r)))))"

definition copy_epistemic_state :: "epistemic_state \<Rightarrow> int \<Rightarrow> int res" where
  "copy_epistemic_state s remaining =
     rbind (visit 1 remaining)
       (\<lambda>r. rbind (visit_tuple max_epistemic_records copy_epistemic (records s) r)
       (\<lambda>r. rbind (visit 1 r)
       (\<lambda>r. rbind (retained s (epistemic_state_init (records s) (max_records s))) (\<lambda>_. Inr r))))"

definition copy_capability :: "capability \<Rightarrow> int \<Rightarrow> int res" where
  "copy_capability c remaining =
     rbind (visit 6 remaining)
       (\<lambda>r. rbind (visit_texts max_state_keys_per_declaration (cap_required_state_keys c) r)
       (\<lambda>r. rbind (visit_texts max_capability_arguments (semantic_argument_keys c) r)
       (\<lambda>r. rbind (visit 1 r)
       (\<lambda>r. rbind (retained c (capability_init c)) (\<lambda>_. Inr r)))))"

definition copy_ownership :: "occurrence_ownership \<Rightarrow> int \<Rightarrow> int res" where
  "copy_ownership w remaining =
     rbind (visit 4 remaining) (\<lambda>r. rbind (retained w (occurrence_ownership_init w)) (\<lambda>_. Inr r))"

definition copy_parameter_spec :: "parameter_spec \<Rightarrow> int \<Rightarrow> int res" where
  "copy_parameter_spec p remaining =
     rbind (visit 6 remaining)
       (\<lambda>r. rbind (visit_texts max_strategy_symbol_list_items (allowed_symbols p) r)
       (\<lambda>r. rbind (retained p (parameter_spec_init p)) (\<lambda>_. Inr r)))"

definition copy_schema :: "strategy_schema \<Rightarrow> int \<Rightarrow> int res" where
  "copy_schema x remaining =
     rbind (visit 2 remaining)
       (\<lambda>r. rbind (visit_tuple max_strategy_parameters copy_parameter_spec (parameter_specs x) r)
       (\<lambda>r. rbind (visit 1 r)
       (\<lambda>r. rbind (retained x (strategy_schema_init x)) (\<lambda>_. Inr r))))"

definition copy_limits :: "orchestration_limits \<Rightarrow> int \<Rightarrow> int res" where
  "copy_limits l remaining =
     rbind (visit 8 remaining) (\<lambda>r. rbind (retained l (orchestration_limits_init l)) (\<lambda>_. Inr r))"

definition copy_state :: "digest \<Rightarrow> orchestration_state \<Rightarrow> int \<Rightarrow> int res" where
  "copy_state H s remaining =
     rbind (visit 1 remaining)
       (\<lambda>r. rbind (copy_registry H (os_obligations s) r)
       (\<lambda>r. rbind (copy_epistemic_state (os_epistemic s) r)
       (\<lambda>r. rbind (visit_tuple max_capabilities_limit copy_capability (os_capabilities s) r)
       (\<lambda>r. rbind (copy_limits (os_limits s) r)
       (\<lambda>r. rbind (visit 1 r)
       (\<lambda>r. rbind (visit_texts max_history_events (os_history s) r)
       (\<lambda>r. rbind (visit_tuple max_occurrence_owners_limit copy_ownership (os_owners s) r)
       (\<lambda>r. rbind (visit_tuple max_strategy_schemas_limit copy_schema (os_schemas s) r)
       (\<lambda>r. rbind (retained s (orchestration_state_init s)) (\<lambda>_. Inr r))))))))))"

definition validate_orchestration_authority :: "digest \<Rightarrow> orchestration_state \<Rightarrow> unit res" where
  "validate_orchestration_authority H s =
     rbind (copy_state H s max_authority_nodes) (\<lambda>_. Inr ())"

definition bounded_texts :: "int \<Rightarrow> 'a list \<Rightarrow> unit res" where
  "bounded_texts limit xs = guard (int (length xs) \<le> limit) (ValueErr ''exceeds its bound'')"

text \<open>The parameters of a strategy are compared as parsed JSON, whose members are in key order.\<close>

definition validate_strategy_authority :: "strategy \<Rightarrow> unit res" where
  "validate_strategy_authority st =
     (let x = strategy_schema_of st in
      rbind (bounded_texts max_strategy_parameters (parameter_specs x))
        (\<lambda>_. rbind (for_each (\<lambda>p. bounded_texts max_strategy_symbol_list_items (allowed_symbols p)) (parameter_specs x))
        (\<lambda>_. rbind (for_each (\<lambda>p. rbind (parameter_spec_init p)
                  (\<lambda>q. guard (q = p) (ValueErr ''strategy parameter spec must retain canonical order'')))
                  (parameter_specs x))
        (\<lambda>_. rbind (strategy_schema_init x)
        (\<lambda>y. rbind (guard (y = x) (ValueErr ''strategy schema must retain canonical order''))
        (\<lambda>_. rbind (canonical_value_init (canonical_text (strategy_parameters st)))
        (\<lambda>_. rbind (require_symbol (strategy_key st))
        (\<lambda>_. rbind (guard (schema_key x = strategy_key st) (ValueErr ''strategy key must match its schema''))
        (\<lambda>_. rbind (to_value (strategy_parameters st))
        (\<lambda>j. rbind (normalize_parameters x (of_json j))
        (\<lambda>v. rbind (to_json v)
        (\<lambda>k. guard (canon k = canon j)
               (ValueErr ''strategy parameters must retain their admitted form'')))))))))))))"

section \<open>Bounded identity lists\<close>

definition check_entries :: "(pystr \<Rightarrow> pystr res) \<Rightarrow> bool \<Rightarrow> bool \<Rightarrow> int \<Rightarrow> pystr list \<Rightarrow> pystr list res" where
  "check_entries entry sorting unique limit xs =
     rbind (materialize limit xs)
       (\<lambda>active. rbind (for_each entry active)
       (\<lambda>_. rbind (guard (\<not> unique \<or> distinct active) (ValueErr ''must be unique''))
       (\<lambda>_. Inr (if sorting then sort active else active))))"

definition require_fingerprints :: "bool \<Rightarrow> bool \<Rightarrow> int \<Rightarrow> pystr list \<Rightarrow> pystr list res" where
  "require_fingerprints = check_entries require_fingerprint"

definition require_symbols :: "int \<Rightarrow> pystr list \<Rightarrow> pystr list res" where
  "require_symbols = check_entries require_symbol True True"

section \<open>Native snapshots\<close>

text \<open>What the native session reports; the history holds transition identities, the latest last.\<close>

record runtime_limits =
  rl_max_requests :: int
  rl_max_executions :: int
  rl_max_retries :: int
  rl_max_history :: int

record continuation_snapshot =
  ns_task_id :: pystr
  ns_governance_id :: pystr
  ns_governance_receipt_id :: pystr
  ns_policy_id :: pystr
  ns_policy_receipt_id :: pystr
  ns_contract_id :: pystr
  ns_cumulative_granted :: budget_vector
  ns_total_ceiling :: budget_vector
  ns_applied_grant_ids :: "pystr list"
  ns_leases_applied :: int
  ns_next_lease_index :: int

record runtime_snapshot =
  rs_session_id :: pystr
  rs_state_id :: pystr
  rs_logical_tick :: int
  rs_requests :: int
  rs_executions :: int
  rs_cache_hits :: int
  rs_retries :: int
  rs_history :: "pystr list"
  rs_cache :: "(pystr \<times> pystr) list"
  rs_limits :: runtime_limits
  rs_continuation :: "continuation_snapshot option"

section \<open>Cycle evidence\<close>

definition cycle_evidence_version :: pystr where "cycle_evidence_version = lit ''IBAE-CYCLE-EVIDENCE-V1''"

record cycle_evidence =
  cy_session_id :: pystr
  cy_state_id :: pystr
  cy_period :: int
  cy_pattern :: "pystr list"

definition cycle_evidence_init :: "cycle_evidence \<Rightarrow> cycle_evidence res" where
  "cycle_evidence_init e =
     rbind (require_fingerprint (cy_session_id e))
       (\<lambda>_. rbind (require_fingerprint (cy_state_id e))
       (\<lambda>_. rbind (guard (cy_period e \<in> {1, 2, 3}) (ValueErr ''cycle period must be the exact integer 1, 2, or 3''))
       (\<lambda>_. rbind (require_fingerprints False False 3 (cy_pattern e))
       (\<lambda>pattern. rbind (guard (int (length pattern) = cy_period e)
                 (ValueErr ''cycle pattern length must equal its period''))
       (\<lambda>_. Inr (e \<lparr> cy_pattern := pattern \<rparr>))))))"

definition cycle_evidence_validate :: "cycle_evidence \<Rightarrow> unit res" where
  "cycle_evidence_validate e =
     rbind (for_each require_fingerprint [cy_session_id e, cy_state_id e])
       (\<lambda>_. rbind (guard (cy_period e \<in> {1, 2, 3}) (ValueErr ''cycle period must remain an exact supported integer''))
       (\<lambda>_. rbind (bounded_texts 3 (cy_pattern e))
       (\<lambda>_. rbind (guard (int (length (cy_pattern e)) = cy_period e)
                 (ValueErr ''cycle pattern length must equal its period''))
       (\<lambda>_. for_each require_fingerprint (cy_pattern e)))))"

fun find_cycle :: "pystr list \<Rightarrow> nat list \<Rightarrow> nat option" where
  "find_cycle history [] = None"
| "find_cycle history (period # periods) =
     (if length history < period * 2 then find_cycle history periods
      else if take period (take_last (period * 2) history) = take_last period history then Some period
      else find_cycle history periods)"

definition cycle_from_snapshot :: "runtime_snapshot \<Rightarrow> cycle_evidence option res" where
  "cycle_from_snapshot snap =
     (case find_cycle (rs_history snap) [1, 2, 3] of
        None \<Rightarrow> Inr None
      | Some period \<Rightarrow>
          rbind (cycle_evidence_init
                   \<lparr> cy_session_id = rs_session_id snap, cy_state_id = rs_state_id snap,
                     cy_period = int period, cy_pattern = take_last period (rs_history snap) \<rparr>)
            (\<lambda>e. Inr (Some e)))"

definition cycle_evidence_record :: "cycle_evidence \<Rightarrow> json res" where
  "cycle_evidence_record e =
     rbind (cycle_evidence_validate e)
       (\<lambda>_. Inr (JObj [(lit ''period'', JInt (cy_period e)),
                       (lit ''protocol_version'', JStr cycle_evidence_version),
                       (lit ''runtime_session_id'', JStr (cy_session_id e)),
                       (lit ''runtime_state_id'', JStr (cy_state_id e)),
                       (lit ''transition_pattern'', str_list (cy_pattern e))]))"

definition cycle_evidence_id :: "digest \<Rightarrow> cycle_evidence \<Rightarrow> pystr res" where
  "cycle_evidence_id H e =
     rbind (cycle_evidence_record e) (\<lambda>j. Inr (domain_id H ''ibae.cycle-evidence-id.v1'' j))"

definition optional_cycle_id :: "digest \<Rightarrow> cycle_evidence option \<Rightarrow> pystr option res" where
  "optional_cycle_id H e =
     (case e of None \<Rightarrow> Inr None | Some c \<Rightarrow> rbind (cycle_evidence_id H c) (\<lambda>i. Inr (Some i)))"

definition reproduces :: "cycle_evidence \<Rightarrow> pystr list \<Rightarrow> bool" where
  "reproduces e proposed \<longleftrightarrow>
     proposed \<noteq> [] \<and> \<not> int (length proposed) < cy_period e \<and>
     list_all (\<lambda>(i, t). t = cy_pattern e ! (i mod nat (cy_period e))) (enumerate 0 proposed)"

section \<open>The structured meaning of a strategy\<close>

record strategy_material =
  sm_strategy :: strategy
  sm_frontier :: "pystr list"
  sm_targets :: "pystr list"
  sm_path :: "pystr list"
  sm_recovery_mode :: pystr
  sm_pattern :: "pystr list"
  sm_description :: pystr

definition strategy_material_init :: "strategy_material \<Rightarrow> strategy_material res" where
  "strategy_material_init m =
     rbind (require_symbols max_strategy_frontier (sm_frontier m))
       (\<lambda>frontier. rbind (require_fingerprints True True max_strategy_targets (sm_targets m))
       (\<lambda>targets. rbind (guard (targets \<noteq> []) (ValueErr ''recovery strategy requires at least one target obligation''))
       (\<lambda>_. rbind (require_fingerprints False True max_dependency_path (sm_path m))
       (\<lambda>path. rbind (require_fingerprints False False max_transition_pattern (sm_pattern m))
       (\<lambda>pattern. rbind (require_symbol (sm_recovery_mode m))
       (\<lambda>_. rbind (require_text (sm_description m))
       (\<lambda>_. Inr (m \<lparr> sm_frontier := frontier, sm_targets := targets, sm_path := path,
                     sm_pattern := pattern \<rparr>))))))))"

definition strategy_material_validate :: "strategy_material \<Rightarrow> unit res" where
  "strategy_material_validate m =
     rbind (validate_strategy_authority (sm_strategy m))
       (\<lambda>_. rbind (for_each (\<lambda>(limit, xs). bounded_texts limit xs)
                 [(max_strategy_frontier, sm_frontier m), (max_strategy_targets, sm_targets m),
                  (max_dependency_path, sm_path m), (max_transition_pattern, sm_pattern m)])
       (\<lambda>_. rbind (require_symbol (sm_recovery_mode m))
       (\<lambda>_. rbind (require_text (sm_description m))
       (\<lambda>_. rbind (guard (sm_targets m \<noteq> []) (ValueErr ''recovery strategy requires a target''))
       (\<lambda>_. rbind (for_each (\<lambda>xs. guard (sorted_set xs = xs) (ValueErr ''strategy sets must retain sorted unique form''))
                 [sm_frontier m, sm_targets m])
       (\<lambda>_. rbind (guard (distinct (sm_path m)) (ValueErr ''strategy dependency path must remain unique''))
       (\<lambda>_. rbind (for_each require_symbol (sm_frontier m))
       (\<lambda>_. for_each require_fingerprint (sm_targets m @ sm_path m @ sm_pattern m)))))))))"

definition semantic_difference :: "strategy_material \<Rightarrow> json" where
  "semantic_difference m =
     JObj [(lit ''capability_frontier'', str_list (sm_frontier m)),
           (lit ''dependency_path'', str_list (sm_path m)),
           (lit ''initial_transition_pattern'', str_list (sm_pattern m)),
           (lit ''recovery_mode'', JStr (sm_recovery_mode m)),
           (lit ''target_obligation_ids'', str_list (sm_targets m))]"

definition semantic_difference_record :: "strategy_material \<Rightarrow> json res" where
  "semantic_difference_record m = rbind (strategy_material_validate m) (\<lambda>_. Inr (semantic_difference m))"

definition strategy_material_identity :: "digest \<Rightarrow> strategy_material \<Rightarrow> json res" where
  "strategy_material_identity H m =
     rbind (strategy_material_validate m)
       (\<lambda>_. Inr (JObj [(lit ''capability_frontier'', str_list (sm_frontier m)),
                       (lit ''dependency_path'', str_list (sm_path m)),
                       (lit ''initial_transition_pattern'', str_list (sm_pattern m)),
                       (lit ''recovery_mode'', JStr (sm_recovery_mode m)),
                       (lit ''strategy_id'', JStr (strategy_id H (sm_strategy m))),
                       (lit ''target_obligation_ids'', str_list (sm_targets m))]))"

definition strategy_material_id :: "digest \<Rightarrow> strategy_material \<Rightarrow> pystr res" where
  "strategy_material_id H m =
     rbind (strategy_material_identity H m) (\<lambda>j. Inr (domain_id H ''ibae.strategy-material-id.v1'' j))"

definition strategy_material_record :: "digest \<Rightarrow> strategy_material \<Rightarrow> json res" where
  "strategy_material_record H m =
     rbind (strategy_material_validate m)
       (\<lambda>_. rbind (strategy_material_id H m)
       (\<lambda>i. Inr (JObj [(lit ''capability_frontier'', str_list (sm_frontier m)),
                       (lit ''dependency_path'', str_list (sm_path m)),
                       (lit ''initial_transition_pattern'', str_list (sm_pattern m)),
                       (lit ''recovery_mode'', JStr (sm_recovery_mode m)),
                       (lit ''strategy_id'', JStr (strategy_id H (sm_strategy m))),
                       (lit ''strategy_material_id'', JStr i),
                       (lit ''target_obligation_ids'', str_list (sm_targets m))])))"

section \<open>The decision\<close>

definition strategy_change_version :: pystr where "strategy_change_version = lit ''IBAE-STRATEGY-CHANGE-V1''"

datatype strategy_change_status = ChangeAdmitted | ChangeRejected

fun change_status_value :: "strategy_change_status \<Rightarrow> pystr" where
  "change_status_value ChangeAdmitted = lit ''admitted''"
| "change_status_value ChangeRejected = lit ''rejected''"

datatype strategy_change_reason =
    AdmittedMaterialChange | SameStrategyIdentity | NotMaterial | InvalidActiveSchema
  | UnknownFrontierCapability | UnknownTargetObligation | CycleEquivalent

fun change_reason_value :: "strategy_change_reason \<Rightarrow> pystr" where
  "change_reason_value AdmittedMaterialChange = lit ''IBAE-STRATEGY-ADMIT-MATERIAL-CHANGE''"
| "change_reason_value SameStrategyIdentity = lit ''IBAE-STRATEGY-REJECT-SAME-IDENTITY''"
| "change_reason_value NotMaterial = lit ''IBAE-STRATEGY-REJECT-NOT-MATERIAL''"
| "change_reason_value InvalidActiveSchema = lit ''IBAE-STRATEGY-REJECT-INVALID-ACTIVE-SCHEMA''"
| "change_reason_value UnknownFrontierCapability = lit ''IBAE-STRATEGY-REJECT-UNKNOWN-CAPABILITY''"
| "change_reason_value UnknownTargetObligation = lit ''IBAE-STRATEGY-REJECT-UNKNOWN-TARGET''"
| "change_reason_value CycleEquivalent = lit ''IBAE-STRATEGY-REJECT-CYCLE-EQUIVALENT''"

text \<open>\<open>any(...)\<close> over a generator whose condition may raise.\<close>

fun any_res :: "('a \<Rightarrow> bool res) \<Rightarrow> 'a list \<Rightarrow> bool res" where
  "any_res p [] = Inr False"
| "any_res p (x # xs) = rbind (p x) (\<lambda>b. if b then Inr True else any_res p xs)"

definition capability_unavailable :: "orchestration_state \<Rightarrow> pystr \<Rightarrow> bool res" where
  "capability_unavailable s name =
     rbind (find_capability s name)
       (\<lambda>found. Inr (case found of None \<Rightarrow> True | Some c \<Rightarrow> \<not> available c))"

definition derive_strategy_change_reason ::
  "digest \<Rightarrow> orchestration_state \<Rightarrow> strategy_material \<Rightarrow> strategy_material \<Rightarrow> cycle_evidence option \<Rightarrow>
   strategy_change_reason res"
where
  "derive_strategy_change_reason H s prior proposed cycle =
     rbind (find_schema s (strategy_key (sm_strategy proposed))) (\<lambda>active.
       if (case active of None \<Rightarrow> True
           | Some x \<Rightarrow> schema_id H x \<noteq> schema_id H (strategy_schema_of (sm_strategy proposed)))
       then Inr InvalidActiveSchema
       else if strategy_id H (sm_strategy proposed) = strategy_id H (sm_strategy prior)
       then Inr SameStrategyIdentity
       else rbind (semantic_difference_record proposed) (\<lambda>new. rbind (semantic_difference_record prior) (\<lambda>old.
         if new = old then Inr NotMaterial
         else rbind (any_res (capability_unavailable s) (sm_frontier proposed)) (\<lambda>missing.
           if missing then Inr UnknownFrontierCapability
           else if \<not> set (sm_targets proposed) \<subseteq> set (known_ids H (os_obligations s))
           then Inr UnknownTargetObligation
           else if (case cycle of None \<Rightarrow> False | Some c \<Rightarrow> reproduces c (sm_pattern proposed))
           then Inr CycleEquivalent
           else Inr AdmittedMaterialChange))))"

definition status_of_reason :: "strategy_change_reason \<Rightarrow> strategy_change_status" where
  "status_of_reason r = (if r = AdmittedMaterialChange then ChangeAdmitted else ChangeRejected)"

section \<open>Receipts\<close>

record strategy_change_receipt =
  sc_task_id :: pystr
  sc_governance_id :: pystr
  sc_state_id :: pystr
  sc_prior_material_id :: pystr
  sc_proposed_material_id :: pystr
  sc_proposed_strategy_id :: pystr
  sc_status :: strategy_change_status
  sc_reason :: strategy_change_reason
  sc_state :: orchestration_state
  sc_prior :: strategy_material
  sc_proposed :: strategy_material
  sc_cycle :: "cycle_evidence option"
  sc_cycle_evidence_id :: "pystr option"

definition strategy_change_validate_bound :: "digest \<Rightarrow> strategy_change_receipt \<Rightarrow> unit res" where
  "strategy_change_validate_bound H r =
     rbind (validate_orchestration_authority H (sc_state r))
       (\<lambda>_. rbind (strategy_material_validate (sc_prior r))
       (\<lambda>_. rbind (strategy_material_validate (sc_proposed r))
       (\<lambda>_. rbind (case sc_cycle r of None \<Rightarrow> Inr () | Some c \<Rightarrow> cycle_evidence_validate c)
       (\<lambda>_. rbind (derive_strategy_change_reason H (sc_state r) (sc_prior r) (sc_proposed r) (sc_cycle r))
       (\<lambda>reason. rbind (optional_cycle_id H (sc_cycle r))
       (\<lambda>cycle_id. rbind (strategy_material_id H (sc_prior r))
       (\<lambda>prior_id. rbind (strategy_material_id H (sc_proposed r))
       (\<lambda>proposed_id. guard
           (sc_state_id r = state_id H (sc_state r) \<and> sc_prior_material_id r = prior_id \<and>
            sc_proposed_material_id r = proposed_id \<and>
            sc_proposed_strategy_id r = strategy_id H (sm_strategy (sc_proposed r)) \<and>
            sc_cycle_evidence_id r = cycle_id \<and> sc_reason r = reason \<and> sc_status r = status_of_reason reason)
           (ValueErr ''strategy change claims do not match bound material'')))))))))"

definition strategy_change_validate :: "strategy_change_receipt \<Rightarrow> unit res" where
  "strategy_change_validate r =
     rbind (for_each require_fingerprint
              [sc_task_id r, sc_governance_id r, sc_state_id r, sc_prior_material_id r,
               sc_proposed_material_id r, sc_proposed_strategy_id r])
       (\<lambda>_. require_optional_fingerprint (sc_cycle_evidence_id r))"

definition strategy_change_init :: "digest \<Rightarrow> strategy_change_receipt \<Rightarrow> strategy_change_receipt res" where
  "strategy_change_init H r =
     rbind (strategy_change_validate r)
       (\<lambda>_. rbind (guard ((sc_status r = ChangeAdmitted) = (sc_reason r = AdmittedMaterialChange))
                 (ValueErr ''strategy change status and reason are inconsistent''))
       (\<lambda>_. rbind (strategy_change_validate_bound H r) (\<lambda>_. Inr r)))"

definition strategy_change_record :: "digest \<Rightarrow> strategy_change_receipt \<Rightarrow> json res" where
  "strategy_change_record H r =
     rbind (strategy_change_validate r)
       (\<lambda>_. rbind (strategy_change_validate_bound H r)
       (\<lambda>_. Inr (JObj
          [(lit ''authority_layer'', JStr (lit ''orchestration'')),
           (lit ''cycle_evidence_id'', opt_str (sc_cycle_evidence_id r)),
           (lit ''governance_id'', JStr (sc_governance_id r)),
           (lit ''orchestration_state_id'', JStr (sc_state_id r)),
           (lit ''prior_strategy_material_id'', JStr (sc_prior_material_id r)),
           (lit ''proposed_strategy_id'', JStr (sc_proposed_strategy_id r)),
           (lit ''proposed_strategy_material_id'', JStr (sc_proposed_material_id r)),
           (lit ''protocol_version'', JStr strategy_change_version),
           (lit ''reason'', JStr (change_reason_value (sc_reason r))),
           (lit ''status'', JStr (change_status_value (sc_status r))),
           (lit ''task_id'', JStr (sc_task_id r))])))"

definition strategy_change_id :: "digest \<Rightarrow> strategy_change_receipt \<Rightarrow> pystr res" where
  "strategy_change_id H r =
     rbind (strategy_change_record H r) (\<lambda>j. Inr (domain_id H ''ibae.strategy-change-id.v1'' j))"

definition evaluate_strategy_change ::
  "digest \<Rightarrow> pystr \<Rightarrow> pystr \<Rightarrow> orchestration_state \<Rightarrow> strategy_material \<Rightarrow> strategy_material \<Rightarrow>
   cycle_evidence option \<Rightarrow> strategy_change_receipt res"
where
  "evaluate_strategy_change H task governance s prior proposed cycle =
     rbind (require_fingerprint task)
       (\<lambda>_. rbind (require_fingerprint governance)
       (\<lambda>_. rbind (validate_orchestration_authority H s)
       (\<lambda>_. rbind (strategy_material_validate prior)
       (\<lambda>_. rbind (strategy_material_validate proposed)
       (\<lambda>_. rbind (case cycle of None \<Rightarrow> Inr () | Some c \<Rightarrow> cycle_evidence_validate c)
       (\<lambda>_. rbind (derive_strategy_change_reason H s prior proposed cycle)
       (\<lambda>reason. rbind (strategy_material_id H prior)
       (\<lambda>prior_id. rbind (strategy_material_id H proposed)
       (\<lambda>proposed_id. rbind (optional_cycle_id H cycle)
       (\<lambda>cycle_id. strategy_change_init H
          \<lparr> sc_task_id = task, sc_governance_id = governance, sc_state_id = state_id H s,
            sc_prior_material_id = prior_id, sc_proposed_material_id = proposed_id,
            sc_proposed_strategy_id = strategy_id H (sm_strategy proposed),
            sc_status = status_of_reason reason, sc_reason = reason, sc_state = s, sc_prior = prior,
            sc_proposed = proposed, sc_cycle = cycle, sc_cycle_evidence_id = cycle_id \<rparr>))))))))))"

section \<open>Valid states pass the revalidation\<close>

text \<open>\<open>costs f k\<close>: with \<open>k\<close> nodes left the walk \<open>f\<close> ends normally and uses at most \<open>k\<close> of them.\<close>

definition costs :: "(int \<Rightarrow> int res) \<Rightarrow> int \<Rightarrow> bool" where
  "costs f k \<longleftrightarrow> 0 \<le> k \<and> (\<forall>r. k \<le> r \<longrightarrow> (\<exists>j. 0 \<le> j \<and> j \<le> k \<and> f r = Inr (r - j)))"

named_theorems costs \<open>bounds on the nodes a walk visits\<close>

lemma costs_mono: "costs f k \<Longrightarrow> k \<le> l \<Longrightarrow> costs f l"
  unfolding costs_def by (meson order_trans)

lemma costs_visit [costs]: "0 \<le> k \<Longrightarrow> costs (visit k) k"
  by (auto simp: costs_def visit_def)

lemma costs_seq [costs]:
  assumes "costs f k" and "costs g l"
  shows "costs (\<lambda>r. rbind (f r) g) (k + l)"
  unfolding costs_def
proof (intro conjI allI impI)
  show "0 \<le> k + l" using assms by (simp add: costs_def)
  fix r assume "k + l \<le> r"
  moreover from this assms have "k \<le> r" by (simp add: costs_def)
  then obtain i where i: "0 \<le> i" "i \<le> k" "f r = Inr (r - i)" using assms(1) unfolding costs_def by blast
  moreover have "l \<le> r - i" using \<open>k + l \<le> r\<close> i by simp
  then obtain j where "0 \<le> j" "j \<le> l" "g (r - i) = Inr (r - i - j)" using assms(2) unfolding costs_def by blast
  ultimately show "\<exists>j. 0 \<le> j \<and> j \<le> k + l \<and> rbind (f r) g = Inr (r - j)"
    by (intro exI [of _ "i + j"]) simp
qed

lemma costs_retained [costs]: "c = Inr x \<Longrightarrow> costs (\<lambda>r. rbind (retained x c) (\<lambda>_. Inr r)) 0"
  by (simp add: costs_def retained_def)

lemma costs_length: "int (length xs) \<le> cap \<Longrightarrow> costs (visit_length cap xs) 1"
  by (auto simp: costs_def visit_length_def visit_def)

lemma costs_texts [costs]: "int (length xs) \<le> cap \<Longrightarrow> costs (visit_texts cap xs) (1 + cap)"
  unfolding visit_texts_def by (rule costs_mono, rule costs_seq, rule costs_length, assumption, rule costs_visit) simp_all

lemma costs_each:
  assumes "\<forall>x \<in> set xs. costs (f x) k" and "0 \<le> k"
  shows "costs (visit_each f xs) (int (length xs) * k)"
  using assms(1)
proof (induction xs)
  case Nil
  then show ?case by (simp add: costs_def)
next
  case (Cons x xs)
  then have "costs (\<lambda>r. rbind (f x r) (visit_each f xs)) (k + int (length xs) * k)"
    by (intro costs_seq) simp_all
  then show ?case by (simp add: algebra_simps)
qed

lemma costs_tuple:
  assumes "\<forall>x \<in> set xs. costs (f x) k" and "0 \<le> k" and "int (length xs) \<le> cap"
  shows "costs (visit_tuple cap f xs) (1 + cap * k)"
proof -
  have "costs (visit_tuple cap f xs) (1 + int (length xs) * k)"
    unfolding visit_tuple_def using costs_seq [OF costs_length [OF assms(3)] costs_each [OF assms(1,2)]] .
  moreover have "int (length xs) * k \<le> cap * k" using assms by (intro mult_right_mono) auto
  ultimately show ?thesis by (auto intro: costs_mono)
qed

lemmas node_limits = max_obligation_dependencies_def max_epistemic_dependencies_def protocol_limit_defs

lemma obligation_cost: "obligation_ok H ob \<Longrightarrow> costs (copy_obligation H ob) (6 + max_obligation_dependencies)"
  unfolding copy_obligation_def
  by (rule costs_mono [OF costs_seq [OF costs_visit costs_seq [OF costs_texts costs_seq [OF costs_visit
        costs_retained [OF obligation_init_ok]]]]]) (simp_all add: obligation_ok_def)

lemma registry_cost:
  assumes "registry_ok H g"
  shows "costs (copy_registry H g) (3 + max_obligations_limit * (6 + max_obligation_dependencies))"
proof -
  have each: "\<forall>ob \<in> set (obligations g). costs (copy_obligation H ob) (6 + max_obligation_dependencies)"
    using assms obligation_cost by (auto simp: registry_ok_def list_all_iff)
  have "registry_init H (obligations g) (max_obligations g) = Inr g"
    using assms by (subst registry_init_Inr) (simp_all add: registry_ok_def known_ids_def sort_key_id)
  moreover have "int (length (obligations g)) \<le> max_obligations_limit" using assms by (simp add: registry_ok_def)
  ultimately show ?thesis
    unfolding copy_registry_def
    by (intro costs_mono [OF costs_seq [OF costs_visit costs_seq [OF costs_tuple [OF each] costs_seq [OF costs_visit
          costs_retained]]]]) (simp_all add: node_limits)
qed

text \<open>What the constructors of the parts accept, below what \<open>ostate_ok\<close> records.\<close>

definition parts_canonical :: "orchestration_state \<Rightarrow> bool" where
  "parts_canonical s \<longleftrightarrow>
     (\<forall>e \<in> set (records (os_epistemic s)). \<forall>p. ep_provenance e = Some p \<longrightarrow> provenance_init p = Inr p) \<and>
     (\<forall>x \<in> set (os_schemas s). strategy_schema_init x = Inr x \<and>
        (\<forall>p \<in> set (parameter_specs x). parameter_spec_init p = Inr p))"

lemma stored_value_rebuilds:
  assumes "canonical_value_init (canonical_text c) = Inr c"
  shows "\<exists>j. to_value c = Inr j \<and> canonical_value_from_value (of_json j) = Inr c"
proof -
  from assms obtain d j where *: "c = \<lparr> canonical_text = canonical_text c \<rparr>" "json_loads (canonical_text c) = Inr d"
    "normalize_bounded_json value_profile (of_json d) = Inr j" "canonical_json (of_json j) = Inr (canonical_text c)"
    by (auto simp: canonical_value_init_def validate_text_def res_simps)
  have "j = d" using *(3) by (auto simp: normalize_bounded_json_def res_simps dest: normalize_of_json(1))
  then have "canonical_value_from_value (of_json d) = validate_text value_profile (canonical_text c)"
    using * by (simp add: canonical_value_from_value_def text_from_value_def)
  then show ?thesis using assms * by (simp add: to_value_def canonical_value_init_def)
qed

lemma rebuild_epistemic_ok:
  assumes "epistemic_ok e"
  shows "rebuild_epistemic e = Inr e"
proof (cases "ep_value e")
  case None
  then show ?thesis
    using assms
    by (auto simp: rebuild_epistemic_def epistemic_init_def epistemic_ok_def class_links_ok_def check_class_links_def
        canonical_class_value_def require_total materialize_ok sort_key_id for_each_total max_epistemic_dependencies_def
        max_epistemic_records_def list_all_iff Let_def)
next
  case (Some c)
  then have "canonical_value_init (canonical_text c) = Inr c" using assms by (simp add: epistemic_ok_def)
  from stored_value_rebuilds [OF this] obtain j where
    j: "to_value c = Inr j" "canonical_value_from_value (of_json j) = Inr c" by blast
  have "ep_class e \<noteq> Unknown" using assms Some by (simp add: epistemic_ok_def class_links_ok_def)
  then show ?thesis
    using assms Some j
    by (auto simp: rebuild_epistemic_def epistemic_init_def epistemic_ok_def class_links_ok_def check_class_links_def
        canonical_class_value_def require_total materialize_ok sort_key_id for_each_total max_epistemic_dependencies_def
        max_epistemic_records_def list_all_iff Let_def)
qed

lemma provenance_cost:
  assumes "\<forall>p. prov = Some p \<longrightarrow> provenance_init p = Inr p"
  shows "costs (copy_provenance prov) 5"
proof (cases prov)
  case None
  then show ?thesis
    using costs_mono [OF costs_visit, of 1 5] by (simp add: copy_provenance_def costs_def) fastforce
next
  case (Some p)
  then have "provenance_init p = Inr p" using assms by blast
  then have "costs (\<lambda>r. rbind (visit 1 r) (\<lambda>r. rbind (visit 4 r) (\<lambda>r. rbind (retained p (provenance_init p)) (\<lambda>_. Inr r)))) 5"
    by (intro costs_mono [OF costs_seq [OF costs_visit costs_seq [OF costs_visit costs_retained]]]) simp_all
  with Some show ?thesis by (simp add: copy_provenance_def [abs_def])
qed

lemma payload_cost:
  assumes "\<forall>c. payload = Some c \<longrightarrow> canonical_value_init (canonical_text c) = Inr c"
  shows "costs (copy_payload payload) 2"
proof (cases payload)
  case None
  then show ?thesis
    using costs_mono [OF costs_visit, of 1 2] by (simp add: copy_payload_def costs_def) fastforce
next
  case (Some c)
  then have "canonical_value_init (canonical_text c) = Inr c" using assms by blast
  then have "costs (\<lambda>r. rbind (visit 1 r) (\<lambda>r. rbind (visit 1 r)
      (\<lambda>r. rbind (retained c (canonical_value_init (canonical_text c))) (\<lambda>_. Inr r)))) 2"
    by (intro costs_mono [OF costs_seq [OF costs_visit costs_seq [OF costs_visit costs_retained]]]) simp_all
  with Some show ?thesis by (simp add: copy_payload_def [abs_def])
qed

lemma epistemic_cost:
  assumes "epistemic_ok e" and "\<forall>p. ep_provenance e = Some p \<longrightarrow> provenance_init p = Inr p"
  shows "costs (copy_epistemic e) (11 + max_epistemic_dependencies)"
proof -
  have "\<forall>c. ep_value e = Some c \<longrightarrow> canonical_value_init (canonical_text c) = Inr c"
    using assms(1) by (auto simp: epistemic_ok_def)
  from payload_cost [OF this] provenance_cost [OF assms(2)] rebuild_epistemic_ok [OF assms(1)] assms(1) show ?thesis
    unfolding copy_epistemic_def
    by (intro costs_mono [OF costs_seq [OF costs_visit costs_seq [OF costs_texts costs_seq [OF _ costs_seq [OF _
          costs_retained]]]]]) (assumption | simp add: epistemic_ok_def)+
qed

lemma epistemic_state_cost:
  assumes "state_ok s" and "\<forall>e \<in> set (records s). \<forall>p. ep_provenance e = Some p \<longrightarrow> provenance_init p = Inr p"
  shows "costs (copy_epistemic_state s) (3 + max_epistemic_records * (11 + max_epistemic_dependencies))"
proof -
  have each: "\<forall>e \<in> set (records s). costs (copy_epistemic e) (11 + max_epistemic_dependencies)"
    using assms epistemic_cost by (auto simp: state_ok_def list_all_iff)
  have "epistemic_state_init (records s) (max_records s) = Inr s"
    using assms(1) by (subst epistemic_state_init_Inr) (simp_all add: state_ok_def sort_key_id)
  moreover have "int (length (records s)) \<le> max_epistemic_records" using assms by (simp add: state_ok_def)
  ultimately show ?thesis
    unfolding copy_epistemic_state_def
    by (intro costs_mono [OF costs_seq [OF costs_visit costs_seq [OF costs_tuple [OF each] costs_seq [OF costs_visit
          costs_retained]]]]) (simp_all add: node_limits)
qed

lemma capability_cost:
  "capability_ok c \<Longrightarrow>
   costs (copy_capability c) (9 + max_state_keys_per_declaration + max_capability_arguments)"
  unfolding copy_capability_def
  by (rule costs_mono [OF costs_seq [OF costs_visit costs_seq [OF costs_texts costs_seq [OF costs_texts costs_seq [OF
        costs_visit costs_retained [OF capability_init_ok]]]]]]) (simp_all add: capability_ok_def node_limits)

lemma ownership_cost: "ownership_ok w \<Longrightarrow> costs (copy_ownership w) 4"
  unfolding copy_ownership_def
  by (rule costs_mono [OF costs_seq [OF costs_visit costs_retained]]) (simp_all add: occurrence_ownership_init_Inr)

lemma limits_cost: "limits_ok l \<Longrightarrow> costs (copy_limits l) 8"
  unfolding copy_limits_def
  by (rule costs_mono [OF costs_seq [OF costs_visit costs_retained]]) (simp_all add: orchestration_limits_init_Inr)

lemma parameter_spec_init_length:
  "parameter_spec_init p = Inr q \<Longrightarrow> int (length (allowed_symbols p)) \<le> max_strategy_symbol_list_items"
  by (auto simp: parameter_spec_init_def sorted_unique_def res_simps accept_simps)

lemma strategy_schema_init_length:
  "strategy_schema_init x = Inr y \<Longrightarrow> int (length (parameter_specs x)) \<le> max_strategy_parameters"
  by (auto simp: strategy_schema_init_def res_simps accept_simps Let_def)

lemma parameter_spec_cost:
  "parameter_spec_init p = Inr p \<Longrightarrow> costs (copy_parameter_spec p) (7 + max_strategy_symbol_list_items)"
  unfolding copy_parameter_spec_def
  by (rule costs_mono [OF costs_seq [OF costs_visit costs_seq [OF costs_texts costs_retained]]])
     (simp_all add: parameter_spec_init_length)

lemma schema_cost:
  assumes "strategy_schema_init x = Inr x" and "\<forall>p \<in> set (parameter_specs x). parameter_spec_init p = Inr p"
  shows "costs (copy_schema x) (4 + max_strategy_parameters * (7 + max_strategy_symbol_list_items))"
proof -
  have each: "\<forall>p \<in> set (parameter_specs x). costs (copy_parameter_spec p) (7 + max_strategy_symbol_list_items)"
    using assms(2) parameter_spec_cost by blast
  show ?thesis
    unfolding copy_schema_def
    by (rule costs_mono [OF costs_seq [OF costs_visit costs_seq [OF costs_tuple [OF each] costs_seq [OF costs_visit
          costs_retained [OF assms(1)]]]]])
       (use strategy_schema_init_length [OF assms(1)] in \<open>simp_all add: node_limits\<close>)
qed

lemma orchestration_state_init_id: "ostate_ok H s \<Longrightarrow> orchestration_state_init s = Inr s"
proof -
  assume ok: "ostate_ok H s"
  then have "canonical_lists s = s" "parts_ok H s"
    by (simp_all add: canonical_lists_def ostate_ok_def keyed_list_def sort_key_id parts_ok_def)
  with ok show ?thesis by (simp add: orchestration_state_init_Inr)
qed

lemma authority_total:
  assumes ok: "ostate_ok H s" and parts: "parts_canonical s"
  shows "validate_orchestration_authority H s = Inr ()"
proof -
  have lim: "limits_ok (os_limits s)" using ok by (simp add: ostate_ok_def)
  have caps: "\<forall>c \<in> set (os_capabilities s). costs (copy_capability c)
      (9 + max_state_keys_per_declaration + max_capability_arguments)"
    using ok capability_cost by (auto simp: ostate_ok_def list_all_iff)
  have owners: "\<forall>w \<in> set (os_owners s). costs (copy_ownership w) 4"
    using ok ownership_cost by (auto simp: ostate_ok_def list_all_iff)
  have schemas: "\<forall>x \<in> set (os_schemas s). costs (copy_schema x)
      (4 + max_strategy_parameters * (7 + max_strategy_symbol_list_items))"
    using parts schema_cost by (auto simp: parts_canonical_def)
  have lengths: "int (length (os_capabilities s)) \<le> max_capabilities_limit"
    "int (length (os_history s)) \<le> max_history_events" "int (length (os_owners s)) \<le> max_occurrence_owners_limit"
    "int (length (os_schemas s)) \<le> max_strategy_schemas_limit"
    using ok lim by (simp_all add: ostate_ok_def limits_ok_def keyed_list_def node_limits)
  have "costs (copy_state H s) max_authority_nodes"
    unfolding copy_state_def
    by (rule costs_mono [OF costs_seq [OF costs_visit costs_seq [OF registry_cost costs_seq [OF epistemic_state_cost
          costs_seq [OF costs_tuple [OF caps] costs_seq [OF limits_cost [OF lim] costs_seq [OF costs_visit costs_seq [OF
          costs_texts costs_seq [OF costs_tuple [OF owners] costs_seq [OF costs_tuple [OF schemas]
          costs_retained [OF orchestration_state_init_id [OF ok]]]]]]]]]]]])
       (use ok parts lengths in \<open>simp_all add: ostate_ok_def parts_canonical_def max_authority_nodes_def node_limits\<close>)
  then show ?thesis by (auto simp: costs_def validate_orchestration_authority_def)
qed

section \<open>What a material change is\<close>

definition repeats :: "pystr list \<Rightarrow> pystr list \<Rightarrow> bool" where
  "repeats w plan \<longleftrightarrow> length w \<le> length plan \<and> (\<forall>i < length plan. plan ! i = w ! (i mod length w))"

definition cycle_ok :: "cycle_evidence \<Rightarrow> bool" where
  "cycle_ok e \<longleftrightarrow> cycle_evidence_validate e = Inr ()"

definition material_ok :: "strategy_material \<Rightarrow> bool" where
  "material_ok m \<longleftrightarrow> strategy_material_validate m = Inr ()"

lemma cycle_okD:
  "cycle_ok e \<Longrightarrow> cy_period e = int (length (cy_pattern e)) \<and> cy_pattern e \<noteq> [] \<and> length (cy_pattern e) \<le> 3 \<and>
     is_fingerprint (cy_session_id e) \<and> is_fingerprint (cy_state_id e) \<and> list_all is_fingerprint (cy_pattern e)"
  by (auto simp: cycle_ok_def cycle_evidence_validate_def res_simps accept_simps bounded_texts_def list_all_iff)

lemma reproduces_iff: "cycle_ok e \<Longrightarrow> reproduces e plan \<longleftrightarrow> repeats (cy_pattern e) plan"
  using cycle_okD [of e]
  by (auto simp: reproduces_def repeats_def list_all_length nth_enumerate_eq)

definition material_change ::
  "digest \<Rightarrow> orchestration_state \<Rightarrow> strategy_material \<Rightarrow> strategy_material \<Rightarrow> cycle_evidence option \<Rightarrow> bool"
where
  "material_change H s prior proposed cycle \<longleftrightarrow>
     (\<exists>x \<in> set (os_schemas s). schema_key x = strategy_key (sm_strategy proposed) \<and>
        schema_id H x = schema_id H (strategy_schema_of (sm_strategy proposed))) \<and>
     strategy_id H (sm_strategy proposed) \<noteq> strategy_id H (sm_strategy prior) \<and>
     semantic_difference proposed \<noteq> semantic_difference prior \<and>
     (\<forall>name \<in> set (sm_frontier proposed). \<exists>c \<in> set (os_capabilities s). cap_name c = name \<and> available c) \<and>
     set (sm_targets proposed) \<subseteq> set (known_ids H (os_obligations s)) \<and>
     (\<forall>c. cycle = Some c \<longrightarrow> \<not> repeats (cy_pattern c) (sm_pattern proposed))"

lemma any_res_total: "(\<And>x. x \<in> set xs \<Longrightarrow> p x = Inr (q x)) \<Longrightarrow> any_res p xs = Inr (list_ex q xs)"
  by (induction xs) auto

lemma find_case:
  assumes "distinct (map f xs)"
  shows "(case find (\<lambda>x. f x = k) xs of None \<Rightarrow> True | Some y \<Rightarrow> \<not> P y) \<longleftrightarrow> \<not> (\<exists>y \<in> set xs. f y = k \<and> P y)"
  using assms
proof (induction xs)
  case (Cons x xs)
  have "y \<notin> set xs" if "f y = f x" for y
    using that Cons.prems by (metis image_eqI list.set_map distinct.simps(2) list.simps(9))
  then show ?case using Cons by auto
qed simp

lemma capability_unavailable_eq:
  assumes "ostate_ok H s" and "is_symbol name"
  shows "capability_unavailable s name = Inr (\<not> (\<exists>c \<in> set (os_capabilities s). cap_name c = name \<and> available c))"
  using find_case [of cap_name "os_capabilities s" available name] assms
  by (simp add: capability_unavailable_def find_capability_def require_total ostate_ok_def keyed_list_def)

lemma material_okD:
  "material_ok m \<Longrightarrow> is_symbol (strategy_key (sm_strategy m)) \<and> list_all is_symbol (sm_frontier m)"
  by (auto simp: material_ok_def strategy_material_validate_def validate_strategy_authority_def res_simps accept_simps
      list_all_iff Let_def)

lemma derive_reason_total:
  assumes s: "ostate_ok H s" and m: "material_ok prior" "material_ok proposed"
    and c: "\<forall>c. cycle = Some c \<longrightarrow> cycle_ok c"
  shows "\<exists>r. derive_strategy_change_reason H s prior proposed cycle = Inr r \<and>
    (r = AdmittedMaterialChange \<longleftrightarrow> material_change H s prior proposed cycle)"
proof -
  let ?key = "strategy_key (sm_strategy proposed)"
  have key: "is_symbol ?key" and frontier: "list_all is_symbol (sm_frontier proposed)"
    using material_okD [OF m(2)] by auto
  have d: "distinct (map schema_key (os_schemas s))" using s by (simp add: ostate_ok_def keyed_list_def)
  have active: "(case find (\<lambda>x. schema_key x = ?key) (os_schemas s) of None \<Rightarrow> True
        | Some x \<Rightarrow> schema_id H x \<noteq> schema_id H (strategy_schema_of (sm_strategy proposed))) \<longleftrightarrow>
      \<not> (\<exists>x \<in> set (os_schemas s). schema_key x = ?key \<and>
          schema_id H x = schema_id H (strategy_schema_of (sm_strategy proposed)))"
    by (rule find_case [OF d])
  have missing: "any_res (capability_unavailable s) (sm_frontier proposed) =
      Inr (list_ex (\<lambda>n. \<not> (\<exists>c \<in> set (os_capabilities s). cap_name c = n \<and> available c)) (sm_frontier proposed))"
    using frontier capability_unavailable_eq [OF s] by (intro any_res_total) (simp add: list_all_iff)
  have cyc: "(case cycle of None \<Rightarrow> False | Some c \<Rightarrow> reproduces c (sm_pattern proposed)) \<longleftrightarrow>
      (\<exists>c. cycle = Some c \<and> repeats (cy_pattern c) (sm_pattern proposed))"
    using c reproduces_iff by (auto split: option.splits)
  show ?thesis
    using m
    by (simp add: derive_strategy_change_reason_def find_schema_def require_total key active missing cyc
        semantic_difference_record_def material_ok_def material_change_def list_ex_iff)
qed


lemma strategy_material_id_total: "material_ok m \<Longrightarrow> \<exists>j. strategy_material_id H m = Inr (domain_id H ''ibae.strategy-material-id.v1'' j)"
  by (simp add: strategy_material_id_def strategy_material_identity_def material_ok_def) blast

lemma optional_cycle_id_total:
  assumes "\<forall>c. cycle = Some c \<longrightarrow> cycle_ok c" and "digest_ok H"
  shows "\<exists>i. optional_cycle_id H cycle = Inr i \<and> require_optional_fingerprint i = Inr ()"
  using assms
  by (cases cycle)
     (simp_all add: optional_cycle_id_def require_optional_fingerprint_def cycle_evidence_id_def cycle_evidence_record_def
        cycle_ok_def require_total domain_id_fingerprint)

lemma evaluate_strategy_change_total:
  assumes H: "digest_ok H" and s: "ostate_ok H s" "parts_canonical s" and m: "material_ok prior" "material_ok proposed"
    and c: "\<forall>c. cycle = Some c \<longrightarrow> cycle_ok c" and ids: "is_fingerprint task" "is_fingerprint governance"
  shows "\<exists>r reason prior_id proposed_id cycle_id. evaluate_strategy_change H task governance s prior proposed cycle = Inr r \<and>
    derive_strategy_change_reason H s prior proposed cycle = Inr reason \<and>
    (reason = AdmittedMaterialChange \<longleftrightarrow> material_change H s prior proposed cycle) \<and>
    strategy_change_init H r = Inr r \<and>
    strategy_material_id H prior = Inr prior_id \<and> strategy_material_id H proposed = Inr proposed_id \<and>
    optional_cycle_id H cycle = Inr cycle_id \<and>
    r = \<lparr> sc_task_id = task, sc_governance_id = governance, sc_state_id = state_id H s,
            sc_prior_material_id = prior_id, sc_proposed_material_id = proposed_id,
            sc_proposed_strategy_id = strategy_id H (sm_strategy proposed),
            sc_status = status_of_reason reason, sc_reason = reason, sc_state = s, sc_prior = prior,
            sc_proposed = proposed, sc_cycle = cycle, sc_cycle_evidence_id = cycle_id \<rparr>"
proof -
  obtain reason where reason: "derive_strategy_change_reason H s prior proposed cycle = Inr reason"
    "reason = AdmittedMaterialChange \<longleftrightarrow> material_change H s prior proposed cycle"
    using derive_reason_total [OF s(1) m c] by blast
  obtain prior_id proposed_id where
    mids: "strategy_material_id H prior = Inr prior_id" "strategy_material_id H proposed = Inr proposed_id"
    "is_fingerprint prior_id" "is_fingerprint proposed_id"
    using strategy_material_id_total m domain_id_fingerprint [OF H] by metis
  obtain cycle_id where cid: "optional_cycle_id H cycle = Inr cycle_id" "require_optional_fingerprint cycle_id = Inr ()"
    using optional_cycle_id_total [OF c H] by blast
  have auth: "validate_orchestration_authority H s = Inr ()" by (rule authority_total [OF s])
  have cyc: "(case cycle of None \<Rightarrow> Inr () | Some c \<Rightarrow> cycle_evidence_validate c) = Inr ()"
    using c by (auto simp: cycle_ok_def split: option.split)
  have sid: "is_fingerprint (state_id H s)" "is_fingerprint (strategy_id H (sm_strategy proposed))"
    by (simp_all add: state_id_def strategy_id_def domain_id_fingerprint [OF H])
  let ?r = "\<lparr> sc_task_id = task, sc_governance_id = governance, sc_state_id = state_id H s,
            sc_prior_material_id = prior_id, sc_proposed_material_id = proposed_id,
            sc_proposed_strategy_id = strategy_id H (sm_strategy proposed),
            sc_status = status_of_reason reason, sc_reason = reason, sc_state = s, sc_prior = prior,
            sc_proposed = proposed, sc_cycle = cycle, sc_cycle_evidence_id = cycle_id \<rparr>"
  have "strategy_change_validate ?r = Inr ()"
    using ids mids(3,4) sid cid(2) by (simp add: strategy_change_validate_def require_total)
  moreover have "strategy_change_validate_bound H ?r = Inr ()"
    using auth cyc m reason(1) mids(1,2) cid(1) by (simp add: strategy_change_validate_bound_def material_ok_def)
  ultimately have "strategy_change_init H ?r = Inr ?r"
    by (simp add: strategy_change_init_def status_of_reason_def)
  moreover from this have "evaluate_strategy_change H task governance s prior proposed cycle = Inr ?r"
    using ids auth cyc m reason(1) mids(1,2) cid(1)
    by (simp add: evaluate_strategy_change_def require_total material_ok_def)
  ultimately show ?thesis using reason mids(1,2) cid(1) by blast
qed

section \<open>A plan that repeats the cycle keeps the runtime in it\<close>

lemma find_cycle_None:
  "find_cycle h periods = None \<longleftrightarrow>
     (\<forall>p \<in> set periods. length h < p * 2 \<or> take p (take_last (p * 2) h) \<noteq> take_last p h)"
  by (induction periods) auto

lemma find_cycle_Some:
  "find_cycle h periods = Some p \<Longrightarrow>
     p \<in> set periods \<and> p * 2 \<le> length h \<and> take p (take_last (p * 2) h) = take_last p h"
  by (induction periods) (auto split: if_splits)

end
