(* ===== verification/Progress_Properties.thy ===== *)
theory Progress_Properties
  imports Progress Admit_Correct
begin

text \<open>
  What an evaluation of \<open>Progress\<close> says about the states it was taken from: it is total on valid
  states, reports exactly what the two obligation sets support, and cannot report measurable
  progress for ever.
\<close>

section \<open>Records taken from valid states\<close>

definition threshold_reached :: "orchestration_state \<Rightarrow> progress_dimension \<Rightarrow> bool" where
  "threshold_reached s d \<longleftrightarrow>
     (case (pd_threshold d, source_count (pd_source d) s) of
        (None, _) \<Rightarrow> True
      | (Some t, Some n) \<Rightarrow> if pd_direction d = Decrease then n \<le> t else t \<le> n
      | (Some t, None) \<Rightarrow> False)"

lemma thresholds_met_iff:
  assumes "\<forall>d \<in> set ds. by_dimension (pd_key d) = Some (measured H s d)"
  shows "thresholds_met ds by_dimension = Inr (list_all (threshold_reached s) ds)"
  using assms
proof (induction ds)
  case (Cons d ds)
  then show ?case
    by (cases "pd_threshold d"; cases "source_count (pd_source d) s")
       (auto simp: threshold_reached_def measured_def)
qed simp

lemma measurement_lookup:
  assumes "contract_ok c" and "d \<in> set (pc_dimensions c)"
  shows "map_of (rev (map (\<lambda>m. (pm_key m, m)) (measurement H c s))) (pd_key d) = Some (measured H s d)"
proof (rule map_of_is_SomeI)
  have "map fst (map (\<lambda>m. (pm_key m, m)) (measurement H c s)) = map pd_key (pc_dimensions c)"
    by (simp add: measurement_def measured_def comp_def)
  then have "distinct (map fst (map (\<lambda>m. (pm_key m, m)) (measurement H c s)))"
    using assms(1) by (simp only: contract_ok_iff)
  then show "distinct (map fst (rev (map (\<lambda>m. (pm_key m, m)) (measurement H c s))))"
    by (simp only: rev_map [symmetric] distinct_rev)
  have "pm_key (measured H s d) = pd_key d" by (simp add: measured_def)
  then show "(pd_key d, measured H s d) \<in> set (rev (map (\<lambda>m. (pm_key m, m)) (measurement H c s)))"
    using assms(2) by (force simp: measurement_def)
qed

lemma derive_task_complete_iff:
  assumes "contract_ok c"
  shows "derive_task_complete c (measurement H c s) s =
    Inr (list_all (\<lambda>ob. status ob = Satisfied) (obligations (os_obligations s)) \<and>
         list_all (threshold_reached s) (pc_dimensions c))"
  by (simp add: derive_task_complete_def thresholds_met_iff [where H = H and s = s] measurement_lookup [OF assms])

lemma measured_triples:
  "(d, p, q) \<in> triples c (measurement H c s) (measurement H c t) \<longleftrightarrow>
     d \<in> set (pc_dimensions c) \<and> p = measured H s d \<and> q = measured H t d"
  by (auto simp: triples_def measurement_def set_zip in_set_conv_nth)

lemma measured_new_information:
  assumes "contract_ok c" and "obligation_only c"
    and "derive_progress_classification c (measurement H c s) (measurement H c t) = Inr cls"
  shows "cls = NewInformation \<longleftrightarrow> obligation_definition_identity H s \<noteq> obligation_definition_identity H t"
proof -
  have cmp: "comparable (measured H s d) (measured H t d) \<longleftrightarrow>
      obligation_definition_identity H s = obligation_definition_identity H t" if "d \<in> set (pc_dimensions c)" for d
    using assms(2) that source_count_obligation [of "pd_source d"]
    by (fastforce simp: comparable_def measured_def obligation_only_def list_all_iff)
  have "pc_dimensions c \<noteq> []" using assms(1) by (simp add: contract_ok_iff)
  then obtain d where "d \<in> set (pc_dimensions c)" by (meson last_in_set)
  moreover have "renewed (measured H s d) (measured H t d) \<longleftrightarrow>
      obligation_definition_identity H s \<noteq> obligation_definition_identity H t" if "d \<in> set (pc_dimensions c)" for d
    using cmp [OF that] by (auto simp: renewed_def measured_def)
  moreover have "cls = classify (tally c (measurement H c s) (measurement H c t))"
    using assms(3) by (auto simp: derive_progress_classification_def res_simps)
  ultimately show ?thesis by (auto simp: classify_iff tally_fields measured_triples)
qed

lemma evaluate_progress_claims:
  assumes "evaluate_progress H V task governance c s t pe ce = Inr r"
  shows "validate_bound_claims H V r = Inr ()"
proof -
  from assms obtain x where "progress_record_init H V x = Inr r"
    unfolding evaluate_progress_def rbind_eq_Inr by blast
  then show ?thesis by (auto simp: progress_record_init_def rbind_eq_Inr Let_def)
qed

lemma progress_json_total:
  assumes H: "digest_ok H" and c: "contract_ok c" "obligation_only c" and s: "ostate_ok H s" "ostate_ok H t"
    and e: "evaluate_progress H V task governance c s t [] [] = Inr r" and ids: "is_fingerprint task" "is_fingerprint governance"
  shows "\<exists>j. progress_record_json H V r = Inr j"
proof -
  from evaluate_progress_eq [OF H c s ids, of V] e
  have r: "pr_task_id r = task" "pr_governance_id r = governance" "pr_contract r = c"
    "pr_prior_state_id r = state_id H s" "pr_current_state_id r = state_id H t"
    "pr_prior_measures r = measurement H c s" "pr_current_measures r = measurement H c t"
    by auto
  have "validate_bound_claims H V r = Inr ()" by (rule evaluate_progress_claims [OF e])
  moreover have "progress_contract_validate c = Inr ()"
    using c(1)
    by (simp add: contract_ok_iff progress_contract_validate_def res_simps accept_simps max_progress_dimensions_def
        progress_dimension_validate_Inr)
  moreover have "progress_measure_validate (measured H u d) = Inr ()"
    if "d \<in> set (pc_dimensions c)" "ostate_ok H u" for u d
  proof -
    have "pd_source d \<noteq> GovernedExternalCounter"
      using c(2) that(1) by (simp add: obligation_only_def list_all_iff)
    then obtain st where st: "source_count (pd_source d) u = Some (status_count st u)"
      using source_count_obligation by blast
    have "is_symbol (pd_key d)" using c(1) that(1) by (simp add: contract_ok_iff)
    moreover have "require_u64 (status_count st u) = Inr (status_count st u)"
      using status_count_bounds [OF that(2), of st] by (simp add: accept_simps max_u64_def)
    ultimately show ?thesis
      using st
      by (simp add: progress_measure_validate_def measured_def require_total require_optional_u64_def
          require_optional_fingerprint_def obligation_definition_identity_def state_id_def
          domain_id_fingerprint [OF H])
  qed
  then have "for_each progress_measure_validate (measurement H c s @ measurement H c t) = Inr ()"
    using s by (intro for_each_total) (auto simp: measurement_def)
  moreover have "is_fingerprint (state_id H u)" for u by (simp add: state_id_def domain_id_fingerprint [OF H])
  ultimately show ?thesis
    using r ids by (simp add: progress_record_json_def progress_record_validate_def require_total)
qed


text \<open>C37 [evaluate_progress_exact]. Evaluating progress over two valid states with a contract on the obligation
  counts always yields a record that validates itself. It reports new information exactly when the two
  obligation sets are not the same set of definitions, so that redefining the work never passes for
  progress, and it reports the task complete exactly when every obligation is satisfied and every
  threshold is reached.\<close>

theorem evaluate_progress_exact:
  assumes "digest_ok H" and "contract_ok c" and "obligation_only c"
    and "ostate_ok H prior" and "ostate_ok H current" and "is_fingerprint task" and "is_fingerprint governance"
  shows "\<exists>r. evaluate_progress H V task governance c prior current [] [] = Inr r \<and>
    (\<exists>j. progress_record_json H V r = Inr j) \<and>
    (pr_classification r = NewInformation \<longleftrightarrow>
       obligation_definition_identity H prior \<noteq> obligation_definition_identity H current) \<and>
    (pr_task_complete r \<longleftrightarrow>
       (\<forall>ob \<in> set (obligations (os_obligations current)). status ob = Satisfied) \<and>
       (\<forall>d \<in> set (pc_dimensions c). threshold_reached current d))"
proof -
  obtain cls complete r where cls: "derive_progress_classification c (measurement H c prior) (measurement H c current) = Inr cls"
    and complete: "derive_task_complete c (measurement H c current) current = Inr complete"
    and r: "evaluate_progress H V task governance c prior current [] [] = Inr r"
      "pr_classification r = cls" "pr_task_complete r = complete"
    using evaluate_progress_eq [OF assms, of V] by force
  then show ?thesis
    using progress_json_total [OF assms(1-5) r(1) assms(6,7)] measured_new_information [OF assms(2,3) cls]
      derive_task_complete_iff [OF assms(2), of H current]
    by (auto simp: list_all_iff)
qed

definition obligation_contract :: progress_contract where
  "obligation_contract =
     \<lparr> pc_key = lit ''ibae.obligation-progress'', pc_version = 1, pc_dimensions =
       [\<lparr> pd_key = lit ''blocked'', pd_source = BlockedObligationCount, pd_direction = Decrease, pd_threshold = Some 0 \<rparr>,
        \<lparr> pd_key = lit ''unsatisfied'', pd_source = UnsatisfiedObligationCount, pd_direction = Decrease,
          pd_threshold = Some 0 \<rparr>] \<rparr>"

lemma contract_symbols:
  "is_symbol (lit ''blocked'')" "is_symbol (lit ''unsatisfied'')" "is_symbol (lit ''ibae.obligation-progress'')"
  by (simp_all add: lit_def symbol_char_def in_range_def)

lemma obligation_contract_ok: "contract_ok obligation_contract" "obligation_only obligation_contract"
proof -
  have "lit ''blocked'' \<noteq> lit ''unsatisfied''" "lit ''blocked'' \<le> lit ''unsatisfied''"
    by (simp_all add: lit_def)
  then show "contract_ok obligation_contract"
    using contract_symbols by (simp add: contract_ok_iff obligation_contract_def max_u64_def)
qed (simp add: obligation_only_def obligation_contract_def)

lemma default_contract_eq: "default_obligation_progress_contract = Inr obligation_contract"
proof -
  have "progress_contract_init obligation_contract = Inr obligation_contract"
    using obligation_contract_ok(1) by (simp only: contract_ok_def)
  then show ?thesis
    using contract_symbols
    by (simp add: default_obligation_progress_contract_def progress_dimension_init_def require_total
        require_optional_u64_def obligation_contract_def)
qed

definition open_work :: "orchestration_state \<Rightarrow> int" where
  "open_work s = status_count Blocked s + status_count Unsatisfied s"

lemma work_left_obligations:
  "int (work_left obligation_contract (measurement H obligation_contract s)) = open_work s"
  by (simp add: work_left_def measurement_def obligation_contract_def measured_def measure_left_def open_work_def
      status_count_def)

lemma measurement_ok:
  assumes "ostate_ok H s" and "obligation_only c"
  shows "list_all measure_ok (measurement H c s)"
proof -
  have "measure_ok (measured H s d)" if "pd_source d \<noteq> GovernedExternalCounter" for d
    using source_count_obligation [OF that, of s] status_count_bounds [OF assms(1)]
    by (fastforce simp: measure_ok_def measured_def max_u64_def)
  then show ?thesis using assms(2) by (simp add: measurement_def list_all_iff obligation_only_def)
qed

lemma evaluated_classification:
  assumes "digest_ok H" and "contract_ok c" and "obligation_only c" and "ostate_ok H s" and "ostate_ok H t"
    and "evaluate_progress H V task governance c s t [] [] = Inr r"
  shows "derive_progress_classification c (measurement H c s) (measurement H c t) = Inr (pr_classification r)"
proof -
  from assms(6) have "is_fingerprint task" "is_fingerprint governance"
    by (auto simp: evaluate_progress_def res_simps accept_simps)
  from evaluate_progress_eq [OF assms(1-5) this, of V] assms(6) show ?thesis by auto
qed

text \<open>C38 [measurable_progress_terminates]. Under the built-in obligation contract a run of evaluations that each
  report measurable progress ends: it is no longer than the number of obligations that were open at
  its start, which the protocol bounds by 128.\<close>

theorem measurable_progress_terminates:
  assumes "digest_ok H" and "default_obligation_progress_contract = Inr c" and "\<forall>i \<le> n. ostate_ok H (ss i)"
    and "\<forall>i < n. \<exists>r. evaluate_progress H V task governance c (ss i) (ss (Suc i)) [] [] = Inr r \<and>
                    pr_classification r = MeasurableProgress"
  shows "int n + open_work (ss n) \<le> open_work (ss 0) \<and> n \<le> 128"
proof -
  have c: "c = obligation_contract" using assms(2) default_contract_eq by (metis sum.inject(2))
  let ?m = "\<lambda>i. measurement H c (ss i)"
  have "derive_progress_classification c (?m i) (?m (Suc i)) = Inr MeasurableProgress" if "i < n" for i
    using assms(3,4) that evaluated_classification [OF assms(1) obligation_contract_ok] unfolding c
    by (metis Suc_leI less_imp_le)
  moreover have "list_all measure_ok (?m i)" if "i \<le> n" for i
    using assms(3) that measurement_ok obligation_contract_ok(2) unfolding c by blast
  ultimately have "n + work_left c (?m n) \<le> work_left c (?m 0)" by (intro progress_chain) auto
  then have "int n + open_work (ss n) \<le> open_work (ss 0)"
    unfolding c work_left_obligations [of H, symmetric] by linarith
  moreover have "open_work (ss 0) \<le> 128"
  proof -
    have "int (length (obligations (os_obligations (ss 0)))) \<le> 128"
      using assms(3) by (auto simp: ostate_ok_def registry_ok_def max_obligations_limit_def)
    then show ?thesis using status_counts_total [of "ss 0"] by (simp add: open_work_def status_count_def)
  qed
  moreover have "0 \<le> open_work (ss n)" by (simp add: open_work_def status_count_def)
  ultimately show ?thesis by simp
qed


lemma definitions_update_status:
  "obligation_definition_identity H (s \<lparr> os_obligations := update_status H i st reason (os_obligations s) \<rparr>) =
   obligation_definition_identity H s"
  by (simp add: obligation_definition_identity_def obligations_update_status comp_def)

lemma ostate_ok_update_obligations:
  assumes "ostate_ok H s" and "registry_ok H r" and "max_obligations r = max_obligations (os_obligations s)"
  shows "ostate_ok H (s \<lparr> os_obligations := r \<rparr>)"
  using assms by (simp add: ostate_ok_def)

definition example_done :: orchestration_state where
  "example_done = example_ostate \<lparr> os_obligations :=
     update_status length_digest (obligation_id length_digest example_first) Satisfied None example_registry \<rparr>"

lemma example_done_ok: "ostate_ok length_digest example_done"
proof -
  let ?u = "update_status length_digest (obligation_id length_digest example_first) Satisfied None example_registry"
  have "registry_with_status length_digest example_registry (obligation_id length_digest example_first) Satisfied None = Inr ?u"
    using example_registry_ok obligation_id_fingerprint [OF length_digest_ok]
    by (intro satisfy_ready) (simp_all add: example_registry_def, simp add: example_first_def)
  then have "registry_ok length_digest ?u"
    using registry_with_status_Inr [OF example_registry_ok] update_status_ok [OF example_registry_ok] by blast
  then show ?thesis
    unfolding example_done_def using example_ostate_ok
    by (intro ostate_ok_update_obligations) (simp_all add: update_status_same example_ostate_def)
qed

lemma example_counts:
  "status_count Unsatisfied example_ostate = 2" "status_count Unsatisfied example_done = 1"
  "status_count Blocked example_ostate = 0" "status_count Blocked example_done = 0"
  using example_ids
  by (simp_all add: status_count_def example_ostate_def example_done_def example_registry_def obligations_update_status)
     (simp_all add: example_first_def example_second_def)

abbreviation example_task :: pystr where "example_task \<equiv> replicate 64 97"

lemma example_task_ok: "is_fingerprint example_task"
  by (simp add: is_fingerprint_def list_all_iff hex_char_def in_range_def)

lemma example_done_progress:
  "\<exists>r. evaluate_progress length_digest (\<lambda>_. Inr ()) example_task example_task obligation_contract
     example_ostate example_done [] [] = Inr r \<and> pr_classification r = MeasurableProgress"
proof -
  have "is_fingerprint example_task" by (rule example_task_ok)
  from evaluate_progress_eq [OF length_digest_ok obligation_contract_ok example_ostate_ok example_done_ok this this,
      of "\<lambda>_. Inr ()"]
  obtain cls r where cls: "derive_progress_classification obligation_contract
      (measurement length_digest obligation_contract example_ostate)
      (measurement length_digest obligation_contract example_done) = Inr cls"
    and r: "evaluate_progress length_digest (\<lambda>_. Inr ()) example_task example_task obligation_contract
      example_ostate example_done [] [] = Inr r" "pr_classification r = cls" by force
  have same: "obligation_definition_identity length_digest example_done =
      obligation_definition_identity length_digest example_ostate"
    using definitions_update_status [where H = length_digest and s = example_ostate]
    by (simp add: example_done_def example_ostate_def)
  have "cls = MeasurableProgress"
    using cls same example_counts
    by (simp add: derive_progress_classification_def measurement_def obligation_contract_def tally_def tally_step_def
        classify_def measured_def)
  with r show ?thesis by blast
qed

theorem evaluate_progress_exact_witness:
  "\<exists>r. evaluate_progress length_digest (\<lambda>_. Inr ()) example_task example_task obligation_contract
     example_ostate example_done [] [] = Inr r \<and> \<not> pr_task_complete r"
proof -
  have "is_fingerprint example_task" by (rule example_task_ok)
  moreover have "\<not> (\<forall>ob \<in> set (obligations (os_obligations example_done)). status ob = Satisfied)"
    using example_ids by (simp add: example_done_def obligations_update_status example_registry_def)
      (simp add: example_second_def)
  ultimately show ?thesis
    using evaluate_progress_exact [OF length_digest_ok obligation_contract_ok example_ostate_ok example_done_ok,
        of example_task example_task "\<lambda>_. Inr ()"] by blast
qed

theorem measurable_progress_terminates_witness: "1 + open_work example_done \<le> open_work example_ostate"
  using measurable_progress_terminates [OF length_digest_ok default_contract_eq,
      of 1 "\<lambda>i. if i = 0 then example_ostate else example_done" "\<lambda>_. Inr ()" example_task example_task]
    example_ostate_ok example_done_ok example_done_progress by simp

end
