(* ===== verification/Strategy_Properties.thy ===== *)
theory Strategy_Properties
  imports Strategy_Change Progress_Properties
begin

text \<open>
  When a strategy change is admitted, what its receipt depends on, and why a plan that repeats the
  detected cycle is refused.
\<close>

section \<open>A repeated plan\<close>

lemma halves_iff:
  assumes "p * 2 \<le> length h"
  shows "take p (take_last (p * 2) h) = take_last p h \<longleftrightarrow>
     (\<forall>i < p. h ! (length h - p * 2 + i) = h ! (length h - p + i))"
  using assms by (auto simp: take_last_def list_eq_iff_nth_eq)

lemma repeated_plan_keeps_cycle:
  assumes p: "0 < p" "p * 2 \<le> length h" "take p (take_last (p * 2) h) = take_last p h"
    and plan: "repeats (take_last p h) plan"
  shows "p * 2 \<le> length (h @ plan)" and "take p (take_last (p * 2) (h @ plan)) = take_last p (h @ plan)"
proof -
  let ?e = "h @ plan" and ?n = "length h"
  show len: "p * 2 \<le> length ?e" using p by simp
  have w: "length (take_last p h) = p" using p by (simp add: take_last_def)
  have plan_nth: "plan ! i = h ! (?n - p + i mod p)" if "i < length plan" for i
    using plan that w p by (simp add: repeats_def take_last_def)
  have base: "h ! (?n - p * 2 + i) = h ! (?n - p + i)" if "i < p" for i
    using p(3) halves_iff [OF p(2)] that by blast
  have step: "?e ! (?n - p + i) = ?e ! (?n + i)" if "i < length plan" for i
  proof (cases "i < p")
    case True
    with p have "?n - p + i < ?n" by linarith
    with that plan_nth [of i] True show ?thesis by (simp add: nth_append)
  next
    case False
    then have "\<not> ?n - p + i < ?n" "?n - p + i - ?n = i - p" using p by linarith+
    then have "?e ! (?n - p + i) = plan ! (i - p)" by (simp only: nth_append if_False)
    also have "\<dots> = plan ! i" using plan_nth [of i] plan_nth [of "i - p"] that False by (simp add: le_mod_geq)
    finally show ?thesis by (simp add: nth_append)
  qed
  have "?e ! (length ?e - p * 2 + i) = ?e ! (length ?e - p + i)" if "i < p" for i
  proof -
    have "p \<le> length plan" using plan w by (simp add: repeats_def)
    then have "length ?e - p * 2 + i = ?n - p + (length plan - p + i)" "length ?e - p + i = ?n + (length plan - p + i)"
      "length plan - p + i < length plan"
      using p that by simp_all
    then show ?thesis using step by metis
  qed
  then show "take p (take_last (p * 2) ?e) = take_last p ?e" using halves_iff [OF len] by blast
qed

lemma snapshot_cycle:
  assumes "cycle_from_snapshot snap = Inr (Some e)"
  shows "\<exists>p \<in> {1, 2, 3}. find_cycle (rs_history snap) [1, 2, 3] = Some p \<and> cy_pattern e = take_last p (rs_history snap) \<and>
    p * 2 \<le> length (rs_history snap) \<and> take p (take_last (p * 2) (rs_history snap)) = take_last p (rs_history snap)"
proof -
  obtain p where p: "find_cycle (rs_history snap) [1, 2, 3] = Some p"
    using assms by (auto simp: cycle_from_snapshot_def split: option.splits)
  moreover have "cy_pattern e = take_last p (rs_history snap)"
    using assms p by (auto simp: cycle_from_snapshot_def cycle_evidence_init_def require_fingerprints_def
        check_entries_def res_simps accept_simps)
  ultimately show ?thesis using find_cycle_Some [OF p] by auto
qed

section \<open>Properties\<close>

text \<open>C25 [strategy_change_exact]. On valid inputs a proposed strategy is always decided, by a receipt that
  revalidates, and is admitted exactly when its schema is the active one, its identity and its
  structured meaning differ from the prior strategy, every capability of its frontier is available,
  every target is a known obligation and its plan does not repeat the detected cycle. Rewording the
  description changes neither the decision nor the identity of the receipt.\<close>

theorem strategy_change_exact:
  assumes "digest_ok H" and "ostate_ok H s" and "parts_canonical s" and "material_ok prior" and "material_ok proposed"
    and "\<forall>c. cycle = Some c \<longrightarrow> cycle_ok c" and "is_fingerprint task" and "is_fingerprint governance"
  shows "\<exists>r. evaluate_strategy_change H task governance s prior proposed cycle = Inr r \<and>
    strategy_change_init H r = Inr r \<and>
    (sc_status r = ChangeAdmitted \<longleftrightarrow> material_change H s prior proposed cycle) \<and>
    (\<forall>t. is_record_text t \<longrightarrow>
       (\<exists>r'. evaluate_strategy_change H task governance s prior (proposed \<lparr> sm_description := t \<rparr>) cycle = Inr r' \<and>
          sc_status r' = sc_status r \<and> strategy_change_record H r' = strategy_change_record H r))"
proof -
  note total = evaluate_strategy_change_total [OF assms(1-4) _ assms(6-8)]
  obtain r reason prior_id proposed_id cycle_id where r:
    "evaluate_strategy_change H task governance s prior proposed cycle = Inr r"
    "derive_strategy_change_reason H s prior proposed cycle = Inr reason"
    "reason = AdmittedMaterialChange \<longleftrightarrow> material_change H s prior proposed cycle" "strategy_change_init H r = Inr r"
    "strategy_material_id H prior = Inr prior_id" "strategy_material_id H proposed = Inr proposed_id"
    "optional_cycle_id H cycle = Inr cycle_id"
    "r = \<lparr> sc_task_id = task, sc_governance_id = governance, sc_state_id = state_id H s,
            sc_prior_material_id = prior_id, sc_proposed_material_id = proposed_id,
            sc_proposed_strategy_id = strategy_id H (sm_strategy proposed),
            sc_status = status_of_reason reason, sc_reason = reason, sc_state = s, sc_prior = prior,
            sc_proposed = proposed, sc_cycle = cycle, sc_cycle_evidence_id = cycle_id \<rparr>"
    using total [OF assms(5)] by blast
  have "\<exists>r'. evaluate_strategy_change H task governance s prior (proposed \<lparr> sm_description := t \<rparr>) cycle = Inr r' \<and>
      sc_status r' = sc_status r \<and> strategy_change_record H r' = strategy_change_record H r"
    if "is_record_text t" for t
  proof -
    let ?m = "proposed \<lparr> sm_description := t \<rparr>"
    have m: "material_ok ?m"
      using assms(5) that by (simp add: material_ok_def strategy_material_validate_def res_simps accept_simps)
    have fields: "sm_strategy ?m = sm_strategy proposed" "sm_frontier ?m = sm_frontier proposed"
      "sm_targets ?m = sm_targets proposed" "sm_pattern ?m = sm_pattern proposed" by simp_all
    have sdr: "semantic_difference_record ?m = semantic_difference_record proposed"
      using m assms(5) by (simp add: semantic_difference_record_def semantic_difference_def material_ok_def)
    have "derive_strategy_change_reason H s prior ?m cycle = derive_strategy_change_reason H s prior proposed cycle"
      unfolding derive_strategy_change_reason_def fields sdr by (rule refl)
    then have "derive_strategy_change_reason H s prior ?m cycle = Inr reason" using r(2) by simp
    moreover have "strategy_material_id H ?m = Inr proposed_id"
      using r(6) m assms(5) by (simp add: strategy_material_id_def strategy_material_identity_def material_ok_def)
    moreover from this calculation obtain r' where r':
      "evaluate_strategy_change H task governance s prior ?m cycle = Inr r'" "strategy_change_init H r' = Inr r'"
      "r' = r \<lparr> sc_proposed := ?m \<rparr>"
      using total [OF m] r(5,7) unfolding r(8) by fastforce
    moreover have "strategy_change_validate_bound H r' = Inr ()" "strategy_change_validate_bound H r = Inr ()"
      using r(4) r'(2) by (auto simp: strategy_change_init_def res_simps)
    ultimately show ?thesis
      by (intro exI [of _ r']) (simp add: strategy_change_record_def strategy_change_validate_def)
  qed
  moreover have "sc_status r = ChangeAdmitted \<longleftrightarrow> material_change H s prior proposed cycle"
    using r(3) by (simp add: r(8) status_of_reason_def)
  ultimately show ?thesis using r(1,4) by blast
qed

text \<open>C26 [rejected_plan_keeps_cycle]. A plan that is refused as equivalent to the cycle of the live snapshot
  would indeed leave the runtime in a cycle: appended to the native history, it ends in a repeated
  period again.\<close>

theorem rejected_plan_keeps_cycle:
  assumes "cycle_from_snapshot snap = Inr (Some e)" and "cycle_ok e" and "reproduces e plan"
  shows "find_cycle (rs_history snap @ plan) [1, 2, 3] \<noteq> None"
proof -
  obtain p where p: "p \<in> {1, 2, 3}" "cy_pattern e = take_last p (rs_history snap)" "p * 2 \<le> length (rs_history snap)"
    "take p (take_last (p * 2) (rs_history snap)) = take_last p (rs_history snap)"
    using snapshot_cycle [OF assms(1)] by blast
  moreover have "repeats (take_last p (rs_history snap)) plan"
    using reproduces_iff [OF assms(2)] assms(3) p(2) by simp
  ultimately show ?thesis
    using repeated_plan_keeps_cycle [of p "rs_history snap" plan] unfolding find_cycle_None by auto
qed

definition example_strategy :: "string \<Rightarrow> strategy" where
  "example_strategy k = \<lparr> strategy_key = lit k,
     strategy_schema_of = \<lparr> schema_key = lit k, parameter_specs = [], schema_version = 1 \<rparr>,
     strategy_parameters = empty_object \<rparr>"

definition example_plan :: "string \<Rightarrow> nat \<Rightarrow> strategy_material" where
  "example_plan k n = \<lparr> sm_strategy = example_strategy k, sm_frontier = [lit ''read''],
     sm_targets = [obligation_id length_digest example_first], sm_path = [], sm_recovery_mode = lit ''a'',
     sm_pattern = replicate n (replicate 64 97), sm_description = lit ''first'' \<rparr>"

lemma example_parts_canonical: "parts_canonical example_ostate"
proof -
  have "provenance_init example_provenance = Inr example_provenance"
    using example_symbols
    by (simp add: provenance_init_def example_provenance_def require_fingerprint_def require_symbol_def
        is_fingerprint_def list_all_iff hex_char_def in_range_def)
  then show ?thesis
    using example_symbols
    by (auto simp: parts_canonical_def example_ostate_def example_schema_def strategy_schema_init_def require_total
      require_positive_int_total materialize_ok max_strategy_parameters_def example_state_def example_observed_def
      example_derived_def example_proposed_def)
qed

lemma example_strategy_ok:
  assumes "is_symbol (lit k)"
  shows "validate_strategy_authority (example_strategy k) = Inr ()"
proof -
  have c: "canonical_value_init (canonical_text empty_object) = Inr empty_object" "to_value empty_object = Inr (JObj [])"
    using empty_object_ok value_ok_stored [OF empty_object_ok] by (simp_all add: value_ok_def empty_object_stored)
  have n: "normalize_parameters \<lparr> schema_key = lit k, parameter_specs = [], schema_version = 1 \<rparr> (of_json (JObj [])) = Inr (PMap [])"
    by (simp add: normalize_parameters_def materialize_ok max_strategy_parameters_def)
  show ?thesis
    using assms c n
    by (simp add: validate_strategy_authority_def example_strategy_def bounded_texts_def strategy_schema_init_def
        require_total require_positive_int_total materialize_ok max_strategy_parameters_def)
qed

lemma example_plan_ok:
  assumes "n \<le> 12" and "is_symbol (lit k)"
  shows "material_ok (example_plan k n)"
proof -
  note fp = example_task_ok
  have txts: "require_text (lit ''first'') = Inr (lit ''first'')" "require_symbol (lit ''a'') = Inr (lit ''a'')"
    "require_symbol (lit ''read'') = Inr (lit ''read'')"
    using example_description example_symbols more_symbols by (simp_all add: accept_simps)
  have set1: "sorted_set [x] = [x]" for x :: pystr by (simp add: sorted_set_def)
  have "for_each require_fingerprint (sm_targets (example_plan k n) @ sm_path (example_plan k n) @ sm_pattern (example_plan k n)) = Inr ()"
    using fp obligation_id_fingerprint [OF length_digest_ok]
    by (intro for_each_total) (auto simp: example_plan_def require_total)
  then show ?thesis
    using assms(1) example_strategy_ok [OF assms(2)] txts set1
    by (simp add: material_ok_def strategy_material_validate_def example_plan_def bounded_texts_def
        max_strategy_frontier_def max_strategy_targets_def max_dependency_path_def max_transition_pattern_def)
qed

lemma jbytes_fingerprint: "is_fingerprint f \<Longrightarrow> jbytes (JStr f) = 66"
proof -
  assume f: "is_fingerprint f"
  then have "map escape_char f = map (\<lambda>c. [c]) f"
    by (auto simp: is_fingerprint_def list_all_iff escape_char_def hex_char_def in_range_def)
  then have "concat (map escape_char f) = concat (map (\<lambda>c. [c]) f)" by (simp only:)
  then have "concat (map escape_char f) = f" by simp
  moreover have "utf8_bytes f = f" using f
    by (intro utf8_bytes_ascii) (auto simp: is_fingerprint_def list_all_iff dest: hex_char_ascii)
  ultimately show ?thesis using f by (simp add: jbytes_leaves quote_def is_fingerprint_def utf8_char_def)
qed

lemma example_strategy_ids: "strategy_id length_digest (example_strategy ''a'') \<noteq> strategy_id length_digest (example_strategy ''bb'')"
proof -
  have j: "jbytes (strategy_record length_digest (example_strategy k)) =
      jbytes (JStr (lit k)) + jbytes (strategy_record length_digest (example_strategy [])) - jbytes (JStr (lit []))" for k
    using jbytes_fingerprint [OF domain_id_fingerprint [OF length_digest_ok]]
    by (simp add: strategy_record_def jbytes_JObj example_strategy_def schema_id_def)
  have "jbytes (JStr (lit ''a'')) = 3" "jbytes (JStr (lit ''bb'')) = 4" "jbytes (JStr (lit [])) = 2"
    by (simp_all add: jbytes_leaves quote_def escape_char_def lit_def utf8_char_def)
  then have "jbytes (strategy_record length_digest (example_strategy ''bb'')) =
      jbytes (strategy_record length_digest (example_strategy ''a'')) + 1"
    using j [of "''a''"] j [of "''bb''"] by simp
  then show ?thesis unfolding strategy_id_def by (intro length_ids_differ [where d = 1]) simp_all
qed

theorem strategy_change_exact_witness:
  "\<exists>r. evaluate_strategy_change length_digest (replicate 64 97) (replicate 64 97) example_ostate
     (example_plan ''bb'' 0) (example_plan ''a'' 1) None = Inr r \<and> sc_status r = ChangeAdmitted"
proof -
  note fp = example_task_ok
  have bb: "is_symbol (lit ''bb'')" by (simp add: lit_def symbol_char_def in_range_def)
  have ok: "material_ok (example_plan ''bb'' 0)" "material_ok (example_plan ''a'' 1)"
    using bb example_symbols(1) by (simp_all add: example_plan_ok)
  have "semantic_difference (example_plan ''a'' 1) \<noteq> semantic_difference (example_plan ''bb'' 0)"
    by (simp add: semantic_difference_def example_plan_def str_list_def)
  moreover have "obligation_id length_digest example_first \<in> set (known_ids length_digest (os_obligations example_ostate))"
    by (simp add: known_ids_def example_ostate_def example_registry_def)
  ultimately have "material_change length_digest example_ostate (example_plan ''bb'' 0) (example_plan ''a'' 1) None"
    using example_strategy_ids
    by (simp add: material_change_def example_ostate_def example_plan_def example_schema_def example_read_def)
      (simp add: example_strategy_def)
  with strategy_change_exact [OF length_digest_ok example_ostate_ok example_parts_canonical ok _ fp fp, of None]
  show ?thesis by auto
qed

definition example_snapshot :: runtime_snapshot where
  "example_snapshot = \<lparr> rs_session_id = replicate 64 97, rs_state_id = replicate 64 97, rs_logical_tick = 2,
     rs_requests = 2, rs_executions = 0, rs_cache_hits = 0, rs_retries = 0,
     rs_history = [replicate 64 97, replicate 64 97], rs_cache = [],
     rs_limits = \<lparr> rl_max_requests = 8, rl_max_executions = 4, rl_max_retries = 2, rl_max_history = 8 \<rparr>,
     rs_continuation = None \<rparr>"

definition example_cycle :: cycle_evidence where
  "example_cycle = \<lparr> cy_session_id = replicate 64 97, cy_state_id = replicate 64 97, cy_period = 1,
     cy_pattern = [replicate 64 97] \<rparr>"

theorem rejected_plan_keeps_cycle_witness:
  "find_cycle (rs_history example_snapshot @ [replicate 64 97]) [1, 2, 3] \<noteq> None"
proof -
  note fp = example_task_ok
  have "cycle_from_snapshot example_snapshot = Inr (Some example_cycle)"
    using fp by (simp add: cycle_from_snapshot_def example_snapshot_def take_last_def cycle_evidence_init_def
        require_total require_fingerprints_def check_entries_def materialize_ok example_cycle_def)
  moreover have "cycle_ok example_cycle"
    using fp by (simp add: cycle_ok_def cycle_evidence_validate_def example_cycle_def require_total bounded_texts_def)
  moreover have "reproduces example_cycle [replicate 64 97]"
    by (simp add: reproduces_def example_cycle_def)
  ultimately show ?thesis by (rule rejected_plan_keeps_cycle)
qed

end
