(* ===== verification/Record_Size.thy ===== *)
theory Record_Size
  imports Records Proposals
begin

text \<open>
  Equality of decoded JSON values as Python decides it, the size of the records that the
  components build from symbols, fingerprints and bounded integers, and the records of
  \<open>src/ibae/governance.py\<close> that carry their own identity.
\<close>

section \<open>Equality of decoded values\<close>

text \<open>
  \<open>==\<close> compares numbers by value across \<open>bool\<close>, \<open>int\<close> and \<open>float\<close> and dictionaries without
  their order. A number is \<open>m * 2 ^ e\<close>.
\<close>

definition float_token_of :: "pystr \<Rightarrow> float_token option" where
  "float_token_of s =
     (let (neg, s1) = lex_sign s in
      case lex_int s1 of
        None \<Rightarrow> None
      | Some (ds, s2) \<Rightarrow>
          let (fs, s3) = lex_frac s2; (ex, s4) = lex_exp s3
          in Some \<lparr> negative = neg, int_digits = ds, frac_digits = fs,
                    exp_value = (case ex of None \<Rightarrow> 0 | Some x \<Rightarrow> x) \<rparr>)"

definition float_value :: "pystr \<Rightarrow> (int \<times> int) option" where
  "float_value s =
     (case float_token_of s of
        None \<Rightarrow> None
      | Some t \<Rightarrow>
          (case round_double (digits_value 0 (int_digits t @ frac_digits t))
                  (exp_value t - int (length (frac_digits t))) of
             None \<Rightarrow> None
           | Some (m, e) \<Rightarrow> Some (if negative t then - int m else int m, e)))"

fun number_value :: "json \<Rightarrow> (int \<times> int) option" where
  "number_value (JBool b) = Some (if b then 1 else 0, 0)"
| "number_value (JInt i) = Some (i, 0)"
| "number_value (JFloat s) = float_value s"
| "number_value _ = None"

definition same_number :: "int \<times> int \<Rightarrow> int \<times> int \<Rightarrow> bool" where
  "same_number x y =
     (let e = min (snd x) (snd y)
      in fst x * 2 ^ nat (snd x - e) = fst y * 2 ^ nat (snd y - e))"

definition same_scalar :: "json \<Rightarrow> json \<Rightarrow> bool" where
  "same_scalar a b \<longleftrightarrow>
     a = b \<or> (case (number_value a, number_value b) of (Some x, Some y) \<Rightarrow> same_number x y | _ \<Rightarrow> False)"

lemma size_in_list: "x \<in> set xs \<Longrightarrow> size x < Suc (size_list size xs)"
  by (simp add: less_Suc_eq_le size_list_estimation')

lemma size_in_items:
  "(k, x) \<in> set kvs \<Longrightarrow> size x < Suc (size_list (size_prod f size) kvs)"
  by (induction kvs) auto

function (sequential) py_eq :: "json \<Rightarrow> json \<Rightarrow> bool" where
  "py_eq (JArr xs) (JArr ys) = (length xs = length ys \<and> list_all (\<lambda>(x, y). py_eq x y) (zip xs ys))"
| "py_eq (JObj kvs) (JObj lws) =
     (length kvs = length lws \<and>
      list_all (\<lambda>kv. list_ex (\<lambda>lw. fst kv = fst lw \<and> py_eq (snd kv) (snd lw)) lws) kvs)"
| "py_eq a b = same_scalar a b"
  by pat_completeness auto

termination
  by (relation "measure (\<lambda>(a, b). size a)")
     (auto dest!: set_zip_leftD simp: size_in_list size_in_items)

lemma py_eq_refl [simp]: "py_eq j j"
proof (induction j)
  case (JArr xs)
  then show ?case by (auto simp: list_all_iff in_set_zip)
next
  case (JObj kvs)
  then show ?case by (fastforce simp: list_all_iff list_ex_iff)
qed (simp_all add: same_scalar_def)

section \<open>Sizes\<close>

text \<open>
  \<open>small b n d j\<close>: the value \<open>j\<close> serialises to at most \<open>b\<close> bytes, has at most \<open>n\<close> nodes and
  nests at most \<open>d\<close> deep, and each of its leaves is within the limits of canonical values.
\<close>

definition small :: "nat \<Rightarrow> nat \<Rightarrow> nat \<Rightarrow> json \<Rightarrow> bool" where
  "small b n d j \<longleftrightarrow>
     jbytes j \<le> b \<and> jnodes j \<le> n \<and> jdepth j \<le> d \<and> leaves_fit max_canonical_collection_items j \<and> py_json j"

definition small_items :: "nat \<Rightarrow> nat \<Rightarrow> nat \<Rightarrow> (pystr \<times> json) list \<Rightarrow> bool" where
  "small_items b n d kvs \<longleftrightarrow>
     sum_list (map (\<lambda>kv. length (utf8_bytes (quote (fst kv))) + 2 + jbytes (snd kv)) kvs) \<le> b \<and>
     sum_list (map (\<lambda>kv. jnodes (snd kv)) kvs) \<le> n \<and>
     distinct (map fst kvs) \<and>
     (\<forall>kv \<in> set kvs. jdepth (snd kv) \<le> d \<and> string_fits (fst kv) \<and> is_text (fst kv) \<and>
        leaves_fit max_canonical_collection_items (snd kv) \<and> py_json (snd kv))"

named_theorems small_intros \<open>sizes of the leaves of records\<close>

definition plain_char :: "nat \<Rightarrow> bool" where
  "plain_char c \<longleftrightarrow> 32 \<le> c \<and> c < 127 \<and> c \<noteq> 34 \<and> c \<noteq> 92"

lemma small_mono: "small b n d j \<Longrightarrow> b \<le> b' \<Longrightarrow> n \<le> n' \<Longrightarrow> d \<le> d' \<Longrightarrow> small b' n' d' j"
  by (simp add: small_def)

lemma quote_plain: "list_all plain_char s \<Longrightarrow> quote s = [34] @ s @ [34]"
  by (induction s) (auto simp: quote_def escape_char_def plain_char_def)

lemma quote_plain_bytes: "list_all plain_char s \<Longrightarrow> length (utf8_bytes (quote s)) = length s + 2"
  by (subst utf8_bytes_ascii) (auto simp: quote_plain list_all_iff plain_char_def)

lemma plain_ascii: "list_all plain_char s \<Longrightarrow> list_all (\<lambda>c. c < 128) s"
  by (auto simp: list_all_iff plain_char_def)

lemma plain_fits:
  assumes "list_all plain_char s" and "length s \<le> max_canonical_string_bytes"
  shows "string_fits s" and "is_text s"
proof -
  from assms(1) have a: "list_all (\<lambda>c. c < 128) s" by (rule plain_ascii)
  have "utf8_bytes s = s" using a by (intro utf8_bytes_ascii) (auto simp: list_all_iff)
  with assms a show "string_fits s"
    by (simp add: string_fits_def quote_plain_bytes no_surrogate_ascii limit_defs)
  show "is_text s" using ascii_text [OF a] by simp
qed

lemma small_plain:
  "list_all plain_char s \<Longrightarrow> length s \<le> k \<Longrightarrow> k \<le> max_canonical_string_bytes \<Longrightarrow> small (k + 2) 1 0 (JStr s)"
  using plain_fits [of s] by (simp add: small_def jbytes_leaves quote_plain_bytes)

lemma hex_char_plain: "hex_char c \<Longrightarrow> plain_char c"
  by (auto simp: hex_char_def plain_char_def in_range_def)

lemma symbol_char_plain: "symbol_char c \<Longrightarrow> plain_char c"
  by (auto simp: symbol_char_def plain_char_def in_range_def lit_def)

lemma small_fingerprint [small_intros]: "is_fingerprint s \<Longrightarrow> small 66 1 0 (JStr s)"
  using small_plain [of s 64] by (auto simp: is_fingerprint_def list_all_iff hex_char_plain limit_defs)

lemma symbol_plain: "is_symbol s \<Longrightarrow> list_all plain_char s \<and> length s \<le> 128"
  using symbol_char_plain by (cases s) (auto simp: list_all_iff plain_char_def in_range_def)

lemma small_symbol [small_intros]: "is_symbol s \<Longrightarrow> small 130 1 0 (JStr s)"
  using small_plain [of s 128] symbol_plain [of s] by (auto simp: limit_defs)

lemma small_null [small_intros]: "small 5 1 0 JNull"
  by (simp add: small_def jbytes_leaves)

lemma small_bool [small_intros]: "small 5 1 0 (JBool b)"
  by (simp add: small_def jbytes_leaves)

lemma show_int_length: "0 \<le> i \<Longrightarrow> i < 2 ^ 256 \<Longrightarrow> length (show_int i) \<le> 78"
proof -
  assume i: "0 \<le> i" "i < 2 ^ 256"
  have "nat i < nat (2 ^ 256)" using i by (simp only: nat_less_eq_zless)
  also have "nat (2 ^ 256) < 10 ^ 78" by simp
  finally have "nat i < 10 ^ 78" .
  then have "length (show_nat (nat i)) \<le> 78" by (intro iffD2 [OF show_nat_length] conjI) simp_all
  with i(1) show ?thesis by (simp add: show_int_def)
qed

lemma small_int_nonneg [small_intros]: "0 \<le> i \<Longrightarrow> i < 2 ^ 256 \<Longrightarrow> small 78 1 0 (JInt i)"
  using show_int_length [of i] by (simp only: small_def jbytes_leaves jnodes.simps jdepth.simps leaves_fit.simps
      py_json.simps max_canonical_integer_bits_def bit_length_le) simp

lemma small_optional [small_intros]:
  "(\<forall>s. x = Some s \<longrightarrow> is_fingerprint s) \<Longrightarrow> small 66 1 0 (opt_str x)"
  using small_fingerprint small_mono [OF small_null, of 66 1 0] by (cases x) (simp_all add: opt_str_def)

lemma foldr_max_le: "foldr max xs (0 :: nat) \<le> d \<longleftrightarrow> (\<forall>x \<in> set xs. x \<le> d)"
  using add_foldr_max_le [of 0 xs d] by simp

lemma sum_list_bound: "(\<And>x. x \<in> set xs \<Longrightarrow> f x \<le> b) \<Longrightarrow> sum_list (map f xs) \<le> length xs * (b :: nat)"
  by (induction xs) (auto simp: add_mono)

lemma small_list:
  assumes "\<And>x. x \<in> set xs \<Longrightarrow> small b n d x" and "length xs \<le> k" and "k \<le> max_canonical_collection_items"
  shows "small (2 + k * (b + 1)) (1 + k * n) (d + 1) (JArr xs)"
proof -
  have s: "sum_list (map jbytes xs) \<le> length xs * b" "sum_list (map jnodes xs) \<le> length xs * n"
    using assms(1) by (auto intro!: sum_list_bound simp: small_def)
  have "length xs * b + length xs \<le> k * (b + 1)" "length xs * n \<le> k * n"
    using assms(2) mult_le_mono1 [OF assms(2), of "b + 1"] mult_le_mono1 [OF assms(2), of n]
    by (simp_all add: algebra_simps)
  moreover from this(2) s(2) have "sum_list (map jnodes xs) \<le> k * n" by (rule order_trans [rotated])
  ultimately show ?thesis
    using s assms by (auto simp: small_def jbytes_JArr foldr_max_le list_all_iff)
qed

lemma small_items_Nil: "small_items 0 0 d []"
  by (simp add: small_items_def)

lemma small_items_Cons:
  assumes "list_all plain_char k" and "length k \<le> 1024" and "small b n d v" and "small_items b' n' d kvs"
    and "k \<notin> fst ` set kvs"
  shows "small_items (length k + 4 + b + b') (n + n') d ((k, v) # kvs)"
  using assms plain_fits [OF assms(1)] by (auto simp: small_items_def small_def quote_plain_bytes limit_defs)

lemma small_object:
  assumes "small_items b n d kvs" and "length kvs \<le> 1024"
  shows "small (2 + b) (1 + n) (d + 1) (JObj kvs)"
proof -
  have "sum_list (map (\<lambda>kv. length (utf8_bytes (quote (fst kv))) + 1 + jbytes (snd kv)) kvs) + length kvs =
      sum_list (map (\<lambda>kv. length (utf8_bytes (quote (fst kv))) + 2 + jbytes (snd kv)) kvs)"
    by (induction kvs) simp_all
  then show ?thesis
    using assms by (auto simp: small_items_def small_def jbytes_JObj foldr_max_le list_all_iff limit_defs)
qed

lemma small_fits:
  "small b n d j \<Longrightarrow> b \<le> 262144 \<Longrightarrow> n \<le> 4096 \<Longrightarrow> d \<le> 32 \<Longrightarrow> fits value_profile 0 (0, 0) j \<and> py_json j"
  by (simp add: small_def fits_def within_def advance_counters_def value_profile_def limit_defs)

lemma plain_lit: "list_all (\<lambda>c. plain_char (of_char c)) s \<Longrightarrow> list_all plain_char (lit s)"
  by (auto simp: lit_def list_all_iff)

lemma small_deep: "small b n 0 j \<Longrightarrow> small b n d j"
  using small_mono [of b n 0 j b n d] by simp

lemma small_item:
  assumes "small b n d v" and "small_items b' n' d kvs" and "list_all (\<lambda>c. plain_char (of_char c)) s"
    and "length s \<le> 1024" and "lit s \<notin> fst ` set kvs"
  shows "small_items (length s + 4 + b + b') (n + n') d ((lit s, v) # kvs)"
  using small_items_Cons [OF plain_lit [OF assms(3)] _ assms(1,2,5)] assms(4) by simp

lemma small_lit:
  "list_all (\<lambda>c. plain_char (of_char c)) s \<Longrightarrow> length s \<le> 60 \<Longrightarrow> small 62 1 d (JStr (lit s))"
  using small_deep [OF small_plain [OF plain_lit, of s 60]] by (simp add: limit_defs)

lemma small_symbols:
  "list_all is_symbol ss \<Longrightarrow> length ss \<le> k \<Longrightarrow> k \<le> 1024 \<Longrightarrow> small (2 + k * 131) (1 + k) 1 (str_list ss)"
  using small_list [of "map JStr ss" 130 1 0 k] small_symbol
  unfolding str_list_def by (auto simp: list_all_iff limit_defs)

end
