(* ===== verification/Governance_Policy.thy ===== *)
theory Governance_Policy
  imports Record_Size Admission
begin

text \<open>
  The policy half of \<open>src/ibae/governance.py\<close>: tool permissions, governance policies, task and
  governance receipts, rejections, and their reconstruction from untrusted records. A constructor
  whose arguments may come from such a record takes \<open>pyval\<close> arguments.
\<close>

section \<open>Vocabulary\<close>

definition max_tool_permissions :: int where "max_tool_permissions = 256"
definition max_tool_admissions :: int where "max_tool_admissions = max_proposals_per_batch"
definition max_required_gates :: int where "max_required_gates = 64"
definition max_rejection_invariants :: int where "max_rejection_invariants = 64"
definition max_bound_receipt_ids :: int where "max_bound_receipt_ids = 4096"

definition supported_required_gate_keys :: "pystr list" where
  "supported_required_gate_keys =
     [lit ''compact_evidence_valid'', lit ''execution_receipt_valid'', lit ''orchestration_receipt_valid'']"

datatype provider_authority = OpenAI

fun provider_value :: "provider_authority \<Rightarrow> pystr" where
  "provider_value OpenAI = lit ''openai''"

datatype principal_authority =
    OpenAISupervisor | LocalCandidateWorker | DeterministicOrchestrator | RustExecutionRuntime

fun principal_value :: "principal_authority \<Rightarrow> pystr" where
  "principal_value OpenAISupervisor = lit ''openai_supervisor''"
| "principal_value LocalCandidateWorker = lit ''local_candidate_worker''"
| "principal_value DeterministicOrchestrator = lit ''deterministic_orchestrator''"
| "principal_value RustExecutionRuntime = lit ''rust_execution_runtime''"

datatype tool_authority_class =
    PureRead | SnapshotRead | VolatileRead | IdempotentMutation | NonIdempotentMutation

fun tool_class_value :: "tool_authority_class \<Rightarrow> pystr" where
  "tool_class_value PureRead = lit ''pure_read''"
| "tool_class_value SnapshotRead = lit ''snapshot_read''"
| "tool_class_value VolatileRead = lit ''volatile_read''"
| "tool_class_value IdempotentMutation = lit ''idempotent_mutation''"
| "tool_class_value NonIdempotentMutation = lit ''non_idempotent_mutation''"

definition is_mutation :: "tool_authority_class \<Rightarrow> bool" where
  "is_mutation c \<longleftrightarrow> c \<in> {IdempotentMutation, NonIdempotentMutation}"

definition is_read :: "tool_authority_class \<Rightarrow> bool" where
  "is_read c \<longleftrightarrow> \<not> is_mutation c"

datatype receipt_stage = GovernanceStage | OrchestrationStage | ExecutionStage | FinalizationStage

fun stage_value :: "receipt_stage \<Rightarrow> pystr" where
  "stage_value GovernanceStage = lit ''governance''"
| "stage_value OrchestrationStage = lit ''orchestration''"
| "stage_value ExecutionStage = lit ''execution''"
| "stage_value FinalizationStage = lit ''finalization''"

datatype governance_reason =
    UnknownAuthority | AuthorityEscalation | UnknownToolPermission | ToolClassMismatch
  | MutationNotPermitted | DependencyIdRequired | OccurrenceIdRequired | OccurrenceIdForbidden
  | MalformedAction | InvalidBoundReceipt | UnknownAcceptanceGate

fun governance_reason_value :: "governance_reason \<Rightarrow> pystr" where
  "governance_reason_value UnknownAuthority = lit ''IBAE-REJECT-UNKNOWN-AUTHORITY''"
| "governance_reason_value AuthorityEscalation = lit ''IBAE-REJECT-AUTHORITY-ESCALATION''"
| "governance_reason_value UnknownToolPermission = lit ''IBAE-REJECT-UNKNOWN-TOOL-PERMISSION''"
| "governance_reason_value ToolClassMismatch = lit ''IBAE-REJECT-TOOL-CLASS-MISMATCH''"
| "governance_reason_value MutationNotPermitted = lit ''IBAE-REJECT-MUTATION-NOT-PERMITTED''"
| "governance_reason_value DependencyIdRequired = lit ''IBAE-REJECT-DEPENDENCY-ID-REQUIRED''"
| "governance_reason_value OccurrenceIdRequired = lit ''IBAE-REJECT-OCCURRENCE-ID-REQUIRED''"
| "governance_reason_value OccurrenceIdForbidden = lit ''IBAE-REJECT-OCCURRENCE-ID-FORBIDDEN''"
| "governance_reason_value MalformedAction = lit ''IBAE-REJECT-MALFORMED-ACTION''"
| "governance_reason_value InvalidBoundReceipt = lit ''IBAE-REJECT-INVALID-BOUND-RECEIPT''"
| "governance_reason_value UnknownAcceptanceGate = lit ''IBAE-REJECT-UNKNOWN-ACCEPTANCE-GATE''"

section \<open>Untrusted arguments\<close>

definition require_bool_any :: "pyval \<Rightarrow> bool res" where
  "require_bool_any v = (case v of PBool b \<Rightarrow> Inr b | _ \<Rightarrow> Inl (TypeErr ''must be a boolean''))"

definition require_positive_any :: "pyval \<Rightarrow> int res" where
  "require_positive_any v =
     (case v of PInt i \<Rightarrow> require_positive_int i | _ \<Rightarrow> Inl (ValueErr ''must be a positive integer''))"

definition require_fingerprint_any :: "pyval \<Rightarrow> pystr res" where
  "require_fingerprint_any v =
     (case v of PStr s \<Rightarrow> require_fingerprint s | _ \<Rightarrow> Inl (ValueErr ''must be a lowercase SHA-256 fingerprint''))"

text \<open>\<open>Enum(value)\<close>: the member that carries the value.\<close>

definition enum_member :: "('a \<Rightarrow> pystr) \<Rightarrow> 'a list \<Rightarrow> pyval \<Rightarrow> 'a res" where
  "enum_member value_of members v =
     (case v of
        PStr s \<Rightarrow>
          (case map_of (map (\<lambda>m. (value_of m, m)) members) s of
             Some m \<Rightarrow> Inr m
           | None \<Rightarrow> Inl (ValueErr ''unknown enum value''))
      | _ \<Rightarrow> Inl (ValueErr ''unknown enum value''))"

definition canonical_mapping :: "pyval \<Rightarrow> canonical_value res" where
  "canonical_mapping v =
     (case v of PMap _ \<Rightarrow> canonical_value_from_value v | _ \<Rightarrow> Inl (TypeErr ''must be a mapping''))"

definition bounded_unique :: "(pyval \<Rightarrow> pystr res) \<Rightarrow> int \<Rightarrow> pyval \<Rightarrow> pystr list res" where
  "bounded_unique entry limit v =
     rbind (materialize_any limit v)
       (\<lambda>supplied. rbind (map_res entry supplied)
       (\<lambda>values. rbind (guard (distinct (sort values)) (ValueErr ''must be unique''))
       (\<lambda>_. Inr (sort values))))"

definition bounded_unique_symbols :: "int \<Rightarrow> pyval \<Rightarrow> pystr list res" where
  "bounded_unique_symbols = bounded_unique require_symbol_any"

definition bounded_fingerprints :: "int \<Rightarrow> pyval \<Rightarrow> pystr list res" where
  "bounded_fingerprints = bounded_unique require_fingerprint_any"

section \<open>Records with an exact shape\<close>

definition with_receipt_id :: "digest \<Rightarrow> string \<Rightarrow> json \<Rightarrow> json res" where
  "with_receipt_id H domain body =
     rbind (canonical_value_from_value (of_json body))
       (\<lambda>c. rbind (to_value c)
       (\<lambda>j. case j of
              JObj members \<Rightarrow> Inr (JObj (members @ [(lit ''receipt_id'', JStr (domain_id H domain j))]))
            | _ \<Rightarrow> Inl (TypeErr ''object is not a mapping'')))"

definition receipt_id_member :: "json \<Rightarrow> pystr res" where
  "receipt_id_member j =
     (case j of
        JObj members \<Rightarrow>
          (case map_of members (lit ''receipt_id'') of
             Some (JStr s) \<Rightarrow> Inr s
           | _ \<Rightarrow> Inl (KeyErr ''receipt_id''))
      | _ \<Rightarrow> Inl (KeyErr ''receipt_id''))"

fun copy_members :: "(pystr \<times> pyval) list \<Rightarrow> (pyval \<times> pyval) list \<Rightarrow> (pystr \<times> pyval) list res" where
  "copy_members copied [] = Inr copied"
| "copy_members copied ((k, v) # items) =
     (case k of
        PStr name \<Rightarrow>
          rbind (guard (name \<notin> fst ` set copied) (ValueErr ''field names must be unique''))
            (\<lambda>_. copy_members (copied @ [(name, v)]) items)
      | _ \<Rightarrow> Inl (TypeErr ''field names must be strings''))"

text \<open>Every expected field is present when it is read.\<close>

definition field :: "(pystr \<times> pyval) list \<Rightarrow> string \<Rightarrow> pyval" where
  "field m name = (case map_of m (lit name) of Some v \<Rightarrow> v | None \<Rightarrow> PNone)"

definition exact_mapping :: "pystr list \<Rightarrow> pyval \<Rightarrow> (pystr \<times> pyval) list res" where
  "exact_mapping names v =
     (case v of
        PMap items \<Rightarrow>
          rbind (materialize (int (length names)) items)
            (\<lambda>supplied. rbind (copy_members [] supplied)
            (\<lambda>copied. rbind (guard (sort (map fst copied) = sort names) (ValueErr ''does not match the v1 schema''))
            (\<lambda>_. Inr (sort_key fst copied))))
      | _ \<Rightarrow> Inl (TypeErr ''must be a mapping''))"

definition of_members :: "(pystr \<times> pyval) list \<Rightarrow> pyval" where
  "of_members m = PMap (map (\<lambda>(k, v). (PStr k, v)) m)"

definition require_exact_record :: "pyval \<Rightarrow> json \<Rightarrow> unit res" where
  "require_exact_record v expected =
     (case v of
        PMap _ \<Rightarrow>
          rbind (canonical_value_from_value (of_json expected))
            (\<lambda>c. rbind (to_value c)
            (\<lambda>canonical_expected. rbind (exact_mapping (case canonical_expected of JObj ms \<Rightarrow> map fst ms | _ \<Rightarrow> []) v)
            (\<lambda>bounded. rbind (canonical_value_from_value (of_members bounded))
            (\<lambda>a. rbind (to_value a)
            (\<lambda>actual. guard (py_eq actual canonical_expected)
                        (ValueErr ''is malformed or does not match its bound authority''))))))
      | _ \<Rightarrow> Inl (TypeErr ''must be a mapping''))"

section \<open>Tool permissions\<close>

record tool_permission =
  tp_tool_name :: pystr
  tp_class :: tool_authority_class
  tp_allow_mutation :: bool
  tp_allow_cache_reuse :: bool

definition tool_permission_init :: "pyval \<Rightarrow> tool_authority_class \<Rightarrow> pyval \<Rightarrow> pyval \<Rightarrow> tool_permission res" where
  "tool_permission_init tool_name cls allow_mutation allow_cache_reuse =
     rbind (require_symbol_any tool_name)
       (\<lambda>name. rbind (require_bool_any allow_mutation)
       (\<lambda>mutation. rbind (require_bool_any allow_cache_reuse)
       (\<lambda>reuse. rbind (guard (\<not> (is_read cls \<and> mutation)) (ValueErr ''read tools cannot carry mutation authority''))
       (\<lambda>_. rbind (guard (\<not> (is_mutation cls \<and> reuse)) (ValueErr ''mutations cannot enter the observation cache''))
       (\<lambda>_. rbind (guard (\<not> (cls = VolatileRead \<and> reuse)) (ValueErr ''volatile reads cannot be cache reusable''))
       (\<lambda>_. Inr \<lparr> tp_tool_name = name, tp_class = cls, tp_allow_mutation = mutation,
                  tp_allow_cache_reuse = reuse \<rparr>))))))"

definition tool_permission_record :: "tool_permission \<Rightarrow> json" where
  "tool_permission_record p =
     JObj [(lit ''allow_cache_reuse'', JBool (tp_allow_cache_reuse p)),
           (lit ''allow_mutation'', JBool (tp_allow_mutation p)),
           (lit ''authority_class'', JStr (tool_class_value (tp_class p))),
           (lit ''tool_name'', JStr (tp_tool_name p))]"

definition permission_id :: "digest \<Rightarrow> tool_permission \<Rightarrow> pystr" where
  "permission_id H p = domain_id H ''ibae.tool-permission-id.v1'' (tool_permission_record p)"

definition tool_classes :: "tool_authority_class list" where
  "tool_classes = [PureRead, SnapshotRead, VolatileRead, IdempotentMutation, NonIdempotentMutation]"

definition tool_permission_fields :: "pystr list" where
  "tool_permission_fields =
     [lit ''allow_cache_reuse'', lit ''allow_mutation'', lit ''authority_class'', lit ''tool_name'']"

definition tool_permission_from_record :: "pyval \<Rightarrow> tool_permission res" where
  "tool_permission_from_record v =
     rbind (exact_mapping tool_permission_fields v)
       (\<lambda>active. rbind (enum_member tool_class_value tool_classes (field active ''authority_class''))
       (\<lambda>cls. rbind (tool_permission_init (field active ''tool_name'') cls
                 (field active ''allow_mutation'') (field active ''allow_cache_reuse''))
       (\<lambda>p. rbind (require_exact_record (of_members active) (tool_permission_record p)) (\<lambda>_. Inr p))))"

section \<open>Policies\<close>

record governance_policy =
  gp_policy_key :: pystr
  gp_policy_version :: int
  gp_task_profile :: pystr
  gp_task_profile_version :: int
  gp_provider :: provider_authority
  gp_tool_permissions :: "tool_permission list"
  gp_required_gate_keys :: "pystr list"
  gp_supervisor :: principal_authority
  gp_worker :: principal_authority
  gp_orchestration :: principal_authority
  gp_runtime :: principal_authority

definition governance_policy_init ::
  "pyval \<Rightarrow> pyval \<Rightarrow> pyval \<Rightarrow> pyval \<Rightarrow> provider_authority \<Rightarrow> tool_permission list \<Rightarrow> pyval \<Rightarrow>
   principal_authority \<Rightarrow> principal_authority \<Rightarrow> principal_authority \<Rightarrow> principal_authority \<Rightarrow> governance_policy res"
where
  "governance_policy_init key version profile profile_version provider permissions gates
     supervisor worker orchestration runtime =
     rbind (require_symbol_any key)
       (\<lambda>k. rbind (require_positive_any version)
       (\<lambda>n. rbind (require_symbol_any profile)
       (\<lambda>t. rbind (require_positive_any profile_version)
       (\<lambda>m. rbind (for_each (\<lambda>(actual, expected). guard (actual = expected)
                          (ValueErr ''authority is fixed by the v1 contract''))
                 [(supervisor, OpenAISupervisor), (worker, LocalCandidateWorker),
                  (orchestration, DeterministicOrchestrator), (runtime, RustExecutionRuntime)])
       (\<lambda>_. rbind (materialize max_tool_permissions permissions)
       (\<lambda>supplied. let normalized = sort_key tp_tool_name supplied in
          rbind (guard (distinct (map tp_tool_name normalized)) (ValueErr ''tool permission names must be unique''))
       (\<lambda>_. rbind (bounded_unique_symbols max_required_gates gates)
       (\<lambda>keys. rbind (guard (set keys = set supported_required_gate_keys)
                 (ValueErr ''governance policy requires the exact closed v1 acceptance gate set''))
       (\<lambda>_. Inr \<lparr> gp_policy_key = k, gp_policy_version = n, gp_task_profile = t, gp_task_profile_version = m,
                  gp_provider = provider, gp_tool_permissions = normalized, gp_required_gate_keys = keys,
                  gp_supervisor = supervisor, gp_worker = worker, gp_orchestration = orchestration,
                  gp_runtime = runtime \<rparr>)))))))))"

definition governance_policy_record :: "governance_policy \<Rightarrow> json" where
  "governance_policy_record p =
     JObj [(lit ''orchestration_authority'', JStr (principal_value (gp_orchestration p))),
           (lit ''policy_key'', JStr (gp_policy_key p)),
           (lit ''policy_version'', JInt (gp_policy_version p)),
           (lit ''protocol_version'', JStr (lit ''IBAE-GOVERNANCE-PROTOCOL-V1'')),
           (lit ''provider_authority'', JStr (provider_value (gp_provider p))),
           (lit ''required_gate_keys'', str_list (gp_required_gate_keys p)),
           (lit ''runtime_authority'', JStr (principal_value (gp_runtime p))),
           (lit ''supervisor_authority'', JStr (principal_value (gp_supervisor p))),
           (lit ''task_profile'', JStr (gp_task_profile p)),
           (lit ''task_profile_version'', JInt (gp_task_profile_version p)),
           (lit ''tool_permissions'', JArr (map tool_permission_record (gp_tool_permissions p))),
           (lit ''worker_authority'', JStr (principal_value (gp_worker p)))]"

definition governance_id :: "digest \<Rightarrow> governance_policy \<Rightarrow> pystr" where
  "governance_id H p = domain_id H ''ibae.governance-id.v1'' (governance_policy_record p)"

definition permission_for :: "governance_policy \<Rightarrow> pystr \<Rightarrow> tool_permission option res" where
  "permission_for p tool_name =
     rbind (require_symbol tool_name) (\<lambda>_. Inr (find (\<lambda>item. tp_tool_name item = tool_name) (gp_tool_permissions p)))"

definition principals :: "principal_authority list" where
  "principals = [OpenAISupervisor, LocalCandidateWorker, DeterministicOrchestrator, RustExecutionRuntime]"

definition governance_policy_fields :: "pystr list" where
  "governance_policy_fields =
     [lit ''orchestration_authority'', lit ''policy_key'', lit ''policy_version'', lit ''protocol_version'',
      lit ''provider_authority'', lit ''required_gate_keys'', lit ''runtime_authority'',
      lit ''supervisor_authority'', lit ''task_profile'', lit ''task_profile_version'',
      lit ''tool_permissions'', lit ''worker_authority'']"

definition governance_policy_from_record :: "pyval \<Rightarrow> governance_policy res" where
  "governance_policy_from_record v =
     rbind (exact_mapping governance_policy_fields v)
       (\<lambda>active. rbind (enum_member provider_value [OpenAI] (field active ''provider_authority''))
       (\<lambda>provider. rbind (enum_member principal_value principals (field active ''supervisor_authority''))
       (\<lambda>supervisor. rbind (enum_member principal_value principals (field active ''worker_authority''))
       (\<lambda>worker. rbind (enum_member principal_value principals (field active ''orchestration_authority''))
       (\<lambda>orchestration. rbind (enum_member principal_value principals (field active ''runtime_authority''))
       (\<lambda>runtime. rbind (materialize_any max_tool_permissions (field active ''tool_permissions''))
       (\<lambda>permission_records. rbind (materialize_any max_required_gates (field active ''required_gate_keys''))
       (\<lambda>gates. rbind (map_res tool_permission_from_record permission_records)
       (\<lambda>permissions. rbind (governance_policy_init (field active ''policy_key'') (field active ''policy_version'')
                 (field active ''task_profile'') (field active ''task_profile_version'') provider permissions
                 (PTuple gates) supervisor worker orchestration runtime)
       (\<lambda>p. rbind (require_exact_record (of_members active) (governance_policy_record p)) (\<lambda>_. Inr p)))))))))))"

section \<open>Task receipts\<close>

record task_receipt =
  tr_task_key :: pystr
  tr_contract_version :: int
  tr_required_gate_keys :: "pystr list"
  tr_acceptance_contract :: canonical_value

definition task_receipt_init :: "pyval \<Rightarrow> pyval \<Rightarrow> pyval \<Rightarrow> pyval \<Rightarrow> task_receipt res" where
  "task_receipt_init key contract gate_keys version =
     rbind (require_symbol_any key)
       (\<lambda>k. rbind (require_positive_any version)
       (\<lambda>n. rbind (bounded_unique_symbols max_required_gates gate_keys)
       (\<lambda>gates. rbind (guard (gates \<noteq> []) (ValueErr ''a task requires at least one acceptance gate''))
       (\<lambda>_. rbind (canonical_mapping contract)
       (\<lambda>c. Inr \<lparr> tr_task_key = k, tr_contract_version = n, tr_required_gate_keys = gates,
                  tr_acceptance_contract = c \<rparr>)))))"

definition task_identity_members :: "task_receipt \<Rightarrow> (pystr \<times> json) list" where
  "task_identity_members t =
     [(lit ''acceptance_contract'', stored_value (tr_acceptance_contract t)),
      (lit ''contract_version'', JInt (tr_contract_version t)),
      (lit ''required_gate_keys'', str_list (tr_required_gate_keys t)),
      (lit ''task_key'', JStr (tr_task_key t))]"

definition task_id :: "digest \<Rightarrow> task_receipt \<Rightarrow> pystr" where
  "task_id H t = domain_id H ''ibae.task-id.v1'' (JObj (task_identity_members t))"

definition task_receipt_record :: "digest \<Rightarrow> task_receipt \<Rightarrow> json res" where
  "task_receipt_record H t =
     with_receipt_id H ''ibae.task-receipt-id.v1''
       (JObj (task_identity_members t @
         [(lit ''authority_layer'', JStr (lit ''governance'')),
          (lit ''protocol_version'', JStr (lit ''IBAE-TASK-RECEIPT-V1'')),
          (lit ''status'', JStr (lit ''admitted'')),
          (lit ''task_id'', JStr (task_id H t))]))"

definition task_receipt_id :: "digest \<Rightarrow> task_receipt \<Rightarrow> pystr res" where
  "task_receipt_id H t = rbind (task_receipt_record H t) receipt_id_member"

definition task_receipt_fields :: "pystr list" where
  "task_receipt_fields =
     [lit ''acceptance_contract'', lit ''authority_layer'', lit ''contract_version'', lit ''protocol_version'',
      lit ''receipt_id'', lit ''required_gate_keys'', lit ''status'', lit ''task_id'', lit ''task_key'']"

definition task_receipt_from_record :: "digest \<Rightarrow> pyval \<Rightarrow> task_receipt res" where
  "task_receipt_from_record H v =
     rbind (exact_mapping task_receipt_fields v)
       (\<lambda>active. rbind (task_receipt_init (field active ''task_key'') (field active ''acceptance_contract'')
                 (field active ''required_gate_keys'') (field active ''contract_version''))
       (\<lambda>t. rbind (task_receipt_record H t)
       (\<lambda>j. rbind (require_exact_record (of_members active) j) (\<lambda>_. Inr t))))"

section \<open>Governance receipts\<close>

record governance_receipt =
  gr_task_id :: pystr
  gr_task_receipt_id :: pystr
  gr_governance_id :: pystr
  gr_policy_key :: pystr
  gr_policy_version :: int
  gr_provider :: provider_authority
  gr_requester :: principal_authority
  gr_required_gate_keys :: "pystr list"
  gr_task_profile :: pystr
  gr_task_profile_version :: int

definition governance_receipt_init ::
  "digest \<Rightarrow> governance_policy \<Rightarrow> task_receipt \<Rightarrow> principal_authority \<Rightarrow> governance_receipt res"
where
  "governance_receipt_init H p t requester =
     rbind (guard (requester = OpenAISupervisor) (ValueErr ''only the OpenAI supervisor may admit a governed task''))
       (\<lambda>_. rbind (guard (tr_required_gate_keys t = gp_required_gate_keys p)
                 (ValueErr ''task acceptance gates must match the active policy''))
       (\<lambda>_. rbind (task_receipt_id H t)
       (\<lambda>rid. Inr \<lparr> gr_task_id = task_id H t, gr_task_receipt_id = rid, gr_governance_id = governance_id H p,
                    gr_policy_key = gp_policy_key p, gr_policy_version = gp_policy_version p,
                    gr_provider = gp_provider p, gr_requester = requester,
                    gr_required_gate_keys = gp_required_gate_keys p, gr_task_profile = gp_task_profile p,
                    gr_task_profile_version = gp_task_profile_version p \<rparr>)))"

definition governance_receipt_record :: "digest \<Rightarrow> governance_receipt \<Rightarrow> json res" where
  "governance_receipt_record H g =
     with_receipt_id H ''ibae.governance-receipt-id.v1''
       (JObj [(lit ''authority_layer'', JStr (lit ''governance'')),
              (lit ''governance_id'', JStr (gr_governance_id g)),
              (lit ''policy_key'', JStr (gr_policy_key g)),
              (lit ''policy_version'', JInt (gr_policy_version g)),
              (lit ''protocol_version'', JStr (lit ''IBAE-GOVERNANCE-RECEIPT-V1'')),
              (lit ''provider_authority'', JStr (provider_value (gr_provider g))),
              (lit ''requester'', JStr (principal_value (gr_requester g))),
              (lit ''required_gate_keys'', str_list (gr_required_gate_keys g)),
              (lit ''status'', JStr (lit ''accepted'')),
              (lit ''task_id'', JStr (gr_task_id g)),
              (lit ''task_profile'', JStr (gr_task_profile g)),
              (lit ''task_profile_version'', JInt (gr_task_profile_version g)),
              (lit ''task_receipt_id'', JStr (gr_task_receipt_id g))])"

definition governance_receipt_id :: "digest \<Rightarrow> governance_receipt \<Rightarrow> pystr res" where
  "governance_receipt_id H g = rbind (governance_receipt_record H g) receipt_id_member"

definition governance_receipt_from_record ::
  "digest \<Rightarrow> pyval \<Rightarrow> governance_policy \<Rightarrow> task_receipt \<Rightarrow> governance_receipt res"
where
  "governance_receipt_from_record H v p t =
     rbind (governance_receipt_init H p t OpenAISupervisor)
       (\<lambda>g. rbind (governance_receipt_record H g)
       (\<lambda>j. rbind (require_exact_record v j) (\<lambda>_. Inr g)))"

section \<open>Rejections\<close>

record rejection_receipt =
  rj_stage :: receipt_stage
  rj_reason :: governance_reason
  rj_task_id :: "pystr option"
  rj_governance_id :: "pystr option"
  rj_invariant_ids :: "pystr list"
  rj_bound_receipt_ids :: "pystr list"
  rj_details :: canonical_value

definition rejection_receipt_init ::
  "receipt_stage \<Rightarrow> governance_reason \<Rightarrow> pystr option \<Rightarrow> pystr option \<Rightarrow> pystr list \<Rightarrow> pystr list \<Rightarrow>
   (pyval \<times> pyval) list \<Rightarrow> rejection_receipt res"
where
  "rejection_receipt_init stage reason task governance invariant_ids bound_receipt_ids details =
     rbind (require_optional_fingerprint task)
       (\<lambda>_. rbind (require_optional_fingerprint governance)
       (\<lambda>_. rbind (materialize max_rejection_invariants invariant_ids)
       (\<lambda>supplied. rbind (guard (supplied \<noteq> []) (ValueErr ''rejections require relevant invariant ids''))
       (\<lambda>_. rbind (guard (distinct (sort supplied)) (ValueErr ''rejection invariant ids must be unique''))
       (\<lambda>_. rbind (for_each require_invariant_id (sort supplied))
       (\<lambda>_. rbind (bounded_fingerprints max_bound_receipt_ids (PTuple (map PStr bound_receipt_ids)))
       (\<lambda>bound. rbind (canonical_mapping (PMap details))
       (\<lambda>d. Inr \<lparr> rj_stage = stage, rj_reason = reason, rj_task_id = task, rj_governance_id = governance,
                  rj_invariant_ids = sort supplied, rj_bound_receipt_ids = bound, rj_details = d \<rparr>))))))))"

definition rejection_receipt_record :: "digest \<Rightarrow> rejection_receipt \<Rightarrow> json res" where
  "rejection_receipt_record H r =
     with_receipt_id H ''ibae.rejection-receipt-id.v1''
       (JObj [(lit ''authority_layer'', JStr (lit ''governance'')),
              (lit ''bound_receipt_ids'', str_list (rj_bound_receipt_ids r)),
              (lit ''details'', stored_value (rj_details r)),
              (lit ''governance_id'', opt_str (rj_governance_id r)),
              (lit ''invariant_ids'', str_list (rj_invariant_ids r)),
              (lit ''protocol_version'', JStr (lit ''IBAE-REJECTION-RECEIPT-V1'')),
              (lit ''reason'', JStr (governance_reason_value (rj_reason r))),
              (lit ''stage'', JStr (stage_value (rj_stage r))),
              (lit ''status'', JStr (lit ''rejected'')),
              (lit ''task_id'', opt_str (rj_task_id r))])"

section \<open>Canonical records\<close>

definition member_fits :: "(pystr \<times> json) list \<Rightarrow> bool" where
  "member_fits ms \<longleftrightarrow> fits value_profile 0 (0, 0) (JObj ms) \<and> py_json (JObj ms)"

lemma member_fits_distinct: "member_fits ms \<Longrightarrow> distinct (map fst ms)"
  by (simp add: member_fits_def fits_def)

lemma member_fits_value:
  assumes "member_fits ms"
  shows "canonical_value_from_value (of_json (JObj ms)) = Inr \<lparr> canonical_text = render (JObj ms) \<rparr>"
    and "to_value \<lparr> canonical_text = render (JObj ms) \<rparr> = Inr (canon (JObj ms))"
proof -
  have f: "fits value_profile 0 (0, 0) (JObj ms)" "py_json (JObj ms)" using assms by (simp_all add: member_fits_def)
  have "normalize_bounded_json value_profile (of_json (JObj ms)) = Inr (JObj ms)"
    by (rule normalize_bounded_json_of_json [OF profiles_ok(1) f(1)])
  then show "canonical_value_from_value (of_json (JObj ms)) = Inr \<lparr> canonical_text = render (JObj ms) \<rparr>"
    unfolding canonical_value_from_value_def by (rule text_from_value_Inr [OF text_profiles(1) _ f(2)])
  show "to_value \<lparr> canonical_text = render (JObj ms) \<rparr> = Inr (canon (JObj ms))"
    by (rule validate_text_render(2) [OF text_profiles(1) f])
qed

lemma foldr_max_mset:
  assumes "mset xs = mset ys"
  shows "foldr max xs (0 :: nat) = foldr max ys 0"
proof (rule order_antisym)
  have "set xs = set ys" using assms by (rule mset_eq_setD)
  moreover have "\<forall>x \<in> set zs. x \<le> foldr max zs 0" for zs :: "nat list"
    using foldr_max_le [of zs "foldr max zs 0"] by simp
  ultimately show "foldr max xs 0 \<le> foldr max ys 0" "foldr max ys 0 \<le> foldr max xs 0"
    unfolding foldr_max_le by blast+
qed

lemma member_fits_perm:
  assumes "mset ms = mset ns" and "member_fits ms"
  shows "member_fits ns"
proof -
  have s: "set ms = set ns" "length ms = length ns" using assms(1) by (auto dest: mset_eq_setD mset_eq_length)
  have "mset (map fst ms) = mset (map fst ns)" using assms(1) by simp
  then have d: "distinct (map fst ns)" using member_fits_distinct [OF assms(2)] mset_eq_imp_distinct_iff by blast
  have "sum_list (map f ms) = sum_list (map f ns)" for f :: "pystr \<times> json \<Rightarrow> nat"
    by (rule sum_list_perm [OF assms(1)])
  moreover have "jdepth (JObj ms) = jdepth (JObj ns)"
    unfolding jdepth.simps by (rule foldr_max_mset) (simp add: assms(1))
  ultimately show ?thesis
    using assms(2) d s by (simp add: member_fits_def fits_def within_def advance_counters_def jbytes_JObj list_all_iff)
qed

lemma small_members: "small b n d (JObj ms) \<Longrightarrow> b \<le> 262144 \<Longrightarrow> n \<le> 4096 \<Longrightarrow> d \<le> 32 \<Longrightarrow> member_fits ms"
  unfolding member_fits_def by (rule small_fits)

lemma canon_members: "canon (JObj ms) = JObj (sort_key fst (map (map_prod id canon) ms))"
  by simp

lemma with_receipt_id_Inr:
  assumes "member_fits ms" and "lit ''receipt_id'' \<notin> fst ` set ms"
  shows "\<exists>ns. with_receipt_id H tag (JObj ms) =
      Inr (JObj (ns @ [(lit ''receipt_id'', JStr (domain_id H tag (JObj ms)))])) \<and>
    JObj ns = canon (JObj ms) \<and>
    rbind (with_receipt_id H tag (JObj ms)) receipt_id_member = Inr (domain_id H tag (JObj ms))"
proof -
  let ?ns = "sort_key fst (map (map_prod id canon) ms)"
  have c: "canon (JObj ms) = JObj ?ns" by simp
  have "domain_id H tag (JObj ?ns) = domain_id H tag (JObj ms)"
    unfolding domain_id_def preimage_def c [symmetric] render_canon by (rule refl)
  then have w: "with_receipt_id H tag (JObj ms) =
      Inr (JObj (?ns @ [(lit ''receipt_id'', JStr (domain_id H tag (JObj ms)))]))"
    by (simp only: with_receipt_id_def member_fits_value [OF assms(1)] rbind_Inr c json.case)
  have "map_of (?ns @ [(lit ''receipt_id'', x)]) (lit ''receipt_id'') = Some x" for x :: json
  proof -
    have "lit ''receipt_id'' \<notin> fst ` set ?ns" using assms(2) by (auto simp: image_iff)
    then have "map_of ?ns (lit ''receipt_id'') = None" by (simp only: map_of_eq_None_iff not_False_eq_True)
    then show ?thesis by (simp only: map_of_append map_add_def) simp
  qed
  then have "receipt_id_member (JObj (?ns @ [(lit ''receipt_id'', JStr (domain_id H tag (JObj ms)))])) =
      Inr (domain_id H tag (JObj ms))"
    unfolding receipt_id_member_def by simp
  with w c show ?thesis by (intro exI [of _ ?ns]) (simp only: rbind_Inr simp_thms)
qed

section \<open>Reading records back\<close>

lemma copy_members_Inr:
  "distinct (map fst copied @ map fst ms) \<Longrightarrow>
   copy_members copied (map (\<lambda>(k, v). (PStr k, v)) ms) = Inr (copied @ ms)"
  by (induction ms arbitrary: copied) (auto simp: image_iff)

lemma exact_mapping_members:
  assumes "distinct (map fst ms)" and "mset (map fst ms) = mset names" and "length ms \<le> 1024" and "ms \<noteq> []"
  shows "exact_mapping names (of_members ms) = Inr (sort_key fst ms)"
proof -
  have len: "length ms = length names" using assms(2) by (metis length_map mset_eq_length)
  have "(1024 :: int) < 2 ^ 256" by simp
  then have m: "materialize (int (length names)) (map (\<lambda>(k, v). (PStr k, v)) ms) = Inr (map (\<lambda>(k, v). (PStr k, v)) ms)"
    using assms(3,4) len by (intro materialize_ok) auto
  have c: "copy_members [] (map (\<lambda>(k, v). (PStr k, v)) ms) = Inr ms"
    using copy_members_Inr [of "[]" ms] assms(1) by simp
  have s: "sort (map fst ms) = sort names" using assms(2) by (metis properties_for_sort mset_sort sorted_sort)
  show ?thesis
    unfolding exact_mapping_def of_members_def pyval.case m rbind_Inr c s by simp
qed

section \<open>Valid policies\<close>

definition permission_ok :: "tool_permission \<Rightarrow> bool" where
  "permission_ok p \<longleftrightarrow>
     is_symbol (tp_tool_name p) \<and> \<not> (is_read (tp_class p) \<and> tp_allow_mutation p) \<and>
     \<not> (is_mutation (tp_class p) \<and> tp_allow_cache_reuse p) \<and>
     \<not> (tp_class p = VolatileRead \<and> tp_allow_cache_reuse p)"

definition policy_ok :: "governance_policy \<Rightarrow> bool" where
  "policy_ok p \<longleftrightarrow>
     is_symbol (gp_policy_key p) \<and> 0 < gp_policy_version p \<and> gp_policy_version p < 2 ^ 256 \<and>
     is_symbol (gp_task_profile p) \<and> 0 < gp_task_profile_version p \<and> gp_task_profile_version p < 2 ^ 256 \<and>
     gp_supervisor p = OpenAISupervisor \<and> gp_worker p = LocalCandidateWorker \<and>
     gp_orchestration p = DeterministicOrchestrator \<and> gp_runtime p = RustExecutionRuntime \<and>
     list_all permission_ok (gp_tool_permissions p) \<and> length (gp_tool_permissions p) \<le> 256 \<and>
     sorted (map tp_tool_name (gp_tool_permissions p)) \<and> distinct (map tp_tool_name (gp_tool_permissions p)) \<and>
     gp_required_gate_keys p = supported_required_gate_keys"

lemma require_symbol_any_Inr [accept_simps]: "require_symbol_any v = Inr s \<longleftrightarrow> v = PStr s \<and> is_symbol s"
  by (auto simp: require_symbol_any_def accept_simps split: pyval.splits)

lemma require_positive_any_Inr [accept_simps]:
  "require_positive_any v = Inr i \<longleftrightarrow> v = PInt i \<and> 0 < i \<and> i < 2 ^ 256"
  by (auto simp: require_positive_any_def accept_simps split: pyval.splits)

lemma require_bool_any_Inr [accept_simps]: "require_bool_any v = Inr b \<longleftrightarrow> v = PBool b"
  by (auto simp: require_bool_any_def split: pyval.splits)

lemma require_fingerprint_any_Inr [accept_simps]: "require_fingerprint_any v = Inr s \<longleftrightarrow> v = PStr s \<and> is_fingerprint s"
  by (auto simp: require_fingerprint_any_def accept_simps split: pyval.splits)

lemma tool_permission_init_Inr:
  "tool_permission_init name cls mutation reuse = Inr p \<longleftrightarrow>
     permission_ok p \<and> tp_class p = cls \<and> name = PStr (tp_tool_name p) \<and> mutation = PBool (tp_allow_mutation p) \<and>
     reuse = PBool (tp_allow_cache_reuse p)"
  by (cases p) (auto simp: tool_permission_init_def res_simps accept_simps permission_ok_def)

lemma bounded_unique_Inr:
  assumes "\<And>v s. entry v = Inr s \<longleftrightarrow> v = PStr s \<and> ok s" and "0 < limit" and "limit < 2 ^ 256"
  shows "bounded_unique entry limit v = Inr ss \<longleftrightarrow>
    (\<exists>vs. iterate v = Inr (map PStr vs) \<and> int (length vs) \<le> limit \<and> list_all ok vs \<and> distinct vs \<and> ss = sort vs)"
proof -
  have m: "list_all2 (\<lambda>x y. entry x = Inr y) us vs \<longleftrightarrow> us = map PStr vs \<and> list_all ok vs" for us vs
    by (auto simp: list_all2_conv_all_nth assms(1) list_all_length intro!: nth_equalityI)
  show ?thesis
    using assms(2,3) unfolding bounded_unique_def by (auto simp: res_simps accept_simps m)
qed

lemma supported_gates_sorted: "sort supported_required_gate_keys = supported_required_gate_keys"
  "distinct supported_required_gate_keys" "list_all is_symbol supported_required_gate_keys"
  unfolding supported_required_gate_keys_def
  by (simp_all add: lit_def symbol_char_def in_range_def)

lemma bounded_unique_symbols_Inr:
  "0 < limit \<Longrightarrow> limit < 2 ^ 256 \<Longrightarrow>
   bounded_unique_symbols limit v = Inr ss \<longleftrightarrow>
     (\<exists>vs. iterate v = Inr (map PStr vs) \<and> int (length vs) \<le> limit \<and> list_all is_symbol vs \<and> distinct vs \<and> ss = sort vs)"
  unfolding bounded_unique_symbols_def by (rule bounded_unique_Inr) (simp_all add: accept_simps)

lemma governance_policy_init_ok:
  assumes "governance_policy_init key ver prof pver prov perms gates su wrk orch rt = Inr p"
    and "list_all permission_ok perms"
  shows "policy_ok p"
proof -
  have g: "ss = supported_required_gate_keys" if "sorted ss" "distinct ss" "set ss = set supported_required_gate_keys"
    for ss :: "pystr list"
    using that supported_gates_sorted by (metis sorted_distinct_set_unique sorted_sort)
  from assms show ?thesis
    by (auto simp: governance_policy_init_def res_simps accept_simps Let_def policy_ok_def max_tool_permissions_def
        bounded_unique_symbols_Inr max_required_gates_def list_all_iff intro!: g)
qed

lemma governance_policy_init_complete:
  assumes "policy_ok p" and "iterate gates = Inr (map PStr (gp_required_gate_keys p))"
  shows "governance_policy_init (PStr (gp_policy_key p)) (PInt (gp_policy_version p)) (PStr (gp_task_profile p))
    (PInt (gp_task_profile_version p)) (gp_provider p) (gp_tool_permissions p) gates
    (gp_supervisor p) (gp_worker p) (gp_orchestration p) (gp_runtime p) = Inr p"
proof -
  have "bounded_unique_symbols max_required_gates gates = Inr supported_required_gate_keys"
    using assms supported_gates_sorted
    by (subst bounded_unique_symbols_Inr) (auto simp: max_required_gates_def policy_ok_def supported_required_gate_keys_def
        intro!: exI [of _ supported_required_gate_keys])
  with assms(1) show ?thesis
    by (cases p) (simp add: governance_policy_init_def policy_ok_def require_symbol_any_def require_positive_any_def
        require_total require_positive_int_total materialize_ok max_tool_permissions_def Let_def sort_key_id)
qed

section \<open>Records of valid policies read back\<close>

lemma of_json_object: "of_json (JObj ms) = of_members (map (map_prod id of_json) ms)"
  by (induction ms) (auto simp: of_members_def)

lemma of_json_array: "of_json (JArr xs) = PList (map of_json xs)"
  by (induction xs) auto

lemma field_sorted:
  "distinct (map fst m) \<Longrightarrow> field (sort_key fst m) name = field m name"
proof -
  assume d: "distinct (map fst m)"
  then have "distinct (map fst (sort_key fst m))"
    using mset_eq_imp_distinct_iff [of "map fst (sort_key fst m)" "map fst m"] by simp
  with d have "map_of (sort_key fst m) = map_of m" by (simp add: map_of_inject_set)
  then show ?thesis by (simp add: field_def)
qed

lemma canon_of_sorted: "distinct (map fst ms) \<Longrightarrow> canon (JObj (sort_key fst ms)) = canon (JObj ms)"
  unfolding canon_members
  by (intro arg_cong [where f = JObj] sort_key_perm_eq) (auto simp: distinct_map inj_on_def)

lemma fst_map_prod: "map fst (map (map_prod id f) ms) = map fst ms"
  by simp

lemma sort_key_map_prod: "sort_key fst (map (map_prod id f) ms) = map (map_prod id f) (sort_key fst ms)"
  by (simp add: sort_key_map)

lemma exact_mapping_record:
  assumes "member_fits ms" and "mset (map fst ms) = mset names" and "ms \<noteq> []"
  shows "exact_mapping names (of_json (JObj ms)) = Inr (map (map_prod id of_json) (sort_key fst ms))"
proof -
  have "length ms \<le> 1024" using assms(1) by (simp add: member_fits_def fits_def value_profile_def limit_defs)
  then show ?thesis
    unfolding of_json_object sort_key_map_prod [symmetric] using assms member_fits_distinct [OF assms(1)]
    by (intro exact_mapping_members) (simp_all only: fst_map_prod length_map map_is_Nil_conv not_False_eq_True)
qed

lemma require_exact_record_self:
  assumes "member_fits ms" and "ms \<noteq> []"
  shows "require_exact_record (of_members (map (map_prod id of_json) (sort_key fst ms))) (JObj ms) = Inr ()"
proof -
  let ?s = "sort_key fst ms"
  have f: "member_fits ?s" using member_fits_perm [OF _ assms(1)] by simp
  have k: "(case canon (JObj ms) of JObj x \<Rightarrow> map fst x | _ \<Rightarrow> []) = map fst ?s"
    by (simp only: canon_members sort_key_map_prod json.case fst_map_prod)
  have m: "exact_mapping (map fst ?s) (of_members (map (map_prod id of_json) ?s)) = Inr (map (map_prod id of_json) ?s)"
  proof -
    have "?s \<noteq> []" using assms(2) by (metis set_empty set_sort)
    from exact_mapping_record [OF f refl this] show ?thesis by (simp only: of_json_object sort_key_sort_key)
  qed
  have c: "canon (JObj ?s) = canon (JObj ms)" by (rule canon_of_sorted [OF member_fits_distinct [OF assms(1)]])
  have a: "canonical_value_from_value (of_members (map (map_prod id of_json) ?s)) =
      Inr \<lparr> canonical_text = render (JObj ?s) \<rparr>"
    using member_fits_value(1) [OF f] by (simp only: of_json_object)
  have t: "require_exact_record (of_members xs) j =
      rbind (canonical_value_from_value (of_json j)) (\<lambda>c. rbind (to_value c) (\<lambda>e.
        rbind (exact_mapping (case e of JObj ms \<Rightarrow> map fst ms | _ \<Rightarrow> []) (of_members xs))
        (\<lambda>b. rbind (canonical_value_from_value (of_members b))
        (\<lambda>a. rbind (to_value a) (\<lambda>x. guard (py_eq x e) (ValueErr ''is malformed or does not match its bound authority''))))))"
    for xs j by (simp add: require_exact_record_def of_members_def)
  show ?thesis
    unfolding t member_fits_value [OF assms(1)] rbind_Inr k m a member_fits_value(2) [OF f] c py_eq_refl by simp
qed

lemma enum_member_value:
  "distinct (map f members) \<Longrightarrow> m \<in> set members \<Longrightarrow> enum_member f members (PStr (f m)) = Inr m"
  by (simp add: enum_member_def map_of_keyed)

lemma principal_values: "distinct (map principal_value principals)" "p \<in> set principals"
  by (simp_all add: principals_def) (cases p; simp)

lemma tool_class_values: "distinct (map tool_class_value tool_classes)" "c \<in> set tool_classes"
  by (simp_all add: tool_classes_def) (cases c; simp)

lemma provider_values: "distinct (map provider_value [OpenAI])" "p \<in> set [OpenAI]"
  by (cases p; simp)+

lemma small_tool_class: "small 62 1 d (JStr (tool_class_value c))"
  by (cases c; simp only: tool_class_value.simps; rule small_lit; simp add: plain_char_def)

lemma small_principal: "small 62 1 d (JStr (principal_value q))"
  by (cases q; simp only: principal_value.simps; rule small_lit; simp add: plain_char_def)

lemma small_provider: "small 62 1 d (JStr (provider_value r))"
  by (cases r; simp only: provider_value.simps; rule small_lit; simp add: plain_char_def)

lemmas small_enums = small_tool_class small_principal small_provider

lemma permission_fits: 
  assumes "permission_ok p"
  shows "small 400 5 1 (tool_permission_record p)"
proof -
  have "small 130 1 0 (JStr (tp_tool_name p))" using assms by (simp add: permission_ok_def small_symbol del: One_nat_def)
  note leaf = this small_enums(1) [where d = 0] small_bool
  show ?thesis unfolding tool_permission_record_def
    by (rule small_mono, rule small_object, (rule small_item small_items_Nil leaf)+) (simp_all add: plain_char_def)
qed

lemma policy_fits: 
  assumes "policy_ok p"
  shows "small 150000 1500 3 (governance_policy_record p)"
proof -
  have perms: "small (2 + 256 * (400 + 1)) (1 + 256 * 5) (1 + 1) (JArr (map tool_permission_record (gp_tool_permissions p)))"
    using assms permission_fits
    by (intro small_list) (auto simp: policy_ok_def list_all_iff limit_defs simp del: One_nat_def)
  have gates: "small (2 + 64 * 131) (1 + 64) 2 (str_list (gp_required_gate_keys p))"
    using assms supported_gates_sorted(3)
    by (intro small_mono [OF small_symbols [of _ 64]]) (simp_all add: policy_ok_def supported_required_gate_keys_def)
  have "small 130 1 2 (JStr (gp_policy_key p))" "small 130 1 2 (JStr (gp_task_profile p))"
    "small 78 1 2 (JInt (gp_policy_version p))" "small 78 1 2 (JInt (gp_task_profile_version p))"
    using assms unfolding policy_ok_def by (blast intro: small_deep small_symbol small_int_nonneg order_less_imp_le)+
  moreover have "small 62 1 2 (JStr (lit ''IBAE-GOVERNANCE-PROTOCOL-V1''))" by (rule small_lit) (simp_all add: plain_char_def)
  ultimately have leaf: "small 130 1 2 (JStr (gp_policy_key p))" "small 130 1 2 (JStr (gp_task_profile p))"
    "small 78 1 2 (JInt (gp_policy_version p))" "small 78 1 2 (JInt (gp_task_profile_version p))"
    "small 62 1 2 (JStr (lit ''IBAE-GOVERNANCE-PROTOCOL-V1''))" by blast+
  note leaf = leaf small_enums [where d = 2] perms [unfolded one_add_one] gates
  show ?thesis unfolding governance_policy_record_def
    by (rule small_mono, rule small_object, (rule small_item small_items_Nil leaf)+) (simp_all add: plain_char_def)
qed

lemma field_members:
  assumes "distinct (map fst ms)"
  shows "field (map (map_prod id of_json) (sort_key fst ms)) name = (case map_of ms (lit name) of Some j \<Rightarrow> of_json j | None \<Rightarrow> PNone)"
proof -
  have "field (map (map_prod id of_json) (sort_key fst ms)) name = field (map (map_prod id of_json) ms) name"
    unfolding sort_key_map_prod [symmetric] using assms by (intro field_sorted) (simp only: fst_map_prod)
  moreover have "map_of (map (map_prod id of_json) ms) k = map_option of_json (map_of ms k)" for k
    by (induction ms) auto
  ultimately show ?thesis unfolding field_def by (simp split: option.splits)
qed

lemma member_fits_small: "small 200000 2000 4 (JObj ms) \<Longrightarrow> member_fits ms"
  using small_members [of 200000 2000 4 ms] by simp

lemma permission_read_back:
  assumes "permission_ok p"
  shows "tool_permission_from_record (of_json (tool_permission_record p)) = Inr p"
proof -
  obtain ms where ms: "tool_permission_record p = JObj ms" by (simp add: tool_permission_record_def)
  note d = ms [unfolded tool_permission_record_def json.inject, symmetric]
  have f: "member_fits ms"
    using small_mono [OF permission_fits [OF assms]] ms by (intro member_fits_small) simp
  have n: "ms \<noteq> []" and k: "map fst ms = tool_permission_fields"
    by (simp_all add: d tool_permission_fields_def)
  have e: "exact_mapping tool_permission_fields (of_json (JObj ms)) = Inr (map (map_prod id of_json) (sort_key fst ms))"
    by (rule exact_mapping_record [OF f _ n]) (simp only: k)
  note fm = field_members [OF member_fits_distinct [OF f]]
  have fields: "field (map (map_prod id of_json) (sort_key fst ms)) ''authority_class'' = PStr (tool_class_value (tp_class p))"
    "field (map (map_prod id of_json) (sort_key fst ms)) ''tool_name'' = PStr (tp_tool_name p)"
    "field (map (map_prod id of_json) (sort_key fst ms)) ''allow_mutation'' = PBool (tp_allow_mutation p)"
    "field (map (map_prod id of_json) (sort_key fst ms)) ''allow_cache_reuse'' = PBool (tp_allow_cache_reuse p)"
    unfolding fm by (simp_all add: d)
  have i: "tool_permission_init (PStr (tp_tool_name p)) (tp_class p) (PBool (tp_allow_mutation p)) (PBool (tp_allow_cache_reuse p)) = Inr p"
    using assms by (simp add: tool_permission_init_Inr)
  show ?thesis
    unfolding tool_permission_from_record_def ms e rbind_Inr fields enum_member_value [OF tool_class_values] i
      require_exact_record_self [OF f n] by simp
qed

lemma policy_read_back:
  assumes "policy_ok p"
  shows "governance_policy_from_record (of_json (governance_policy_record p)) = Inr p"
proof -
  obtain ms where ms: "governance_policy_record p = JObj ms" by (simp add: governance_policy_record_def)
  note d = ms [unfolded governance_policy_record_def json.inject, symmetric]
  have f: "member_fits ms"
    using small_mono [OF policy_fits [OF assms]] ms by (intro member_fits_small) simp
  have n: "ms \<noteq> []" and k: "map fst ms = governance_policy_fields"
    by (simp_all add: d governance_policy_fields_def)
  have e: "exact_mapping governance_policy_fields (of_json (JObj ms)) = Inr (map (map_prod id of_json) (sort_key fst ms))"
    by (rule exact_mapping_record [OF f _ n]) (simp only: k)
  let ?a = "map (map_prod id of_json) (sort_key fst ms)"
  note fm = field_members [OF member_fits_distinct [OF f]]
  have authorities: "field ?a ''provider_authority'' = PStr (provider_value (gp_provider p))"
    "field ?a ''supervisor_authority'' = PStr (principal_value (gp_supervisor p))"
    "field ?a ''worker_authority'' = PStr (principal_value (gp_worker p))"
    "field ?a ''orchestration_authority'' = PStr (principal_value (gp_orchestration p))"
    "field ?a ''runtime_authority'' = PStr (principal_value (gp_runtime p))"
    unfolding fm by (simp_all add: d)
  have scalars: "field ?a ''policy_key'' = PStr (gp_policy_key p)" "field ?a ''policy_version'' = PInt (gp_policy_version p)"
    "field ?a ''task_profile'' = PStr (gp_task_profile p)" "field ?a ''task_profile_version'' = PInt (gp_task_profile_version p)"
    "field ?a ''tool_permissions'' = PList (map of_json (map tool_permission_record (gp_tool_permissions p)))"
    "field ?a ''required_gate_keys'' = PList (map PStr (gp_required_gate_keys p))"
    unfolding fm by (simp_all add: d of_json_array str_list_def comp_def del: of_json.simps(6))
  have "materialize_any max_tool_permissions (PList (map of_json (map tool_permission_record (gp_tool_permissions p)))) =
      Inr (map of_json (map tool_permission_record (gp_tool_permissions p)))"
    using assms by (auto simp: accept_simps policy_ok_def max_tool_permissions_def iterate_def)
  moreover have "materialize_any max_required_gates (PList (map PStr (gp_required_gate_keys p))) =
      Inr (map PStr (gp_required_gate_keys p))"
    using assms by (auto simp: accept_simps policy_ok_def max_required_gates_def iterate_def supported_required_gate_keys_def)
  moreover have "map_res tool_permission_from_record (map of_json (map tool_permission_record (gp_tool_permissions p))) =
      Inr (gp_tool_permissions p)"
    using assms permission_read_back
    by (auto simp: res_simps list_all2_conv_all_nth policy_ok_def list_all_length)
  moreover note governance_policy_init_complete [OF assms, of "PTuple (map PStr (gp_required_gate_keys p))"]
  ultimately show ?thesis
    unfolding governance_policy_from_record_def ms e rbind_Inr authorities scalars
      enum_member_value [OF principal_values] enum_member_value [OF provider_values]
    by (simp only: rbind_Inr iterate_def pyval.case simp_thms ms require_exact_record_self [OF f n])
qed

end
