(* ===== verification/Governance_Tools.thy ===== *)
theory Governance_Tools
  imports Governance_Policy Admit_Batch
begin

text \<open>
  The admission half of \<open>src/ibae/governance.py\<close>: revalidated copies of orchestration decisions,
  tool admission receipts, orchestration receipts and the wrapper that turns every failure into a
  rejection receipt.
\<close>

section \<open>Revalidated copies\<close>

definition decision_copy :: "admission_decision \<Rightarrow> admission_decision res" where
  "decision_copy d =
     rbind (admission_decision_init d)
       (\<lambda>v. rbind (guard (decision_record d = decision_record v) (ValueErr ''admission_decision is not canonically valid''))
       (\<lambda>_. Inr v))"

definition batch_rejection_copy :: "batch_rejection option \<Rightarrow> batch_rejection option res" where
  "batch_rejection_copy b =
     (case b of
        None \<Rightarrow> Inr None
      | Some r \<Rightarrow>
          rbind (batch_rejection_init r)
            (\<lambda>v. rbind (guard (batch_rejection_record r = batch_rejection_record v)
                      (ValueErr ''batch_rejection is not canonically valid''))
            (\<lambda>_. Inr (Some v))))"

definition admission_receipt_copy :: "admission_receipt \<Rightarrow> admission_receipt res" where
  "admission_receipt_copy r =
     rbind (materialize max_proposals_per_batch (rc_decisions r))
       (\<lambda>supplied. rbind (map_res decision_copy supplied)
       (\<lambda>decisions. rbind (batch_rejection_copy (rc_batch_rejection r))
       (\<lambda>b. rbind (admission_receipt_init (r \<lparr> rc_decisions := decisions, rc_batch_rejection := b \<rparr>))
       (\<lambda>v. rbind (guard (receipt_record r = receipt_record v) (ValueErr ''admission_receipt is not canonically valid''))
       (\<lambda>_. Inr v)))))"

text \<open>The \<open>observational_metadata\<close> property returns the decoded value, \<open>null\<close> when there is none.\<close>

definition metadata_argument :: "canonical_value option \<Rightarrow> pyval option res" where
  "metadata_argument m =
     (case m of
        None \<Rightarrow> Inr None
      | Some c \<Rightarrow> rbind (to_value c) (\<lambda>j. Inr (if j = JNull then None else Some (of_json j))))"

definition proposal_copy :: "action_proposal \<Rightarrow> action_proposal res" where
  "proposal_copy p =
     rbind (to_value (proposal_arguments p))
       (\<lambda>arguments. rbind (metadata_argument (observational_metadata p))
       (\<lambda>metadata. rbind (action_proposal_init (proposal_key p) (proposal_capability p) (of_json arguments)
                 (target_obligation_ids p) (proposal_state_keys p) (occurrence_key p) metadata)
       (\<lambda>v. rbind (guard (py_eq (agent_record p) (agent_record v)) (ValueErr ''proposal is not canonically valid''))
       (\<lambda>_. Inr v))))"

definition capability_copy :: "digest \<Rightarrow> capability \<Rightarrow> capability res" where
  "capability_copy H c =
     rbind (capability_init c)
       (\<lambda>v. rbind (guard (capability_record H c = capability_record H v) (ValueErr ''capability is not canonically valid''))
       (\<lambda>_. Inr v))"

definition require_governance_binding ::
  "digest \<Rightarrow> governance_policy \<Rightarrow> task_receipt \<Rightarrow> governance_receipt \<Rightarrow> unit res"
where
  "require_governance_binding H p t g =
     rbind (governance_policy_from_record (of_json (governance_policy_record p)))
       (\<lambda>q. rbind (guard (governance_policy_record p = governance_policy_record q)
                 (ValueErr ''governance policy is not canonically valid''))
       (\<lambda>_. rbind (to_value (tr_acceptance_contract t))
       (\<lambda>contract. rbind (task_receipt_init (PStr (tr_task_key t)) (of_json contract)
                 (PTuple (map PStr (tr_required_gate_keys t))) (PInt (tr_contract_version t)))
       (\<lambda>u. rbind (task_receipt_record H t)
       (\<lambda>tj. rbind (task_receipt_record H u)
       (\<lambda>uj. rbind (guard (py_eq tj uj) (ValueErr ''task receipt is not canonically valid''))
       (\<lambda>_. rbind (governance_receipt_init H p t OpenAISupervisor)
       (\<lambda>e. rbind (governance_receipt_record H g)
       (\<lambda>gj. rbind (governance_receipt_record H e)
       (\<lambda>ej. guard (gj = ej) (ValueErr ''governance receipt does not bind the active policy and task'')))))))))))"

section \<open>Tool admission receipts\<close>

record tool_admission =
  ta_task_id :: pystr
  ta_governance_id :: pystr
  ta_governance_receipt_id :: pystr
  ta_action_id :: pystr
  ta_decision :: admission_decision
  ta_proposal :: action_proposal
  ta_capability :: capability
  ta_permission_id :: pystr
  ta_tool_name :: pystr
  ta_class :: tool_authority_class
  ta_requester :: principal_authority
  ta_dependency :: pystr
  ta_occurrence_key :: "pystr option"
  ta_arguments :: canonical_value
  ta_cache_reuse :: bool

definition check_admitted_decision ::
  "digest \<Rightarrow> admission_decision \<Rightarrow> action_proposal \<Rightarrow> capability \<Rightarrow> tool_permission \<Rightarrow> unit res"
where
  "check_admitted_decision H d p c perm =
     rbind (guard (dec_status d = Admitted) (ValueErr ''tool governance requires a v0.2 admitted decision''))
       (\<lambda>_. rbind (guard (dec_authority d = Orchestration) (ValueErr ''tool governance requires orchestration-layer admission''))
       (\<lambda>_. rbind (guard (dec_blocking d = [] \<and> dec_unresolved d = [])
                 (ValueErr ''admitted decisions cannot carry blocking state''))
       (\<lambda>_. rbind (guard (dec_proposal_id d = proposal_id H p \<and> dec_proposal_key d = proposal_key p)
                 (ValueErr ''admission decision and proposal identities do not match''))
       (\<lambda>_. rbind (guard (proposal_capability p = cap_name c) (ValueErr ''proposal and capability identities do not match''))
       (\<lambda>_. rbind (guard (tp_tool_name perm = cap_name c) (ValueErr ''tool permission and capability names do not match''))
       (\<lambda>_. guard (available c) (ValueErr ''unavailable capabilities cannot receive tool authority'')))))))"

definition check_authority_class :: "tool_authority_class \<Rightarrow> capability \<Rightarrow> pystr list \<Rightarrow> unit res" where
  "check_authority_class cls c keys =
     (if cls \<in> {PureRead, SnapshotRead} then
        rbind (guard (cap_replay_safety c = CacheableRead)
                (ValueErr ''pure and snapshot reads require cacheable-read replay safety''))
          (\<lambda>_. guard (cls = (if keys \<noteq> [] then SnapshotRead else PureRead))
                 (ValueErr ''read authority class does not match declared state dependencies''))
      else guard (cap_replay_safety c = OccurrenceSensitive)
             (ValueErr ''v1 effect and volatile authority requires occurrence-sensitive replay safety''))"

definition check_occurrence :: "tool_permission \<Rightarrow> pystr option \<Rightarrow> unit res" where
  "check_occurrence perm occurrence =
     rbind (guard (\<not> is_mutation (tp_class perm) \<or> tp_allow_mutation perm) (ValueErr ''mutation is not explicitly permitted''))
       (\<lambda>_. if is_mutation (tp_class perm) \<or> tp_class perm = VolatileRead
            then (case occurrence of
                    None \<Rightarrow> Inl (ValueErr ''volatile reads and mutations require occurrence identity'')
                  | Some k \<Rightarrow> rbind (require_symbol k) (\<lambda>_. Inr ()))
            else guard (occurrence = None) (ValueErr ''pure and snapshot reads cannot carry occurrence identity''))"

definition tool_admission_init ::
  "digest \<Rightarrow> governance_policy \<Rightarrow> task_receipt \<Rightarrow> governance_receipt \<Rightarrow> tool_permission \<Rightarrow> principal_authority \<Rightarrow>
   admission_decision \<Rightarrow> action_proposal \<Rightarrow> capability \<Rightarrow> pystr \<Rightarrow> tool_admission res"
where
  "tool_admission_init H pol t g perm requester decision proposal cap dependency =
     rbind (require_governance_binding H pol t g)
       (\<lambda>_. rbind (permission_for pol (tp_tool_name perm))
       (\<lambda>owned. rbind (guard (owned = Some perm) (ValueErr ''tool permission is not owned by the active policy''))
       (\<lambda>_. rbind (guard (requester = DeterministicOrchestrator)
                 (ValueErr ''only the deterministic orchestrator may admit a tool''))
       (\<lambda>_. rbind (decision_copy decision)
       (\<lambda>d. rbind (proposal_copy proposal)
       (\<lambda>p. rbind (capability_copy H cap)
       (\<lambda>c. rbind (check_admitted_decision H d p c perm)
       (\<lambda>_. let keys = dependency_state_keys c p in
          rbind (guard (dec_dependency_keys d = keys)
                  (ValueErr ''admission decision dependency keys do not match its proposal capability''))
       (\<lambda>_. rbind (require_fingerprint dependency)
       (\<lambda>_. rbind (normalize_arguments c (of_json (stored_value (proposal_arguments p))))
       (\<lambda>arguments. let action = action_identity H c arguments (occurrence_key p) dependency in
          rbind (guard (dec_action_id d = Some action)
                  (ValueErr ''v0.2 admitted action identity does not match the typed proposal''))
       (\<lambda>_. rbind (check_authority_class (tp_class perm) c keys)
       (\<lambda>_. rbind (check_occurrence perm (occurrence_key p))
       (\<lambda>_. rbind (governance_receipt_id H g)
       (\<lambda>gid. rbind (canonical_value_from_value (of_json arguments))
       (\<lambda>value. Inr
          \<lparr> ta_task_id = task_id H t, ta_governance_id = governance_id H pol, ta_governance_receipt_id = gid,
            ta_action_id = action, ta_decision = d, ta_proposal = p, ta_capability = c,
            ta_permission_id = permission_id H perm, ta_tool_name = tp_tool_name perm, ta_class = tp_class perm,
            ta_requester = requester, ta_dependency = dependency, ta_occurrence_key = occurrence_key p,
            ta_arguments = value, ta_cache_reuse = tp_allow_cache_reuse perm \<rparr>))))))))))))))))"

definition decision_id :: "digest \<Rightarrow> admission_decision \<Rightarrow> pystr" where
  "decision_id H d = domain_id H ''ibae.governed-admission-decision-id.v1'' (decision_record d)"

definition arguments_id :: "digest \<Rightarrow> tool_admission \<Rightarrow> pystr" where
  "arguments_id H a = H (utf8_bytes (render (stored_value (ta_arguments a))))"

definition action_identity_members :: "digest \<Rightarrow> tool_admission \<Rightarrow> (pystr \<times> json) list" where
  "action_identity_members H a =
     [(lit ''action_id'', JStr (ta_action_id a)),
      (lit ''arguments'', stored_value (ta_arguments a)),
      (lit ''arguments_id'', JStr (arguments_id H a)),
      (lit ''authority_class'', JStr (tool_class_value (ta_class a))),
      (lit ''capability_id'', JStr (capability_id H (ta_capability a))),
      (lit ''decision_id'', JStr (decision_id H (ta_decision a))),
      (lit ''dependency_fingerprint'', JStr (ta_dependency a)),
      (lit ''governance_id'', JStr (ta_governance_id a)),
      (lit ''occurrence_key'', opt_str (ta_occurrence_key a)),
      (lit ''permission_id'', JStr (ta_permission_id a)),
      (lit ''proposal_id'', JStr (proposal_id H (ta_proposal a))),
      (lit ''replay_safety'', JStr (replay_safety_value (cap_replay_safety (ta_capability a)))),
      (lit ''task_id'', JStr (ta_task_id a)),
      (lit ''tool_name'', JStr (ta_tool_name a))]"

definition governed_action_id :: "digest \<Rightarrow> tool_admission \<Rightarrow> pystr" where
  "governed_action_id H a = domain_id H ''ibae.governed-tool-action-id.v1'' (JObj (action_identity_members H a))"

definition tool_admission_record :: "digest \<Rightarrow> tool_admission \<Rightarrow> json res" where
  "tool_admission_record H a =
     with_receipt_id H ''ibae.tool-admission-receipt-id.v1''
       (JObj (action_identity_members H a @
         [(lit ''authority_layer'', JStr (lit ''governance'')),
          (lit ''cache_reuse_permitted'', JBool (ta_cache_reuse a)),
          (lit ''governed_action_id'', JStr (governed_action_id H a)),
          (lit ''governance_receipt_id'', JStr (ta_governance_receipt_id a)),
          (lit ''protocol_version'', JStr (lit ''IBAE-TOOL-ADMISSION-RECEIPT-V1'')),
          (lit ''requester'', JStr (principal_value (ta_requester a))),
          (lit ''status'', JStr (lit ''accepted''))]))"

definition tool_admission_receipt_id :: "digest \<Rightarrow> tool_admission \<Rightarrow> pystr res" where
  "tool_admission_receipt_id H a = rbind (tool_admission_record H a) receipt_id_member"

definition require_tool_admission_binding ::
  "digest \<Rightarrow> governance_policy \<Rightarrow> task_receipt \<Rightarrow> governance_receipt \<Rightarrow> tool_admission \<Rightarrow> tool_admission res"
where
  "require_tool_admission_binding H pol t g a =
     rbind (require_governance_binding H pol t g)
       (\<lambda>_. rbind (permission_for pol (ta_tool_name a))
       (\<lambda>owned. case owned of
            None \<Rightarrow> Inl (ValueErr ''tool admission does not bind an active permission'')
          | Some perm \<Rightarrow>
              rbind (tool_admission_init H pol t g perm DeterministicOrchestrator (ta_decision a) (ta_proposal a)
                       (ta_capability a) (ta_dependency a))
                (\<lambda>e. rbind (tool_admission_record H a)
                (\<lambda>aj. rbind (tool_admission_record H e)
                (\<lambda>ej. rbind (guard (py_eq aj ej) (ValueErr ''tool admission receipt is not canonically valid''))
                (\<lambda>_. Inr e))))))"

section \<open>Orchestration receipts\<close>

text \<open>
  The loop over the decisions of a batch: proposals are seen once, an admitted action is new, a
  deduplicated one names an earlier admitted proposal with the same action. The result maps every
  admitted action to its decision.
\<close>

record decision_ledger =
  dl_proposal_ids :: "pystr list"
  dl_proposal_keys :: "pystr list"
  dl_by_proposal :: "(pystr \<times> pystr) list"
  dl_by_action :: "(pystr \<times> admission_decision) list"

definition empty_ledger :: decision_ledger where
  "empty_ledger = \<lparr> dl_proposal_ids = [], dl_proposal_keys = [], dl_by_proposal = [], dl_by_action = [] \<rparr>"

definition ledger_decision :: "decision_ledger \<Rightarrow> admission_decision \<Rightarrow> decision_ledger res" where
  "ledger_decision l d =
     (case dec_status d of
        Admitted \<Rightarrow>
          (case dec_action_id d of
             None \<Rightarrow> Inl (ValueErr ''admitted decision is missing its action identity'')
           | Some action \<Rightarrow>
               rbind (guard (action \<notin> fst ` set (dl_by_action l))
                       (ValueErr ''one v0.2 action identity cannot have multiple admitted decisions''))
                 (\<lambda>_. Inr (l \<lparr> dl_by_proposal := dl_by_proposal l @ [(dec_proposal_id d, action)],
                              dl_by_action := dl_by_action l @ [(action, d)] \<rparr>)))
      | Deduplicated \<Rightarrow>
          rbind (guard (dec_action_id d \<noteq> None) (ValueErr ''deduplicated decision is missing its action identity''))
            (\<lambda>_. rbind (guard (Option.bind (dec_equivalent d) (map_of (dl_by_proposal l)) = dec_action_id d)
                      (ValueErr ''deduplicated decisions must reference an earlier admitted proposal''))
            (\<lambda>_. Inr l))
      | Rejected \<Rightarrow> Inr l)"

definition ledger_step :: "decision_ledger \<Rightarrow> admission_decision \<Rightarrow> decision_ledger res" where
  "ledger_step l d =
     rbind (guard (dec_proposal_id d \<notin> set (dl_proposal_ids l))
             (ValueErr ''one proposal identity cannot have multiple admission decisions''))
       (\<lambda>_. rbind (guard (dec_proposal_key d \<notin> set (dl_proposal_keys l))
                 (ValueErr ''one proposal key cannot have multiple admission decisions''))
       (\<lambda>_. rbind (guard (dec_authority d = Orchestration)
                 (ValueErr ''governed admission decisions must belong to orchestration''))
       (\<lambda>_. rbind (guard (dec_status d = Rejected \<or> dec_blocking d = [] \<and> dec_unresolved d = [])
                 (ValueErr ''accepted admission decisions cannot carry blocking state''))
       (\<lambda>_. ledger_decision
              (l \<lparr> dl_proposal_ids := dl_proposal_ids l @ [dec_proposal_id d],
                   dl_proposal_keys := dl_proposal_keys l @ [dec_proposal_key d] \<rparr>) d))))"

fun check_ledger :: "decision_ledger \<Rightarrow> admission_decision list \<Rightarrow> decision_ledger res" where
  "check_ledger l [] = Inr l"
| "check_ledger l (d # ds) = rbind (ledger_step l d) (\<lambda>l'. check_ledger l' ds)"

definition check_admission_decisions :: "(pystr \<times> admission_decision) list \<Rightarrow> tool_admission list \<Rightarrow> unit res" where
  "check_admission_decisions by_action =
     for_each (\<lambda>a. case map_of by_action (ta_action_id a) of
                     None \<Rightarrow> Inl (KeyErr ''action id'')
                   | Some d \<Rightarrow> guard (decision_record d = decision_record (ta_decision a))
                                (ValueErr ''tool admission does not bind the exact admitted decision''))"

definition runtime_cache_key :: "digest \<Rightarrow> tool_admission \<Rightarrow> pystr \<times> pystr \<times> pystr" where
  "runtime_cache_key H a = (ta_tool_name a, arguments_id H a, ta_dependency a)"

definition cached_reads :: "tool_admission list \<Rightarrow> tool_admission list" where
  "cached_reads as = filter (\<lambda>a. ta_class a \<in> {PureRead, SnapshotRead}) as"

fun tool_class_name :: "tool_authority_class \<Rightarrow> pystr" where
  "tool_class_name PureRead = lit ''PURE_READ''"
| "tool_class_name SnapshotRead = lit ''SNAPSHOT_READ''"
| "tool_class_name VolatileRead = lit ''VOLATILE_READ''"
| "tool_class_name IdempotentMutation = lit ''IDEMPOTENT_MUTATION''"
| "tool_class_name NonIdempotentMutation = lit ''NON_IDEMPOTENT_MUTATION''"

definition manifest_entry :: "digest \<Rightarrow> tool_admission \<Rightarrow> json res" where
  "manifest_entry H a =
     rbind (tool_admission_receipt_id H a)
       (\<lambda>rid. Inr (JObj
          [(lit ''action_id'', JStr (ta_action_id a)),
           (lit ''arguments_id'', JStr (arguments_id H a)),
           (lit ''authority_class'', JStr (tool_class_name (ta_class a))),
           (lit ''cache_reuse_permitted'', JBool (ta_cache_reuse a)),
           (lit ''dependency_fingerprint'', JStr (ta_dependency a)),
           (lit ''tool_admission_receipt_id'', JStr rid),
           (lit ''tool_name'', JStr (ta_tool_name a))]))"

record governed_orchestration =
  go_task_id :: pystr
  go_governance_id :: pystr
  go_governance_receipt_id :: pystr
  go_admission :: admission_receipt
  go_tool_admissions :: "tool_admission list"
  go_manifest :: canonical_value
  go_manifest_id :: pystr
  go_manifest_count :: int

definition governed_orchestration_init ::
  "digest \<Rightarrow> governance_policy \<Rightarrow> task_receipt \<Rightarrow> governance_receipt \<Rightarrow> admission_receipt \<Rightarrow> tool_admission list \<Rightarrow>
   governed_orchestration res"
where
  "governed_orchestration_init H pol t g admitted admissions =
     rbind (require_governance_binding H pol t g)
       (\<lambda>_. rbind (admission_receipt_copy admitted)
       (\<lambda>r. rbind (guard (rc_status r = Processed) (ValueErr ''a rejected batch cannot become accepted orchestration''))
       (\<lambda>_. rbind (materialize max_tool_admissions admissions)
       (\<lambda>supplied. rbind (map_res (require_tool_admission_binding H pol t g) supplied)
       (\<lambda>validated. let normalized = sort_key ta_action_id validated; action_ids = map ta_action_id normalized in
          rbind (guard (distinct action_ids) (ValueErr ''tool admissions must bind unique v0.2 action ids''))
       (\<lambda>_. rbind (check_ledger empty_ledger (rc_decisions r))
       (\<lambda>ledger. rbind (guard (action_ids = sort (map fst (dl_by_action ledger)))
                 (ValueErr ''tool admissions must exactly authorize every admitted action identity''))
       (\<lambda>_. rbind (check_admission_decisions (dl_by_action ledger) normalized)
       (\<lambda>_. rbind (guard (\<not> list_ex (\<lambda>a. cap_replay_safety (ta_capability a) = OccurrenceSensitive) normalized \<or>
                       rc_ordering r = DeclaredSequence)
                 (ValueErr ''occurrence-sensitive actions require declared-sequence ordering''))
       (\<lambda>_. rbind (guard (distinct (map (runtime_cache_key H) (cached_reads normalized)))
                 (ValueErr ''distinct governed actions cannot share one runtime cache key''))
       (\<lambda>_. rbind (map_res (manifest_entry H) normalized)
       (\<lambda>manifest. rbind (governance_receipt_id H g)
       (\<lambda>gid. rbind (canonical_value_from_value (of_json (JArr manifest)))
       (\<lambda>value. Inr
          \<lparr> go_task_id = task_id H t, go_governance_id = governance_id H pol, go_governance_receipt_id = gid,
            go_admission = r, go_tool_admissions = normalized, go_manifest = value,
            go_manifest_id = domain_id H ''ibae.evidence-authorization-manifest.v1''
                               (JObj [(lit ''entries'', JArr manifest)]),
            go_manifest_count = int (length normalized) \<rparr>))))))))))))))"

definition orchestration_identity_members :: "digest \<Rightarrow> governed_orchestration \<Rightarrow> (pystr \<times> json) list" where
  "orchestration_identity_members H x =
     [(lit ''admission_receipt_id'', JStr (receipt_id H (go_admission x))),
      (lit ''authorization_manifest_count'', JInt (go_manifest_count x)),
      (lit ''authorization_manifest_id'', JStr (go_manifest_id x)),
      (lit ''batch_id'', JStr (rc_batch_id (go_admission x))),
      (lit ''governance_id'', JStr (go_governance_id x)),
      (lit ''next_state_id'', JStr (rc_next_state_id (go_admission x))),
      (lit ''prior_state_id'', JStr (rc_prior_state_id (go_admission x))),
      (lit ''task_id'', JStr (go_task_id x))]"

definition orchestration_id :: "digest \<Rightarrow> governed_orchestration \<Rightarrow> pystr" where
  "orchestration_id H x = domain_id H ''ibae.governed-orchestration-id.v1'' (JObj (orchestration_identity_members H x))"

definition governed_orchestration_record :: "digest \<Rightarrow> governed_orchestration \<Rightarrow> json res" where
  "governed_orchestration_record H x =
     with_receipt_id H ''ibae.orchestration-receipt-id.v1''
       (JObj (orchestration_identity_members H x @
         [(lit ''authorization_manifest'', stored_value (go_manifest x)),
          (lit ''authority_layer'', JStr (lit ''orchestration'')),
          (lit ''governance_receipt_id'', JStr (go_governance_receipt_id x)),
          (lit ''logical_tick_end'', JInt (rc_tick_end (go_admission x))),
          (lit ''logical_tick_start'', JInt (rc_tick_start (go_admission x))),
          (lit ''orchestration_id'', JStr (orchestration_id H x)),
          (lit ''protocol_version'', JStr (lit ''IBAE-ORCHESTRATION-RECEIPT-V1'')),
          (lit ''source_status'', JStr (batch_status_value (rc_status (go_admission x)))),
          (lit ''status'', JStr (lit ''accepted''))]))"

section \<open>The wrapper\<close>

text \<open>
  A governed operation returns its receipt, raises \<open>GovernanceRejected\<close> with a rejection receipt,
  or lets another exception through.
\<close>

datatype 'a governed = Granted 'a | Refused rejection_receipt | Raised pyexn

fun governed_of :: "'a res \<Rightarrow> 'a governed" where
  "governed_of (Inr x) = Granted x"
| "governed_of (Inl e) = Raised e"

text \<open>\<open>except (AttributeError, TypeError, ValueError)\<close>; \<open>UnicodeError\<close> is a \<open>ValueError\<close>.\<close>

fun caught :: "pyexn \<Rightarrow> bool" where
  "caught (TypeErr _) = True"
| "caught (ValueErr _) = True"
| "caught (UnicodeErr _) = True"
| "caught _ = False"

definition attempt :: "'a res \<Rightarrow> 'b governed \<Rightarrow> ('a \<Rightarrow> 'b governed) \<Rightarrow> 'b governed" where
  "attempt r handler k =
     (case r of Inr x \<Rightarrow> k x | Inl e \<Rightarrow> if caught e then handler else Raised e)"

definition governance_wrapper_init :: "governance_policy \<Rightarrow> governance_policy res" where
  "governance_wrapper_init p = governance_policy_from_record (of_json (governance_policy_record p))"

definition refuse_with ::
  "digest \<Rightarrow> governance_policy \<Rightarrow> receipt_stage \<Rightarrow> governance_reason \<Rightarrow> (task_receipt \<times> governance_receipt) option \<Rightarrow>
   string list \<Rightarrow> (string \<times> pyval) list \<Rightarrow> 'a governed"
where
  "refuse_with H p stage reason bound invariants details =
     (case rbind (case bound of
                    None \<Rightarrow> Inr (None, [])
                  | Some (t, g) \<Rightarrow> rbind (governance_receipt_id H g) (\<lambda>i. Inr (Some (task_id H t), [i])))
             (\<lambda>(task, ids). rejection_receipt_init stage reason task (Some (governance_id H p)) (map lit invariants) ids
                (map (\<lambda>(k, v). (PStr (lit k), v)) details)) of
        Inl e \<Rightarrow> Raised e
      | Inr r \<Rightarrow> Refused r)"

definition admit_task ::
  "digest \<Rightarrow> governance_policy \<Rightarrow> pystr \<Rightarrow> pyval \<Rightarrow> principal_authority \<Rightarrow> int \<Rightarrow>
   (task_receipt \<times> governance_receipt) governed"
where
  "admit_task H p key contract requester version =
     (if requester \<noteq> OpenAISupervisor
      then refuse_with H p GovernanceStage AuthorityEscalation None [''IBAE-GOV-002'', ''IBAE-LAY-002'']
             [(''requested_operation'', PStr (lit ''admit_task''))]
      else governed_of
        (rbind (task_receipt_init (PStr key) contract (PTuple (map PStr (gp_required_gate_keys p))) (PInt version))
           (\<lambda>t. rbind (governance_receipt_init H p t requester) (\<lambda>g. Inr (t, g)))))"

definition copy_tool_inputs ::
  "digest \<Rightarrow> admission_decision \<Rightarrow> action_proposal \<Rightarrow> capability \<Rightarrow> (admission_decision \<times> action_proposal \<times> capability) res"
where
  "copy_tool_inputs H decision proposal cap =
     rbind (decision_copy decision)
       (\<lambda>d. rbind (proposal_copy proposal)
       (\<lambda>p. rbind (capability_copy H cap) (\<lambda>c. Inr (d, p, c))))"

definition admit_tool_checked ::
  "digest \<Rightarrow> governance_policy \<Rightarrow> task_receipt \<Rightarrow> governance_receipt \<Rightarrow> admission_decision \<Rightarrow> action_proposal \<Rightarrow> capability \<Rightarrow>
   tool_permission \<Rightarrow> tool_authority_class \<Rightarrow> pystr option \<Rightarrow> principal_authority \<Rightarrow> tool_admission governed"
where
  "admit_tool_checked H pol t g d p c perm cls dependency requester =
     (let refuse = (\<lambda>reason invariants. refuse_with H pol GovernanceStage reason (Some (t, g)) invariants
                      [(''tool_name'', PStr (cap_name c))]) in
      if cls \<noteq> tp_class perm then refuse ToolClassMismatch [''IBAE-GOV-004'', ''IBAE-ORCH-003'']
      else if is_mutation cls \<and> \<not> tp_allow_mutation perm
      then refuse MutationNotPermitted [''IBAE-GOV-004'', ''IBAE-GOV-006'']
      else (case dependency of
              None \<Rightarrow> refuse DependencyIdRequired [''IBAE-REUSE-001'', ''IBAE-REUSE-002'']
            | Some dep \<Rightarrow>
                if (is_mutation cls \<or> cls = VolatileRead) \<and> occurrence_key p = None
                then refuse OccurrenceIdRequired [''IBAE-GOV-004'', ''IBAE-ORCH-007'']
                else if cls \<in> {PureRead, SnapshotRead} \<and> occurrence_key p \<noteq> None
                then refuse OccurrenceIdForbidden [''IBAE-GOV-004'', ''IBAE-ORCH-007'']
                else attempt (tool_admission_init H pol t g perm requester d p c dep)
                       (refuse MalformedAction [''IBAE-DET-001'', ''IBAE-GOV-006'']) Granted))"

definition admit_tool ::
  "digest \<Rightarrow> governance_policy \<Rightarrow> task_receipt \<Rightarrow> governance_receipt \<Rightarrow> admission_decision \<Rightarrow> action_proposal \<Rightarrow> capability \<Rightarrow>
   tool_authority_class \<Rightarrow> pystr option \<Rightarrow> principal_authority \<Rightarrow> tool_admission governed"
where
  "admit_tool H pol t g decision proposal cap cls dependency requester =
     attempt (require_governance_binding H pol t g)
       (refuse_with H pol GovernanceStage InvalidBoundReceipt None [''IBAE-GOV-006'', ''IBAE-GOV-007'', ''IBAE-ID-002'']
          [(''record_type'', PStr (lit ''governance_context''))])
       (\<lambda>_. if requester \<noteq> DeterministicOrchestrator
            then refuse_with H pol GovernanceStage AuthorityEscalation (Some (t, g)) [''IBAE-GOV-003'', ''IBAE-LAY-002'']
                   [(''requested_operation'', PStr (lit ''admit_tool''))]
            else attempt (copy_tool_inputs H decision proposal cap)
              (refuse_with H pol GovernanceStage MalformedAction (Some (t, g)) [''IBAE-DET-001'', ''IBAE-GOV-006'']
                 [(''record_type'', PStr (lit ''typed_v0.2_admission''))])
              (\<lambda>(d, p, c). attempt (permission_for pol (cap_name c))
                 (refuse_with H pol GovernanceStage UnknownToolPermission (Some (t, g)) [''IBAE-GOV-004'', ''IBAE-GOV-006'']
                    [(''requested_operation'', PStr (lit ''admit_tool''))])
                 (\<lambda>owned. case owned of
                      None \<Rightarrow> refuse_with H pol GovernanceStage UnknownToolPermission (Some (t, g))
                                [''IBAE-GOV-004'', ''IBAE-GOV-006''] [(''tool_name'', PStr (cap_name c))]
                    | Some perm \<Rightarrow> admit_tool_checked H pol t g d p c perm cls dependency requester)))"

definition bind_orchestration ::
  "digest \<Rightarrow> governance_policy \<Rightarrow> task_receipt \<Rightarrow> governance_receipt \<Rightarrow> admission_receipt \<Rightarrow> tool_admission list \<Rightarrow>
   governed_orchestration governed"
where
  "bind_orchestration H pol t g admitted admissions =
     attempt (require_governance_binding H pol t g)
       (refuse_with H pol OrchestrationStage InvalidBoundReceipt None [''IBAE-GOV-006'', ''IBAE-GOV-007'', ''IBAE-ID-002'']
          [(''record_type'', PStr (lit ''governance_context''))])
       (\<lambda>_. attempt (governed_orchestration_init H pol t g admitted admissions)
              (refuse_with H pol OrchestrationStage InvalidBoundReceipt (Some (t, g)) [''IBAE-GOV-007'', ''IBAE-ID-003'']
                 [(''record_type'', PStr (lit ''orchestration''))])
              Granted)"

end
