(* ===== verification/Governance_Correct.thy ===== *)
theory Governance_Correct
  imports Governance_Tools Admit_Properties
begin

text \<open>
  What the governance gate of \<open>Governance_Tools\<close> guarantees: receipts it issues are accepted again,
  granted tools rest on the policy, refusals follow one decision table and an orchestration receipt
  authorizes exactly the admitted actions.
\<close>

section \<open>What a granted tool admission rests on\<close>

lemma attempt_Granted:
  "attempt r h k = Granted x \<longleftrightarrow> (\<exists>y. r = Inr y \<and> k y = Granted x) \<or> (\<exists>e. r = Inl e \<and> caught e \<and> h = Granted x)"
  by (auto simp: attempt_def split: sum.splits)

lemma refuse_with_not_Granted [simp]: "refuse_with H p stage reason bound invariants details \<noteq> Granted x"
  by (auto simp: refuse_with_def split: sum.splits)

lemma decision_copy_Inr: "decision_copy d = Inr v \<Longrightarrow> admission_decision_init d = Inr v \<and> decision_record d = decision_record v"
  by (auto simp: decision_copy_def res_simps)

lemma admit_tool_checked_Granted:
  "admit_tool_checked H pol t g d p c perm cls dependency requester = Granted a \<longleftrightarrow>
     cls = tp_class perm \<and> (is_mutation cls \<longrightarrow> tp_allow_mutation perm) \<and>
     (\<exists>dep. dependency = Some dep \<and> \<not> ((is_mutation cls \<or> cls = VolatileRead) \<and> occurrence_key p = None) \<and>
        \<not> (cls \<in> {PureRead, SnapshotRead} \<and> occurrence_key p \<noteq> None) \<and>
        tool_admission_init H pol t g perm requester d p c dep = Inr a)"
  by (cases dependency) (auto simp: admit_tool_checked_def attempt_Granted Let_def)

lemma admit_tool_Granted:
  assumes "admit_tool H pol t g decision proposal cap cls dependency requester = Granted a"
  shows "\<exists>perm d p c. requester = DeterministicOrchestrator \<and> copy_tool_inputs H decision proposal cap = Inr (d, p, c) \<and>
    permission_for pol (cap_name c) = Inr (Some perm) \<and> require_governance_binding H pol t g = Inr () \<and>
    admit_tool_checked H pol t g d p c perm cls dependency requester = Granted a"
  using assms
  by (auto simp: admit_tool_def attempt_Granted split: if_split_asm option.split_asm)

lemma tool_admission_Inr:
  assumes "tool_admission_init H pol t g perm requester decision proposal cap dep = Inr a"
  shows "\<exists>d p c arguments. decision_copy decision = Inr d \<and> proposal_copy proposal = Inr p \<and> capability_copy H cap = Inr c \<and>
    check_admitted_decision H d p c perm = Inr () \<and> dec_dependency_keys d = dependency_state_keys c p \<and>
    normalize_arguments c (of_json (stored_value (proposal_arguments p))) = Inr arguments \<and>
    dec_action_id d = Some (action_identity H c arguments (occurrence_key p) dep) \<and>
    check_authority_class (tp_class perm) c (dependency_state_keys c p) = Inr () \<and>
    check_occurrence perm (occurrence_key p) = Inr () \<and> is_fingerprint dep \<and>
    ta_action_id a = action_identity H c arguments (occurrence_key p) dep \<and> ta_decision a = d \<and> ta_proposal a = p \<and>
    ta_capability a = c \<and> ta_class a = tp_class perm \<and> ta_tool_name a = tp_tool_name perm \<and> ta_dependency a = dep \<and>
    ta_occurrence_key a = occurrence_key p \<and> ta_cache_reuse a = tp_allow_cache_reuse perm \<and>
    ta_permission_id a = permission_id H perm \<and> ta_governance_id a = governance_id H pol \<and> ta_task_id a = task_id H t \<and>
    permission_for pol (tp_tool_name perm) = Inr (Some perm)"
  using assms by (auto simp: tool_admission_init_def res_simps accept_simps Let_def)

lemma check_authority_class_Inr:
  "check_authority_class cls c keys = Inr u \<longleftrightarrow>
     (if cls \<in> {PureRead, SnapshotRead}
      then cap_replay_safety c = CacheableRead \<and> (cls = SnapshotRead \<longleftrightarrow> keys \<noteq> [])
      else cap_replay_safety c = OccurrenceSensitive)"
  by (auto simp: check_authority_class_def res_simps)

lemma check_occurrence_Inr:
  "check_occurrence perm occ = Inr u \<longleftrightarrow>
     (is_mutation (tp_class perm) \<longrightarrow> tp_allow_mutation perm) \<and>
     (if is_mutation (tp_class perm) \<or> tp_class perm = VolatileRead then \<exists>k. occ = Some k \<and> is_symbol k else occ = None)"
  by (auto simp: check_occurrence_def res_simps accept_simps split: option.splits)

lemma permission_for_mem: "permission_for pol name = Inr (Some perm) \<Longrightarrow> perm \<in> set (gp_tool_permissions pol) \<and> tp_tool_name perm = name"
  by (auto simp: permission_for_def res_simps find_Some_iff)

section \<open>Receipts of a governed task\<close>

lemma from_value_member_fits:
  assumes "canonical_value_from_value (of_json (JObj ms)) = Inr c" and "py_json (JObj ms)"
  shows "member_fits ms"
proof -
  obtain j where "normalize_bounded_json value_profile (of_json (JObj ms)) = Inr j"
    using assms(1) by (auto simp: canonical_value_from_value_def text_from_value_def res_simps simp del: of_json.simps)
  moreover from this have "j = JObj ms" 
    by (auto simp: normalize_bounded_json_def res_simps simp del: of_json.simps dest: normalize_of_json(1))
  ultimately have "fits value_profile 0 (0, 0) (JObj ms)" using normalize_bounded_json_Inr(1) by blast
  then show ?thesis using assms(2) by (simp add: member_fits_def)
qed

lemma receipt_id_of_body:
  "member_fits ms \<Longrightarrow> lit ''receipt_id'' \<notin> fst ` set ms \<Longrightarrow>
   rbind (with_receipt_id H tag (JObj ms)) receipt_id_member = Inr (domain_id H tag (JObj ms))"
  using with_receipt_id_Inr by blast

definition task_body :: "digest \<Rightarrow> task_receipt \<Rightarrow> (pystr \<times> json) list" where
  "task_body H t =
     task_identity_members t @
       [(lit ''authority_layer'', JStr (lit ''governance'')),
        (lit ''protocol_version'', JStr (lit ''IBAE-TASK-RECEIPT-V1'')),
        (lit ''status'', JStr (lit ''admitted'')),
        (lit ''task_id'', JStr (task_id H t))]"

definition task_ok :: "digest \<Rightarrow> task_receipt \<Rightarrow> bool" where
  "task_ok H t \<longleftrightarrow>
     is_symbol (tr_task_key t) \<and> 0 < tr_contract_version t \<and> tr_contract_version t < 2 ^ 256 \<and>
     list_all is_symbol (tr_required_gate_keys t) \<and> sorted (tr_required_gate_keys t) \<and>
     distinct (tr_required_gate_keys t) \<and> tr_required_gate_keys t \<noteq> [] \<and> length (tr_required_gate_keys t) \<le> 64 \<and>
     value_ok (tr_acceptance_contract t) \<and> (\<exists>kvs. stored_value (tr_acceptance_contract t) = JObj kvs) \<and>
     member_fits (task_body H t)"

lemma task_receipt_id_eq:
  assumes "task_ok H t"
  shows "task_receipt_id H t = Inr (domain_id H ''ibae.task-receipt-id.v1'' (JObj (task_body H t)))"
proof -
  have "lit ''receipt_id'' \<notin> fst ` set (task_body H t)" by (simp add: task_body_def task_identity_members_def)
  moreover have "member_fits (task_body H t)" using assms by (simp add: task_ok_def)
  ultimately show ?thesis
    unfolding task_receipt_id_def task_receipt_record_def task_body_def [symmetric] by (intro receipt_id_of_body)
qed

lemma task_receipt_record_ok: "task_ok H t \<Longrightarrow> \<exists>j. task_receipt_record H t = Inr j"
  using task_receipt_id_eq [of H t] by (auto simp: task_receipt_id_def res_simps)

lemma task_receipt_init_again:
  assumes "task_ok H t"
  shows "task_receipt_init (PStr (tr_task_key t)) (of_json (stored_value (tr_acceptance_contract t)))
    (PTuple (map PStr (tr_required_gate_keys t))) (PInt (tr_contract_version t)) = Inr t"
proof -
  obtain kvs where kvs: "stored_value (tr_acceptance_contract t) = JObj kvs" "value_ok (tr_acceptance_contract t)"
    using assms by (auto simp: task_ok_def)
  then have "canonical_mapping (of_json (stored_value (tr_acceptance_contract t))) = Inr (tr_acceptance_contract t)"
    using from_stored_value [OF kvs(2)] by (simp add: canonical_mapping_def)
  moreover have "bounded_unique_symbols max_required_gates (PTuple (map PStr (tr_required_gate_keys t))) =
      Inr (tr_required_gate_keys t)"
    using assms by (subst bounded_unique_symbols_Inr)
      (auto simp: task_ok_def max_required_gates_def iterate_def sort_key_id intro!: exI [of _ "tr_required_gate_keys t"])
  ultimately show ?thesis
    using assms by (cases t) (simp add: task_receipt_init_def task_ok_def require_symbol_any_def require_positive_any_def
        require_total require_positive_int_total)
qed

definition receipt_body :: "governance_receipt \<Rightarrow> (pystr \<times> json) list" where
  "receipt_body g =
     [(lit ''authority_layer'', JStr (lit ''governance'')),
      (lit ''governance_id'', JStr (gr_governance_id g)),
      (lit ''policy_key'', JStr (gr_policy_key g)),
      (lit ''policy_version'', JInt (gr_policy_version g)),
      (lit ''protocol_version'', JStr (lit ''IBAE-GOVERNANCE-RECEIPT-V1'')),
      (lit ''provider_authority'', JStr (provider_value (gr_provider g))),
      (lit ''requester'', JStr (principal_value (gr_requester g))),
      (lit ''required_gate_keys'', str_list (gr_required_gate_keys g)),
      (lit ''status'', JStr (lit ''accepted'')),
      (lit ''task_id'', JStr (gr_task_id g)),
      (lit ''task_profile'', JStr (gr_task_profile g)),
      (lit ''task_profile_version'', JInt (gr_task_profile_version g)),
      (lit ''task_receipt_id'', JStr (gr_task_receipt_id g))]"

lemma governance_receipt_eq:
  assumes "digest_ok H" and "policy_ok pol" and "task_ok H t" and "governance_receipt_init H pol t requester = Inr g"
  shows "governance_receipt_id H g = Inr (domain_id H ''ibae.governance-receipt-id.v1'' (JObj (receipt_body g)))"
    and "requester = OpenAISupervisor" and "gr_task_id g = task_id H t" and "gr_governance_id g = governance_id H pol"
    and "member_fits (receipt_body g)"
proof -
  note g = assms(4) [unfolded governance_receipt_init_def task_receipt_id_eq [OF assms(3)] rbind_Inr]
  have eq: "g = \<lparr> gr_task_id = task_id H t,
      gr_task_receipt_id = domain_id H ''ibae.task-receipt-id.v1'' (JObj (task_body H t)), gr_governance_id = governance_id H pol,
      gr_policy_key = gp_policy_key pol, gr_policy_version = gp_policy_version pol,
      gr_provider = gp_provider pol, gr_requester = requester,
      gr_required_gate_keys = gp_required_gate_keys pol, gr_task_profile = gp_task_profile pol,
      gr_task_profile_version = gp_task_profile_version pol \<rparr>"
    and req: "requester = OpenAISupervisor" using g by (auto simp: res_simps)
  show "requester = OpenAISupervisor" "gr_task_id g = task_id H t" "gr_governance_id g = governance_id H pol"
    using eq req by simp_all
  have gates: "small (2 + 64 * 131) (1 + 64) 1 (str_list (gp_required_gate_keys pol))"
    using assms(2) supported_gates_sorted(3)
    by (intro small_symbols) (simp_all add: policy_ok_def supported_required_gate_keys_def)
  have syms: "small 130 1 1 (JStr (gp_policy_key pol))" "small 130 1 1 (JStr (gp_task_profile pol))"
    "small 78 1 1 (JInt (gp_policy_version pol))" "small 78 1 1 (JInt (gp_task_profile_version pol))"
    using assms(2) unfolding policy_ok_def by (blast intro: small_deep small_symbol small_int_nonneg order_less_imp_le)+
  have ids: "small 66 1 1 (JStr (task_id H t))" "small 66 1 1 (JStr (governance_id H pol))"
    "small 66 1 1 (JStr (domain_id H ''ibae.task-receipt-id.v1'' (JObj (task_body H t))))"
    unfolding task_id_def governance_id_def
    by (blast intro: small_deep small_fingerprint domain_id_fingerprint [OF assms(1)])+
  have lits: "small 62 1 1 (JStr (lit ''governance''))" "small 62 1 1 (JStr (lit ''accepted''))"
    "small 62 1 1 (JStr (lit ''IBAE-GOVERNANCE-RECEIPT-V1''))"
    by (rule small_lit; simp add: plain_char_def)+
  note leaf = gates syms ids lits small_principal [where d = 1] small_provider [where d = 1]
  show "member_fits (receipt_body g)"
    unfolding eq receipt_body_def governance_receipt.simps
    by (rule member_fits_small, rule small_mono, rule small_object, (rule small_item small_items_Nil leaf)+)
       (simp_all add: plain_char_def)
  moreover have "lit ''receipt_id'' \<notin> fst ` set (receipt_body g)" by (simp add: receipt_body_def)
  ultimately show "governance_receipt_id H g = Inr (domain_id H ''ibae.governance-receipt-id.v1'' (JObj (receipt_body g)))"
    unfolding governance_receipt_id_def governance_receipt_record_def receipt_body_def [symmetric]
    by (intro receipt_id_of_body)
qed

lemma binding_ok:
  assumes "digest_ok H" and "policy_ok pol" and "task_ok H t" and "governance_receipt_init H pol t OpenAISupervisor = Inr g"
  shows "require_governance_binding H pol t g = Inr ()"
proof -
  obtain tj gj where j: "task_receipt_record H t = Inr tj" "governance_receipt_record H g = Inr gj"
    using task_receipt_record_ok [OF assms(3)] governance_receipt_eq(1) [OF assms]
    by (auto simp: governance_receipt_id_def res_simps)
  have "to_value (tr_acceptance_contract t) = Inr (stored_value (tr_acceptance_contract t))"
    using assms(3) by (simp add: task_ok_def value_ok_stored)
  then show ?thesis
    by (simp add: require_governance_binding_def policy_read_back [OF assms(2)] task_receipt_init_again [OF assms(3)] j assms(4))
qed

section \<open>Admitted tasks\<close>

lemma governed_of_Granted [simp]: "governed_of r = Granted x \<longleftrightarrow> r = Inr x"
  by (cases r) simp_all

lemma task_receipt_init_Inr:
  assumes "task_receipt_init key contract gates version = Inr t"
  shows "is_symbol (tr_task_key t) \<and> 0 < tr_contract_version t \<and> tr_contract_version t < 2 ^ 256 \<and>
    list_all is_symbol (tr_required_gate_keys t) \<and> sorted (tr_required_gate_keys t) \<and>
    distinct (tr_required_gate_keys t) \<and> tr_required_gate_keys t \<noteq> [] \<and> length (tr_required_gate_keys t) \<le> 64 \<and>
    value_ok (tr_acceptance_contract t) \<and> canonical_mapping contract = Inr (tr_acceptance_contract t)"
  using assms
  by (auto simp: task_receipt_init_def res_simps accept_simps bounded_unique_symbols_Inr max_required_gates_def
      canonical_mapping_def list_all_iff dest: value_ok_from_value split: pyval.splits)

lemma canonical_mapping_stored:
  assumes "canonical_mapping v = Inr c" and "normalize_bounded_json value_profile v = Inr j" and "py_json j"
  shows "\<exists>kvs. stored_value c = JObj kvs \<and> py_json (stored_value c)"
proof -
  obtain items where v: "v = PMap items" using assms(1) by (cases v) (auto simp: canonical_mapping_def)
  have obj: "\<exists>kvs. j = JObj kvs" using assms(2) unfolding v by (auto simp: normalize_bounded_json_def res_simps)
  from canonical_value_roundtrip [OF assms(2,3)] obtain c' where
    c': "canonical_value_from_value v = Inr c'" "to_value c' = Inr (canon j)" by blast
  then have "stored_value c = canon j" using assms(1) v by (simp add: canonical_mapping_def stored_value_def)
  then show ?thesis using obj assms(3) py_json_canon [of j] by auto
qed

lemma admit_task_ok:
  assumes "digest_ok H" and "policy_ok pol" and "admit_task H pol key contract requester version = Granted (t, g)"
    and "normalize_bounded_json value_profile contract = Inr j" and "py_json j"
  shows "task_ok H t \<and> governance_receipt_init H pol t OpenAISupervisor = Inr g \<and> requester = OpenAISupervisor"
proof -
  have i: "requester = OpenAISupervisor"
    "task_receipt_init (PStr key) contract (PTuple (map PStr (gp_required_gate_keys pol))) (PInt version) = Inr t"
    "governance_receipt_init H pol t requester = Inr g"
  proof -
    have r: "\<not> requester \<noteq> OpenAISupervisor" using assms(3) by (auto simp: admit_task_def split: if_splits)
    then show "requester = OpenAISupervisor" by simp
    from r assms(3) have "governed_of (rbind (task_receipt_init (PStr key) contract
        (PTuple (map PStr (gp_required_gate_keys pol))) (PInt version))
         (\<lambda>t. rbind (governance_receipt_init H pol t requester) (\<lambda>g. Inr (t, g)))) = Granted (t, g)"
      by (simp only: admit_task_def if_False)
    then have "rbind (task_receipt_init (PStr key) contract
        (PTuple (map PStr (gp_required_gate_keys pol))) (PInt version))
         (\<lambda>t. rbind (governance_receipt_init H pol t requester) (\<lambda>g. Inr (t, g))) = Inr (t, g)"
      by (simp only: governed_of_Granted)
    then show "task_receipt_init (PStr key) contract (PTuple (map PStr (gp_required_gate_keys pol))) (PInt version) = Inr t"
      "governance_receipt_init H pol t requester = Inr g" by (auto simp: res_simps)
  qed
  note t = task_receipt_init_Inr [OF i(2)]
  obtain kvs where kvs: "stored_value (tr_acceptance_contract t) = JObj kvs" "py_json (stored_value (tr_acceptance_contract t))"
    using canonical_mapping_stored [OF _ assms(4,5)] t by blast
  have "\<exists>rid. task_receipt_id H t = Inr rid" using i(3) by (auto simp: governance_receipt_init_def res_simps)
  then obtain c where c: "canonical_value_from_value (of_json (JObj (task_body H t))) = Inr c"
    by (auto simp: task_receipt_id_def task_receipt_record_def with_receipt_id_def task_body_def res_simps
        simp del: of_json.simps)
  have "is_text s" if "list_all plain_char s" for s using ascii_text [OF plain_ascii [OF that]] by simp
  note tx = this
  have "py_json (JObj (task_body H t))"
    using kvs t symbol_plain tx domain_id_fingerprint [OF assms(1)] small_fingerprint small_symbol
    by (auto simp: task_body_def task_identity_members_def str_list_def list_all_iff task_id_def small_def)
  then have "member_fits (task_body H t)" by (rule from_value_member_fits [OF c])
  then show ?thesis using t kvs(1) i by (simp add: task_ok_def)
qed

section \<open>Refusals\<close>

definition bound_refusal ::
  "digest \<Rightarrow> governance_policy \<Rightarrow> (task_receipt \<times> governance_receipt) option \<Rightarrow> receipt_stage \<Rightarrow> governance_reason \<Rightarrow>
   rejection_receipt \<Rightarrow> bool"
where
  "bound_refusal H pol bound stage reason r \<longleftrightarrow>
     rj_stage r = stage \<and> rj_reason r = reason \<and> rj_governance_id r = Some (governance_id H pol) \<and>
     rj_task_id r = map_option (\<lambda>b. task_id H (fst b)) bound \<and>
     (case bound of None \<Rightarrow> rj_bound_receipt_ids r = []
      | Some (t, g) \<Rightarrow> governance_receipt_id H g = Inr (hd (rj_bound_receipt_ids r)) \<and> length (rj_bound_receipt_ids r) = 1)"

definition context_ok :: "digest \<Rightarrow> governance_policy \<Rightarrow> task_receipt \<Rightarrow> governance_receipt \<Rightarrow> bool" where
  "context_ok H pol t g \<longleftrightarrow>
     digest_ok H \<and> policy_ok pol \<and> task_ok H t \<and> governance_receipt_init H pol t OpenAISupervisor = Inr g"

lemma context_bound: "context_ok H pol t g \<Longrightarrow> require_governance_binding H pol t g = Inr ()"
  using binding_ok by (simp add: context_ok_def)

lemma context_receipt_id: "context_ok H pol t g \<Longrightarrow> \<exists>i. governance_receipt_id H g = Inr i \<and> is_fingerprint i"
  using governance_receipt_eq(1) domain_id_fingerprint by (auto simp: context_ok_def)

lemma detail_mapping:
  assumes "list_all (\<lambda>c. plain_char (of_char c)) k" and "length k \<le> 60" and "small 130 1 0 (JStr s)"
  shows "\<exists>c. canonical_mapping (PMap [(PStr (lit k), PStr s)]) = Inr c"
proof -
  have "member_fits [(lit k, JStr s)]"
    by (rule member_fits_small, rule small_mono, rule small_object, rule small_item [OF assms(3) small_items_Nil])
       (use assms in \<open>simp_all\<close>)
  from member_fits_value(1) [OF this] show ?thesis by (simp add: canonical_mapping_def)
qed

definition invariants_ok :: "string list \<Rightarrow> bool" where
  "invariants_ok ids \<longleftrightarrow>
     ids \<noteq> [] \<and> length ids \<le> 64 \<and> distinct (map lit ids) \<and> list_all (\<lambda>s. is_invariant_id (lit s)) ids"

lemma refuse_with_total:
  assumes "digest_ok H" and "bound = None \<or> (\<exists>t g. bound = Some (t, g) \<and> context_ok H pol t g)"
    and "invariants_ok ids" and "canonical_mapping (PMap [(PStr (lit k), v)]) = Inr d"
  shows "\<exists>r. refuse_with H pol stage reason bound ids [(k, v)] = Refused r \<and> bound_refusal H pol bound stage reason r"
proof -
  have gov: "is_fingerprint (governance_id H pol)" unfolding governance_id_def by (rule domain_id_fingerprint [OF assms(1)])
  have inv: "materialize max_rejection_invariants (map lit ids) = Inr (map lit ids)" "map lit ids \<noteq> []"
    "distinct (sort (map lit ids))" "for_each require_invariant_id (sort (map lit ids)) = Inr ()"
    using assms(3) by (auto simp: invariants_ok_def materialize_ok max_rejection_invariants_def list_all_iff accept_simps
        res_simps)
  have fps: "bounded_fingerprints max_bound_receipt_ids (PTuple (map PStr xs)) = Inr xs"
    if "length xs \<le> 1" "list_all is_fingerprint xs" for xs
    using that unfolding bounded_fingerprints_def
    by (subst bounded_unique_Inr [where ok = is_fingerprint])
       (auto simp: accept_simps max_bound_receipt_ids_def iterate_def sort_key_id le_Suc_eq length_Suc_conv
         intro!: exI [of _ xs])
  have init: "rejection_receipt_init stage reason tid (Some (governance_id H pol)) (map lit ids) xs [(PStr (lit k), v)] =
      Inr \<lparr> rj_stage = stage, rj_reason = reason, rj_task_id = tid, rj_governance_id = Some (governance_id H pol),
            rj_invariant_ids = sort (map lit ids), rj_bound_receipt_ids = xs, rj_details = d \<rparr>"
    if "length xs \<le> 1" "list_all is_fingerprint xs" "tid = None \<or> (\<exists>s. tid = Some s \<and> is_fingerprint s)" for xs tid
    using that inv fps [OF that(1,2)] assms(4) gov
    by (auto simp: rejection_receipt_init_def require_optional_fingerprint_def require_total)
  show ?thesis
  proof (cases bound)
    case None
    then show ?thesis using init [of "[]" None] by (simp add: refuse_with_def bound_refusal_def)
  next
    case (Some b)
    then obtain t g where b: "bound = Some (t, g)" "context_ok H pol t g" using assms(2) by auto
    from context_receipt_id [OF b(2)] obtain i where i: "governance_receipt_id H g = Inr i" "is_fingerprint i" by blast
    have "is_fingerprint (task_id H t)" unfolding task_id_def by (rule domain_id_fingerprint [OF assms(1)])
    then show ?thesis using init [of "[i]" "Some (task_id H t)"] i b(1) by (simp add: refuse_with_def bound_refusal_def)
  qed
qed

section \<open>Revalidated copies of valid inputs\<close>

definition decision_ok :: "admission_decision \<Rightarrow> bool" where
  "decision_ok d \<longleftrightarrow> admission_decision_init d = Inr d"

lemma decision_copy_ok: "decision_ok d \<Longrightarrow> decision_copy d = Inr d"
  by (simp add: decision_copy_def decision_ok_def)

lemma capability_copy_ok: "capability_ok c \<Longrightarrow> capability_copy H c = Inr c"
  by (simp add: capability_copy_def capability_init_ok)

text \<open>Stored metadata \<open>null\<close> and absent metadata are the same value of the property.\<close>

definition plain_proposal :: "action_proposal \<Rightarrow> action_proposal" where
  "plain_proposal p =
     (case observational_metadata p of
        None \<Rightarrow> p
      | Some c \<Rightarrow> if stored_value c = JNull then p \<lparr> observational_metadata := None \<rparr> else p)"

lemma plain_proposal_fields [simp]:
  "proposal_key (plain_proposal p) = proposal_key p" "proposal_capability (plain_proposal p) = proposal_capability p"
  "proposal_arguments (plain_proposal p) = proposal_arguments p" "occurrence_key (plain_proposal p) = occurrence_key p"
  "proposal_state_keys (plain_proposal p) = proposal_state_keys p" "proposal_id H (plain_proposal p) = proposal_id H p"
  "target_obligation_ids (plain_proposal p) = target_obligation_ids p"
  "dependency_state_keys c (plain_proposal p) = dependency_state_keys c p"
  "plain_proposal (plain_proposal p) = plain_proposal p"
  by (auto simp: plain_proposal_def proposal_id_def proposal_record_def proposal_members_def dependency_state_keys_def
      split: option.splits)

lemma plain_proposal_ok: "proposal_ok p \<Longrightarrow> proposal_ok (plain_proposal p)"
  by (auto simp: plain_proposal_def proposal_ok_def split: option.splits)

lemma proposal_copy_ok:
  assumes "proposal_ok p"
  shows "proposal_copy p = Inr (plain_proposal p)"
proof -
  have args: "to_value (proposal_arguments p) = Inr (stored_value (proposal_arguments p))"
    "canonical_value_from_value (of_json (stored_value (proposal_arguments p))) = Inr (proposal_arguments p)"
    using assms value_ok_stored from_stored_value by (auto simp: proposal_ok_def)
  have meta: "metadata_argument (observational_metadata p) =
      Inr (map_option (\<lambda>c. of_json (stored_value c)) (observational_metadata (plain_proposal p)))"
    using assms value_ok_stored
    by (auto simp: metadata_argument_def proposal_ok_def plain_proposal_def split: option.splits)
  have "(case map_option (\<lambda>c. of_json (stored_value c)) (observational_metadata (plain_proposal p)) of
           None \<Rightarrow> Inr None
         | Some v \<Rightarrow> rbind (canonical_value_from_value v) (\<lambda>c. Inr (Some c))) =
      Inr (observational_metadata (plain_proposal p))"
    using plain_proposal_ok [OF assms] from_stored_value by (auto simp: proposal_ok_def split: option.splits)
  moreover have "sorted_unique max_state_keys_per_declaration ''required state keys must be unique'' (proposal_state_keys p) =
      Inr (proposal_state_keys p)"
    using assms by (auto simp: accept_simps proposal_ok_def protocol_limit_defs sort_key_id)
  moreover have "(case occurrence_key p of None \<Rightarrow> Inr () | Some k \<Rightarrow> rbind (require_symbol k) (\<lambda>_. Inr ())) = Inr ()"
    using assms by (auto simp: proposal_ok_def require_total split: option.splits)
  ultimately have "action_proposal_init (proposal_key p) (proposal_capability p) (of_json (stored_value (proposal_arguments p)))
      (target_obligation_ids p) (proposal_state_keys p) (occurrence_key p)
      (map_option (\<lambda>c. of_json (stored_value c)) (observational_metadata (plain_proposal p))) = Inr (plain_proposal p)"
    using assms args plain_proposal_fields(1-5,7) [of p]
    by (cases "plain_proposal p") (simp add: action_proposal_init_def proposal_ok_def require_total materialize_ok
        protocol_limit_defs sort_key_id list_all_iff for_each_total Let_def)
  moreover have "py_eq (agent_record p) (agent_record (plain_proposal p))"
  proof -
    have "agent_record (plain_proposal p) = agent_record p"
      by (auto simp: agent_record_def proposal_members_def plain_proposal_def split: option.splits)
    then show ?thesis by simp
  qed
  ultimately show ?thesis by (simp add: proposal_copy_def args(1) meta)
qed

lemma copy_tool_inputs_ok:
  "decision_ok d \<Longrightarrow> proposal_ok p \<Longrightarrow> capability_ok c \<Longrightarrow> copy_tool_inputs H d p c = Inr (d, plain_proposal p, c)"
  by (simp add: copy_tool_inputs_def decision_copy_ok proposal_copy_ok capability_copy_ok)

section \<open>The decision table of a tool admission\<close>

text \<open>What the orchestration decision and the permission's class have to say about the proposal.\<close>

definition action_authorized ::
  "digest \<Rightarrow> admission_decision \<Rightarrow> action_proposal \<Rightarrow> capability \<Rightarrow> tool_authority_class \<Rightarrow> pystr \<Rightarrow> bool"
where
  "action_authorized H d p c cls dep \<longleftrightarrow>
     dec_status d = Admitted \<and> dec_authority d = Orchestration \<and> dec_blocking d = [] \<and> dec_unresolved d = [] \<and>
     dec_proposal_id d = proposal_id H p \<and> dec_proposal_key d = proposal_key p \<and>
     proposal_capability p = cap_name c \<and> available c \<and> dec_dependency_keys d = dependency_state_keys c p \<and>
     is_fingerprint dep \<and> arguments_admitted c (stored_value (proposal_arguments p)) \<and>
     dec_action_id d = Some (action_identity H c (stored_value (proposal_arguments p)) (occurrence_key p) dep) \<and>
     (if cls \<in> {PureRead, SnapshotRead}
      then cap_replay_safety c = CacheableRead \<and> (cls = SnapshotRead \<longleftrightarrow> dependency_state_keys c p \<noteq> [])
      else cap_replay_safety c = OccurrenceSensitive)"

definition tool_receipt ::
  "digest \<Rightarrow> governance_policy \<Rightarrow> task_receipt \<Rightarrow> governance_receipt \<Rightarrow> admission_decision \<Rightarrow> action_proposal \<Rightarrow> capability \<Rightarrow>
   tool_permission \<Rightarrow> pystr \<Rightarrow> tool_admission"
where
  "tool_receipt H pol t g d p c perm dep =
     \<lparr> ta_task_id = task_id H t, ta_governance_id = governance_id H pol,
       ta_governance_receipt_id = domain_id H ''ibae.governance-receipt-id.v1'' (JObj (receipt_body g)),
       ta_action_id = action_identity H c (stored_value (proposal_arguments p)) (occurrence_key p) dep,
       ta_decision = d, ta_proposal = p, ta_capability = c, ta_permission_id = permission_id H perm,
       ta_tool_name = tp_tool_name perm, ta_class = tp_class perm, ta_requester = DeterministicOrchestrator,
       ta_dependency = dep, ta_occurrence_key = occurrence_key p, ta_arguments = proposal_arguments p,
       ta_cache_reuse = tp_allow_cache_reuse perm \<rparr>"

definition fails_caught :: "'a res \<Rightarrow> bool" where
  "fails_caught r \<longleftrightarrow> (\<forall>e. r = Inl e \<longrightarrow> caught e)"

lemma fails_caught_guard: "caught e \<Longrightarrow> fails_caught (guard b e)"
  by (simp add: fails_caught_def guard_def)

lemma schema_error_caught: "is_schema_error e \<Longrightarrow> caught e"
  by (cases e) (simp_all add: is_schema_error_def)

lemma check_admitted_decision_Inr:
  "check_admitted_decision H d p c perm = Inr u \<longleftrightarrow>
     dec_status d = Admitted \<and> dec_authority d = Orchestration \<and> dec_blocking d = [] \<and> dec_unresolved d = [] \<and>
     dec_proposal_id d = proposal_id H p \<and> dec_proposal_key d = proposal_key p \<and>
     proposal_capability p = cap_name c \<and> tp_tool_name perm = cap_name c \<and> available c"
  by (auto simp: check_admitted_decision_def res_simps)

lemma check_errors:
  "check_admitted_decision H d p c perm = Inl e \<Longrightarrow> caught e"
  "check_authority_class cls c keys = Inl e \<Longrightarrow> caught e"
  "check_occurrence perm occ = Inl e \<Longrightarrow> caught e"
  by (auto simp: check_admitted_decision_def check_authority_class_def check_occurrence_def rbind_eq_Inl guard_def
      require_symbol_def split: if_splits option.splits)

lemma tool_admission_cases:
  assumes ctx: "context_ok H pol t g" and perm: "permission_for pol (tp_tool_name perm) = Inr (Some perm)"
    and d: "decision_ok d" and p: "proposal_ok p" "plain_proposal p = p" and c: "capability_ok c"
    and name: "tp_tool_name perm = cap_name c"
    and occ: "is_mutation (tp_class perm) \<longrightarrow> tp_allow_mutation perm"
      "is_mutation (tp_class perm) \<or> tp_class perm = VolatileRead \<longleftrightarrow> occurrence_key p \<noteq> None"
  shows "if action_authorized H d p c (tp_class perm) dep
    then tool_admission_init H pol t g perm DeterministicOrchestrator d p c dep = Inr (tool_receipt H pol t g d p c perm dep)
    else \<exists>e. tool_admission_init H pol t g perm DeterministicOrchestrator d p c dep = Inl e \<and> caught e"
proof -
  have args: "value_ok (proposal_arguments p)" using p(1) by (simp add: proposal_ok_def)
  note norm = normalize_stored_arguments [OF args c]
  note stored = from_stored_value [OF args]
  have gid: "governance_receipt_id H g = Inr (domain_id H ''ibae.governance-receipt-id.v1'' (JObj (receipt_body g)))"
    using governance_receipt_eq(1) ctx by (auto simp: context_ok_def)
  have o: "check_occurrence perm (occurrence_key p) = Inr ()"
    using occ p(1) unfolding check_occurrence_Inr by (auto simp: proposal_ok_def split: option.splits)
  have copies: "decision_copy d = Inr d" "proposal_copy p = Inr p" "capability_copy H c = Inr c"
    using decision_copy_ok [OF d] proposal_copy_ok [OF p(1)] capability_copy_ok [OF c] p(2) by simp_all
  note unfold = tool_admission_init_def context_bound [OF ctx] perm copies rbind_Inr Let_def
  show ?thesis
  proof (cases "check_admitted_decision H d p c perm")
    case (Inl e)
    then have "\<not> action_authorized H d p c (tp_class perm) dep"
      using check_admitted_decision_Inr [of H d p c perm "()"] name by (auto simp: action_authorized_def)
    then show ?thesis using Inl check_errors(1) [OF Inl] by (simp add: unfold)
  next
    case (Inr u)
    note ok = Inr [unfolded check_admitted_decision_Inr]
    show ?thesis
    proof (cases "dec_dependency_keys d = dependency_state_keys c p \<and> is_fingerprint dep \<and>
        arguments_admitted c (stored_value (proposal_arguments p)) \<and>
        dec_action_id d = Some (action_identity H c (stored_value (proposal_arguments p)) (occurrence_key p) dep)")
      case True
      then have n: "normalize_arguments c (of_json (stored_value (proposal_arguments p))) = Inr (stored_value (proposal_arguments p))"
        using norm(1) by blast
      have a: "action_authorized H d p c (tp_class perm) dep \<longleftrightarrow>
          check_authority_class (tp_class perm) c (dependency_state_keys c p) = Inr ()"
        using True ok by (simp add: action_authorized_def check_authority_class_Inr)
      show ?thesis
      proof (cases "check_authority_class (tp_class perm) c (dependency_state_keys c p)")
        case (Inl e)
        then show ?thesis using a True Inr n check_errors(2) [OF Inl] by (simp add: unfold require_total)
      next
        case (Inr v)
        then show ?thesis using a True \<open>check_admitted_decision H d p c perm = Inr u\<close> n o gid stored
          by (simp add: unfold require_total tool_receipt_def)
      qed
    next
      case False
      then have "\<not> action_authorized H d p c (tp_class perm) dep" by (auto simp: action_authorized_def)
      moreover have "\<exists>e. tool_admission_init H pol t g perm DeterministicOrchestrator d p c dep = Inl e \<and> caught e"
      proof (cases "dec_dependency_keys d = dependency_state_keys c p \<and> is_fingerprint dep")
        case True
        then show ?thesis
          using False Inr norm schema_error_caught
          by (cases "arguments_admitted c (stored_value (proposal_arguments p))") (auto simp: unfold require_total)
      next
        case no: False
        then show ?thesis using Inr by (auto simp: unfold require_fingerprint_def guard_def)
      qed
      ultimately show ?thesis by simp
    qed
  qed
qed

text \<open>The first applicable bound_refusal, in the order of the code.\<close>

definition tool_refusal ::
  "digest \<Rightarrow> governance_policy \<Rightarrow> admission_decision \<Rightarrow> action_proposal \<Rightarrow> capability \<Rightarrow> tool_authority_class \<Rightarrow>
   pystr option \<Rightarrow> principal_authority \<Rightarrow> governance_reason option"
where
  "tool_refusal H pol d p c cls dependency requester =
     (if requester \<noteq> DeterministicOrchestrator then Some AuthorityEscalation
      else case find (\<lambda>i. tp_tool_name i = cap_name c) (gp_tool_permissions pol) of
        None \<Rightarrow> Some UnknownToolPermission
      | Some perm \<Rightarrow>
          if cls \<noteq> tp_class perm then Some ToolClassMismatch
          else if is_mutation cls \<and> \<not> tp_allow_mutation perm then Some MutationNotPermitted
          else case dependency of
            None \<Rightarrow> Some DependencyIdRequired
          | Some dep \<Rightarrow>
              if cls \<notin> {PureRead, SnapshotRead} \<and> occurrence_key p = None then Some OccurrenceIdRequired
              else if cls \<in> {PureRead, SnapshotRead} \<and> occurrence_key p \<noteq> None then Some OccurrenceIdForbidden
              else if \<not> action_authorized H d p c cls dep then Some MalformedAction
              else None)"

lemma effect_class: "is_mutation cls \<or> cls = VolatileRead \<longleftrightarrow> cls \<notin> {PureRead, SnapshotRead}"
  by (cases cls) (simp_all add: is_mutation_def)

lemma governance_invariants:
  "invariants_ok [''IBAE-GOV-003'', ''IBAE-LAY-002'']" "invariants_ok [''IBAE-GOV-004'', ''IBAE-GOV-006'']"
  "invariants_ok [''IBAE-GOV-004'', ''IBAE-ORCH-003'']" "invariants_ok [''IBAE-REUSE-001'', ''IBAE-REUSE-002'']"
  "invariants_ok [''IBAE-GOV-004'', ''IBAE-ORCH-007'']" "invariants_ok [''IBAE-DET-001'', ''IBAE-GOV-006'']"
  "invariants_ok [''IBAE-GOV-002'', ''IBAE-LAY-002'']" "invariants_ok [''IBAE-GOV-007'', ''IBAE-ID-003'']"
  by (simp_all add: invariants_ok_def is_invariant_id_def lit_def in_range_def)

text \<open>The table decides every request.\<close>

lemma admit_tool_table:
  assumes "context_ok H pol t g" and "decision_ok d" and "proposal_ok p" and "capability_ok c"
  shows "case tool_refusal H pol d p c cls dependency requester of
      Some reason \<Rightarrow> \<exists>r. admit_tool H pol t g d p c cls dependency requester = Refused r \<and>
        bound_refusal H pol (Some (t, g)) GovernanceStage reason r
    | None \<Rightarrow> \<exists>perm \<in> set (gp_tool_permissions pol). tp_tool_name perm = cap_name c \<and>
        admit_tool H pol t g d p c cls dependency requester =
          Granted (tool_receipt H pol t g d (plain_proposal p) c perm (the dependency))"
proof -
  let ?p = "plain_proposal p" and ?b = "Some (t, g)"
  have H: "digest_ok H" using assms(1) by (simp add: context_ok_def)
  have name: "is_symbol (cap_name c)" using assms(4) by (simp add: capability_ok_def)
  have pf: "permission_for pol (cap_name c) = Inr (find (\<lambda>i. tp_tool_name i = cap_name c) (gp_tool_permissions pol))"
    using name by (simp add: permission_for_def require_total)
  have bound: "?b = None \<or> (\<exists>t' g'. ?b = Some (t', g') \<and> context_ok H pol t' g')" using assms(1) by simp
  obtain c1 where c1: "canonical_mapping (PMap [(PStr (lit ''tool_name''), PStr (cap_name c))]) = Inr c1"
    using detail_mapping [of "''tool_name''" "cap_name c"] small_symbol [OF name] by (auto simp: plain_char_def simp del: One_nat_def)
  have "small 130 1 0 (JStr (lit ''admit_tool''))" using small_lit [of "''admit_tool''" 0]
    by (auto intro: small_mono simp: plain_char_def simp del: One_nat_def)
  then obtain c2 where c2: "canonical_mapping (PMap [(PStr (lit ''requested_operation''), PStr (lit ''admit_tool''))]) = Inr c2"
    using detail_mapping [of "''requested_operation''" "lit ''admit_tool''"] by (auto simp: plain_char_def simp del: One_nat_def)
  have refuse: "\<exists>r. refuse_with H pol GovernanceStage reason ?b ids [(''tool_name'', PStr (cap_name c))] = Refused r \<and>
      bound_refusal H pol ?b GovernanceStage reason r" if "invariants_ok ids" for reason ids
    by (rule refuse_with_total [OF H bound that c1])
  have refuse2: "\<exists>r. refuse_with H pol GovernanceStage reason ?b ids [(''requested_operation'', PStr (lit ''admit_tool''))] = Refused r \<and>
      bound_refusal H pol ?b GovernanceStage reason r" if "invariants_ok ids" for reason ids
    by (rule refuse_with_total [OF H bound that c2])
  have step: "admit_tool H pol t g d p c cls dependency requester =
      (if requester \<noteq> DeterministicOrchestrator
       then refuse_with H pol GovernanceStage AuthorityEscalation ?b [''IBAE-GOV-003'', ''IBAE-LAY-002'']
              [(''requested_operation'', PStr (lit ''admit_tool''))]
       else case find (\<lambda>i. tp_tool_name i = cap_name c) (gp_tool_permissions pol) of
         None \<Rightarrow> refuse_with H pol GovernanceStage UnknownToolPermission ?b [''IBAE-GOV-004'', ''IBAE-GOV-006'']
                   [(''tool_name'', PStr (cap_name c))]
       | Some perm \<Rightarrow> admit_tool_checked H pol t g d ?p c perm cls dependency requester)"
    unfolding admit_tool_def context_bound [OF assms(1)] copy_tool_inputs_ok [OF assms(2-4)] attempt_def sum.case prod.case pf
    by (rule refl)
  show ?thesis
  proof (cases "requester = DeterministicOrchestrator")
    case False
    then show ?thesis using refuse2 [OF governance_invariants(1)] by (simp add: step tool_refusal_def)
  next
    case req: True
    show ?thesis
    proof (cases "find (\<lambda>i. tp_tool_name i = cap_name c) (gp_tool_permissions pol)")
      case None
      then show ?thesis unfolding step using refuse [OF governance_invariants(2)] by (simp add: tool_refusal_def req)
    next
      case (Some perm)
      then have perm: "perm \<in> set (gp_tool_permissions pol)" "tp_tool_name perm = cap_name c" by (auto simp: find_Some_iff)
      have own: "permission_for pol (tp_tool_name perm) = Inr (Some perm)" using pf Some perm(2) by simp
      have answer: "admit_tool H pol t g d p c cls dependency requester = admit_tool_checked H pol t g d ?p c perm cls dependency requester"
        unfolding step using Some req by simp
      show ?thesis
      proof (cases "cls = tp_class perm \<and> (is_mutation cls \<longrightarrow> tp_allow_mutation perm) \<and> dependency \<noteq> None \<and>
          (cls \<notin> {PureRead, SnapshotRead} \<longleftrightarrow> occurrence_key p \<noteq> None)")
        case True
        then obtain dep where dep: "dependency = Some dep" by auto
        have occ: "is_mutation (tp_class perm) \<or> tp_class perm = VolatileRead \<longleftrightarrow> occurrence_key ?p \<noteq> None"
          using True effect_class [of cls] by auto
        note cases = tool_admission_cases [OF assms(1) own assms(2) plain_proposal_ok [OF assms(3)] plain_proposal_fields(9)
            assms(4) perm(2) _ occ, of dep]
        have a: "action_authorized H d ?p c cls dep \<longleftrightarrow> action_authorized H d p c cls dep"
          by (simp add: action_authorized_def)
        have "admit_tool_checked H pol t g d ?p c perm cls dependency requester =
            attempt (tool_admission_init H pol t g perm DeterministicOrchestrator d ?p c dep)
              (refuse_with H pol GovernanceStage MalformedAction ?b [''IBAE-DET-001'', ''IBAE-GOV-006'']
                 [(''tool_name'', PStr (cap_name c))]) Granted"
          using True dep req effect_class [of cls] by (auto simp: admit_tool_checked_def)
        moreover have "tool_refusal H pol d p c cls dependency requester =
            (if action_authorized H d p c cls dep then None else Some MalformedAction)"
          using True dep req Some by (auto simp: tool_refusal_def)
        moreover note refuse [OF governance_invariants(6), of MalformedAction]
        ultimately show ?thesis
          using cases True a perm dep unfolding answer
          by (cases "action_authorized H d p c cls dep") (auto simp: attempt_def)
      next
        case False
        then consider (cls) "cls \<noteq> tp_class perm"
          | (mutation) "cls = tp_class perm" "is_mutation cls" "\<not> tp_allow_mutation perm"
          | (dependency) "cls = tp_class perm" "is_mutation cls \<longrightarrow> tp_allow_mutation perm" "dependency = None"
          | (missing) dep where "cls = tp_class perm" "is_mutation cls \<longrightarrow> tp_allow_mutation perm" "dependency = Some dep"
              "cls \<notin> {PureRead, SnapshotRead}" "occurrence_key p = None"
          | (forbidden) dep where "cls = tp_class perm" "is_mutation cls \<longrightarrow> tp_allow_mutation perm" "dependency = Some dep"
              "cls \<in> {PureRead, SnapshotRead}" "occurrence_key p \<noteq> None"
          by blast
        then have "\<exists>reason ids. tool_refusal H pol d p c cls dependency requester = Some reason \<and> invariants_ok ids \<and>
            admit_tool_checked H pol t g d ?p c perm cls dependency requester =
              refuse_with H pol GovernanceStage reason ?b ids [(''tool_name'', PStr (cap_name c))]"
        proof cases
          case cls
          then show ?thesis unfolding tool_refusal_def admit_tool_checked_def Let_def using governance_invariants(3) Some req by auto
        next
          case mutation
          then show ?thesis unfolding tool_refusal_def admit_tool_checked_def Let_def using governance_invariants(2) Some req by auto
        next
          case dependency
          then show ?thesis unfolding tool_refusal_def admit_tool_checked_def Let_def using governance_invariants(4) Some req by auto
        next
          case missing
          then have "is_mutation cls \<or> cls = VolatileRead" using effect_class by simp
          with missing show ?thesis
            unfolding tool_refusal_def admit_tool_checked_def Let_def using governance_invariants(5) Some req by auto
        next
          case forbidden
          then have "\<not> (is_mutation cls \<or> cls = VolatileRead)" using effect_class by simp
          with forbidden show ?thesis
            unfolding tool_refusal_def admit_tool_checked_def Let_def using governance_invariants(5) Some req by auto
        qed
        then show ?thesis using refuse unfolding answer by fastforce
      qed
    qed
  qed
qed

section \<open>Decisions of the orchestration are governable\<close>

lemma settle_admitted:
  assumes "dec_status (fst (settle H s tick p v m)) = Admitted"
  shows "\<exists>c. v = Eligible c \<and>
    fst (settle H s tick p v m) = acceptance_of H p tick Admitted (action_of H s c p) None (dependency_state_keys c p)"
  using assms
  by (auto simp: settle_def settle_replay_safe_def settle_occurrence_def Let_def reject_def rejection_of_def
      acceptance_of_def split: verdict.splits option.splits if_splits)

text \<open>The permission's class fits the capability and the state it depends on.\<close>

definition class_fits :: "tool_permission \<Rightarrow> capability \<Rightarrow> action_proposal \<Rightarrow> bool" where
  "class_fits perm c p \<longleftrightarrow>
     tp_tool_name perm = cap_name c \<and> (is_mutation (tp_class perm) \<longrightarrow> tp_allow_mutation perm) \<and>
     (if tp_class perm \<in> {PureRead, SnapshotRead}
      then cap_replay_safety c = CacheableRead \<and> (tp_class perm = SnapshotRead \<longleftrightarrow> dependency_state_keys c p \<noteq> [])
      else cap_replay_safety c = OccurrenceSensitive)"

lemma admitted_decision:
  assumes "digest_ok H" and "ostate_ok H s" and "batch_ok b" and "admit_batch H s b = Inr tr"
    and "n < length (rc_decisions (receipt tr))" and "dec_status (rc_decisions (receipt tr) ! n) = Admitted"
  shows "\<exists>c dep. find (\<lambda>c. cap_name c = proposal_capability (ordered_proposals H b ! n)) (os_capabilities s) = Some c \<and>
    capability_ok c \<and> proposal_ok (ordered_proposals H b ! n) \<and>
    dependency_digest H (os_epistemic s) (dependency_state_keys c (ordered_proposals H b ! n)) = Inr dep \<and> is_fingerprint dep \<and>
    available c \<and> arguments_admitted c (stored_value (proposal_arguments (ordered_proposals H b ! n))) \<and>
    (is_replay_safe c \<longleftrightarrow> occurrence_key (ordered_proposals H b ! n) = None) \<and>
    rc_decisions (receipt tr) ! n = acceptance_of H (ordered_proposals H b ! n) (os_tick s + int n + 1) Admitted
      (action_identity H c (stored_value (proposal_arguments (ordered_proposals H b ! n)))
         (occurrence_key (ordered_proposals H b ! n)) dep) None (dependency_state_keys c (ordered_proposals H b ! n)) \<and>
    decision_ok (rc_decisions (receipt tr) ! n)"
proof -
  note d = transition_decisions [OF assms(1-5)]
  let ?p = "ordered_proposals H b ! n" and ?tick = "os_tick s + int n + 1"
  have nth: "rc_decisions (receipt tr) ! n = fst (settle H s ?tick ?p (verdict_on H s (ordering b) ?p) (memory_at H s b n))"
    unfolding d(1) by (rule decisions_nth [OF d(2)])
  obtain c where c: "verdict_on H s (ordering b) ?p = Eligible c"
    "rc_decisions (receipt tr) ! n = acceptance_of H ?p ?tick Admitted (action_of H s c ?p) None (dependency_state_keys c ?p)"
    using settle_admitted assms(6) unfolding nth by blast
  have f: "find (\<lambda>c. cap_name c = proposal_capability ?p) (os_capabilities s) = Some c" "verdict_for H s (ordering b) ?p c = Eligible c"
    using c(1) by (auto simp: verdict_on_def verdict_for_Eligible split: option.splits)
  note el = f(2) [unfolded verdict_for_Eligible]
  have ok: "capability_ok c" using find_capability_ok [OF assms(2) f(1)] by blast
  have "?p \<in> set (proposals b)" using d(2) set_ordered_proposals [of H b] by (metis length_ordered_proposals nth_mem)
  then have p: "proposal_ok ?p" using assms(3) by (simp add: batch_ok_def list_all_iff)
  have dep: "dependency_digest H (os_epistemic s) (dependency_state_keys c ?p) =
      Inr (domain_id H ''ibae.epistemic-dependencies.v1''
        (JArr (map epistemic_identity_record (support_records (os_epistemic s) (dependency_state_keys c ?p)))))"
    using dependency_digest_eq [OF assms(2) p ok] el by blast
  have "batch_refusal H s b = None"
    using assms(5) admit_batch_Inr [OF assms(1-3), of tr] assms(4)
    by (cases "batch_refusal H s b") (auto simp: transition_def refused_def Let_def)
  then have tick: "tick_ok ?tick"
    using admit_batch_room [OF assms(2-4)] d(2) assms(2) by (auto simp: tick_ok_def ostate_ok_def consumed_def)
  have "accepted_decision H ?p ?tick Admitted (action_of H s c ?p) None (dependency_state_keys c ?p) =
      Inr (acceptance_of H ?p ?tick Admitted (action_of H s c ?p) None (dependency_state_keys c ?p))"
    by (rule accepted_decision_eq [OF assms(1) p tick action_of_fingerprint [OF assms(1)] dependency_keys_set [OF p ok]]) simp
  then have "decision_ok (rc_decisions (receipt tr) ! n)"
    unfolding c(2) by (simp add: decision_ok_def accepted_decision_def acceptance_of_def)
  then show ?thesis
    using f ok p dep el c(2) domain_id_fingerprint [OF assms(1)] by (auto simp: action_of_def)
qed

end
