(* ===== verification/Governance_Properties.thy ===== *)
theory Governance_Properties
  imports Governance_Correct Strategy_Change
begin

text \<open>
  Properties that join the orchestration machine with the governance gate, and the concrete
  governed task on which the properties of the gate are applied.
\<close>

section \<open>The gate\<close>

text \<open>C11 [tool_admission_exact]. For a governed task and valid inputs \<open>admit_tool\<close> always answers, by one
  decision table: the receipt of the request when nothing objects, otherwise the rejection receipt
  of the first objection (requester, unknown tool, wrong class, mutation not permitted, missing
  dependency identity, missing or forbidden occurrence, decision that does not match the action),
  bound to the task and the governance receipt. No exception escapes.\<close>

theorem tool_admission_exact:
  assumes "context_ok H pol t g" and "decision_ok d" and "proposal_ok p" and "capability_ok c"
  shows "case tool_refusal H pol d p c cls dependency requester of
      Some reason \<Rightarrow> \<exists>r. admit_tool H pol t g d p c cls dependency requester = Refused r \<and>
        bound_refusal H pol (Some (t, g)) GovernanceStage reason r
    | None \<Rightarrow> \<exists>perm \<in> set (gp_tool_permissions pol). tp_tool_name perm = cap_name c \<and>
        admit_tool H pol t g d p c cls dependency requester =
          Granted (tool_receipt H pol t g d (plain_proposal p) c perm (the dependency))"
  by (rule admit_tool_table [OF assms])

text \<open>C12 [tool_authority_sound]. A tool receipt is granted only to the deterministic orchestrator, for an
  available capability and an admitted orchestration decision whose action identity it repeats,
  under a permission the policy owns. A mutation is permitted explicitly, mutations and volatile
  reads carry an occurrence and are never reused from the cache, and what may be reused is a
  cacheable read without occurrence.\<close>

theorem tool_authority_sound:
  assumes "policy_ok pol" and "admit_tool H pol t g decision proposal cap cls dependency requester = Granted a"
  shows "requester = DeterministicOrchestrator \<and> dec_status (ta_decision a) = Admitted \<and>
    dec_action_id (ta_decision a) = Some (ta_action_id a) \<and> dec_proposal_id (ta_decision a) = proposal_id H (ta_proposal a) \<and>
    available (ta_capability a) \<and> cap_name (ta_capability a) = ta_tool_name a \<and>
    (\<exists>perm \<in> set (gp_tool_permissions pol). tp_tool_name perm = ta_tool_name a \<and> tp_class perm = ta_class a \<and>
       ta_permission_id a = permission_id H perm \<and> (is_mutation (ta_class a) \<longrightarrow> tp_allow_mutation perm)) \<and>
    (is_mutation (ta_class a) \<or> ta_class a = VolatileRead \<longrightarrow>
       ta_occurrence_key a \<noteq> None \<and> \<not> ta_cache_reuse a \<and> cap_replay_safety (ta_capability a) = OccurrenceSensitive) \<and>
    (ta_cache_reuse a \<longrightarrow> cap_replay_safety (ta_capability a) = CacheableRead \<and> ta_occurrence_key a = None)"
proof -
  obtain perm d p c dep where g: "requester = DeterministicOrchestrator" "cls = tp_class perm"
    "tool_admission_init H pol t g perm requester d p c dep = Inr a" "is_mutation cls \<longrightarrow> tp_allow_mutation perm"
    using admit_tool_Granted [OF assms(2)] unfolding admit_tool_checked_Granted by blast
  note i = tool_admission_Inr [OF g(3)]
  have perm: "perm \<in> set (gp_tool_permissions pol)" using i permission_for_mem by blast
  then have ok: "permission_ok perm" using assms(1) by (simp add: policy_ok_def list_all_iff)
  have "check_authority_class (ta_class a) (ta_capability a) (dependency_state_keys (ta_capability a) (ta_proposal a)) = Inr ()"
    "check_occurrence perm (ta_occurrence_key a) = Inr ()"
    "check_admitted_decision H (ta_decision a) (ta_proposal a) (ta_capability a) perm = Inr ()"
    "ta_class a = tp_class perm" "ta_cache_reuse a = tp_allow_cache_reuse perm"
    using i by auto
  note c = this
  have cls: "is_mutation (ta_class a) \<or> ta_class a = VolatileRead \<longleftrightarrow> ta_class a \<notin> {PureRead, SnapshotRead}"
    by (cases "ta_class a") (simp_all add: is_mutation_def)
  have occ: "is_mutation (ta_class a) \<or> ta_class a = VolatileRead \<longrightarrow>
       ta_occurrence_key a \<noteq> None \<and> \<not> ta_cache_reuse a \<and> cap_replay_safety (ta_capability a) = OccurrenceSensitive"
    using c ok cls unfolding check_authority_class_Inr check_occurrence_Inr permission_ok_def by auto
  moreover have "ta_cache_reuse a \<longrightarrow> cap_replay_safety (ta_capability a) = CacheableRead \<and> ta_occurrence_key a = None"
    using c ok cls unfolding check_authority_class_Inr check_occurrence_Inr permission_ok_def by auto
  moreover have "dec_status (ta_decision a) = Admitted" "dec_proposal_id (ta_decision a) = proposal_id H (ta_proposal a)"
    "available (ta_capability a)" "cap_name (ta_capability a) = ta_tool_name a"
    using c(3) i by (auto simp: check_admitted_decision_def res_simps)
  ultimately show ?thesis using g(1,2,4) i perm by auto
qed

section \<open>From an admitted proposal to a tool receipt\<close>

lemma decision_copy_status: "decision_copy d = Inr v \<Longrightarrow> dec_status v = dec_status d"
  by (auto simp: decision_copy_def admission_decision_init_def res_simps Let_def)

lemma admitted_tool_granted:
  assumes "context_ok H pol t g" and "ostate_ok H s" and "batch_ok b" and "admit_batch H s b = Inr tr"
    and "n < length (rc_decisions (receipt tr))" and "perm \<in> set (gp_tool_permissions pol)"
    and "dec_status (rc_decisions (receipt tr) ! n) = Admitted"
  shows "\<exists>c dep. find (\<lambda>c. cap_name c = proposal_capability (ordered_proposals H b ! n)) (os_capabilities s) = Some c \<and>
        dependency_digest H (os_epistemic s) (dependency_state_keys c (ordered_proposals H b ! n)) = Inr dep \<and>
        capability_ok c \<and> proposal_ok (ordered_proposals H b ! n) \<and> decision_ok (rc_decisions (receipt tr) ! n) \<and>
        (class_fits perm c (ordered_proposals H b ! n) \<longrightarrow>
          (\<exists>a. admit_tool H pol t g (rc_decisions (receipt tr) ! n) (ordered_proposals H b ! n) c (tp_class perm) (Some dep)
                 DeterministicOrchestrator = Granted a \<and>
               Some (ta_action_id a) = dec_action_id (rc_decisions (receipt tr) ! n)))"
proof -
  let ?p = "ordered_proposals H b ! n" and ?d = "rc_decisions (receipt tr) ! n"
  have H: "digest_ok H" using assms(1) by (simp add: context_ok_def)
  obtain c dep where c: "find (\<lambda>c. cap_name c = proposal_capability ?p) (os_capabilities s) = Some c"
    "capability_ok c" "proposal_ok ?p" "dependency_digest H (os_epistemic s) (dependency_state_keys c ?p) = Inr dep"
    "is_fingerprint dep" "available c" "arguments_admitted c (stored_value (proposal_arguments ?p))"
    "is_replay_safe c \<longleftrightarrow> occurrence_key ?p = None"
    "?d = acceptance_of H ?p (os_tick s + int n + 1) Admitted
       (action_identity H c (stored_value (proposal_arguments ?p)) (occurrence_key ?p) dep) None (dependency_state_keys c ?p)"
    "decision_ok ?d"
    using admitted_decision [OF H assms(2-5,7)] by (elim exE conjE) (rule that; assumption)
  have cap: "cap_name c = proposal_capability ?p" using c(1) by (auto simp: find_Some_iff)
  have "\<exists>a. admit_tool H pol t g ?d ?p c (tp_class perm) (Some dep) DeterministicOrchestrator = Granted a \<and>
      Some (ta_action_id a) = dec_action_id ?d" if fit: "class_fits perm c ?p"
  proof -
    have uniq: "find (\<lambda>i. tp_tool_name i = cap_name c) (gp_tool_permissions pol) = Some perm"
      using fit assms(1,6) find_unique_key [of tp_tool_name "gp_tool_permissions pol"]
      by (auto simp: class_fits_def context_ok_def policy_ok_def)
    have occ: "tp_class perm \<notin> {PureRead, SnapshotRead} \<longleftrightarrow> occurrence_key ?p \<noteq> None"
      using fit c(8) by (auto simp: class_fits_def is_replay_safe_def split: if_splits)
    have "action_authorized H ?d ?p c (tp_class perm) dep"
      using c fit cap unfolding action_authorized_def c(9) by (simp add: acceptance_of_def class_fits_def)
    then have "tool_refusal H pol ?d ?p c (tp_class perm) (Some dep) DeterministicOrchestrator = None"
      using uniq fit occ by (auto simp: tool_refusal_def class_fits_def)
    then show ?thesis
      using admit_tool_table [OF assms(1) c(10,3,2), of "tp_class perm" "Some dep" DeterministicOrchestrator] cap
      by (auto simp: tool_receipt_def c(9) acceptance_of_def)
  qed
  with c show ?thesis by blast
qed

lemma unadmitted_not_granted:
  assumes "dec_status d \<noteq> Admitted"
  shows "admit_tool H pol t g d p c cls dependency requester \<noteq> Granted a"
proof
  assume "admit_tool H pol t g d p c cls dependency requester = Granted a"
  from admit_tool_Granted [OF this] obtain d' p' c' where
    "copy_tool_inputs H d p c = Inr (d', p', c')" and
    "\<exists>perm dep. tool_admission_init H pol t g perm requester d' p' c' dep = Inr a"
    unfolding admit_tool_checked_Granted by blast
  then have "dec_status d' = dec_status d" "dec_status d' = Admitted"
    using decision_copy_status tool_admission_Inr check_admitted_decision_Inr
    by (auto simp: copy_tool_inputs_def res_simps) metis+
  with assms show False by simp
qed

text \<open>C13 [admitted_action_governed]. Whatever \<open>admit_batch\<close> admits can be governed: under a permission whose
  class fits the capability, \<open>admit_tool\<close> grants the decision's own action for the dependency digest
  of the state, and a proposal that the batch did not admit is never granted.\<close>

theorem admitted_action_governed:
  assumes "context_ok H pol t g" and "ostate_ok H s" and "batch_ok b" and "admit_batch H s b = Inr tr"
    and "n < length (rc_decisions (receipt tr))" and "perm \<in> set (gp_tool_permissions pol)"
  shows "(dec_status (rc_decisions (receipt tr) ! n) = Admitted \<longrightarrow>
      (\<exists>c dep. find (\<lambda>c. cap_name c = proposal_capability (ordered_proposals H b ! n)) (os_capabilities s) = Some c \<and>
        dependency_digest H (os_epistemic s) (dependency_state_keys c (ordered_proposals H b ! n)) = Inr dep \<and>
        (class_fits perm c (ordered_proposals H b ! n) \<longrightarrow>
          (\<exists>a. admit_tool H pol t g (rc_decisions (receipt tr) ! n) (ordered_proposals H b ! n) c (tp_class perm) (Some dep)
                 DeterministicOrchestrator = Granted a \<and>
               Some (ta_action_id a) = dec_action_id (rc_decisions (receipt tr) ! n))))) \<and>
    (dec_status (rc_decisions (receipt tr) ! n) \<noteq> Admitted \<longrightarrow>
      (\<forall>p c cls dependency requester a.
         admit_tool H pol t g (rc_decisions (receipt tr) ! n) p c cls dependency requester \<noteq> Granted a))"
  using admitted_tool_granted [OF assms] unadmitted_not_granted by blast

section \<open>A governed task\<close>

definition example_governance :: governance_policy where
  "example_governance =
     \<lparr> gp_policy_key = lit ''a'', gp_policy_version = 1, gp_task_profile = lit ''a'', gp_task_profile_version = 1,
       gp_provider = OpenAI,
       gp_tool_permissions =
         [\<lparr> tp_tool_name = lit ''read'', tp_class = SnapshotRead, tp_allow_mutation = False, tp_allow_cache_reuse = True \<rparr>,
          \<lparr> tp_tool_name = lit ''write'', tp_class = IdempotentMutation, tp_allow_mutation = True, tp_allow_cache_reuse = False \<rparr>],
       gp_required_gate_keys = supported_required_gate_keys,
       gp_supervisor = OpenAISupervisor, gp_worker = LocalCandidateWorker,
       gp_orchestration = DeterministicOrchestrator, gp_runtime = RustExecutionRuntime \<rparr>"

definition governed_task :: task_receipt where
  "governed_task =
     \<lparr> tr_task_key = lit ''a'', tr_contract_version = 1, tr_required_gate_keys = supported_required_gate_keys,
       tr_acceptance_contract = empty_object \<rparr>"

lemma example_governance_ok: "policy_ok example_governance"
proof -
  have "lit ''read'' < lit ''write''" by (simp add: lit_def)
  then show ?thesis
    using more_symbols example_symbols(1)
    by (simp add: policy_ok_def example_governance_def permission_ok_def is_read_def is_mutation_def del: lit_Cons)
qed

lemma governed_task_ok: "task_ok length_digest governed_task"
proof -
  have gates: "small (2 + 64 * 131) (1 + 64) 1 (str_list supported_required_gate_keys)"
    using supported_gates_sorted(3) by (intro small_symbols) (simp_all add: supported_required_gate_keys_def)
  have lits: "small 62 1 1 (JStr (lit ''governance''))" "small 62 1 1 (JStr (lit ''admitted''))"
    "small 62 1 1 (JStr (lit ''IBAE-TASK-RECEIPT-V1''))" "small 62 1 1 (JStr (lit ''a''))"
    by (rule small_lit; simp add: plain_char_def)+
  have "small 66 1 1 (JStr (task_id length_digest governed_task))"
    unfolding task_id_def by (blast intro: small_deep small_fingerprint domain_id_fingerprint [OF length_digest_ok])
  moreover have "small 78 1 1 (JInt 1)" by (rule small_deep, rule small_int_nonneg) simp_all
  moreover have "small 2 1 1 (JObj [])" using small_object [OF small_items_Nil] by (simp add: small_def)
  ultimately have leaf: "small 66 1 1 (JStr (task_id length_digest governed_task))" "small 78 1 1 (JInt 1)"
    "small 2 1 1 (JObj [])" by blast+
  have body: "task_body length_digest governed_task =
      [(lit ''acceptance_contract'', JObj []), (lit ''contract_version'', JInt 1),
       (lit ''required_gate_keys'', str_list supported_required_gate_keys), (lit ''task_key'', JStr (lit ''a'')),
       (lit ''authority_layer'', JStr (lit ''governance'')), (lit ''protocol_version'', JStr (lit ''IBAE-TASK-RECEIPT-V1'')),
       (lit ''status'', JStr (lit ''admitted'')), (lit ''task_id'', JStr (task_id length_digest governed_task))]"
    by (simp add: task_body_def task_identity_members_def governed_task_def empty_object_stored)
  have "member_fits (task_body length_digest governed_task)"
    unfolding body
    by (rule member_fits_small, rule small_mono, rule small_object, (rule small_item small_items_Nil leaf gates lits)+)
       (simp_all add: plain_char_def)
  moreover have "sorted supported_required_gate_keys" using supported_gates_sorted(1) by (metis sorted_sort)
  moreover have "supported_required_gate_keys \<noteq> []" "length supported_required_gate_keys \<le> 64"
    by (simp_all add: supported_required_gate_keys_def)
  ultimately show ?thesis
    using example_symbols(1) supported_gates_sorted(2,3) empty_object_ok empty_object_stored
    unfolding task_ok_def by (simp add: governed_task_def)
qed

definition governed_receipt :: governance_receipt where
  "governed_receipt =
     \<lparr> gr_task_id = task_id length_digest governed_task,
       gr_task_receipt_id = domain_id length_digest ''ibae.task-receipt-id.v1'' (JObj (task_body length_digest governed_task)),
       gr_governance_id = governance_id length_digest example_governance, gr_policy_key = lit ''a'',
       gr_policy_version = 1, gr_provider = OpenAI, gr_requester = OpenAISupervisor,
       gr_required_gate_keys = supported_required_gate_keys, gr_task_profile = lit ''a'', gr_task_profile_version = 1 \<rparr>"

lemma governed_context_ok: "context_ok length_digest example_governance governed_task governed_receipt"
proof -
  have "tr_required_gate_keys governed_task = gp_required_gate_keys example_governance"
    by (simp add: governed_task_def example_governance_def)
  then have "governance_receipt_init length_digest example_governance governed_task OpenAISupervisor = Inr governed_receipt"
    unfolding governance_receipt_init_def task_receipt_id_eq [OF governed_task_ok] governed_receipt_def
    by (simp add: guard_True) (simp add: example_governance_def)
  then show ?thesis
    using length_digest_ok example_governance_ok governed_task_ok by (simp add: context_ok_def)
qed

abbreviation example_admissions :: "admission_decision list" where
  "example_admissions \<equiv> rc_decisions (receipt (transition length_digest example_ostate example_batch))"

abbreviation example_choice :: action_proposal where
  "example_choice \<equiv> example_proposal ''c'' ''read'' None"

definition read_permission :: tool_permission where
  "read_permission = \<lparr> tp_tool_name = lit ''read'', tp_class = SnapshotRead, tp_allow_mutation = False, tp_allow_cache_reuse = True \<rparr>"

lemma example_choice:
  "ordered_proposals length_digest example_batch ! 2 = example_choice" "2 < length example_admissions"
  "dec_status (example_admissions ! 2) = Admitted" "read_permission \<in> set (gp_tool_permissions example_governance)"
  "find (\<lambda>c. cap_name c = proposal_capability example_choice) (os_capabilities example_ostate) = Some example_read"
  "class_fits read_permission example_read example_choice" "tp_class read_permission = SnapshotRead"
proof -
  show "ordered_proposals length_digest example_batch ! 2 = example_choice"
    by (simp add: ordered_proposals_def example_batch_def)
  show "2 < length example_admissions" "dec_status (example_admissions ! 2) = Admitted"
    using example_status_nth(3,5) by (simp_all add: example_receipt)
  show "read_permission \<in> set (gp_tool_permissions example_governance)" "tp_class read_permission = SnapshotRead"
    by (simp_all add: read_permission_def example_governance_def)
  show "find (\<lambda>c. cap_name c = proposal_capability example_choice) (os_capabilities example_ostate) = Some example_read"
    by (simp add: example_proposal_def example_ostate_def example_read_def)
  have "dependency_state_keys example_read example_choice \<noteq> []"
    by (simp add: dependency_state_keys_def example_read_def example_proposal_def sorted_set_def)
  then show "class_fits read_permission example_read example_choice"
    unfolding class_fits_def by (simp add: read_permission_def is_mutation_def) (simp add: example_read_def)
qed

lemma governed_read:
  "\<exists>dep a. dependency_digest length_digest (os_epistemic example_ostate) (dependency_state_keys example_read example_choice) = Inr dep \<and>
     decision_ok (example_admissions ! 2) \<and> capability_ok example_read \<and> proposal_ok example_choice \<and>
     admit_tool length_digest example_governance governed_task governed_receipt (example_admissions ! 2) example_choice
       example_read SnapshotRead (Some dep) DeterministicOrchestrator = Granted a"
  using admitted_tool_granted [OF governed_context_ok example_ostate_ok example_batch_ok example_admit(1)
      example_choice(2,4,3), unfolded example_choice(1,5,7)] example_choice(6)
  by auto

theorem tool_admission_exact_witness:
  "\<exists>r. admit_tool length_digest example_governance governed_task governed_receipt (example_admissions ! 2) example_choice
     example_read SnapshotRead None DeterministicOrchestrator = Refused r \<and> rj_reason r = DependencyIdRequired"
proof -
  have "decision_ok (example_admissions ! 2)" "capability_ok example_read" "proposal_ok example_choice"
    using governed_read by blast+
  note table = tool_admission_exact [OF governed_context_ok this(1,3,2), of SnapshotRead None DeterministicOrchestrator]
  have "find (\<lambda>i. tp_tool_name i = cap_name example_read) (gp_tool_permissions example_governance) = Some read_permission"
    by (simp add: example_governance_def example_read_def read_permission_def)
  then have "tool_refusal length_digest example_governance (example_admissions ! 2) example_choice example_read SnapshotRead None
      DeterministicOrchestrator = Some DependencyIdRequired"
    by (simp add: tool_refusal_def read_permission_def is_mutation_def)
  with table show ?thesis by (auto simp: bound_refusal_def)
qed

theorem tool_authority_sound_witness:
  "\<exists>dep a. admit_tool length_digest example_governance governed_task governed_receipt (example_admissions ! 2) example_choice
     example_read SnapshotRead (Some dep) DeterministicOrchestrator = Granted a \<and>
     dec_action_id (ta_decision a) = Some (ta_action_id a) \<and> available (ta_capability a)"
proof -
  from governed_read obtain dep a where granted:
    "admit_tool length_digest example_governance governed_task governed_receipt (example_admissions ! 2) example_choice
       example_read SnapshotRead (Some dep) DeterministicOrchestrator = Granted a" by blast
  show ?thesis using granted tool_authority_sound [OF example_governance_ok granted] by blast
qed

theorem admitted_action_governed_witness:
  "\<exists>dep a. admit_tool length_digest example_governance governed_task governed_receipt (example_admissions ! 2) example_choice
     example_read SnapshotRead (Some dep) DeterministicOrchestrator = Granted a \<and>
     Some (ta_action_id a) = dec_action_id (example_admissions ! 2)"
  using admitted_action_governed [OF governed_context_ok example_ostate_ok example_batch_ok example_admit(1)
      example_choice(2,4), unfolded example_choice(1,5,7)] example_choice(3,6)
  by auto

section \<open>Task admission\<close>

lemma with_receipt_id_members:
  assumes "member_fits ms" and "member_fits ms'" and "lit ''receipt_id'' \<notin> fst ` set ms" and "lit ''receipt_id'' \<notin> fst ` set ms'"
    and "with_receipt_id H tag (JObj ms) = with_receipt_id H tag (JObj ms')"
  shows "map_option canon (map_of ms k) = map_option canon (map_of ms' k)"
proof -
  have eq: "sort_key fst (map (map_prod id canon) ms) = sort_key fst (map (map_prod id canon) ms')"
    using with_receipt_id_Inr [OF assms(1,3), of H tag] with_receipt_id_Inr [OF assms(2,4), of H tag] assms(5) by auto
  have "map_of (sort_key fst (map (map_prod id canon) xs)) k = map_option canon (map_of xs k)" if "member_fits xs" for xs
  proof -
    have d: "distinct (map fst (map (map_prod id canon) xs))"
      using member_fits_distinct [OF that] by (simp add: map_prod_def comp_def split_beta)
    then have "distinct (map fst (sort_key fst (map (map_prod id canon) xs)))"
      by (metis mset_map mset_sort mset_eq_imp_distinct_iff)
    with d have "map_of (sort_key fst (map (map_prod id canon) xs)) = map_of (map (map_prod id canon) xs)"
      by (simp add: map_of_inject_set)
    moreover have "map_of (map (map_prod id canon) xs) k = map_option canon (map_of xs k)" by (induction xs) auto
    ultimately show ?thesis by simp
  qed
  with eq assms(1,2) show ?thesis by metis
qed

lemma binding_owner:
  assumes "context_ok H pol t g" and "policy_ok pol'" and "require_governance_binding H pol' t g = Inr ()"
  shows "governance_id H pol' = governance_id H pol"
proof -
  obtain e where e: "governance_receipt_init H pol' t OpenAISupervisor = Inr e" "governance_receipt_record H g = governance_receipt_record H e"
    using assms(3) by (auto simp: require_governance_binding_def res_simps)
  have g: "governance_receipt_init H pol t OpenAISupervisor = Inr g" "digest_ok H" "policy_ok pol" "task_ok H t"
    using assms(1) by (simp_all add: context_ok_def)
  have "map_option canon (map_of (receipt_body g) (lit ''governance_id'')) = map_option canon (map_of (receipt_body e) (lit ''governance_id''))"
    using e(2) governance_receipt_eq(5) [OF g(2,3,4,1)] governance_receipt_eq(5) [OF g(2) assms(2) g(4) e(1)]
    unfolding governance_receipt_record_def receipt_body_def [symmetric]
    by (intro with_receipt_id_members) (simp_all add: receipt_body_def)
  then show ?thesis
    using governance_receipt_eq(4) [OF g(2,3,4,1)] governance_receipt_eq(4) [OF g(2) assms(2) g(4) e(1)]
    by (simp add: receipt_body_def)
qed

text \<open>C16 [task_admission_binds]. A task is admitted at the request of the supervisor only; anyone else gets
  the rejection receipt of the escalation. The receipts of an admitted task carry the gates of the
  policy, name task and policy, and are accepted by the binding check of every later stage under
  this policy and under no policy of another identity.\<close>

theorem task_admission_binds:
  assumes "digest_ok H" and "policy_ok pol" and "normalize_bounded_json value_profile contract = Inr j" and "py_json j"
  shows "(requester \<noteq> OpenAISupervisor \<longrightarrow>
      (\<exists>r. admit_task H pol key contract requester version = Refused r \<and>
        bound_refusal H pol None GovernanceStage AuthorityEscalation r)) \<and>
    (admit_task H pol key contract requester version = Granted (t, g) \<longrightarrow>
      requester = OpenAISupervisor \<and> tr_required_gate_keys t = gp_required_gate_keys pol \<and>
      gr_task_id g = task_id H t \<and> gr_governance_id g = governance_id H pol \<and>
      require_governance_binding H pol t g = Inr () \<and>
      (\<forall>pol'. policy_ok pol' \<longrightarrow> require_governance_binding H pol' t g = Inr () \<longrightarrow>
        governance_id H pol' = governance_id H pol))"
proof (intro conjI impI)
  assume r: "requester \<noteq> OpenAISupervisor"
  have "small 130 1 0 (JStr (lit ''admit_task''))" using small_lit [of "''admit_task''" 0]
    by (auto intro: small_mono simp: plain_char_def simp del: One_nat_def)
  then obtain c where c: "canonical_mapping (PMap [(PStr (lit ''requested_operation''), PStr (lit ''admit_task''))]) = Inr c"
    using detail_mapping [of "''requested_operation''" "lit ''admit_task''"] by (auto simp: plain_char_def simp del: One_nat_def)
  have "invariants_ok [''IBAE-GOV-002'', ''IBAE-LAY-002'']"
    by (simp add: invariants_ok_def is_invariant_id_def lit_def in_range_def)
  from refuse_with_total [OF assms(1) _ this c, of None] r show
    "\<exists>r. admit_task H pol key contract requester version = Refused r \<and>
        bound_refusal H pol None GovernanceStage AuthorityEscalation r"
    by (simp add: admit_task_def)
next
  assume granted: "admit_task H pol key contract requester version = Granted (t, g)"
  note t = admit_task_ok [OF assms(1,2) granted assms(3,4)]
  then have ctx: "context_ok H pol t g" using assms(1,2) by (simp add: context_ok_def)
  from t show "requester = OpenAISupervisor" by blast
  from t have g: "task_ok H t" "governance_receipt_init H pol t OpenAISupervisor = Inr g" by blast+
  then show "tr_required_gate_keys t = gp_required_gate_keys pol" by (auto simp: governance_receipt_init_def res_simps)
  show "gr_task_id g = task_id H t" "gr_governance_id g = governance_id H pol"
    using governance_receipt_eq [OF assms(1,2) g] by blast+
  show "require_governance_binding H pol t g = Inr ()" using ctx by (rule context_bound)
  show "\<forall>pol'. policy_ok pol' \<longrightarrow> require_governance_binding H pol' t g = Inr () \<longrightarrow>
      governance_id H pol' = governance_id H pol"
    using binding_owner [OF ctx] by blast
qed

lemma empty_contract: "normalize_bounded_json value_profile (PMap []) = Inr (JObj [])" "canonical_mapping (PMap []) = Inr empty_object"
proof -
  obtain j where "to_value empty_object = Inr j" "canonical_value_from_value (of_json j) = Inr empty_object"
    using stored_value_rebuilds [of empty_object] empty_object_ok by (auto simp: value_ok_def)
  then show "canonical_mapping (PMap []) = Inr empty_object"
    using empty_object_stored by (simp add: stored_value_def canonical_mapping_def)
  show "normalize_bounded_json value_profile (PMap []) = Inr (JObj [])"
    using normalize_bounded_json_of_json [OF _ empty_object_fits] profiles_ok by simp
qed

theorem task_admission_binds_witness:
  "require_governance_binding length_digest example_governance governed_task governed_receipt = Inr () \<and>
   gr_governance_id governed_receipt = governance_id length_digest example_governance"
proof -
  have "bounded_unique_symbols max_required_gates (PTuple (map PStr supported_required_gate_keys)) =
      Inr supported_required_gate_keys"
    using supported_gates_sorted
    by (subst bounded_unique_symbols_Inr) (auto simp: max_required_gates_def iterate_def supported_required_gate_keys_def
        intro!: exI [of _ supported_required_gate_keys])
  then have "task_receipt_init (PStr (lit ''a'')) (PMap []) (PTuple (map PStr supported_required_gate_keys)) (PInt 1) =
      Inr governed_task"
    using example_symbols(1) empty_contract(2)
    by (simp add: task_receipt_init_def require_symbol_any_def require_positive_any_def require_total
        require_positive_int_total governed_task_def)
       (simp add: supported_required_gate_keys_def)
  then have "admit_task length_digest example_governance (lit ''a'') (PMap []) OpenAISupervisor 1 =
      Granted (governed_task, governed_receipt)"
    using governed_context_ok by (simp add: admit_task_def context_ok_def) (simp add: example_governance_def)
  with task_admission_binds [OF length_digest_ok example_governance_ok empty_contract(1)] show ?thesis by simp
qed

section \<open>Policy records\<close>

lemma from_record_policy_ok:
  assumes "governance_policy_from_record v = Inr p"
  shows "policy_ok p"
proof -
  obtain perms permissions where r: "map_res tool_permission_from_record perms = Inr permissions"
    and i: "\<exists>a b c d e f g h i j. governance_policy_init a b c d e permissions f g h i j = Inr p"
    using assms unfolding governance_policy_from_record_def rbind_eq_Inr by blast
  have "permission_ok q" if "tool_permission_from_record u = Inr q" for u q
    using that by (auto simp: tool_permission_from_record_def res_simps tool_permission_init_Inr)
  then have "list_all permission_ok permissions"
    using r by (induction perms arbitrary: permissions) (auto simp: res_simps)
  then show ?thesis using i governance_policy_init_ok by blast
qed

text \<open>C17 [governance_policy_roundtrip]. A policy is valid exactly when its canonical record is read back to
  it, and every policy that \<open>from_record\<close> accepts from anywhere is one: it has the four fixed
  principals, exactly the supported gates and consistent, sorted, distinct tool permissions, and
  the wrapper's construction from it succeeds with the same policy.\<close>

theorem governance_policy_roundtrip:
  shows "(governance_policy_from_record (of_json (governance_policy_record p)) = Inr p \<longleftrightarrow> policy_ok p) \<and>
    (governance_policy_from_record v = Inr p \<longrightarrow> policy_ok p \<and> governance_wrapper_init p = Inr p)"
  using from_record_policy_ok policy_read_back by (auto simp: governance_wrapper_init_def)

theorem governance_policy_roundtrip_witness:
  "governance_wrapper_init example_governance = Inr example_governance"
  using governance_policy_roundtrip [of example_governance "of_json (governance_policy_record example_governance)"]
    example_governance_ok by blast

end
