(* ===== verification/Orchestration_Binding.thy ===== *)
theory Orchestration_Binding
  imports Governance_Properties
begin

text \<open>
  Orchestration receipts of \<open>src/ibae/governance.py\<close>: what the loop over the decisions of a batch
  demands, and the properties that tie \<open>bind_orchestration\<close> to the receipts of \<open>admit_batch\<close>.
\<close>

section \<open>Orchestration receipts\<close>

definition admitted_entries :: "admission_decision list \<Rightarrow> (pystr \<times> admission_decision) list" where
  "admitted_entries ds = map (\<lambda>d. (the (dec_action_id d), d)) (filter (\<lambda>d. dec_status d = Admitted) ds)"

definition entry_proposals :: "(pystr \<times> admission_decision) list \<Rightarrow> (pystr \<times> pystr) list" where
  "entry_proposals es = map (\<lambda>(a, d). (dec_proposal_id d, a)) es"

lemma ledger_step_Inr:
  assumes "ledger_step l d = Inr l'"
  shows "dec_proposal_id d \<notin> set (dl_proposal_ids l) \<and> dec_proposal_key d \<notin> set (dl_proposal_keys l) \<and>
    dl_proposal_ids l' = dl_proposal_ids l @ [dec_proposal_id d] \<and>
    dl_proposal_keys l' = dl_proposal_keys l @ [dec_proposal_key d] \<and>
    dl_by_action l' = dl_by_action l @ admitted_entries [d] \<and>
    dl_by_proposal l' = dl_by_proposal l @ entry_proposals (admitted_entries [d]) \<and>
    dec_authority d = Orchestration \<and> (dec_status d \<noteq> Rejected \<longrightarrow> dec_blocking d = [] \<and> dec_unresolved d = []) \<and>
    (dec_status d = Admitted \<longrightarrow> dec_action_id d \<noteq> None \<and> the (dec_action_id d) \<notin> fst ` set (dl_by_action l)) \<and>
    (dec_status d = Deduplicated \<longrightarrow> dec_action_id d \<noteq> None \<and>
      Option.bind (dec_equivalent d) (map_of (dl_by_proposal l)) = dec_action_id d)"
  using assms
  by (cases "dec_status d")
     (auto simp: ledger_step_def ledger_decision_def res_simps admitted_entries_def entry_proposals_def
       split: option.splits)

text \<open>
  What the loop over the decisions demands: proposals and admitted actions are new, accepted
  decisions carry an action and no blocking state, a deduplicated one names an earlier admitted
  proposal with its action.
\<close>

definition earlier_admitted :: "admission_decision list \<Rightarrow> nat \<Rightarrow> bool" where
  "earlier_admitted ds n \<longleftrightarrow>
     (\<exists>k < n. dec_status (ds ! k) = Admitted \<and> dec_equivalent (ds ! n) = Some (dec_proposal_id (ds ! k)) \<and>
        dec_action_id (ds ! k) = dec_action_id (ds ! n))"

lemma earlier_admitted_append: "n < length ds \<Longrightarrow> earlier_admitted (ds @ es) n = earlier_admitted ds n"
  unfolding earlier_admitted_def by (intro ex_cong) (auto simp: nth_append)

lemma earlier_admitted_snoc:
  "earlier_admitted (ds @ [d]) (length ds) \<longleftrightarrow>
     (\<exists>k < length ds. dec_status (ds ! k) = Admitted \<and> dec_equivalent d = Some (dec_proposal_id (ds ! k)) \<and>
        dec_action_id (ds ! k) = dec_action_id d)"
  unfolding earlier_admitted_def by (intro ex_cong) (auto simp: nth_append)

definition ledger_consistent :: "admission_decision list \<Rightarrow> bool" where
  "ledger_consistent ds \<longleftrightarrow>
     distinct (map dec_proposal_id ds) \<and> distinct (map dec_proposal_key ds) \<and> distinct (map fst (admitted_entries ds)) \<and>
     (\<forall>d \<in> set ds. dec_authority d = Orchestration \<and> (dec_status d \<noteq> Rejected \<longrightarrow> dec_blocking d = [] \<and> dec_unresolved d = [] \<and>
        dec_action_id d \<noteq> None)) \<and>
     (\<forall>n < length ds. dec_status (ds ! n) = Deduplicated \<longrightarrow> earlier_admitted ds n)"

definition ledger_inv :: "admission_decision list \<Rightarrow> decision_ledger \<Rightarrow> bool" where
  "ledger_inv ds l \<longleftrightarrow>
     dl_proposal_ids l = map dec_proposal_id ds \<and> dl_proposal_keys l = map dec_proposal_key ds \<and>
     dl_by_action l = admitted_entries ds \<and> dl_by_proposal l = entry_proposals (admitted_entries ds) \<and>
     ledger_consistent ds"

lemmas ledger_defs = ledger_inv_def ledger_consistent_def

lemma admitted_entries_snoc: "admitted_entries (ds @ [d]) = admitted_entries ds @ admitted_entries [d]"
  by (simp add: admitted_entries_def)

lemma admitted_entries_single:
  "admitted_entries [d] = (if dec_status d = Admitted then [(the (dec_action_id d), d)] else [])"
  by (simp add: admitted_entries_def)

lemma entry_proposals_eq:
  "entry_proposals (admitted_entries ds) =
     map (\<lambda>d. (dec_proposal_id d, the (dec_action_id d))) (filter (\<lambda>d. dec_status d = Admitted) ds)"
  by (simp add: entry_proposals_def admitted_entries_def)

lemma ledger_inv_step:
  assumes "ledger_inv ds l" and "ledger_step l d = Inr l'"
  shows "ledger_inv (ds @ [d]) l'"
proof -
  note s = ledger_step_Inr [OF assms(2)]
  have inv: "\<forall>d \<in> set ds. dec_status d \<noteq> Rejected \<longrightarrow> dec_action_id d \<noteq> None" using assms(1) by (auto simp: ledger_defs)
  have dedup: "\<exists>k < length ds. dec_status (ds ! k) = Admitted \<and> dec_equivalent d = Some (dec_proposal_id (ds ! k)) \<and>
      dec_action_id (ds ! k) = dec_action_id d" if "dec_status d = Deduplicated"
  proof -
    have "dec_action_id d \<noteq> None" "Option.bind (dec_equivalent d) (map_of (dl_by_proposal l)) = dec_action_id d"
      using s that by blast+
    then obtain i a where i: "dec_equivalent d = Some i" "map_of (dl_by_proposal l) i = Some a" "dec_action_id d = Some a"
      by (cases "dec_equivalent d"; cases "dec_action_id d") simp_all
    moreover have "dl_by_proposal l = entry_proposals (admitted_entries ds)" using assms(1) by (simp add: ledger_defs)
    ultimately have "(i, a) \<in> set (entry_proposals (admitted_entries ds))" by (simp add: map_of_SomeD)
    then obtain e where e: "e \<in> set ds" "dec_status e = Admitted" "dec_proposal_id e = i" "the (dec_action_id e) = a"
      unfolding entry_proposals_eq set_map set_filter by blast
    then have "dec_action_id e = Some a" using inv by fastforce
    with e i show ?thesis by (auto simp: in_set_conv_nth)
  qed
  have "earlier_admitted (ds @ [d]) n" if n: "n < length (ds @ [d])" "dec_status ((ds @ [d]) ! n) = Deduplicated" for n
  proof (cases "n < length ds")
    case True
    then show ?thesis using assms(1) n(2) by (simp add: ledger_defs earlier_admitted_append nth_append)
  next
    case False
    then have "n = length ds" using n(1) by simp
    then show ?thesis using dedup n(2) by (simp add: earlier_admitted_snoc)
  qed
  moreover have "distinct (map fst (admitted_entries (ds @ [d])))"
  proof -
    have "distinct (map fst (admitted_entries ds))" "dl_by_action l = admitted_entries ds"
      using assms(1) by (simp_all add: ledger_defs)
    then show ?thesis using s unfolding admitted_entries_snoc by (simp add: admitted_entries_single)
  qed
  ultimately show ?thesis
    using assms(1) s unfolding ledger_defs admitted_entries_snoc
    by (cases "dec_status d") (auto simp: entry_proposals_def)
qed

lemma check_ledger_inv: "check_ledger l xs = Inr l' \<Longrightarrow> ledger_inv ds l \<Longrightarrow> ledger_inv (ds @ xs) l'"
proof (induction xs arbitrary: l ds)
  case (Cons d xs)
  then obtain l1 where "ledger_step l d = Inr l1" "check_ledger l1 xs = Inr l'" by (auto simp: res_simps)
  with Cons.IH [of l1 "ds @ [d]"] ledger_inv_step [OF Cons.prems(2)] show ?case by simp
qed simp

lemma ledger_of_decisions:
  assumes "check_ledger empty_ledger ds = Inr l"
  shows "ledger_inv ds l"
proof -
  have "ledger_inv [] empty_ledger"
    by (simp add: ledger_defs empty_ledger_def admitted_entries_def entry_proposals_def)
  from check_ledger_inv [OF assms this] show ?thesis by simp
qed

lemma orchestration_Inr:
  assumes "governed_orchestration_init H pol t g r as = Inr x"
  shows "\<exists>validated l. admission_receipt_copy r = Inr (go_admission x) \<and> rc_status (go_admission x) = Processed \<and>
    list_all2 (\<lambda>a b. require_tool_admission_binding H pol t g a = Inr b) as validated \<and>
    go_tool_admissions x = sort_key ta_action_id validated \<and> distinct (map ta_action_id (go_tool_admissions x)) \<and>
    check_ledger empty_ledger (rc_decisions (go_admission x)) = Inr l \<and>
    map ta_action_id (go_tool_admissions x) = sort (map fst (dl_by_action l)) \<and>
    check_admission_decisions (dl_by_action l) (go_tool_admissions x) = Inr () \<and>
    (list_ex (\<lambda>a. cap_replay_safety (ta_capability a) = OccurrenceSensitive) (go_tool_admissions x) \<longrightarrow>
      rc_ordering (go_admission x) = DeclaredSequence) \<and>
    distinct (map (runtime_cache_key H) (cached_reads (go_tool_admissions x)))"
  using assms by (fastforce simp: governed_orchestration_init_def res_simps accept_simps Let_def)

lemma check_ledger_snoc: "check_ledger l (ds @ [d]) = rbind (check_ledger l ds) (\<lambda>l'. ledger_step l' d)"
  by (induction ds arbitrary: l) (auto simp: rbind_def split: sum.splits)

lemma ledger_consistent_prefix:
  assumes "ledger_consistent (ds @ [d])"
  shows "ledger_consistent ds"
proof -
  have "earlier_admitted ds n" if "n < length ds" "dec_status (ds ! n) = Deduplicated" for n
  proof -
    have "(ds @ [d]) ! n = ds ! n" using that(1) by (simp add: nth_append)
    then have "earlier_admitted (ds @ [d]) n" using assms that unfolding ledger_consistent_def by simp
    then show ?thesis using that(1) by (simp add: earlier_admitted_append)
  qed
  moreover have "distinct (map fst (admitted_entries ds))"
    using assms by (simp add: ledger_consistent_def admitted_entries_snoc)
  ultimately show ?thesis using assms by (simp add: ledger_consistent_def)
qed

lemma ledger_step_complete:
  assumes "ledger_inv ds l" and "ledger_consistent (ds @ [d])"
  shows "\<exists>l'. ledger_step l d = Inr l'"
proof -
  have l: "dl_proposal_ids l = map dec_proposal_id ds" "dl_proposal_keys l = map dec_proposal_key ds"
    "dl_by_action l = admitted_entries ds" "dl_by_proposal l = entry_proposals (admitted_entries ds)"
    using assms(1) by (simp_all add: ledger_defs)
  have new: "dec_proposal_id d \<notin> set (dl_proposal_ids l)" "dec_proposal_key d \<notin> set (dl_proposal_keys l)"
    "dec_authority d = Orchestration" "dec_status d = Rejected \<or> dec_blocking d = [] \<and> dec_unresolved d = []"
    "dec_status d \<noteq> Rejected \<longrightarrow> dec_action_id d \<noteq> None"
    using assms(2) by (auto simp: ledger_consistent_def l)
  have "dec_status d = Admitted \<longrightarrow> the (dec_action_id d) \<notin> fst ` set (admitted_entries ds)"
    using assms(2) by (auto simp: ledger_consistent_def admitted_entries_snoc admitted_entries_single)
  moreover have "map_of (entry_proposals (admitted_entries ds)) i = Some a"
    if "k < length ds" "dec_status (ds ! k) = Admitted" "dec_proposal_id (ds ! k) = i" "dec_action_id (ds ! k) = Some a" for k i a
  proof -
    have "distinct (map dec_proposal_id ds)" using assms(2) by (simp add: ledger_consistent_def)
    then have "distinct (map fst (entry_proposals (admitted_entries ds)))"
      by (simp add: entry_proposals_eq comp_def distinct_map_filter)
    moreover have "(i, a) \<in> set (entry_proposals (admitted_entries ds))"
      unfolding entry_proposals_eq using that by (force simp: in_set_conv_nth)
    ultimately show ?thesis by simp
  qed
  moreover have "\<exists>k < length ds. dec_status (ds ! k) = Admitted \<and> dec_equivalent d = Some (dec_proposal_id (ds ! k)) \<and>
      dec_action_id (ds ! k) = dec_action_id d" if "dec_status d = Deduplicated"
    using assms(2) that unfolding ledger_consistent_def earlier_admitted_snoc [symmetric] by simp
  ultimately show ?thesis
    using new l
    by (cases "dec_status d") (fastforce simp: ledger_step_def ledger_decision_def split: option.splits)+
qed

lemma check_ledger_complete: "ledger_consistent ds \<Longrightarrow> \<exists>l. check_ledger empty_ledger ds = Inr l"
proof (induction ds rule: rev_induct)
  case (snoc d ds)
  then obtain l where l: "check_ledger empty_ledger ds = Inr l" using ledger_consistent_prefix by blast
  then show ?case using ledger_step_complete [OF ledger_of_decisions [OF l] snoc.prems] by (simp add: check_ledger_snoc)
qed simp

text \<open>C14 [orchestration_binding_exact]. An orchestration receipt authorises exactly what the batch admitted: its
  tool receipts carry the admitted action identities, each once, in order, and repeat the batch's
  decision; each was rebuilt from its own parts under a permission of the policy. Proposals are
  decided once, deduplicated ones follow an admitted one with the same action, effects only occur
  in a declared sequence and no two reads share a key of the runtime cache.\<close>

theorem orchestration_binding_exact:
  assumes "bind_orchestration H pol t g r as = Granted x"
  shows "require_governance_binding H pol t g = Inr () \<and> admission_receipt_copy r = Inr (go_admission x) \<and>
    rc_status (go_admission x) = Processed \<and>
    map ta_action_id (go_tool_admissions x) = sort (map fst (admitted_entries (rc_decisions (go_admission x)))) \<and>
    distinct (map ta_action_id (go_tool_admissions x)) \<and>
    (\<forall>a \<in> set (go_tool_admissions x).
       (\<exists>b \<in> set as. require_tool_admission_binding H pol t g b = Inr a) \<and>
       (\<exists>d \<in> set (rc_decisions (go_admission x)). dec_status d = Admitted \<and> dec_action_id d = Some (ta_action_id a) \<and>
          decision_record d = decision_record (ta_decision a)) \<and>
       (cap_replay_safety (ta_capability a) = OccurrenceSensitive \<longrightarrow> rc_ordering (go_admission x) = DeclaredSequence)) \<and>
    distinct (map (runtime_cache_key H) (cached_reads (go_tool_admissions x))) \<and>
    ledger_consistent (rc_decisions (go_admission x))"
proof -
  let ?ds = "rc_decisions (go_admission x)" and ?n = "go_tool_admissions x"
  have b: "require_governance_binding H pol t g = Inr ()" "governed_orchestration_init H pol t g r as = Inr x"
    using assms by (auto simp: bind_orchestration_def attempt_Granted)
  obtain validated l where v: "admission_receipt_copy r = Inr (go_admission x)" "rc_status (go_admission x) = Processed"
    "list_all2 (\<lambda>a b. require_tool_admission_binding H pol t g a = Inr b) as validated" "?n = sort_key ta_action_id validated"
    "distinct (map ta_action_id ?n)" "check_ledger empty_ledger ?ds = Inr l" "map ta_action_id ?n = sort (map fst (dl_by_action l))"
    "check_admission_decisions (dl_by_action l) ?n = Inr ()"
    "list_ex (\<lambda>a. cap_replay_safety (ta_capability a) = OccurrenceSensitive) ?n \<longrightarrow> rc_ordering (go_admission x) = DeclaredSequence"
    "distinct (map (runtime_cache_key H) (cached_reads ?n))"
    using orchestration_Inr [OF b(2)] by (elim exE conjE) (rule that; assumption)
  note inv = ledger_of_decisions [OF v(6)]
  have entries: "dl_by_action l = admitted_entries ?ds" using inv by (simp add: ledger_defs)
  have "\<exists>b \<in> set as. require_tool_admission_binding H pol t g b = Inr a" if "a \<in> set ?n" for a
    using that v(3,4) by (auto simp: list_all2_conv_all_nth in_set_conv_nth Bex_def)
  moreover have "\<exists>d \<in> set ?ds. dec_status d = Admitted \<and> dec_action_id d = Some (ta_action_id a) \<and>
      decision_record d = decision_record (ta_decision a)" if "a \<in> set ?n" for a
  proof -
    obtain d where d: "map_of (dl_by_action l) (ta_action_id a) = Some d" "decision_record d = decision_record (ta_decision a)"
    proof (cases "map_of (dl_by_action l) (ta_action_id a)")
      case None
      with v(8) \<open>a \<in> set ?n\<close> show ?thesis unfolding check_admission_decisions_def for_each_eq_Inr list_all_iff by force
    next
      case (Some d)
      with v(8) \<open>a \<in> set ?n\<close> have "decision_record d = decision_record (ta_decision a)"
        unfolding check_admission_decisions_def for_each_eq_Inr list_all_iff by (force simp: res_simps)
      with Some show ?thesis by (rule that)
    qed
    then have "(ta_action_id a, d) \<in> set (admitted_entries ?ds)" using entries by (simp add: map_of_SomeD)
    then have "d \<in> set ?ds" "dec_status d = Admitted" "ta_action_id a = the (dec_action_id d)"
      by (auto simp: admitted_entries_def)
    moreover from this have "dec_action_id d \<noteq> None" using inv by (auto simp: ledger_defs)
    ultimately show ?thesis using d(2) by force
  qed
  moreover have "cap_replay_safety (ta_capability a) = OccurrenceSensitive \<longrightarrow> rc_ordering (go_admission x) = DeclaredSequence"
    if "a \<in> set ?n" for a using v(9) that by (auto simp: list_ex_iff)
  ultimately show ?thesis using b(1) v(1,2,5,7,10) entries inv unfolding ledger_inv_def by metis
qed

section \<open>Receipts of the orchestration machine\<close>

definition decision_fields_ok :: "admission_decision \<Rightarrow> bool" where
  "decision_fields_ok d \<longleftrightarrow>
     is_fingerprint (dec_proposal_id d) \<and> is_symbol (dec_proposal_key d) \<and> 0 \<le> dec_tick d \<and> dec_tick d < 2 ^ 256 \<and>
     require_optional_fingerprint (dec_action_id d) = Inr () \<and> require_optional_fingerprint (dec_equivalent d) = Inr () \<and>
     int (length (dec_recoveries d)) \<le> recovery_action_count \<and> int (length (dec_blocking d)) \<le> max_obligations_limit \<and>
     int (length (dec_dependency_keys d)) \<le> max_epistemic_records \<and> int (length (dec_unresolved d)) \<le> max_epistemic_records \<and>
     int (length (dec_invariant_ids d)) \<le> max_invariant_ids_per_rejection \<and>
     distinct (dec_blocking d) \<and> distinct (dec_dependency_keys d) \<and> distinct (dec_unresolved d) \<and> distinct (dec_invariant_ids d) \<and>
     list_all is_fingerprint (dec_blocking d) \<and> list_all is_symbol (dec_unresolved d) \<and>
     list_all is_symbol (dec_dependency_keys d) \<and> list_all is_invariant_id (dec_invariant_ids d)"

definition normal_decision :: "admission_decision \<Rightarrow> admission_decision" where
  "normal_decision d = d \<lparr> dec_recoveries := sorted_recoveries (dec_recoveries d), dec_blocking := sort (dec_blocking d),
     dec_dependency_keys := sort (dec_dependency_keys d), dec_unresolved := sort (dec_unresolved d),
     dec_invariant_ids := sort (dec_invariant_ids d) \<rparr>"

lemma decision_init_Inr:
  "admission_decision_init d = Inr e \<longleftrightarrow>
     decision_fields_ok d \<and> e = normal_decision d \<and> check_decision_shape (normal_decision d) = Inr ()"
  unfolding admission_decision_init_def normal_decision_def decision_fields_ok_def Let_def
  by (auto simp: res_simps accept_simps list_all_iff protocol_limit_defs recovery_action_count_def)

lemma sorted_recoveries_idem:
  "sorted_recoveries (sorted_recoveries rs) = sorted_recoveries rs" "length (sorted_recoveries rs) \<le> length rs"
proof -
  have "remdups (sort_key recovery_value (remdups rs)) = sort_key recovery_value (remdups rs)"
    by (rule distinct_remdups_id) simp
  then show "sorted_recoveries (sorted_recoveries rs) = sorted_recoveries rs"
    by (simp only: sorted_recoveries_def sort_key_sort_key)
  show "length (sorted_recoveries rs) \<le> length rs" by (simp add: sorted_recoveries_def length_remdups_leq)
qed

lemma decision_init_ok: "admission_decision_init e = Inr d \<Longrightarrow> decision_ok d"
proof -
  assume "admission_decision_init e = Inr d"
  then have e: "decision_fields_ok e" "d = normal_decision e" "check_decision_shape d = Inr ()"
    by (simp_all add: decision_init_Inr)
  then have "decision_fields_ok d"
    using sorted_recoveries_idem(2) [of "dec_recoveries e"]
    by (simp add: decision_fields_ok_def normal_decision_def list_all_iff)
  moreover have "normal_decision d = d"
    unfolding e(2) normal_decision_def by (simp add: sorted_recoveries_idem(1))
  ultimately show ?thesis using e(3) by (simp add: decision_ok_def decision_init_Inr)
qed

lemma rejected_decision_ok: "rejected_decision H p tick reason rs bl dep un = Inr d \<Longrightarrow> decision_ok d"
  by (simp add: rejected_decision_def decision_init_ok)

lemma accepted_decision_ok: "accepted_decision H p tick st a eq dep = Inr d \<Longrightarrow> decision_ok d"
  by (simp add: accepted_decision_def decision_init_ok)

lemma validate_targets_ok: "validate_targets H s p tick dep = Inr (Some d) \<Longrightarrow> decision_ok d"
  by (auto simp: validate_targets_def Let_def res_simps dest: rejected_decision_ok split: if_splits)

lemma check_required_state_ok: "check_required_state H s p tick c j = Inr (Inl d) \<Longrightarrow> decision_ok d"
  by (auto simp: check_required_state_def check_occurrence_key_def stop_def res_simps
      dest: rejected_decision_ok split: if_splits)

lemma check_proposal_ok: "check_proposal H s order p tick c = Inr (Inl d) \<Longrightarrow> decision_ok d"
  by (auto simp: check_proposal_def stop_def res_simps
      dest: rejected_decision_ok validate_targets_ok check_required_state_ok split: sum.splits option.splits if_splits)

lemma admit_replay_safe_ok: "admit_replay_safe H p tick c a m = Inr (d, m') \<Longrightarrow> decision_ok d"
  by (auto simp: admit_replay_safe_def res_simps dest: accepted_decision_ok split: option.splits)

lemma admit_occurrence_ok: "admit_occurrence H s p tick c a m = Inr (d, m') \<Longrightarrow> decision_ok d"
  by (auto simp: admit_occurrence_def res_simps dest: accepted_decision_ok rejected_decision_ok split: option.splits if_splits)

lemma decide_proposal_ok:
  assumes "decide_proposal H s order tick p m = Inr (d, m')"
  shows "decision_ok d"
proof -
  obtain found where found: "find_capability s (proposal_capability p) = Inr found"
    using assms unfolding decide_proposal_def rbind_eq_Inr by blast
  show ?thesis
  proof (cases found)
    case None
    then show ?thesis using assms found by (auto simp: decide_proposal_def res_simps dest: rejected_decision_ok)
  next
    case (Some c)
    show ?thesis
    proof (cases "available c")
      case False
      then show ?thesis using assms found Some by (auto simp: decide_proposal_def res_simps dest: rejected_decision_ok)
    next
      case True
      then obtain checked where checked: "check_proposal H s order p tick c = Inr checked"
        using assms found Some by (auto simp: decide_proposal_def rbind_eq_Inr)
      then show ?thesis
        using assms found Some True
        by (cases checked)
           (auto simp: decide_proposal_def res_simps Let_def
             dest: check_proposal_ok admit_replay_safe_ok admit_occurrence_ok split: if_splits)
    qed
  qed
qed

lemma decide_all_ok: "decide_all H s order tick ps m = Inr (ds, m') \<Longrightarrow> list_all decision_ok ds"
  by (induction ps arbitrary: tick m ds m') (auto simp: res_simps dest: decide_proposal_ok)

lemma batch_rejection_init_again: "batch_rejection_init b = Inr r \<Longrightarrow> batch_rejection_init r = Inr r"
proof -
  assume "batch_rejection_init b = Inr r"
  then have b: "r = b \<lparr> br_recoveries := sorted_recoveries (br_recoveries b), br_invariant_ids := sort (br_invariant_ids b) \<rparr>"
    "int (length (br_recoveries b)) \<le> recovery_action_count" "0 \<le> br_tick b" "br_tick b < 2 ^ 256"
    "int (length (br_invariant_ids b)) \<le> max_invariant_ids_per_rejection" "br_invariant_ids b \<noteq> []"
    "list_all is_invariant_id (br_invariant_ids b)"
    by (auto simp: batch_rejection_init_def res_simps accept_simps list_all_iff)
  then show ?thesis
    using sorted_recoveries_idem [of "br_recoveries b"]
    by (auto simp: batch_rejection_init_def res_simps accept_simps recovery_action_count_def protocol_limit_defs list_all_iff)
       (metis length_sort length_0_conv)
qed

lemma admit_batch_receipt_parts:
  assumes "admit_batch H s b = Inr tr"
  shows "admission_receipt_init (receipt tr) = Inr (receipt tr)" and "list_all decision_ok (rc_decisions (receipt tr))"
    and "batch_rejection_copy (rc_batch_rejection (receipt tr)) = Inr (rc_batch_rejection (receipt tr))"
proof -
  have same: "admission_receipt_init r = Inr r' \<Longrightarrow> r' = r" for r r'
    by (auto simp: admission_receipt_init_def res_simps)
  have R: "admission_receipt_init (receipt tr) = Inr (receipt tr) \<and> list_all decision_ok (rc_decisions (receipt tr)) \<and>
      batch_rejection_copy (rc_batch_rejection (receipt tr)) = Inr (rc_batch_rejection (receipt tr))"
    if t: "rejected_batch_transition H s b reason recoveries = Inr tr" for reason recoveries
  proof -
    from t obtain rej r where "batch_rejection_init
        \<lparr> br_reason = reason, br_recoveries = recoveries, br_tick = os_tick s + 1,
          br_authority = Orchestration, br_invariant_ids = rejection_invariants reason \<rparr> = Inr rej"
      "admission_receipt_init r = Inr (receipt tr)" "rc_decisions r = []" "rc_batch_rejection r = Some rej"
      unfolding rejected_batch_transition_def rbind_eq_Inr admission_transition_init_def guard_eq_Inr by fastforce
    then show ?thesis using same batch_rejection_init_again by (fastforce simp: batch_rejection_copy_def res_simps)
  qed
  have P: "admission_receipt_init (receipt tr) = Inr (receipt tr) \<and> list_all decision_ok (rc_decisions (receipt tr)) \<and>
      batch_rejection_copy (rc_batch_rejection (receipt tr)) = Inr (rc_batch_rejection (receipt tr))"
    if t: "process_batch H s b = Inr tr"
  proof -
    from t obtain ds m r where
      "decide_all H s (ordering b) (os_tick s) (ordered_proposals H b) (initial_memory s) = Inr (ds, m)"
      "admission_receipt_init r = Inr (receipt tr)" "rc_decisions r = ds" "rc_batch_rejection r = None"
      unfolding process_batch_def rbind_eq_Inr admission_transition_init_def guard_eq_Inr Let_def split_beta by fastforce
    then show ?thesis using same decide_all_ok by (fastforce simp: batch_rejection_copy_def)
  qed
  have "\<exists>reason recoveries. rejected_batch_transition H s b reason recoveries = Inr tr \<or> process_batch H s b = Inr tr"
    using assms unfolding admit_batch_def rbind_eq_Inr by (auto split: if_splits)
  then show "admission_receipt_init (receipt tr) = Inr (receipt tr)" "list_all decision_ok (rc_decisions (receipt tr))"
    "batch_rejection_copy (rc_batch_rejection (receipt tr)) = Inr (rc_batch_rejection (receipt tr))"
    using R P by blast+
qed

lemma receipt_copy_ok:
  assumes "admit_batch H s b = Inr tr"
  shows "admission_receipt_copy (receipt tr) = Inr (receipt tr)"
proof -
  note p = admit_batch_receipt_parts [OF assms]
  let ?r = "receipt tr"
  have "map_res decision_copy (rc_decisions ?r) = Inr (rc_decisions ?r)"
    using p(2) decision_copy_ok by (auto simp: map_res_eq_Inr list_all_iff list_all2_conv_all_nth)
  moreover have "materialize max_proposals_per_batch (rc_decisions ?r) = Inr (rc_decisions ?r)"
    using p(1) by (auto simp: admission_receipt_init_def res_simps accept_simps)
  moreover have "?r \<lparr> rc_decisions := rc_decisions ?r, rc_batch_rejection := rc_batch_rejection ?r \<rparr> = ?r" by simp
  ultimately show ?thesis using p(1,3) by (simp add: admission_receipt_copy_def)
qed

lemma settle_clear:
  assumes "dec_status (fst (settle H s tick p v m)) \<noteq> Rejected"
  shows "dec_blocking (fst (settle H s tick p v m)) = [] \<and> dec_unresolved (fst (settle H s tick p v m)) = [] \<and>
    dec_action_id (fst (settle H s tick p v m)) \<noteq> None"
  using assms
  by (auto simp: settle_def settle_replay_safe_def settle_occurrence_def Let_def reject_def rejection_of_def
      acceptance_of_def split: verdict.splits option.splits if_splits)

lemma decisions_consistent:
  assumes "batch_ok b" and "distinct (map dec_proposal_id (decisions_of H s b))"
    and "distinct (map fst (admitted_entries (decisions_of H s b)))"
  shows "ledger_consistent (decisions_of H s b)"
proof -
  let ?ds = "decisions_of H s b" and ?ps = "ordered_proposals H b"
  have len: "length ?ds = length (proposals b)" by (simp add: decisions_of_def settle_all_shape)
  note nth = decisions_nth [of _ b H s]
  have "map dec_proposal_key ?ds = map proposal_key ?ps"
    by (rule nth_equalityI) (simp_all add: len nth settle_fields)
  moreover have "distinct (map proposal_key ?ps)"
    using assms(1) mset_eq_imp_distinct_iff [of "map proposal_key ?ps" "map proposal_key (proposals b)"]
    by (simp add: batch_ok_def ordered_proposals_def)
  moreover have "dec_authority d = Orchestration \<and>
      (dec_status d \<noteq> Rejected \<longrightarrow> dec_blocking d = [] \<and> dec_unresolved d = [] \<and> dec_action_id d \<noteq> None)"
    if "d \<in> set ?ds" for d
  proof -
    from that obtain n where "n < length (proposals b)" "d = ?ds ! n" by (auto simp: in_set_conv_nth len)
    then show ?thesis using settle_clear by (simp add: nth settle_fields)
  qed
  moreover have "earlier_admitted ?ds n" if "n < length ?ds" "dec_status (?ds ! n) = Deduplicated" for n
    using deduplicated_earlier [OF _ that(2)] that(1) by (auto simp: earlier_admitted_def len)
  ultimately show ?thesis using assms(2,3) unfolding ledger_consistent_def by metis
qed

text \<open>C15 [admission_receipts_bindable]. Every receipt of \<open>admit_batch\<close> survives the revalidating copy unchanged,
  and the loop of the orchestration receipt accepts its decisions exactly when the identities of
  its proposals and of its admitted actions are distinct: only a collision of identities makes the
  gate refuse what the orchestration machine decided.\<close>

theorem admission_receipts_bindable:
  assumes "digest_ok H" and "ostate_ok H s" and "batch_ok b" and "admit_batch H s b = Inr tr"
  shows "admission_receipt_copy (receipt tr) = Inr (receipt tr) \<and>
    ((\<exists>l. check_ledger empty_ledger (rc_decisions (receipt tr)) = Inr l) \<longleftrightarrow>
      distinct (map dec_proposal_id (rc_decisions (receipt tr))) \<and>
      distinct (map fst (admitted_entries (rc_decisions (receipt tr)))))"
proof -
  let ?ds = "rc_decisions (receipt tr)"
  have "\<exists>l. check_ledger empty_ledger ?ds = Inr l"
    if "distinct (map dec_proposal_id ?ds)" "distinct (map fst (admitted_entries ?ds))"
  proof (cases "?ds = []")
    case False
    then have "?ds = decisions_of H s b" using transition_decisions(1) [OF assms, of 0] by simp
    then show ?thesis using that decisions_consistent [OF assms(3)] check_ledger_complete by simp
  qed simp
  moreover have "distinct (map dec_proposal_id ?ds) \<and> distinct (map fst (admitted_entries ?ds))"
    if "check_ledger empty_ledger ?ds = Inr l" for l
    using ledger_of_decisions [OF that] by (simp add: ledger_defs)
  ultimately show ?thesis using receipt_copy_ok [OF assms(4)] by blast
qed

section \<open>Records of tool receipts\<close>

definition tool_body :: "digest \<Rightarrow> tool_admission \<Rightarrow> (pystr \<times> json) list" where
  "tool_body H a = action_identity_members H a @
     [(lit ''authority_layer'', JStr (lit ''governance'')),
      (lit ''cache_reuse_permitted'', JBool (ta_cache_reuse a)),
      (lit ''governed_action_id'', JStr (governed_action_id H a)),
      (lit ''governance_receipt_id'', JStr (ta_governance_receipt_id a)),
      (lit ''protocol_version'', JStr (lit ''IBAE-TOOL-ADMISSION-RECEIPT-V1'')),
      (lit ''requester'', JStr (principal_value (ta_requester a))),
      (lit ''status'', JStr (lit ''accepted''))]"

lemma small_replay_safety: "small 62 1 d (JStr (replay_safety_value r))"
  by (cases r; simp only: replay_safety_value.simps; rule small_lit; simp add: plain_char_def)

lemma tool_receipt_record_ok:
  assumes "digest_ok H" and "is_fingerprint dep" and "permission_ok perm" and "proposal_ok p"
    and "small 100000 1500 1 (stored_value (proposal_arguments p))"
  shows "\<exists>j. tool_admission_record H (tool_receipt H pol t g d p c perm dep) = Inr j \<and>
    tool_admission_receipt_id H (tool_receipt H pol t g d p c perm dep) =
      Inr (domain_id H ''ibae.tool-admission-receipt-id.v1'' (JObj (tool_body H (tool_receipt H pol t g d p c perm dep))))"
proof -
  let ?a = "tool_receipt H pol t g d p c perm dep"
  have dig: "small 66 1 1 (JStr (domain_id H tag j))" for tag j
    by (blast intro: small_deep small_fingerprint domain_id_fingerprint [OF assms(1)])
  have ids: "small 66 1 1 (JStr (H bs))" for bs
    using assms(1) by (blast intro: small_deep small_fingerprint digest_okD)
  have act: "small 66 1 1 (JStr (action_identity H c' j o' dep'))" for c' j o' dep'
    unfolding action_identity_def by (rule dig)
  have dep: "small 66 1 1 (JStr dep)" using assms(2) by (blast intro: small_deep small_fingerprint)
  have name: "small 130 1 1 (JStr (tp_tool_name perm))"
    using assms(3) unfolding permission_ok_def by (blast intro: small_deep small_symbol)
  have occ: "small 130 1 1 (opt_str (occurrence_key p))"
  proof (cases "occurrence_key p")
    case None
    then show ?thesis using small_mono [OF small_null, of 130 1 1] by (simp add: opt_str_def)
  next
    case (Some k)
    then have "is_symbol k" using assms(4) by (simp add: proposal_ok_def)
    then have "small 130 1 1 (JStr k)" by (rule small_deep [OF small_symbol])
    then show ?thesis using Some by (simp add: opt_str_def)
  qed
  have lits: "small 62 1 1 (JStr (lit ''governance''))" "small 62 1 1 (JStr (lit ''accepted''))"
    "small 62 1 1 (JStr (lit ''IBAE-TOOL-ADMISSION-RECEIPT-V1''))"
    by (rule small_lit; simp add: plain_char_def)+
  have bool: "small 5 1 1 (JBool b)" for b by (rule small_deep, rule small_bool)
  note leaf = dig act ids dep name occ lits bool small_principal [where d = 1] small_tool_class [where d = 1]
    small_replay_safety [where d = 1] assms(5)
  have fits: "member_fits (tool_body H ?a)"
    unfolding tool_body_def action_identity_members_def tool_receipt_def tool_admission.simps append.simps
      arguments_id_def capability_id_def decision_id_def governance_id_def permission_id_def proposal_id_def
      task_id_def governed_action_id_def
    by (rule member_fits_small, rule small_mono, rule small_object, (rule small_item small_items_Nil leaf)+)
       (simp_all add: plain_char_def)
  have fresh: "lit ''receipt_id'' \<notin> fst ` set (tool_body H ?a)"
    by (simp add: tool_body_def action_identity_members_def)
  obtain j where j: "with_receipt_id H ''ibae.tool-admission-receipt-id.v1'' (JObj (tool_body H ?a)) = Inr j"
    using with_receipt_id_Inr [OF fits fresh] by blast
  then show ?thesis
    using receipt_id_of_body [OF fits fresh]
    unfolding tool_admission_receipt_id_def tool_admission_record_def tool_body_def [symmetric] by blast
qed

section \<open>A governed batch\<close>

definition read_batch :: proposal_batch where
  "read_batch = example_batch \<lparr> proposals := [example_choice] \<rparr>"

lemma read_batch_ok: "batch_ok read_batch"
proof -
  have "proposal_ok example_choice" using governed_read by blast
  then show ?thesis using example_batch_ok by (simp add: batch_ok_def read_batch_def)
qed

lemma read_batch_consumed: "os_tick example_ostate + consumed length_digest example_ostate read_batch < 2 ^ 256"
  by (simp add: consumed_def example_ostate_def read_batch_def)

lemmas read_admit = admit_batch_eq [OF length_digest_ok example_ostate_ok read_batch_ok read_batch_consumed]

lemma read_batch_not_refused: "batch_refusal length_digest example_ostate read_batch = None"
  by (simp add: batch_refusal_def schema_admitted_def example_ostate_def read_batch_def example_batch_def
      default_orchestration_limits_def protocol_limit_defs) (simp add: example_schema_def)

lemma read_batch_ordered: "ordered_proposals length_digest read_batch = [example_choice]"
  by (simp add: ordered_proposals_def read_batch_def)

abbreviation read_receipt :: admission_receipt where
  "read_receipt \<equiv> receipt (transition length_digest example_ostate read_batch)"

lemma read_decision:
  "rc_decisions read_receipt =
    [acceptance_of length_digest example_choice 1 Admitted (action_of length_digest example_ostate example_read example_choice)
       None (dependency_state_keys example_read example_choice)]"
  "rc_status read_receipt = Processed" "rc_ordering read_receipt = DeclaredSequence"
proof -
  have "rc_decisions read_receipt = decisions_of length_digest example_ostate read_batch"
    "rc_status read_receipt = Processed" "rc_ordering read_receipt = ordering read_batch"
    using read_batch_not_refused by (simp_all add: transition_def processed_def Let_def)
  moreover have "ordering read_batch = DeclaredSequence" by (simp add: read_batch_def example_batch_def)
  moreover have "initial_memory example_ostate = \<lparr> replay_safe_actions = [], owner_table = [] \<rparr>"
    by (simp add: initial_memory_def example_ostate_def)
  moreover have "occurrence_key example_choice = None" "os_tick example_ostate = 0"
    by (simp_all add: example_proposal_def example_ostate_def)
  ultimately show "rc_decisions read_receipt =
    [acceptance_of length_digest example_choice 1 Admitted (action_of length_digest example_ostate example_read example_choice)
       None (dependency_state_keys example_read example_choice)]"
    "rc_status read_receipt = Processed" "rc_ordering read_receipt = DeclaredSequence"
    by (simp_all add: decisions_of_def read_batch_ordered settle_all_simps example_verdicts settle_def settle_replay_safe_def Let_def)
qed

lemma small_value:
  assumes "small b n d j" and "b \<le> 262144" and "n \<le> 4096" and "d \<le> 32"
  shows "\<exists>c. canonical_value_from_value (of_json j) = Inr c"
proof -
  have f: "fits value_profile 0 (0, 0) j" "py_json j" using small_fits [OF assms] by blast+
  have "normalize_bounded_json value_profile (of_json j) = Inr j"
    by (rule normalize_bounded_json_of_json [OF profiles_ok(1) f(1)])
  then show ?thesis
    unfolding canonical_value_from_value_def using text_from_value_Inr [OF text_profiles(1) _ f(2)] by blast
qed

text \<open>A granted read is a receipt that the binding check rebuilds.\<close>

lemma read_granted:
  "\<exists>dep. is_fingerprint dep \<and>
    require_tool_admission_binding length_digest example_governance governed_task governed_receipt
      (tool_receipt length_digest example_governance governed_task governed_receipt (hd (rc_decisions read_receipt))
         example_choice example_read read_permission dep) =
      Inr (tool_receipt length_digest example_governance governed_task governed_receipt (hd (rc_decisions read_receipt))
         example_choice example_read read_permission dep) \<and>
    Some (ta_action_id (tool_receipt length_digest example_governance governed_task governed_receipt (hd (rc_decisions read_receipt))
         example_choice example_read read_permission dep)) = dec_action_id (hd (rc_decisions read_receipt))"
proof -
  let ?d = "hd (rc_decisions read_receipt)" and ?H = "length_digest"
  let ?a = "\<lambda>dep. tool_receipt ?H example_governance governed_task governed_receipt ?d example_choice example_read read_permission dep"
  have zero: "0 < length (rc_decisions read_receipt)" "rc_decisions read_receipt ! 0 = ?d" "dec_status ?d = Admitted"
    using read_decision(1) by (simp_all add: acceptance_of_def)
  obtain dep a where dep: "dependency_digest ?H (os_epistemic example_ostate) (dependency_state_keys example_read example_choice) = Inr dep"
    "decision_ok ?d" "capability_ok example_read" "proposal_ok example_choice"
    "admit_tool ?H example_governance governed_task governed_receipt ?d example_choice example_read SnapshotRead (Some dep)
       DeterministicOrchestrator = Granted a" "Some (ta_action_id a) = dec_action_id ?d"
    using admitted_tool_granted [OF governed_context_ok example_ostate_ok read_batch_ok read_admit(1) zero(1) example_choice(4),
        unfolded zero(2) read_batch_ordered nth_Cons_0 example_choice(5,7)] zero(3) example_choice(6) by auto
  have fp: "is_fingerprint dep"
    using dep(1) domain_id_fingerprint [OF length_digest_ok] by (auto simp: dependency_digest_def res_simps Let_def)
  have plain: "plain_proposal example_choice = example_choice" by (simp add: plain_proposal_def example_proposal_def)
  have own: "perm = read_permission" if "perm \<in> set (gp_tool_permissions example_governance)" "tp_tool_name perm = cap_name example_read" for perm
    using that by (auto simp: example_governance_def read_permission_def example_read_def)
  have a: "a = ?a dep"
    using admit_tool_table [OF governed_context_ok dep(2,4,3), of SnapshotRead "Some dep" DeterministicOrchestrator] dep(5) own
    unfolding plain by (auto split: option.splits)
  obtain perm d p c where g: "copy_tool_inputs ?H ?d example_choice example_read = Inr (d, p, c)"
    "permission_for example_governance (cap_name c) = Inr (Some perm)"
    "tool_admission_init ?H example_governance governed_task governed_receipt perm DeterministicOrchestrator d p c dep = Inr a"
    using admit_tool_Granted [OF dep(5)] unfolding admit_tool_checked_Granted by auto
  have copies: "d = ?d" "p = example_choice" "c = example_read"
    using g(1) copy_tool_inputs_ok [OF dep(2,4,3)] plain by simp_all
  have perm: "perm = read_permission" using own permission_for_mem [OF g(2)] copies by blast
  have name: "tp_tool_name read_permission = cap_name example_read" by (simp add: read_permission_def example_read_def)
  have ok: "permission_ok read_permission"
    using example_governance_ok example_choice(4) by (simp add: policy_ok_def list_all_iff)
  have args: "small 100000 1500 1 (stored_value (proposal_arguments example_choice))"
    using small_mono [OF small_object [OF small_items_Nil, of 0], of 100000 1500 1]
    by (simp add: example_proposal_def empty_object_stored)
  obtain j where j: "tool_admission_record ?H (?a dep) = Inr j"
    using tool_receipt_record_ok [OF length_digest_ok fp ok dep(4) args] by blast
  have "require_tool_admission_binding ?H example_governance governed_task governed_receipt (?a dep) = Inr (?a dep)"
    using g(2,3) j context_bound [OF governed_context_ok] unfolding copies perm a require_tool_admission_binding_def
    by (simp add: tool_receipt_def name)
  with fp dep(6) a show ?thesis by blast
qed

lemma read_manifest:
  assumes "is_fingerprint dep"
  shows "\<exists>e c. manifest_entry length_digest (tool_receipt length_digest example_governance governed_task governed_receipt d
         example_choice example_read read_permission dep) = Inr e \<and>
    canonical_value_from_value (of_json (JArr [e])) = Inr c"
proof -
  let ?a = "tool_receipt length_digest example_governance governed_task governed_receipt d example_choice example_read read_permission dep"
  have ok: "permission_ok read_permission" "proposal_ok example_choice"
    using example_governance_ok example_choice(4) governed_read by (simp_all add: policy_ok_def list_all_iff) blast
  have args: "small 100000 1500 1 (stored_value (proposal_arguments example_choice))"
    using small_mono [OF small_object [OF small_items_Nil, of 0], of 100000 1500 1]
    by (simp add: example_proposal_def empty_object_stored)
  obtain i where i: "tool_admission_receipt_id length_digest ?a = Inr i" "is_fingerprint i"
    using tool_receipt_record_ok [OF length_digest_ok assms ok args] domain_id_fingerprint [OF length_digest_ok] by blast
  have fp: "small 66 1 1 (JStr x)" if "is_fingerprint x" for x using that by (blast intro: small_deep small_fingerprint)
  have "is_fingerprint (ta_action_id ?a)"
    by (simp add: tool_receipt_def action_identity_def domain_id_fingerprint [OF length_digest_ok])
  then have leaf: "small 66 1 1 (JStr (ta_action_id ?a))" "small 66 1 1 (JStr (arguments_id length_digest ?a))"
    "small 66 1 1 (JStr dep)" "small 66 1 1 (JStr i)"
    using assms i(2) length_digest_fingerprint domain_id_fingerprint [OF length_digest_ok]
    by (simp_all only: arguments_id_def fp)
  have lits: "small 62 1 1 (JStr (tool_class_name SnapshotRead))" "small 62 1 1 (JStr (lit ''read''))"
    unfolding tool_class_name.simps by (rule small_lit; simp add: plain_char_def)+
  have bool: "small 5 1 1 (JBool b)" for b by (rule small_deep, rule small_bool)
  let ?e = "JObj [(lit ''action_id'', JStr (ta_action_id ?a)), (lit ''arguments_id'', JStr (arguments_id length_digest ?a)),
           (lit ''authority_class'', JStr (tool_class_name SnapshotRead)), (lit ''cache_reuse_permitted'', JBool True),
           (lit ''dependency_fingerprint'', JStr dep), (lit ''tool_admission_receipt_id'', JStr i), (lit ''tool_name'', JStr (lit ''read''))]"
  have "small 2000 100 2 ?e"
    by (rule small_mono, rule small_object, (rule small_item small_items_Nil leaf lits bool)+) (simp_all add: plain_char_def)
  then have "small (2 + 1 * (2000 + 1)) (1 + 1 * 100) (2 + 1) (JArr [?e])"
    by (intro small_list) (simp_all add: limit_defs)
  from small_value [OF this] obtain c where "canonical_value_from_value (of_json (JArr [?e])) = Inr c" by auto
  moreover have "manifest_entry length_digest ?a = Inr ?e"
    using i(1) by (simp add: manifest_entry_def) (simp add: tool_receipt_def read_permission_def)
  ultimately show ?thesis by blast
qed

theorem orchestration_binding_exact_witness:
  "\<exists>b x. bind_orchestration length_digest example_governance governed_task governed_receipt read_receipt [b] = Granted x \<and>
     map ta_action_id (go_tool_admissions x) = map fst (admitted_entries (rc_decisions read_receipt)) \<and>
     length (go_tool_admissions x) = 1"
proof -
  let ?H = "length_digest" and ?d = "hd (rc_decisions read_receipt)"
  obtain dep where dep: "is_fingerprint dep" and
    bind: "require_tool_admission_binding ?H example_governance governed_task governed_receipt
      (tool_receipt ?H example_governance governed_task governed_receipt ?d example_choice example_read read_permission dep) =
      Inr (tool_receipt ?H example_governance governed_task governed_receipt ?d example_choice example_read read_permission dep)" and
    act: "Some (ta_action_id (tool_receipt ?H example_governance governed_task governed_receipt ?d example_choice example_read
       read_permission dep)) = dec_action_id ?d" using read_granted by blast
  define a where "a = tool_receipt ?H example_governance governed_task governed_receipt ?d example_choice example_read read_permission dep"
  note facts = bind [folded a_def] act [folded a_def]
  have ds: "rc_decisions read_receipt = [?d]" "dec_status ?d = Admitted" using read_decision(1) by (simp_all add: acceptance_of_def)
  have entries: "admitted_entries (rc_decisions read_receipt) = [(ta_action_id a, ?d)]"
    using ds facts(2) by (metis admitted_entries_single option.sel)
  have "distinct (map dec_proposal_id (rc_decisions read_receipt))" by (subst ds) simp
  moreover have "distinct (map fst (admitted_entries (rc_decisions read_receipt)))" unfolding entries by simp
  ultimately obtain l where l: "check_ledger empty_ledger (rc_decisions read_receipt) = Inr l"
    using decisions_consistent [OF read_batch_ok] check_ledger_complete
      transition_decisions(1) [OF length_digest_ok example_ostate_ok read_batch_ok read_admit(1), of 0] ds(1)
    by (metis length_greater_0_conv list.distinct(1))
  then have by_action: "dl_by_action l = [(ta_action_id a, ?d)]"
    using ledger_of_decisions [OF l] entries by (simp add: ledger_inv_def)
  obtain e c where e: "manifest_entry ?H a = Inr e" "canonical_value_from_value (of_json (JArr [e])) = Inr c"
    using read_manifest [OF dep] unfolding a_def by blast
  have fields: "ta_decision a = ?d" "cap_replay_safety (ta_capability a) = CacheableRead"
    by (simp_all add: a_def tool_receipt_def example_read_def)
  obtain i where i: "governance_receipt_id ?H governed_receipt = Inr i" using context_receipt_id [OF governed_context_ok] by blast
  have "\<exists>x. governed_orchestration_init ?H example_governance governed_task governed_receipt read_receipt [a] = Inr x"
    using context_bound [OF governed_context_ok] receipt_copy_ok [OF read_admit(1)] read_decision(2,3) facts(1) l by_action e i
    by (simp add: governed_orchestration_init_def materialize_ok max_tool_admissions_def max_proposals_per_batch_def
        check_admission_decisions_def fields Let_def cached_reads_def del: of_json.simps)
  then obtain x where x: "bind_orchestration ?H example_governance governed_task governed_receipt read_receipt [a] = Granted x"
    using context_bound [OF governed_context_ok] by (auto simp: bind_orchestration_def attempt_def)
  have "go_admission x = read_receipt"
    using orchestration_binding_exact [OF x] receipt_copy_ok [OF read_admit(1)] by simp
  then have "map ta_action_id (go_tool_admissions x) = [ta_action_id a]"
    using orchestration_binding_exact [OF x] entries by simp
  moreover from arg_cong [OF this, of length] have "length (go_tool_admissions x) = 1" by simp
  ultimately show ?thesis using x entries by (intro exI [of _ a] exI [of _ x]) simp
qed

theorem admission_receipts_bindable_witness:
  "\<exists>l. check_ledger empty_ledger (rc_decisions read_receipt) = Inr l"
proof -
  obtain a where d: "rc_decisions read_receipt = [acceptance_of length_digest example_choice 1 Admitted a None
      (dependency_state_keys example_read example_choice)]" using read_decision(1) by blast
  have "distinct (map dec_proposal_id (rc_decisions read_receipt))"
    "distinct (map fst (admitted_entries (rc_decisions read_receipt)))"
    by (simp_all add: d admitted_entries_single)
  with admission_receipts_bindable [OF length_digest_ok example_ostate_ok read_batch_ok read_admit(1)] show ?thesis by blast
qed

end
