(* ===== verification/Lease_State.thy ===== *)
theory Lease_State
  imports Strategy_Change Governance_Policy
begin

text \<open>
  The continuation ledger of \<open>src/ibae/continuation.py\<close>: the policy receipt that binds a continuation
  policy to an admitted task, the ledger state with the checks of its constructor, the policy bounds
  every operation repeats, and the compact projection shown to the supervisor.

  A ledger state is trusted when it carries a native seal that validates its canonical text. The
  seal is opaque: its type is the variable \<open>'s\<close> and the check \<open>seal.validates(text)\<close> is the parameter
  \<open>W\<close> of the definitions. \<open>dataclasses.replace\<close> runs the constructor again, so every update goes
  through \<open>continuation_state_init\<close>.
\<close>

section \<open>Closed vocabularies\<close>

datatype progress_state =
    Progressing | Stalled | StrategyChanged | StrategyChangeRejected | CycleBlocked | LeaseExhausted
  | ProgressComplete

fun progress_state_value :: "progress_state \<Rightarrow> pystr" where
  "progress_state_value Progressing = lit ''progressing''"
| "progress_state_value Stalled = lit ''stalled''"
| "progress_state_value StrategyChanged = lit ''strategy_changed''"
| "progress_state_value StrategyChangeRejected = lit ''strategy_change_rejected''"
| "progress_state_value CycleBlocked = lit ''cycle_blocked''"
| "progress_state_value LeaseExhausted = lit ''lease_exhausted''"
| "progress_state_value ProgressComplete = lit ''complete''"

datatype lease_denial_reason =
    UnauthorizedRequester | StaleContinuationState | StaleGovernance | StaleOrchestrationState
  | StaleRuntimeState | StaleProgress | LeaseIndexMismatch | NoMeasurableProgress | TerminalCycle
  | LeaseCeilingReached | LeaseRequestLimit | StrategyChangeNotMaterial | StrategyChangeCycleEquivalent
  | StrategyRecoveryExhausted | TaskAlreadyComplete | BlockingGovernanceViolation | AmountExceedsSchedule
  | AmountExceedsCeiling | EmptyResourceVector | UnsupportedResource | PendingLeaseApplication

fun denial_reason_value :: "lease_denial_reason \<Rightarrow> pystr" where
  "denial_reason_value UnauthorizedRequester = lit ''IBAE-LEASE-DENY-UNAUTHORIZED-REQUESTER''"
| "denial_reason_value StaleContinuationState = lit ''IBAE-LEASE-DENY-STALE-CONTINUATION-STATE''"
| "denial_reason_value StaleGovernance = lit ''IBAE-LEASE-DENY-STALE-GOVERNANCE''"
| "denial_reason_value StaleOrchestrationState = lit ''IBAE-LEASE-DENY-STALE-ORCHESTRATION-STATE''"
| "denial_reason_value StaleRuntimeState = lit ''IBAE-LEASE-DENY-STALE-RUNTIME-STATE''"
| "denial_reason_value StaleProgress = lit ''IBAE-LEASE-DENY-STALE-PROGRESS''"
| "denial_reason_value LeaseIndexMismatch = lit ''IBAE-LEASE-DENY-LEASE-INDEX-MISMATCH''"
| "denial_reason_value NoMeasurableProgress = lit ''IBAE-LEASE-DENY-NO-MEASURABLE-PROGRESS''"
| "denial_reason_value TerminalCycle = lit ''IBAE-LEASE-DENY-TERMINAL-CYCLE''"
| "denial_reason_value LeaseCeilingReached = lit ''IBAE-LEASE-DENY-LEASE-CEILING-REACHED''"
| "denial_reason_value LeaseRequestLimit = lit ''IBAE-LEASE-DENY-LEASE-REQUEST-LIMIT''"
| "denial_reason_value StrategyChangeNotMaterial = lit ''IBAE-LEASE-DENY-STRATEGY-CHANGE-NOT-MATERIAL''"
| "denial_reason_value StrategyChangeCycleEquivalent = lit ''IBAE-LEASE-DENY-STRATEGY-CHANGE-CYCLE-EQUIVALENT''"
| "denial_reason_value StrategyRecoveryExhausted = lit ''IBAE-LEASE-DENY-STRATEGY-RECOVERY-EXHAUSTED''"
| "denial_reason_value TaskAlreadyComplete = lit ''IBAE-LEASE-DENY-TASK-ALREADY-COMPLETE''"
| "denial_reason_value BlockingGovernanceViolation = lit ''IBAE-LEASE-DENY-BLOCKING-GOVERNANCE-VIOLATION''"
| "denial_reason_value AmountExceedsSchedule = lit ''IBAE-LEASE-DENY-AMOUNT-EXCEEDS-SCHEDULE''"
| "denial_reason_value AmountExceedsCeiling = lit ''IBAE-LEASE-DENY-AMOUNT-EXCEEDS-CEILING''"
| "denial_reason_value EmptyResourceVector = lit ''IBAE-LEASE-DENY-EMPTY-RESOURCE-VECTOR''"
| "denial_reason_value UnsupportedResource = lit ''IBAE-LEASE-DENY-UNSUPPORTED-RESOURCE''"
| "denial_reason_value PendingLeaseApplication = lit ''IBAE-LEASE-DENY-PENDING-LEASE-APPLICATION''"

section \<open>Policy receipts\<close>

text \<open>\<open>_with_receipt_id\<close>: the body with its own fingerprint as one more member.\<close>

definition receipted :: "digest \<Rightarrow> string \<Rightarrow> (pystr \<times> json) list \<Rightarrow> json" where
  "receipted H domain body =
     JObj (body @ [(lit ''receipt_id'', JStr (domain_id H domain (JObj body)))])"

record policy_receipt =
  cr_task_id :: pystr
  cr_governance_id :: pystr
  cr_governance_receipt_id :: pystr
  cr_policy_id :: pystr
  cr_contract_id :: pystr
  cr_task_profile :: pystr
  cr_task_profile_version :: int

definition policy_receipt_validate :: "policy_receipt \<Rightarrow> unit res" where
  "policy_receipt_validate r =
     rbind (for_each require_fingerprint
              [cr_task_id r, cr_governance_id r, cr_governance_receipt_id r, cr_policy_id r, cr_contract_id r])
       (\<lambda>_. rbind (require_symbol (cr_task_profile r))
       (\<lambda>_. rbind (require_positive_int (cr_task_profile_version r)) (\<lambda>_. Inr ())))"

definition policy_receipt_init ::
  "digest \<Rightarrow> continuation_policy \<Rightarrow> governance_policy \<Rightarrow> governance_receipt \<Rightarrow> policy_receipt res"
where
  "policy_receipt_init H p g gr =
     rbind (guard (gr_governance_id gr = governance_id H g)
             (ValueErr ''governance receipt does not bind the supplied policy''))
       (\<lambda>_. rbind (guard (cp_task_profile p = gp_task_profile g \<and> cp_task_profile_version p = gp_task_profile_version g)
                 (ValueErr ''continuation and governance task profiles must match''))
       (\<lambda>_. rbind (governance_receipt_id H gr)
       (\<lambda>rid. rbind (continuation_policy_id H p)
       (\<lambda>policy. let r = \<lparr> cr_task_id = gr_task_id gr, cr_governance_id = governance_id H g,
                           cr_governance_receipt_id = rid, cr_policy_id = policy,
                           cr_contract_id = cp_progress_contract_id p, cr_task_profile = cp_task_profile p,
                           cr_task_profile_version = cp_task_profile_version p \<rparr>
                 in rbind (policy_receipt_validate r) (\<lambda>_. Inr r)))))"

definition policy_receipt_record :: "digest \<Rightarrow> policy_receipt \<Rightarrow> json res" where
  "policy_receipt_record H r =
     rbind (policy_receipt_validate r)
       (\<lambda>_. Inr (receipted H ''ibae.continuation-policy-receipt-id.v1''
          [(lit ''authority_layer'', JStr (lit ''governance'')),
           (lit ''continuation_policy_id'', JStr (cr_policy_id r)),
           (lit ''governance_id'', JStr (cr_governance_id r)),
           (lit ''governance_receipt_id'', JStr (cr_governance_receipt_id r)),
           (lit ''progress_contract_id'', JStr (cr_contract_id r)),
           (lit ''protocol_version'', JStr (lit ''IBAE-CONTINUATION-POLICY-RECEIPT-V1'')),
           (lit ''status'', JStr (lit ''admitted'')),
           (lit ''task_id'', JStr (cr_task_id r)),
           (lit ''task_profile'', JStr (cr_task_profile r)),
           (lit ''task_profile_version'', JInt (cr_task_profile_version r))]))"

definition policy_receipt_id :: "digest \<Rightarrow> policy_receipt \<Rightarrow> pystr res" where
  "policy_receipt_id H r = rbind (policy_receipt_record H r) receipt_id_member"

section \<open>Aggregates\<close>

definition initial_decision_aggregate :: "digest \<Rightarrow> pystr \<Rightarrow> pystr \<Rightarrow> pystr \<Rightarrow> pystr" where
  "initial_decision_aggregate H task governance policy =
     domain_id H ''ibae.continuation-decision-aggregate.v1''
       (JObj [(lit ''continuation_policy_id'', JStr policy), (lit ''governance_id'', JStr governance),
              (lit ''item_type'', JStr (lit ''seed'')), (lit ''task_id'', JStr task)])"

definition advance_decision_aggregate :: "digest \<Rightarrow> pystr \<Rightarrow> pystr \<Rightarrow> int \<Rightarrow> pystr res" where
  "advance_decision_aggregate H prior rid ordinal =
     rbind (require_fingerprint prior)
       (\<lambda>_. rbind (require_fingerprint rid)
       (\<lambda>_. rbind (require_u64 ordinal)
       (\<lambda>_. Inr (domain_id H ''ibae.continuation-decision-aggregate.v1''
          (JObj [(lit ''item_type'', JStr (lit ''decision'')), (lit ''ordinal'', JInt ordinal),
                 (lit ''prior'', JStr prior), (lit ''receipt_id'', JStr rid)])))))"

definition initial_progress_aggregate :: "digest \<Rightarrow> pystr" where
  "initial_progress_aggregate H =
     domain_id H ''ibae.continuation-progress-aggregate.v1''
       (JObj [(lit ''item_type'', JStr (lit ''seed'')),
              (lit ''protocol_version'', JStr (lit ''IBAE-CONTINUATION-EVIDENCE-V1''))])"

definition advance_progress_aggregate :: "digest \<Rightarrow> pystr \<Rightarrow> pystr \<Rightarrow> int \<Rightarrow> pystr res" where
  "advance_progress_aggregate H prior progress ordinal =
     rbind (require_fingerprint prior)
       (\<lambda>_. rbind (require_fingerprint progress)
       (\<lambda>_. rbind (require_u64 ordinal)
       (\<lambda>_. Inr (domain_id H ''ibae.continuation-progress-aggregate.v1''
          (JObj [(lit ''item_type'', JStr (lit ''progress'')), (lit ''ordinal'', JInt ordinal),
                 (lit ''prior'', JStr prior), (lit ''progress_id'', JStr progress)])))))"

fun fold_progress_aggregate ::
  "digest \<Rightarrow> (counter_evidence \<Rightarrow> unit res) \<Rightarrow> pystr \<Rightarrow> int \<Rightarrow> progress_record list \<Rightarrow> pystr res"
where
  "fold_progress_aggregate H V prior ordinal [] = Inr prior"
| "fold_progress_aggregate H V prior ordinal (r # rs) =
     rbind (progress_id H V r)
       (\<lambda>i. rbind (advance_progress_aggregate H prior i ordinal)
       (\<lambda>after. fold_progress_aggregate H V after (ordinal + 1) rs))"

definition progress_aggregate :: "digest \<Rightarrow> (counter_evidence \<Rightarrow> unit res) \<Rightarrow> progress_record list \<Rightarrow> pystr res" where
  "progress_aggregate H V rs = fold_progress_aggregate H V (initial_progress_aggregate H) 0 rs"

section \<open>The ledger state\<close>

record 's continuation_state =
  cs_task_id :: pystr
  cs_governance_id :: pystr
  cs_governance_receipt_id :: pystr
  cs_policy_id :: pystr
  cs_policy_receipt_id :: pystr
  cs_contract_id :: pystr
  cs_orchestration_state_id :: pystr
  cs_session_id :: pystr
  cs_runtime_state_id :: pystr
  cs_requests :: int
  cs_granted :: int
  cs_denied :: int
  cs_cumulative :: budget_vector
  cs_tick :: int
  cs_decision_aggregate :: pystr
  cs_receipt_ids :: "pystr list"
  cs_recoveries :: int
  cs_strategy_material_id :: "pystr option"
  cs_last_progress_id :: "pystr option"
  cs_progress_count :: int
  cs_progress_aggregate :: pystr
  cs_consumed_progress_id :: "pystr option"
  cs_external_endpoint :: "pystr option"
  cs_consumed_endpoint :: "pystr option"
  cs_last_classification :: "progress_classification option"
  cs_last_decision :: pystr
  cs_last_denial :: "lease_denial_reason option"
  cs_progress_state :: progress_state
  cs_terminal_receipt :: "pystr option"
  cs_pending_grant :: "pystr option"
  cs_pending_receipt :: "pystr option"
  cs_lineage :: "'s option"

definition has_pending_grant :: "'s continuation_state \<Rightarrow> bool" where
  "has_pending_grant s \<longleftrightarrow> cs_pending_grant s \<noteq> None"

definition opt_value :: "('a \<Rightarrow> pystr) \<Rightarrow> 'a option \<Rightarrow> json" where
  "opt_value f x = opt_str (map_option f x)"

definition ledger_record :: "'s continuation_state \<Rightarrow> json" where
  "ledger_record s = JObj
     [(lit ''continuation_logical_tick'', JInt (cs_tick s)),
      (lit ''continuation_policy_id'', JStr (cs_policy_id s)),
      (lit ''continuation_policy_receipt_id'', JStr (cs_policy_receipt_id s)),
      (lit ''progress_contract_id'', JStr (cs_contract_id s)),
      (lit ''cumulative_granted'', budget_record (cs_cumulative s)),
      (lit ''current_strategy_material_id'', opt_str (cs_strategy_material_id s)),
      (lit ''decision_aggregate_id'', JStr (cs_decision_aggregate s)),
      (lit ''decision_receipt_ids'', str_list (cs_receipt_ids s)),
      (lit ''governance_id'', JStr (cs_governance_id s)),
      (lit ''governance_receipt_id'', JStr (cs_governance_receipt_id s)),
      (lit ''last_decision'', JStr (cs_last_decision s)),
      (lit ''last_denial_reason'', opt_value denial_reason_value (cs_last_denial s)),
      (lit ''last_progress_classification'', opt_value classification_value (cs_last_classification s)),
      (lit ''last_consumed_progress_id'', opt_str (cs_consumed_progress_id s)),
      (lit ''last_consumed_external_progress_endpoint_id'', opt_str (cs_consumed_endpoint s)),
      (lit ''last_progress_id'', opt_str (cs_last_progress_id s)),
      (lit ''progress_event_count'', JInt (cs_progress_count s)),
      (lit ''progress_aggregate_id'', JStr (cs_progress_aggregate s)),
      (lit ''last_external_progress_endpoint_id'', opt_str (cs_external_endpoint s)),
      (lit ''lease_requests'', JInt (cs_requests s)),
      (lit ''leases_denied'', JInt (cs_denied s)),
      (lit ''leases_granted'', JInt (cs_granted s)),
      (lit ''orchestration_state_id'', JStr (cs_orchestration_state_id s)),
      (lit ''pending_grant_id'', opt_str (cs_pending_grant s)),
      (lit ''pending_grant_receipt_id'', opt_str (cs_pending_receipt s)),
      (lit ''progress_state'', JStr (progress_state_value (cs_progress_state s))),
      (lit ''protocol_version'', JStr continuation_protocol_version),
      (lit ''runtime_session_id'', JStr (cs_session_id s)),
      (lit ''runtime_state_id'', JStr (cs_runtime_state_id s)),
      (lit ''strategy_recoveries'', JInt (cs_recoveries s)),
      (lit ''task_id'', JStr (cs_task_id s)),
      (lit ''terminal_ceiling_receipt_id'', opt_str (cs_terminal_receipt s))]"

definition lineage_text :: "'s continuation_state \<Rightarrow> pystr" where
  "lineage_text s = render (ledger_record s)"

definition check_state_counters :: "'s continuation_state \<Rightarrow> unit res" where
  "check_state_counters s =
     rbind (for_each require_u64
              [cs_requests s, cs_granted s, cs_denied s, cs_tick s, cs_recoveries s, cs_progress_count s])
       (\<lambda>_. rbind (guard (cs_requests s = cs_granted s + cs_denied s)
                 (ValueErr ''continuation lease request accounting is inconsistent''))
       (\<lambda>_. guard (cs_tick s = cs_requests s)
                 (ValueErr ''each recorded lease decision must consume one tick'')))"

definition check_state_history :: "'s continuation_state \<Rightarrow> pystr list res" where
  "check_state_history s =
     rbind (require_fingerprints False True max_lease_requests_limit (cs_receipt_ids s))
       (\<lambda>receipts. rbind (guard (int (length receipts) = cs_requests s)
                 (ValueErr ''decision receipt history does not match request count''))
       (\<lambda>_. Inr receipts))"

definition check_state_endpoints :: "'s continuation_state \<Rightarrow> unit res" where
  "check_state_endpoints s =
     rbind (for_each require_optional_fingerprint [cs_strategy_material_id s, cs_last_progress_id s])
       (\<lambda>_. rbind (require_fingerprint (cs_progress_aggregate s))
       (\<lambda>_. rbind (guard ((cs_progress_count s = 0) = (cs_last_progress_id s = None))
                 (ValueErr ''continuation progress count must match the live progress endpoint''))
       (\<lambda>_. for_each require_optional_fingerprint
              [cs_consumed_progress_id s, cs_external_endpoint s, cs_consumed_endpoint s])))"

definition check_state_markers :: "'s continuation_state \<Rightarrow> unit res" where
  "check_state_markers s =
     rbind (guard (cs_last_decision s \<in> {lit ''none'', lit ''granted'', lit ''denied''})
             (ValueErr ''last_decision is outside the closed v1 taxonomy''))
       (\<lambda>_. rbind (require_optional_fingerprint (cs_terminal_receipt s))
       (\<lambda>_. rbind (guard (cs_terminal_receipt s = None \<or> cs_progress_state s = LeaseExhausted)
                 (ValueErr ''a terminal ceiling receipt requires lease-exhausted state''))
       (\<lambda>_. rbind (guard ((cs_pending_grant s = None) = (cs_pending_receipt s = None))
                 (ValueErr ''pending grant and receipt identities must be paired''))
       (\<lambda>_. rbind (for_each require_optional_fingerprint [cs_pending_grant s, cs_pending_receipt s])
       (\<lambda>_. guard (\<not> (cs_terminal_receipt s \<noteq> None \<and> has_pending_grant s))
                 (ValueErr ''terminal ceiling state cannot carry a pending grant''))))))"

definition check_state_decision :: "'s continuation_state \<Rightarrow> unit res" where
  "check_state_decision s =
     rbind (guard (\<not> (cs_last_decision s = lit ''denied'' \<and> cs_last_denial s = None))
             (ValueErr ''a denied last decision requires a denial reason''))
       (\<lambda>_. rbind (guard (\<not> (cs_last_decision s \<noteq> lit ''denied'' \<and> cs_last_denial s \<noteq> None))
                 (ValueErr ''only a denied last decision may carry a denial reason''))
       (\<lambda>_. rbind (guard ((cs_requests s = 0) = (cs_last_decision s = lit ''none''))
                 (ValueErr ''last decision must match the recorded decision ledger''))
       (\<lambda>_. rbind (guard (\<not> (cs_last_decision s = lit ''granted'' \<and> cs_granted s = 0))
                 (ValueErr ''a granted last decision requires a recorded grant''))
       (\<lambda>_. rbind (guard (\<not> (cs_last_decision s = lit ''denied'' \<and> cs_denied s = 0))
                 (ValueErr ''a denied last decision requires a recorded denial''))
       (\<lambda>_. rbind (guard (\<not> (cs_consumed_progress_id s \<noteq> None \<and> cs_granted s = 0))
                 (ValueErr ''consumed progress requires a recorded grant''))
       (\<lambda>_. rbind (guard (\<not> (cs_consumed_endpoint s \<noteq> None \<and> cs_granted s = 0))
                 (ValueErr ''consumed external progress requires a recorded grant''))
       (\<lambda>_. rbind (guard (\<not> (cs_consumed_endpoint s \<noteq> None \<and> cs_external_endpoint s = None))
                 (ValueErr ''consumed external progress requires a live external endpoint''))
       (\<lambda>_. guard (\<not> cs_granted s < cs_recoveries s)
                 (ValueErr ''strategy recoveries cannot exceed recorded grants'')))))))))"

definition check_state_seal :: "('s \<Rightarrow> pystr \<Rightarrow> bool) \<Rightarrow> 's continuation_state \<Rightarrow> unit res" where
  "check_state_seal W s =
     (case cs_lineage s of
        None \<Rightarrow> Inr ()
      | Some seal \<Rightarrow> guard (W seal (lineage_text s)) (ValueErr ''continuation decision lineage does not match state''))"

definition continuation_state_init ::
  "('s \<Rightarrow> pystr \<Rightarrow> bool) \<Rightarrow> 's continuation_state \<Rightarrow> 's continuation_state res"
where
  "continuation_state_init W s =
     rbind (for_each require_fingerprint
              [cs_task_id s, cs_governance_id s, cs_governance_receipt_id s, cs_policy_id s,
               cs_policy_receipt_id s, cs_contract_id s, cs_orchestration_state_id s, cs_session_id s,
               cs_runtime_state_id s, cs_decision_aggregate s])
       (\<lambda>_. rbind (check_state_counters s)
       (\<lambda>_. rbind (check_state_history s)
       (\<lambda>receipts. let s' = s \<lparr> cs_receipt_ids := receipts \<rparr> in
          rbind (check_state_endpoints s')
       (\<lambda>_. rbind (check_state_markers s')
       (\<lambda>_. rbind (check_state_decision s')
       (\<lambda>_. rbind (check_state_seal W s') (\<lambda>_. Inr s')))))))"

section \<open>Sealed states\<close>

definition require_decision_lineage :: "('s \<Rightarrow> pystr \<Rightarrow> bool) \<Rightarrow> 's continuation_state \<Rightarrow> unit res" where
  "require_decision_lineage W s =
     (case cs_lineage s of
        None \<Rightarrow> Inl (ValueErr ''continuation state lacks evaluated decision lineage'')
      | Some seal \<Rightarrow> guard (W seal (lineage_text s)) (ValueErr ''continuation decision lineage does not match state''))"

definition with_native_lineage ::
  "('s \<Rightarrow> pystr \<Rightarrow> bool) \<Rightarrow> 's continuation_state \<Rightarrow> 's \<Rightarrow> 's continuation_state res"
where
  "with_native_lineage W s seal =
     rbind (guard (cs_lineage s = None) (ValueErr ''continuation state already carries decision lineage''))
       (\<lambda>_. rbind (guard (W seal (lineage_text s)) (ValueErr ''continuation decision lineage does not match state''))
       (\<lambda>_. continuation_state_init W (s \<lparr> cs_lineage := Some seal \<rparr>)))"

definition canonical_state :: "('s \<Rightarrow> pystr \<Rightarrow> bool) \<Rightarrow> 's continuation_state \<Rightarrow> json res" where
  "canonical_state W s = rbind (require_decision_lineage W s) (\<lambda>_. Inr (ledger_record s))"

definition continuation_state_id :: "digest \<Rightarrow> ('s \<Rightarrow> pystr \<Rightarrow> bool) \<Rightarrow> 's continuation_state \<Rightarrow> pystr res" where
  "continuation_state_id H W s =
     rbind (canonical_state W s) (\<lambda>j. Inr (domain_id H ''ibae.continuation-state-id.v1'' j))"

definition require_policy ::
  "digest \<Rightarrow> ('s \<Rightarrow> pystr \<Rightarrow> bool) \<Rightarrow> 's continuation_state \<Rightarrow> continuation_policy \<Rightarrow> unit res"
where
  "require_policy H W s p =
     rbind (require_decision_lineage W s)
       (\<lambda>_. rbind (validate_admitted_progress p)
       (\<lambda>_. rbind (continuation_policy_id H p)
       (\<lambda>policy. rbind (guard (policy = cs_policy_id s) (ValueErr ''continuation state policy identity mismatch''))
       (\<lambda>_. rbind (guard (cp_progress_contract_id p = cs_contract_id s)
                 (ValueErr ''continuation state progress contract mismatch''))
       (\<lambda>_. rbind (guard (\<not> cs_granted s > max_leases p)
                 (ValueErr ''continuation state exceeds the policy lease count''))
       (\<lambda>_. rbind (guard (\<not> cs_requests s > cp_max_lease_requests p)
                 (ValueErr ''continuation state exceeds the request ceiling''))
       (\<lambda>_. rbind (guard (\<not> cs_progress_count s > cp_max_lease_requests p + 1)
                 (ValueErr ''continuation state exceeds progress evidence capacity''))
       (\<lambda>_. rbind (guard (\<not> cs_recoveries s > cp_max_strategy_recoveries p)
                 (ValueErr ''continuation state exceeds strategy recovery capacity''))
       (\<lambda>_. guard (\<not> (cs_terminal_receipt s \<noteq> None \<and>
                       (cs_requests s \<noteq> cp_max_lease_requests p \<or> has_pending_grant s)))
                 (ValueErr ''terminal ceiling receipt does not bind exhausted policy state''))))))))))"

definition remaining_capacity ::
  "digest \<Rightarrow> ('s \<Rightarrow> pystr \<Rightarrow> bool) \<Rightarrow> 's continuation_state \<Rightarrow> continuation_policy \<Rightarrow> budget_vector res"
where
  "remaining_capacity H W s p =
     rbind (require_policy H W s p)
       (\<lambda>_. rbind (continuation_capacity p) (\<lambda>capacity. budget_subtract capacity (cs_cumulative s)))"

definition leases_remaining ::
  "digest \<Rightarrow> ('s \<Rightarrow> pystr \<Rightarrow> bool) \<Rightarrow> 's continuation_state \<Rightarrow> continuation_policy \<Rightarrow> int res"
where
  "leases_remaining H W s p = rbind (require_policy H W s p) (\<lambda>_. Inr (max_leases p - cs_granted s))"

section \<open>The compact projection\<close>

definition governance_blocking :: "lease_denial_reason set" where
  "governance_blocking =
     {BlockingGovernanceViolation, UnauthorizedRequester, StaleContinuationState, StaleGovernance,
      StaleOrchestrationState, StaleRuntimeState, StaleProgress, LeaseIndexMismatch}"

definition governance_blocked :: "'s continuation_state \<Rightarrow> bool" where
  "governance_blocked s \<longleftrightarrow> (case cs_last_denial s of None \<Rightarrow> False | Some r \<Rightarrow> r \<in> governance_blocking)"

definition strategy_recovery_available :: "'s continuation_state \<Rightarrow> continuation_policy \<Rightarrow> bool" where
  "strategy_recovery_available s p \<longleftrightarrow>
     cs_strategy_material_id s \<noteq> None \<and> cs_recoveries s < cp_max_strategy_recoveries p"

definition legal_recovery_actions :: "'s continuation_state \<Rightarrow> continuation_policy \<Rightarrow> pystr list" where
  "legal_recovery_actions s p =
     (if has_pending_grant s then [lit ''apply_pending_lease'']
      else if governance_blocked s \<or> cp_max_lease_requests p - cs_requests s = 0 \<or> max_leases p - cs_granted s = 0
      then []
      else case cs_progress_state s of
             Stalled \<Rightarrow>
               (if cp_max_lease_requests p + 1 - cs_progress_count s > 0 then [lit ''provide_objective_progress''] else []) @
               (if strategy_recovery_available s p then [lit ''propose_material_strategy_change''] else [])
           | CycleBlocked \<Rightarrow>
               (if strategy_recovery_available s p then [lit ''propose_cycle_breaking_strategy''] else [])
           | StrategyChangeRejected \<Rightarrow>
               (if strategy_recovery_available s p then [lit ''provide_material_semantic_difference''] else [])
           | _ \<Rightarrow> [])"

definition strategy_change_admissible :: "'s continuation_state \<Rightarrow> continuation_policy \<Rightarrow> bool" where
  "strategy_change_admissible s p \<longleftrightarrow>
     \<not> governance_blocked s \<and> cp_max_lease_requests p - cs_requests s > 0 \<and> max_leases p - cs_granted s > 0 \<and>
     \<not> has_pending_grant s \<and> cs_strategy_material_id s \<noteq> None \<and>
     cs_recoveries s < cp_max_strategy_recoveries p \<and> cs_progress_state s \<notin> {ProgressComplete, LeaseExhausted}"

definition continuation_projection ::
  "digest \<Rightarrow> ('s \<Rightarrow> pystr \<Rightarrow> bool) \<Rightarrow> 's continuation_state \<Rightarrow> continuation_policy \<Rightarrow> json res"
where
  "continuation_projection H W s p =
     rbind (require_policy H W s p)
       (\<lambda>_. rbind (leases_remaining H W s p)
       (\<lambda>slots. rbind (continuation_state_id H W s)
       (\<lambda>sid. rbind (remaining_capacity H W s p)
       (\<lambda>capacity. let left = cp_max_lease_requests p - cs_requests s in
          Inr (JObj
            [(lit ''continuation_policy_id'', JStr (cs_policy_id s)),
             (lit ''progress_contract_id'', JStr (cs_contract_id s)),
             (lit ''continuation_state_id'', JStr sid),
             (lit ''current_progress_classification'', opt_value classification_value (cs_last_classification s)),
             (lit ''current_progress_evidence_id'', opt_str (cs_last_progress_id s)),
             (lit ''last_denial_reason'', opt_value denial_reason_value (cs_last_denial s)),
             (lit ''last_lease_decision'', JStr (cs_last_decision s)),
             (lit ''lease_requests_remaining'', JInt left),
             (lit ''lease_schedule_slots_remaining'', JInt slots),
             (lit ''leases_remaining'', JInt (min left slots)),
             (lit ''leases_used'', JInt (cs_granted s)),
             (lit ''legal_recovery_actions'', str_list (legal_recovery_actions s p)),
             (lit ''material_strategy_change_admissible'', JBool (strategy_change_admissible s p)),
             (lit ''pending_grant_receipt_id'', opt_str (cs_pending_receipt s)),
             (lit ''progress_observations_remaining'', JInt (cp_max_lease_requests p + 1 - cs_progress_count s)),
             (lit ''progress_state'', JStr (progress_state_value (cs_progress_state s))),
             (lit ''remaining_total_continuation_ceiling'', budget_record capacity),
             (lit ''terminal_ceiling_receipt_id'', opt_str (cs_terminal_receipt s))])))))"

end
