(* ===== verification/Lease_Context.thy ===== *)
theory Lease_Context
  imports Lease_State
begin

text \<open>
  How the continuation ledger follows the work: its creation from an admitted policy and a native
  snapshot, the observation of a new context, and the commit of a lease the native runtime applied.
  The operations return the unsealed successor; the seal is put on by the native session.
\<close>

section \<open>Native state that must agree with the ledger\<close>

text \<open>The limits a snapshot reports, against a budget. They are compared with \<open>or\<close>, mutation excepted.\<close>

definition limits_match :: "runtime_limits \<Rightarrow> budget_vector \<Rightarrow> bool" where
  "limits_match l b \<longleftrightarrow>
     rl_max_requests l = request_delta b \<and> rl_max_executions l = execution_delta b \<and>
     rl_max_retries l = retry_delta b \<and> rl_max_history l = history_delta b"

text \<open>The six identities of the authority the native context was opened under.\<close>

definition authority_matches :: "continuation_snapshot \<Rightarrow> 's continuation_state \<Rightarrow> bool" where
  "authority_matches n s \<longleftrightarrow>
     ns_task_id n = cs_task_id s \<and> ns_governance_id n = cs_governance_id s \<and>
     ns_governance_receipt_id n = cs_governance_receipt_id s \<and> ns_policy_id n = cs_policy_id s \<and>
     ns_policy_receipt_id n = cs_policy_receipt_id s \<and> ns_contract_id n = cs_contract_id s"

definition native_context :: "runtime_snapshot \<Rightarrow> continuation_snapshot res" where
  "native_context snap =
     (case rs_continuation snap of
        None \<Rightarrow> Inl (ValueErr ''continuation requires an opt-in native runtime'')
      | Some n \<Rightarrow> Inr n)"

section \<open>Creation\<close>

definition control_state :: "progress_record \<Rightarrow> progress_state" where
  "control_state r =
     (if pr_task_complete r then ProgressComplete
      else if pr_classification r = MeasurableProgress then Progressing
      else Stalled)"

definition check_initial_progress ::
  "digest \<Rightarrow> continuation_policy \<Rightarrow> policy_receipt \<Rightarrow> orchestration_state \<Rightarrow> progress_record option \<Rightarrow> unit res"
where
  "check_initial_progress H p r os progress =
     (case progress of
        None \<Rightarrow> Inr ()
      | Some pr \<Rightarrow>
          guard (pr_task_id pr = cr_task_id r \<and> pr_governance_id pr = cr_governance_id r \<and>
                 contract_id H (pr_contract pr) = cp_progress_contract_id p \<and>
                 pr_current_state_id pr = state_id H os)
            (ValueErr ''initial progress does not bind continuation context''))"

definition check_initial_runtime ::
  "digest \<Rightarrow> continuation_policy \<Rightarrow> policy_receipt \<Rightarrow> runtime_snapshot \<Rightarrow> runtime_snapshot \<Rightarrow> unit res"
where
  "check_initial_runtime H p r live snap =
     rbind (guard (rs_session_id live = rs_session_id snap \<and> rs_state_id live = rs_state_id snap)
             (ValueErr ''initial runtime snapshot is not the live session state''))
       (\<lambda>_. rbind (native_context snap)
       (\<lambda>n. rbind (continuation_policy_id H p)
       (\<lambda>policy. rbind (policy_receipt_id H r)
       (\<lambda>rid. rbind (guard (ns_task_id n = cr_task_id r \<and> ns_governance_id n = cr_governance_id r \<and>
                          ns_governance_receipt_id n = cr_governance_receipt_id r \<and> ns_policy_id n = policy \<and>
                          ns_policy_receipt_id n = rid \<and> ns_contract_id n = cp_progress_contract_id p)
                 (ValueErr ''native continuation context authority binding mismatch''))
       (\<lambda>_. rbind (guard (\<not> (ns_leases_applied n \<noteq> 0 \<or> \<not> list_all (\<lambda>v. v = 0) (budget_values (ns_cumulative_granted n))))
                 (ValueErr ''new continuation state requires zero applied native leases''))
       (\<lambda>_. rbind (guard (ns_total_ceiling n = cp_total_ceiling p)
                 (ValueErr ''native continuation ceiling does not match policy''))
       (\<lambda>_. guard (limits_match (rs_limits snap) (cp_initial_budget p))
                 (ValueErr ''runtime base limits do not match continuation policy''))))))))"

definition initial_ledger ::
  "digest \<Rightarrow> continuation_policy \<Rightarrow> policy_receipt \<Rightarrow> orchestration_state \<Rightarrow> runtime_snapshot \<Rightarrow>
   progress_record option \<Rightarrow> pystr \<Rightarrow> pystr \<Rightarrow> pystr option \<Rightarrow> pystr option \<Rightarrow> pystr \<Rightarrow> 's continuation_state"
where
  "initial_ledger H p r os snap progress policy rid material pid aggregate =
     \<lparr> cs_task_id = cr_task_id r, cs_governance_id = cr_governance_id r,
       cs_governance_receipt_id = cr_governance_receipt_id r, cs_policy_id = policy,
       cs_policy_receipt_id = rid, cs_contract_id = cp_progress_contract_id p,
       cs_orchestration_state_id = state_id H os, cs_session_id = rs_session_id snap,
       cs_runtime_state_id = rs_state_id snap, cs_requests = 0, cs_granted = 0, cs_denied = 0,
       cs_cumulative = budget_zero, cs_tick = 0,
       cs_decision_aggregate = initial_decision_aggregate H (cr_task_id r) (cr_governance_id r) policy,
       cs_receipt_ids = [], cs_recoveries = 0, cs_strategy_material_id = material,
       cs_last_progress_id = pid, cs_progress_count = (if progress = None then 0 else 1),
       cs_progress_aggregate = aggregate, cs_consumed_progress_id = None,
       cs_external_endpoint =
         (case progress of None \<Rightarrow> None | Some pr \<Rightarrow> external_endpoint_id H pr (pr_current_measures pr)),
       cs_consumed_endpoint = None, cs_last_classification = map_option pr_classification progress,
       cs_last_decision = lit ''none'', cs_last_denial = None,
       cs_progress_state = (case progress of None \<Rightarrow> Stalled | Some pr \<Rightarrow> control_state pr),
       cs_terminal_receipt = None, cs_pending_grant = None, cs_pending_receipt = None, cs_lineage = None \<rparr>"

text \<open>\<open>live\<close> is \<open>runtime_session.snapshot\<close> and \<open>seal_initial\<close> the one-shot native seal of the session.\<close>

definition continuation_state_create ::
  "digest \<Rightarrow> (counter_evidence \<Rightarrow> unit res) \<Rightarrow> ('s \<Rightarrow> pystr \<Rightarrow> bool) \<Rightarrow>
   ('s continuation_state \<Rightarrow> orchestration_state \<Rightarrow> progress_record option \<Rightarrow> strategy_material option \<Rightarrow>
    's continuation_state res) \<Rightarrow>
   continuation_policy \<Rightarrow> policy_receipt \<Rightarrow> runtime_snapshot \<Rightarrow> orchestration_state \<Rightarrow> runtime_snapshot \<Rightarrow>
   strategy_material option \<Rightarrow> progress_record option \<Rightarrow> 's continuation_state res"
where
  "continuation_state_create H V W seal_initial p r live os snap strategy progress =
     rbind (continuation_policy_id H p)
       (\<lambda>policy. rbind (guard (cr_policy_id r = policy) (ValueErr ''continuation policy receipt identity mismatch''))
       (\<lambda>_. rbind (guard (cr_contract_id r = cp_progress_contract_id p)
                 (ValueErr ''continuation progress contract receipt mismatch''))
       (\<lambda>_. rbind (check_initial_runtime H p r live snap)
       (\<lambda>_. rbind (check_initial_progress H p r os progress)
       (\<lambda>_. rbind (policy_receipt_id H r)
       (\<lambda>rid. rbind (case strategy of None \<Rightarrow> Inr None | Some m \<Rightarrow> rbind (strategy_material_id H m) (\<lambda>i. Inr (Some i)))
       (\<lambda>material. rbind (case progress of None \<Rightarrow> Inr None | Some pr \<Rightarrow> rbind (progress_id H V pr) (\<lambda>i. Inr (Some i)))
       (\<lambda>pid. rbind (progress_aggregate H V (case progress of None \<Rightarrow> [] | Some pr \<Rightarrow> [pr]))
       (\<lambda>aggregate. rbind (continuation_state_init W
          (initial_ledger H p r os snap progress policy rid material pid aggregate))
       (\<lambda>initial. seal_initial initial os progress strategy))))))))))"

section \<open>Observation\<close>

definition check_native_observation ::
  "'s continuation_state \<Rightarrow> continuation_policy \<Rightarrow> runtime_snapshot \<Rightarrow> unit res"
where
  "check_native_observation s p snap =
     rbind (guard (rs_session_id snap = cs_session_id s) (ValueErr ''runtime session identity cannot change''))
       (\<lambda>_. rbind (native_context snap)
       (\<lambda>n. rbind (guard (authority_matches n s \<and> ns_leases_applied n = cs_granted s \<and>
                          ns_cumulative_granted n = cs_cumulative s \<and> ns_total_ceiling n = cp_total_ceiling p)
                 (ValueErr ''native continuation state does not match governance state''))
       (\<lambda>_. rbind (budget_add (cp_initial_budget p) (cs_cumulative s))
       (\<lambda>expected. guard (limits_match (rs_limits snap) expected)
                 (ValueErr ''runtime limits do not match applied continuation grants'')))))"

definition check_observed_progress ::
  "digest \<Rightarrow> 's continuation_state \<Rightarrow> continuation_policy \<Rightarrow> orchestration_state \<Rightarrow> progress_record option \<Rightarrow> unit res"
where
  "check_observed_progress H s p os progress =
     (case progress of
        Some pr \<Rightarrow>
          rbind (guard (pr_task_id pr = cs_task_id s \<and> pr_governance_id pr = cs_governance_id s \<and>
                        contract_id H (pr_contract pr) = cs_contract_id s \<and>
                        pr_prior_state_id pr = cs_orchestration_state_id s \<and>
                        pr_current_state_id pr = state_id H os)
                  (ValueErr ''progress does not bind the observed context''))
            (\<lambda>_. rbind (guard (\<not> (cs_external_endpoint s \<noteq> None \<and>
                               external_endpoint_id H pr (pr_prior_measures pr) \<noteq> cs_external_endpoint s))
                      (ValueErr ''external progress does not continue from the live endpoint''))
            (\<lambda>_. guard (\<not> cs_progress_count s \<ge> cp_max_lease_requests p + 1)
                      (ValueErr ''progress history exceeds the bounded evidence capacity'')))
      | None \<Rightarrow>
          guard (state_id H os = cs_orchestration_state_id s)
            (ValueErr ''orchestration state cannot advance without exact progress lineage''))"

definition check_observed_strategy ::
  "digest \<Rightarrow> 's continuation_state \<Rightarrow> strategy_material option \<Rightarrow> unit res"
where
  "check_observed_strategy H s strategy =
     (case strategy of
        None \<Rightarrow> Inr ()
      | Some m \<Rightarrow> rbind (strategy_material_id H m)
          (\<lambda>i. guard (cs_strategy_material_id s = Some i)
                 (ValueErr ''strategy lineage cannot change through context observation'')))"

definition apply_progress ::
  "digest \<Rightarrow> (counter_evidence \<Rightarrow> unit res) \<Rightarrow> 's continuation_state \<Rightarrow> progress_record option \<Rightarrow>
   's continuation_state res"
where
  "apply_progress H V s progress =
     (case progress of
        None \<Rightarrow> Inr s
      | Some pr \<Rightarrow>
          rbind (progress_id H V pr)
            (\<lambda>i. rbind (advance_progress_aggregate H (cs_progress_aggregate s) i (cs_progress_count s))
            (\<lambda>aggregate. Inr (s \<lparr> cs_last_progress_id := Some i, cs_progress_count := cs_progress_count s + 1,
                                 cs_progress_aggregate := aggregate,
                                 cs_external_endpoint := external_endpoint_id H pr (pr_current_measures pr),
                                 cs_last_classification := Some (pr_classification pr),
                                 cs_progress_state := control_state pr \<rparr>))))"

definition observe_context ::
  "digest \<Rightarrow> (counter_evidence \<Rightarrow> unit res) \<Rightarrow> ('s \<Rightarrow> pystr \<Rightarrow> bool) \<Rightarrow> 's continuation_state \<Rightarrow>
   continuation_policy \<Rightarrow> orchestration_state \<Rightarrow> runtime_snapshot \<Rightarrow> progress_record option \<Rightarrow>
   strategy_material option \<Rightarrow> 's continuation_state res"
where
  "observe_context H V W s p os snap progress strategy =
     rbind (case progress of
              None \<Rightarrow> Inr ()
            | Some pr \<Rightarrow> rbind (progress_record_validate pr) (\<lambda>_. validate_bound_claims H V pr))
       (\<lambda>_. rbind (require_policy H W s p)
       (\<lambda>_. rbind (guard (\<not> has_pending_grant s)
                 (ValueErr ''a pending lease must be applied before context advances''))
       (\<lambda>_. rbind (check_native_observation s p snap)
       (\<lambda>_. rbind (check_observed_progress H s p os progress)
       (\<lambda>_. rbind (check_observed_strategy H s strategy)
       (\<lambda>_. rbind (apply_progress H V s progress)
       (\<lambda>t. continuation_state_init W
              (t \<lparr> cs_lineage := None, cs_orchestration_state_id := state_id H os,
                  cs_runtime_state_id := rs_state_id snap \<rparr>))))))))"

end
