(* ===== verification/Lease_Decision.thy ===== *)
theory Lease_Decision
  imports Lease_Context
begin

text \<open>
  The records of a lease decision in \<open>src/ibae/continuation.py\<close>: requests with their authority, and the
  receipts of both outcomes, grants and denials. The seals of requests and grants are opaque like those
  of states.
\<close>

section \<open>Requests\<close>

datatype continuation_requester =
    SupervisorRequester | WorkerRequester | OrchestratorRequester | RuntimeRequester | ToolRequester

fun requester_value :: "continuation_requester \<Rightarrow> pystr" where
  "requester_value SupervisorRequester = lit ''openai_supervisor''"
| "requester_value WorkerRequester = lit ''local_candidate_worker''"
| "requester_value OrchestratorRequester = lit ''deterministic_orchestrator''"
| "requester_value RuntimeRequester = lit ''rust_execution_runtime''"
| "requester_value ToolRequester = lit ''tool_backend''"

text \<open>\<open>ContinuationRequester.normalize\<close> of a governance principal.\<close>

fun requester_of_principal :: "principal_authority \<Rightarrow> continuation_requester" where
  "requester_of_principal OpenAISupervisor = SupervisorRequester"
| "requester_of_principal LocalCandidateWorker = WorkerRequester"
| "requester_of_principal DeterministicOrchestrator = OrchestratorRequester"
| "requester_of_principal RustExecutionRuntime = RuntimeRequester"

record 'r continuation_request =
  cq_task_id :: pystr
  cq_governance_id :: pystr
  cq_policy_id :: pystr
  cq_state_id :: pystr
  cq_orchestration_state_id :: pystr
  cq_session_id :: pystr
  cq_runtime_state_id :: pystr
  cq_progress_id :: pystr
  cq_lease_index :: int
  cq_resources :: budget_vector
  cq_requester :: continuation_requester
  cq_strategy_change_id :: "pystr option"
  cq_seal :: "'r option"

definition request_validate :: "'r continuation_request \<Rightarrow> unit res" where
  "request_validate q =
     rbind (for_each require_fingerprint
              [cq_task_id q, cq_governance_id q, cq_policy_id q, cq_state_id q, cq_orchestration_state_id q,
               cq_session_id q, cq_runtime_state_id q, cq_progress_id q])
       (\<lambda>_. rbind (require_u64 (cq_lease_index q))
       (\<lambda>_. rbind (guard (cq_lease_index q \<noteq> 0) (ValueErr ''continuation request lease index must be positive''))
       (\<lambda>_. rbind (for_each require_u64 (budget_values (cq_resources q)))
       (\<lambda>_. require_optional_fingerprint (cq_strategy_change_id q)))))"

definition request_record :: "'r continuation_request \<Rightarrow> json res" where
  "request_record q =
     rbind (request_validate q)
       (\<lambda>_. Inr (JObj
          [(lit ''continuation_policy_id'', JStr (cq_policy_id q)),
           (lit ''continuation_state_id'', JStr (cq_state_id q)),
           (lit ''governance_id'', JStr (cq_governance_id q)),
           (lit ''lease_index'', JInt (cq_lease_index q)),
           (lit ''orchestration_state_id'', JStr (cq_orchestration_state_id q)),
           (lit ''progress_id'', JStr (cq_progress_id q)),
           (lit ''protocol_version'', JStr continuation_protocol_version),
           (lit ''requested_resources'', budget_record (cq_resources q)),
           (lit ''requester'', JStr (requester_value (cq_requester q))),
           (lit ''runtime_session_id'', JStr (cq_session_id q)),
           (lit ''runtime_state_id'', JStr (cq_runtime_state_id q)),
           (lit ''strategy_change_id'', opt_str (cq_strategy_change_id q)),
           (lit ''task_id'', JStr (cq_task_id q))]))"

definition request_id :: "digest \<Rightarrow> 'r continuation_request \<Rightarrow> pystr res" where
  "request_id H q =
     rbind (request_record q) (\<lambda>j. Inr (domain_id H ''ibae.continuation-request-id.v1'' j))"

definition request_text :: "'r continuation_request \<Rightarrow> pystr res" where
  "request_text q = rbind (request_record q) (\<lambda>j. Inr (render j))"

definition request_init :: "('r \<Rightarrow> pystr \<Rightarrow> bool) \<Rightarrow> 'r continuation_request \<Rightarrow> 'r continuation_request res" where
  "request_init R q =
     rbind (for_each require_fingerprint
              [cq_task_id q, cq_governance_id q, cq_policy_id q, cq_state_id q, cq_orchestration_state_id q,
               cq_session_id q, cq_runtime_state_id q, cq_progress_id q])
       (\<lambda>_. rbind (require_u64 (cq_lease_index q))
       (\<lambda>_. rbind (guard (cq_lease_index q \<noteq> 0) (ValueErr ''continuation request lease index must be positive''))
       (\<lambda>_. rbind (require_optional_fingerprint (cq_strategy_change_id q))
       (\<lambda>_. rbind (case cq_seal q of
                     None \<Rightarrow> Inr ()
                   | Some seal \<Rightarrow>
                       rbind (guard (cq_requester q = SupervisorRequester)
                               (ValueErr ''only the supervisor may carry request authority''))
                         (\<lambda>_. rbind (request_text q)
                         (\<lambda>text. guard (R seal text) (ValueErr ''continuation request authority does not match''))))
       (\<lambda>_. rbind (request_validate q) (\<lambda>_. Inr q))))))"

definition request_authority ::
  "('r \<Rightarrow> pystr \<Rightarrow> bool) \<Rightarrow> 'r continuation_request \<Rightarrow> 'r option res"
where
  "request_authority R q =
     (case cq_seal q of
        None \<Rightarrow> Inr None
      | Some seal \<Rightarrow>
          rbind (request_text q)
            (\<lambda>text. rbind (guard (R seal text) (ValueErr ''continuation request lacks exact native authority''))
            (\<lambda>_. Inr (Some seal))))"

text \<open>\<open>authorize\<close> is \<open>requester_authority.authorize_request\<close> of the native supervisor capability.\<close>

definition with_request_authority ::
  "('r \<Rightarrow> pystr \<Rightarrow> bool) \<Rightarrow> (pystr \<Rightarrow> 'r res) \<Rightarrow> 'r continuation_request \<Rightarrow> 'r continuation_request res"
where
  "with_request_authority R authorize q =
     rbind (guard (cq_requester q = SupervisorRequester)
             (ValueErr ''non-supervisor requesters cannot use supervisor authority''))
       (\<lambda>_. rbind (request_text q)
       (\<lambda>text. rbind (authorize text)
       (\<lambda>seal. request_init R (q \<lparr> cq_seal := Some seal \<rparr>))))"

definition request_from_state ::
  "digest \<Rightarrow> (counter_evidence \<Rightarrow> unit res) \<Rightarrow> ('s \<Rightarrow> pystr \<Rightarrow> bool) \<Rightarrow> ('r \<Rightarrow> pystr \<Rightarrow> bool) \<Rightarrow>
   's continuation_state \<Rightarrow> progress_record \<Rightarrow> budget_vector \<Rightarrow> continuation_requester \<Rightarrow>
   (pystr \<Rightarrow> 'r res) option \<Rightarrow> strategy_change_receipt option \<Rightarrow> 'r continuation_request res"
where
  "request_from_state H V W R s pr resources requester authority change =
     rbind (guard (pr_task_id pr = cs_task_id s \<and> pr_governance_id pr = cs_governance_id s \<and>
                   contract_id H (pr_contract pr) = cs_contract_id s \<and>
                   pr_current_state_id pr = cs_orchestration_state_id s)
             (ValueErr ''progress does not match the live continuation ledger''))
       (\<lambda>_. rbind (progress_id H V pr)
       (\<lambda>pid. rbind (guard (cs_last_progress_id s = Some pid)
                 (ValueErr ''progress does not match the live continuation ledger''))
       (\<lambda>_. rbind (continuation_state_id H W s)
       (\<lambda>sid. rbind (case change of None \<Rightarrow> Inr None | Some c \<Rightarrow> rbind (strategy_change_id H c) (\<lambda>i. Inr (Some i)))
       (\<lambda>cid. rbind (request_init R
          \<lparr> cq_task_id = cs_task_id s, cq_governance_id = cs_governance_id s, cq_policy_id = cs_policy_id s,
            cq_state_id = sid, cq_orchestration_state_id = cs_orchestration_state_id s,
            cq_session_id = cs_session_id s, cq_runtime_state_id = cs_runtime_state_id s, cq_progress_id = pid,
            cq_lease_index = cs_granted s + 1, cq_resources = resources, cq_requester = requester,
            cq_strategy_change_id = cid, cq_seal = None \<rparr>)
       (\<lambda>q. case authority of None \<Rightarrow> Inr q | Some authorize \<Rightarrow> with_request_authority R authorize q))))))"

section \<open>Grants\<close>

record 'g lease_grant =
  lg_task_id :: pystr
  lg_governance_id :: pystr
  lg_governance_receipt_id :: pystr
  lg_policy_id :: pystr
  lg_policy_receipt_id :: pystr
  lg_request_id :: pystr
  lg_prior_state_id :: pystr
  lg_orchestration_state_id :: pystr
  lg_session_id :: pystr
  lg_prior_runtime_state_id :: pystr
  lg_progress_id :: pystr
  lg_strategy_change_id :: "pystr option"
  lg_lease_index :: int
  lg_granted :: budget_vector
  lg_cumulative :: budget_vector
  lg_total_ceiling :: budget_vector
  lg_tick :: int
  lg_seal :: "'g option"

definition grant_identities :: "'g lease_grant \<Rightarrow> pystr list" where
  "grant_identities g =
     [lg_task_id g, lg_governance_id g, lg_governance_receipt_id g, lg_policy_id g, lg_policy_receipt_id g,
      lg_request_id g, lg_prior_state_id g, lg_orchestration_state_id g, lg_session_id g,
      lg_prior_runtime_state_id g, lg_progress_id g]"

definition grant_validate :: "'g lease_grant \<Rightarrow> unit res" where
  "grant_validate g =
     rbind (for_each require_fingerprint (grant_identities g))
       (\<lambda>_. rbind (require_optional_fingerprint (lg_strategy_change_id g))
       (\<lambda>_. rbind (for_each require_u64 [lg_lease_index g, lg_tick g])
       (\<lambda>_. rbind (for_each (\<lambda>b. for_each require_u64 (budget_values b))
                 [lg_granted g, lg_cumulative g, lg_total_ceiling g])
       (\<lambda>_. rbind (guard (lg_lease_index g \<noteq> 0) (ValueErr ''lease index must be positive''))
       (\<lambda>_. rbind (guard (\<not> (budget_is_zero (lg_granted g) \<or> mutation_delta (lg_granted g) \<noteq> 0))
                 (ValueErr ''lease grant must carry nonempty mutation-free resources''))
       (\<lambda>_. guard (budget_within (lg_cumulative g) (lg_total_ceiling g))
                 (ValueErr ''cumulative lease resources exceed the total ceiling'')))))))"

definition grant_body :: "'g lease_grant \<Rightarrow> (pystr \<times> json) list res" where
  "grant_body g =
     rbind (grant_validate g)
       (\<lambda>_. Inr
          [(lit ''authority_layer'', JStr (lit ''governance'')),
           (lit ''continuation_policy_id'', JStr (lg_policy_id g)),
           (lit ''continuation_policy_receipt_id'', JStr (lg_policy_receipt_id g)),
           (lit ''continuation_request_id'', JStr (lg_request_id g)),
           (lit ''cumulative_granted'', budget_record (lg_cumulative g)),
           (lit ''decision_logical_tick'', JInt (lg_tick g)),
           (lit ''governance_id'', JStr (lg_governance_id g)),
           (lit ''governance_receipt_id'', JStr (lg_governance_receipt_id g)),
           (lit ''granted_resources'', budget_record (lg_granted g)),
           (lit ''lease_index'', JInt (lg_lease_index g)),
           (lit ''orchestration_state_id'', JStr (lg_orchestration_state_id g)),
           (lit ''prior_continuation_state_id'', JStr (lg_prior_state_id g)),
           (lit ''prior_runtime_state_id'', JStr (lg_prior_runtime_state_id g)),
           (lit ''progress_id'', JStr (lg_progress_id g)),
           (lit ''protocol_version'', JStr (lit ''IBAE-CONTINUATION-LEASE-GRANT-V1'')),
           (lit ''runtime_session_id'', JStr (lg_session_id g)),
           (lit ''status'', JStr (lit ''granted'')),
           (lit ''strategy_change_id'', opt_str (lg_strategy_change_id g)),
           (lit ''task_id'', JStr (lg_task_id g)),
           (lit ''total_ceiling'', budget_record (lg_total_ceiling g))])"

definition lease_grant_id :: "digest \<Rightarrow> 'g lease_grant \<Rightarrow> pystr res" where
  "lease_grant_id H g =
     rbind (grant_body g) (\<lambda>ms. Inr (domain_id H ''ibae.continuation-lease-grant-id.v1'' (JObj ms)))"

definition grant_record :: "digest \<Rightarrow> 'g lease_grant \<Rightarrow> json res" where
  "grant_record H g =
     rbind (grant_body g)
       (\<lambda>ms. rbind (lease_grant_id H g)
       (\<lambda>i. Inr (receipted H ''ibae.continuation-lease-grant-receipt-id.v1'' (ms @ [(lit ''lease_grant_id'', JStr i)]))))"

definition grant_receipt_id :: "digest \<Rightarrow> 'g lease_grant \<Rightarrow> pystr res" where
  "grant_receipt_id H g = rbind (grant_record H g) receipt_id_member"

definition grant_text :: "digest \<Rightarrow> 'g lease_grant \<Rightarrow> pystr res" where
  "grant_text H g = rbind (grant_record H g) (\<lambda>j. Inr (render j))"

definition check_grant_seal :: "digest \<Rightarrow> ('g \<Rightarrow> pystr \<Rightarrow> bool) \<Rightarrow> 'g lease_grant \<Rightarrow> unit res" where
  "check_grant_seal H G g =
     (case lg_seal g of
        None \<Rightarrow> Inr ()
      | Some seal \<Rightarrow> rbind (grant_text H g)
          (\<lambda>text. guard (G seal text) (ValueErr ''native lease grant seal does not match its receipt'')))"

definition lease_grant_init ::
  "digest \<Rightarrow> ('g \<Rightarrow> pystr \<Rightarrow> bool) \<Rightarrow> 'g lease_grant \<Rightarrow> 'g lease_grant res"
where
  "lease_grant_init H G g =
     rbind (for_each require_fingerprint (grant_identities g))
       (\<lambda>_. rbind (require_optional_fingerprint (lg_strategy_change_id g))
       (\<lambda>_. rbind (require_u64 (lg_lease_index g))
       (\<lambda>_. rbind (guard (lg_lease_index g \<noteq> 0) (ValueErr ''lease index must be positive''))
       (\<lambda>_. rbind (require_u64 (lg_tick g))
       (\<lambda>_. rbind (guard (\<not> budget_is_zero (lg_granted g))
                 (ValueErr ''a lease grant cannot carry an empty resource vector''))
       (\<lambda>_. rbind (guard (mutation_delta (lg_granted g) = 0)
                 (ValueErr ''v0.5 lease grants cannot authorize mutations''))
       (\<lambda>_. rbind (guard (budget_within (lg_cumulative g) (lg_total_ceiling g))
                 (ValueErr ''cumulative lease resources exceed the total ceiling''))
       (\<lambda>_. rbind (check_grant_seal H G g) (\<lambda>_. Inr g)))))))))"

definition governance_bound :: "digest \<Rightarrow> ('g \<Rightarrow> pystr \<Rightarrow> bool) \<Rightarrow> 'g lease_grant \<Rightarrow> bool res" where
  "governance_bound H G g =
     (case lg_seal g of None \<Rightarrow> Inr False | Some seal \<Rightarrow> rbind (grant_text H g) (\<lambda>text. Inr (G seal text)))"

definition with_native_seal ::
  "digest \<Rightarrow> ('g \<Rightarrow> pystr \<Rightarrow> bool) \<Rightarrow> 'g lease_grant \<Rightarrow> 'g \<Rightarrow> 'g lease_grant res"
where
  "with_native_seal H G g seal =
     rbind (guard (lg_seal g = None) (ValueErr ''lease grant is already source-bound''))
       (\<lambda>_. rbind (grant_text H g)
       (\<lambda>text. rbind (guard (G seal text) (ValueErr ''lease grant native authority does not match''))
       (\<lambda>_. lease_grant_init H G (g \<lparr> lg_seal := Some seal \<rparr>))))"

section \<open>Denials\<close>

record lease_denial =
  ld_task_id :: pystr
  ld_governance_id :: pystr
  ld_policy_id :: pystr
  ld_request_id :: pystr
  ld_prior_state_id :: pystr
  ld_orchestration_state_id :: pystr
  ld_runtime_state_id :: pystr
  ld_progress_id :: pystr
  ld_strategy_change_id :: "pystr option"
  ld_lease_index :: int
  ld_reason :: lease_denial_reason
  ld_tick :: int
  ld_blocking :: "pystr option"

definition lease_denial_init :: "lease_denial \<Rightarrow> lease_denial res" where
  "lease_denial_init d =
     rbind (for_each require_fingerprint
              [ld_task_id d, ld_governance_id d, ld_policy_id d, ld_request_id d, ld_prior_state_id d,
               ld_orchestration_state_id d, ld_runtime_state_id d, ld_progress_id d])
       (\<lambda>_. rbind (for_each require_optional_fingerprint [ld_strategy_change_id d, ld_blocking d])
       (\<lambda>_. rbind (for_each require_u64 [ld_lease_index d, ld_tick d])
       (\<lambda>_. Inr d)))"

definition denial_body :: "lease_denial \<Rightarrow> (pystr \<times> json) list" where
  "denial_body d =
     [(lit ''authority_layer'', JStr (lit ''governance'')),
      (lit ''blocking_evidence_id'', opt_str (ld_blocking d)),
      (lit ''continuation_policy_id'', JStr (ld_policy_id d)),
      (lit ''continuation_request_id'', JStr (ld_request_id d)),
      (lit ''decision_logical_tick'', JInt (ld_tick d)),
      (lit ''denial_reason'', JStr (denial_reason_value (ld_reason d))),
      (lit ''governance_id'', JStr (ld_governance_id d)),
      (lit ''lease_index'', JInt (ld_lease_index d)),
      (lit ''orchestration_state_id'', JStr (ld_orchestration_state_id d)),
      (lit ''prior_continuation_state_id'', JStr (ld_prior_state_id d)),
      (lit ''progress_id'', JStr (ld_progress_id d)),
      (lit ''protocol_version'', JStr (lit ''IBAE-CONTINUATION-LEASE-DENY-V1'')),
      (lit ''runtime_state_id'', JStr (ld_runtime_state_id d)),
      (lit ''status'', JStr (lit ''denied'')),
      (lit ''strategy_change_id'', opt_str (ld_strategy_change_id d)),
      (lit ''task_id'', JStr (ld_task_id d))]"

definition lease_denial_id :: "digest \<Rightarrow> lease_denial \<Rightarrow> pystr" where
  "lease_denial_id H d = domain_id H ''ibae.continuation-lease-denial-id.v1'' (JObj (denial_body d))"

definition denial_record :: "digest \<Rightarrow> lease_denial \<Rightarrow> json" where
  "denial_record H d =
     receipted H ''ibae.continuation-lease-deny-receipt-id.v1''
       (denial_body d @ [(lit ''lease_denial_id'', JStr (lease_denial_id H d))])"

definition denial_receipt_id :: "digest \<Rightarrow> lease_denial \<Rightarrow> pystr res" where
  "denial_receipt_id H d = receipt_id_member (denial_record H d)"

end
