(* ===== verification/Lease_Evaluation.thy ===== *)
theory Lease_Evaluation
  imports Lease_Decision
begin

text \<open>
  \<open>_evaluate_continuation\<close> of \<open>src/ibae/continuation.py\<close>: which of the ordered denials applies, the
  successor state of a denial and of a grant, the public entry point for requests with and without
  native authority, and the commit of an applied grant.
\<close>

section \<open>Denied requests\<close>

definition denial_state :: "lease_denial_reason \<Rightarrow> progress_state" where
  "denial_state reason =
     (if reason = TaskAlreadyComplete then ProgressComplete
      else if reason \<in> {LeaseCeilingReached, LeaseRequestLimit} then LeaseExhausted
      else if reason \<in> {TerminalCycle, StrategyChangeCycleEquivalent} then CycleBlocked
      else if reason = StrategyChangeNotMaterial then StrategyChangeRejected
      else Stalled)"

definition record_denial ::
  "digest \<Rightarrow> ('s \<Rightarrow> pystr \<Rightarrow> bool) \<Rightarrow> 's continuation_state \<Rightarrow> continuation_policy \<Rightarrow> lease_denial \<Rightarrow>
   's continuation_state res"
where
  "record_denial H W s p d =
     rbind (denial_receipt_id H d)
       (\<lambda>i. rbind (advance_decision_aggregate H (cs_decision_aggregate s) i (cs_requests s))
       (\<lambda>aggregate. rbind (continuation_state_init W
          (s \<lparr> cs_lineage := None, cs_requests := cs_requests s + 1, cs_denied := cs_denied s + 1,
              cs_tick := ld_tick d, cs_decision_aggregate := aggregate,
              cs_receipt_ids := cs_receipt_ids s @ [i], cs_last_decision := lit ''denied'',
              cs_last_denial := Some (ld_reason d), cs_progress_state := denial_state (ld_reason d) \<rparr>))
       (\<lambda>t. rbind (guard (\<not> cs_requests t > cp_max_lease_requests p)
                 (OtherErr ''AssertionError: continuation request accounting exceeded policy''))
       (\<lambda>_. Inr t))))"

definition deny_continuation ::
  "digest \<Rightarrow> (counter_evidence \<Rightarrow> unit res) \<Rightarrow> ('s \<Rightarrow> pystr \<Rightarrow> bool) \<Rightarrow> 's continuation_state \<Rightarrow>
   'r continuation_request \<Rightarrow> progress_record \<Rightarrow> lease_denial_reason \<Rightarrow> continuation_policy \<Rightarrow>
   pystr option \<Rightarrow> bool \<Rightarrow> ('s continuation_state \<times> lease_denial) res"
where
  "deny_continuation H V W s q pr reason p blocking recorded =
     rbind (require_optional_fingerprint blocking)
       (\<lambda>_. rbind (request_id H q)
       (\<lambda>rid. rbind (continuation_state_id H W s)
       (\<lambda>sid. rbind (progress_id H V pr)
       (\<lambda>pid. rbind (lease_denial_init
          \<lparr> ld_task_id = cs_task_id s, ld_governance_id = cs_governance_id s, ld_policy_id = cs_policy_id s,
            ld_request_id = rid, ld_prior_state_id = sid,
            ld_orchestration_state_id = cs_orchestration_state_id s,
            ld_runtime_state_id = cs_runtime_state_id s, ld_progress_id = pid,
            ld_strategy_change_id = cq_strategy_change_id q, ld_lease_index = cq_lease_index q,
            ld_reason = reason, ld_tick = cs_tick s + (if recorded then 1 else 0), ld_blocking = blocking \<rparr>)
       (\<lambda>d. if recorded then rbind (record_denial H W s p d) (\<lambda>t. Inr (t, d)) else Inr (s, d))))))"

section \<open>The order of the denials\<close>

text \<open>
  The identities the comparisons use. They are derived once, after the checks of the inputs that
  each derivation repeats: of the state, the progress record and its contract, the supplied and
  the live cycle evidence and the strategy change.
\<close>

record lease_ids =
  li_state :: pystr
  li_progress :: pystr
  li_contract :: pystr
  li_cycle :: "pystr option"
  li_live :: "pystr option"
  li_change :: "pystr option"

definition entry_denial ::
  "bool \<Rightarrow> 's continuation_state \<Rightarrow> 'r continuation_request \<Rightarrow> continuation_policy \<Rightarrow> progress_record \<Rightarrow>
   runtime_snapshot \<Rightarrow> pystr option \<Rightarrow> lease_ids \<Rightarrow> lease_denial_reason option res"
where
  "entry_denial authorized s q p pr live blocking ids =
     (if cq_requester q \<noteq> SupervisorRequester \<or> \<not> authorized then Inr (Some UnauthorizedRequester)
      else if cq_state_id q \<noteq> li_state ids then Inr (Some StaleContinuationState)
      else if cq_task_id q \<noteq> cs_task_id s \<or> cq_governance_id q \<noteq> cs_governance_id s \<or> cq_policy_id q \<noteq> cs_policy_id s
      then Inr (Some StaleGovernance)
      else if cq_orchestration_state_id q \<noteq> cs_orchestration_state_id s then Inr (Some StaleOrchestrationState)
      else if cq_session_id q \<noteq> cs_session_id s \<or> cq_runtime_state_id q \<noteq> cs_runtime_state_id s \<or>
              rs_session_id live \<noteq> cs_session_id s \<or> rs_state_id live \<noteq> cs_runtime_state_id s
      then Inr (Some StaleRuntimeState)
      else if has_pending_grant s then Inr (Some PendingLeaseApplication)
      else if pr_task_id pr \<noteq> cs_task_id s \<or> pr_governance_id pr \<noteq> cs_governance_id s \<or>
              li_contract ids \<noteq> cs_contract_id s \<or> cs_last_progress_id s \<noteq> Some (li_progress ids) \<or>
              pr_current_state_id pr \<noteq> cs_orchestration_state_id s \<or> cq_progress_id q \<noteq> li_progress ids
      then Inr (Some StaleProgress)
      else if pr_task_complete pr then Inr (Some TaskAlreadyComplete)
      else if blocking \<noteq> None then Inr (Some BlockingGovernanceViolation)
      else if cs_granted s \<ge> max_leases p then Inr (Some LeaseCeilingReached)
      else if cs_requests s \<ge> cp_max_lease_requests p then Inr (Some LeaseRequestLimit)
      else if cq_lease_index q \<noteq> cs_granted s + 1 then Inr (Some LeaseIndexMismatch)
      else rbind (continuation_capacity p) (\<lambda>capacity. Inr
             (if \<not> budget_within (cs_cumulative s) capacity then Some LeaseCeilingReached
              else if li_cycle ids \<noteq> None \<and> li_cycle ids \<noteq> li_live ids then Some StaleRuntimeState
              else None)))"

text \<open>\<open>Inl\<close> a denial, or \<open>Inr\<close> whether an admitted strategy change supports the request.\<close>

definition strategy_verdict ::
  "'s continuation_state \<Rightarrow> 'r continuation_request \<Rightarrow> strategy_change_receipt option \<Rightarrow> lease_ids \<Rightarrow>
   lease_denial_reason + bool"
where
  "strategy_verdict s q change ids =
     (case cq_strategy_change_id q of
        None \<Rightarrow> (if change \<noteq> None then Inl StrategyChangeNotMaterial else Inr False)
      | Some requested \<Rightarrow>
          (case change of
             None \<Rightarrow> Inl StrategyChangeNotMaterial
           | Some c \<Rightarrow>
               if li_change ids \<noteq> Some requested \<or> sc_task_id c \<noteq> cs_task_id s \<or>
                  sc_governance_id c \<noteq> cs_governance_id s \<or> sc_state_id c \<noteq> cs_orchestration_state_id s
               then Inl StrategyChangeNotMaterial
               else if cs_strategy_material_id s \<noteq> Some (sc_prior_material_id c) then Inl StrategyChangeNotMaterial
               else if sc_cycle_evidence_id c \<noteq> li_live ids then Inl StrategyChangeCycleEquivalent
               else if sc_status c = ChangeRejected
               then Inl (if sc_reason c = CycleEquivalent then StrategyChangeCycleEquivalent
                         else StrategyChangeNotMaterial)
               else Inr True))"

definition progress_admitted :: "'s continuation_state \<Rightarrow> progress_record \<Rightarrow> lease_ids \<Rightarrow> bool" where
  "progress_admitted s pr ids \<longleftrightarrow>
     pr_classification pr = MeasurableProgress \<and> cs_consumed_progress_id s \<noteq> Some (li_progress ids)"

definition progress_denial ::
  "'s continuation_state \<Rightarrow> continuation_policy \<Rightarrow> progress_record \<Rightarrow> lease_ids \<Rightarrow> bool \<Rightarrow> lease_denial_reason option"
where
  "progress_denial s p pr ids strategy_admitted =
     (if li_live ids \<noteq> None \<and> \<not> strategy_admitted then Some TerminalCycle
      else if \<not> progress_admitted s pr ids \<and> \<not> strategy_admitted then Some NoMeasurableProgress
      else if strategy_admitted \<and> cs_recoveries s \<ge> cp_max_strategy_recoveries p then Some StrategyRecoveryExhausted
      else None)"

definition amount_denial ::
  "'s continuation_state \<Rightarrow> 'r continuation_request \<Rightarrow> continuation_policy \<Rightarrow> lease_denial_reason option"
where
  "amount_denial s q p =
     (if budget_is_zero (cq_resources q) then Some EmptyResourceVector
      else if mutation_delta (cq_resources q) \<noteq> 0 then Some UnsupportedResource
      else if \<not> budget_within (cq_resources q) (cp_lease_schedule p ! nat (cs_granted s))
      then Some AmountExceedsSchedule
      else None)"

definition next_cumulative ::
  "'s continuation_state \<Rightarrow> 'r continuation_request \<Rightarrow> continuation_policy \<Rightarrow>
   (lease_denial_reason + budget_vector) res"
where
  "next_cumulative s q p =
     (case budget_add (cs_cumulative s) (cq_resources q) of
        Inl e \<Rightarrow> (if e = OtherErr ''OverflowError: overflow'' then Inr (Inl AmountExceedsCeiling) else Inl e)
      | Inr granted_sum \<Rightarrow> rbind (continuation_capacity p) (\<lambda>capacity.
          Inr (if \<not> budget_within granted_sum capacity then Inl AmountExceedsCeiling else Inr granted_sum)))"

text \<open>The denial, or the next cumulative grant with whether a strategy change was admitted.\<close>

definition lease_verdict ::
  "bool \<Rightarrow> 's continuation_state \<Rightarrow> 'r continuation_request \<Rightarrow> continuation_policy \<Rightarrow> progress_record \<Rightarrow>
   strategy_change_receipt option \<Rightarrow> runtime_snapshot \<Rightarrow> pystr option \<Rightarrow> lease_ids \<Rightarrow>
   (lease_denial_reason + budget_vector \<times> bool) res"
where
  "lease_verdict authorized s q p pr change live blocking ids =
     rbind (entry_denial authorized s q p pr live blocking ids) (\<lambda>entry.
       case entry of Some reason \<Rightarrow> Inr (Inl reason)
       | None \<Rightarrow>
         (case strategy_verdict s q change ids of Inl reason \<Rightarrow> Inr (Inl reason)
          | Inr admitted \<Rightarrow>
            (case progress_denial s p pr ids admitted of Some reason \<Rightarrow> Inr (Inl reason)
             | None \<Rightarrow>
               (case amount_denial s q p of Some reason \<Rightarrow> Inr (Inl reason)
                | None \<Rightarrow> rbind (next_cumulative s q p) (\<lambda>granted_sum. Inr
                    (case granted_sum of Inl reason \<Rightarrow> Inl reason | Inr c \<Rightarrow> Inr (c, admitted)))))))"

section \<open>The evaluation\<close>

datatype 'g lease_receipt = LeaseGranted "'g lease_grant" | LeaseDenied lease_denial

fun is_granted :: "'g lease_receipt \<Rightarrow> bool" where
  "is_granted (LeaseGranted g) = True"
| "is_granted (LeaseDenied d) = False"

definition terminal_exhaustion ::
  "'s continuation_state \<Rightarrow> continuation_policy \<Rightarrow> lease_denial_reason \<Rightarrow> bool"
where
  "terminal_exhaustion s p reason \<longleftrightarrow>
     reason = LeaseCeilingReached \<and> cs_granted s \<ge> max_leases p \<and> cs_requests s \<ge> cp_max_lease_requests p \<or>
     reason = LeaseRequestLimit \<and> cs_granted s < max_leases p \<and> cs_requests s \<ge> cp_max_lease_requests p"

definition deny_lease ::
  "digest \<Rightarrow> (counter_evidence \<Rightarrow> unit res) \<Rightarrow> ('s \<Rightarrow> pystr \<Rightarrow> bool) \<Rightarrow> 's continuation_state \<Rightarrow>
   'r continuation_request \<Rightarrow> progress_record \<Rightarrow> continuation_policy \<Rightarrow> pystr option \<Rightarrow> lease_denial_reason \<Rightarrow>
   ('s continuation_state \<times> 'g lease_receipt) res"
where
  "deny_lease H V W s q pr p blocking reason =
     (let terminal = terminal_exhaustion s p reason in
      rbind (deny_continuation H V W s q pr reason p
               (if reason = BlockingGovernanceViolation then blocking else None)
               (reason \<noteq> UnauthorizedRequester \<and> \<not> terminal \<and> cs_requests s < cp_max_lease_requests p))
        (\<lambda>(t, d).
           if \<not> terminal \<or> cs_terminal_receipt s \<noteq> None then Inr (t, LeaseDenied d)
           else rbind (denial_receipt_id H d)
             (\<lambda>i. rbind (continuation_state_init W
                (s \<lparr> cs_lineage := None, cs_progress_state := LeaseExhausted, cs_terminal_receipt := Some i \<rparr>))
             (\<lambda>t. Inr (t, LeaseDenied d)))))"

definition grant_lease ::
  "digest \<Rightarrow> (counter_evidence \<Rightarrow> unit res) \<Rightarrow> ('s \<Rightarrow> pystr \<Rightarrow> bool) \<Rightarrow> ('g \<Rightarrow> pystr \<Rightarrow> bool) \<Rightarrow>
   's continuation_state \<Rightarrow> 'r continuation_request \<Rightarrow> progress_record \<Rightarrow> continuation_policy \<Rightarrow>
   strategy_change_receipt option \<Rightarrow> lease_ids \<Rightarrow> budget_vector \<Rightarrow> bool \<Rightarrow>
   ('s continuation_state \<times> 'g lease_receipt) res"
where
  "grant_lease H V W G s q pr p change ids granted_sum admitted =
     rbind (request_id H q)
       (\<lambda>rid. rbind (lease_grant_init H G
          \<lparr> lg_task_id = cs_task_id s, lg_governance_id = cs_governance_id s,
            lg_governance_receipt_id = cs_governance_receipt_id s, lg_policy_id = cs_policy_id s,
            lg_policy_receipt_id = cs_policy_receipt_id s, lg_request_id = rid, lg_prior_state_id = li_state ids,
            lg_orchestration_state_id = cs_orchestration_state_id s, lg_session_id = cs_session_id s,
            lg_prior_runtime_state_id = cs_runtime_state_id s, lg_progress_id = li_progress ids,
            lg_strategy_change_id = (if admitted then li_change ids else None),
            lg_lease_index = cq_lease_index q, lg_granted = cq_resources q, lg_cumulative = granted_sum,
            lg_total_ceiling = cp_total_ceiling p, lg_tick = cs_tick s + 1, lg_seal = None \<rparr>)
       (\<lambda>g. rbind (grant_receipt_id H g)
       (\<lambda>i. rbind (advance_decision_aggregate H (cs_decision_aggregate s) i (cs_requests s))
       (\<lambda>aggregate. rbind (lease_grant_id H g)
       (\<lambda>gid. let progressed = progress_admitted s pr ids;
                  recovered = (admitted \<and> (li_live ids \<noteq> None \<or> \<not> progressed)) in
          rbind (continuation_state_init W
            (s \<lparr> cs_lineage := None, cs_requests := cs_requests s + 1, cs_granted := cs_granted s + 1,
                cs_cumulative := granted_sum, cs_tick := cs_tick s + 1, cs_decision_aggregate := aggregate,
                cs_receipt_ids := cs_receipt_ids s @ [i],
                cs_recoveries := cs_recoveries s + (if recovered then 1 else 0),
                cs_strategy_material_id :=
                  (case change of
                     Some c \<Rightarrow> if admitted then Some (sc_proposed_material_id c) else cs_strategy_material_id s
                   | None \<Rightarrow> cs_strategy_material_id s),
                cs_last_progress_id := Some (li_progress ids),
                cs_consumed_progress_id := (if progressed then Some (li_progress ids) else cs_consumed_progress_id s),
                cs_consumed_endpoint :=
                  (if progressed then external_endpoint_id H pr (pr_current_measures pr) else cs_consumed_endpoint s),
                cs_last_classification := Some (pr_classification pr),
                cs_last_decision := lit ''granted'', cs_last_denial := None,
                cs_progress_state := (if recovered then StrategyChanged else Progressing),
                cs_pending_grant := Some gid, cs_pending_receipt := Some i \<rparr>))
          (\<lambda>t. Inr (t, LeaseGranted g)))))))"

definition check_evaluation_inputs ::
  "digest \<Rightarrow> (counter_evidence \<Rightarrow> unit res) \<Rightarrow> ('s \<Rightarrow> pystr \<Rightarrow> bool) \<Rightarrow> 's continuation_state \<Rightarrow>
   'r continuation_request \<Rightarrow> continuation_policy \<Rightarrow> policy_receipt \<Rightarrow> progress_record \<Rightarrow>
   strategy_change_receipt option \<Rightarrow> cycle_evidence option \<Rightarrow> pystr option \<Rightarrow> unit res"
where
  "check_evaluation_inputs H V W s q p r pr change cycle blocking =
     rbind (require_optional_fingerprint blocking)
       (\<lambda>_. rbind (request_validate q)
       (\<lambda>_. rbind (progress_record_validate pr)
       (\<lambda>_. rbind (validate_bound_claims H V pr)
       (\<lambda>_. rbind (case cycle of None \<Rightarrow> Inr () | Some c \<Rightarrow> cycle_evidence_validate c)
       (\<lambda>_. rbind (case change of
                     None \<Rightarrow> Inr ()
                   | Some c \<Rightarrow> rbind (strategy_change_validate c) (\<lambda>_. strategy_change_validate_bound H c))
       (\<lambda>_. rbind (validate_admitted_progress p)
       (\<lambda>_. rbind (policy_receipt_validate r)
       (\<lambda>_. rbind (require_policy H W s p)
       (\<lambda>_. rbind (continuation_policy_id H p)
       (\<lambda>policy. rbind (policy_receipt_id H r)
       (\<lambda>rid. guard (cr_policy_id r = policy \<and> rid = cs_policy_receipt_id s \<and> cr_task_id r = cs_task_id s \<and>
                      cr_governance_id r = cs_governance_id s \<and> cr_contract_id r = cs_contract_id s)
                (ValueErr ''active continuation policy receipt does not bind state''))))))))))))"

definition derive_lease_ids ::
  "digest \<Rightarrow> (counter_evidence \<Rightarrow> unit res) \<Rightarrow> ('s \<Rightarrow> pystr \<Rightarrow> bool) \<Rightarrow> 's continuation_state \<Rightarrow>
   progress_record \<Rightarrow> strategy_change_receipt option \<Rightarrow> cycle_evidence option \<Rightarrow> runtime_snapshot \<Rightarrow> lease_ids res"
where
  "derive_lease_ids H V W s pr change cycle live =
     rbind (cycle_from_snapshot live)
       (\<lambda>live_cycle. rbind (continuation_state_id H W s)
       (\<lambda>sid. rbind (progress_id H V pr)
       (\<lambda>pid. rbind (optional_cycle_id H cycle)
       (\<lambda>cycle_id. rbind (optional_cycle_id H live_cycle)
       (\<lambda>live_id. rbind (case change of None \<Rightarrow> Inr None | Some c \<Rightarrow> rbind (strategy_change_id H c) (\<lambda>i. Inr (Some i)))
       (\<lambda>change_id. Inr \<lparr> li_state = sid, li_progress = pid, li_contract = contract_id H (pr_contract pr),
                          li_cycle = cycle_id, li_live = live_id, li_change = change_id \<rparr>))))))"

definition evaluate_lease ::
  "digest \<Rightarrow> (counter_evidence \<Rightarrow> unit res) \<Rightarrow> ('s \<Rightarrow> pystr \<Rightarrow> bool) \<Rightarrow> ('g \<Rightarrow> pystr \<Rightarrow> bool) \<Rightarrow>
   's continuation_state \<Rightarrow> 'r continuation_request \<Rightarrow> runtime_snapshot \<Rightarrow> continuation_policy \<Rightarrow> policy_receipt \<Rightarrow>
   progress_record \<Rightarrow> strategy_change_receipt option \<Rightarrow> cycle_evidence option \<Rightarrow> pystr option \<Rightarrow> bool \<Rightarrow>
   ('s continuation_state \<times> 'g lease_receipt) res"
where
  "evaluate_lease H V W G s q live p r pr change cycle blocking authorized =
     rbind (check_evaluation_inputs H V W s q p r pr change cycle blocking)
       (\<lambda>_. rbind (derive_lease_ids H V W s pr change cycle live)
       (\<lambda>ids. rbind (lease_verdict authorized s q p pr change live blocking ids)
       (\<lambda>verdict. case verdict of
                    Inl reason \<Rightarrow> deny_lease H V W s q pr p blocking reason
                  | Inr (granted_sum, admitted) \<Rightarrow> grant_lease H V W G s q pr p change ids granted_sum admitted)))"

section \<open>Decisions\<close>

definition continuation_decision_init ::
  "digest \<Rightarrow> ('g \<Rightarrow> pystr \<Rightarrow> bool) \<Rightarrow> 's continuation_state \<Rightarrow> 'g lease_receipt \<Rightarrow>
   ('s continuation_state \<times> 'g lease_receipt) res"
where
  "continuation_decision_init H G t rc =
     (case rc of
        LeaseDenied d \<Rightarrow> Inr (t, rc)
      | LeaseGranted g \<Rightarrow> rbind (governance_bound H G g)
          (\<lambda>bound. rbind (guard bound (ValueErr ''granted decisions require evaluated native authority''))
          (\<lambda>_. Inr (t, rc))))"

definition receipt_json :: "digest \<Rightarrow> 'g lease_receipt \<Rightarrow> json res" where
  "receipt_json H rc = (case rc of LeaseGranted g \<Rightarrow> grant_record H g | LeaseDenied d \<Rightarrow> Inr (denial_record H d))"

text \<open>\<open>_finalize\<close>: the native session may add seals to the outcome but change nothing else.\<close>

definition finalize_evaluation ::
  "digest \<Rightarrow> ('g \<Rightarrow> pystr \<Rightarrow> bool) \<Rightarrow> 's continuation_state \<times> 'g lease_receipt \<Rightarrow>
   's continuation_state \<Rightarrow> 'g lease_receipt \<Rightarrow> ('s continuation_state \<times> 'g lease_receipt) res"
where
  "finalize_evaluation H G evaluated t rc =
     rbind (guard (is_granted rc = is_granted (snd evaluated)) (TypeErr ''finalized receipt type does not match evaluation''))
       (\<lambda>_. rbind (guard (ledger_record t = ledger_record (fst evaluated)) (ValueErr ''finalized state does not match evaluation''))
       (\<lambda>_. rbind (receipt_json H rc)
       (\<lambda>supplied. rbind (receipt_json H (snd evaluated))
       (\<lambda>expected. rbind (guard (supplied = expected) (ValueErr ''finalized receipt does not match evaluation''))
       (\<lambda>_. continuation_decision_init H G t rc)))))"

text \<open>
  \<open>evaluate_continuation\<close>. \<open>native\<close> is \<open>runtime_session._evaluate_continuation_request\<close> on the same
  inputs. A successor built by \<open>replace\<close> has no seal and a state that came in has one, so
  \<open>next_state is not state\<close> is inequality here.
\<close>

definition evaluate_continuation ::
  "digest \<Rightarrow> (counter_evidence \<Rightarrow> unit res) \<Rightarrow> ('s \<Rightarrow> pystr \<Rightarrow> bool) \<Rightarrow> ('g \<Rightarrow> pystr \<Rightarrow> bool) \<Rightarrow>
   ('r \<Rightarrow> pystr \<Rightarrow> bool) \<Rightarrow> ('r \<Rightarrow> ('s continuation_state \<times> 'g lease_receipt) res) \<Rightarrow>
   's continuation_state \<Rightarrow> 'r continuation_request \<Rightarrow> runtime_snapshot \<Rightarrow> continuation_policy \<Rightarrow> policy_receipt \<Rightarrow>
   progress_record \<Rightarrow> strategy_change_receipt option \<Rightarrow> cycle_evidence option \<Rightarrow> pystr option \<Rightarrow>
   ('s continuation_state \<times> 'g lease_receipt) res"
where
  "evaluate_continuation H V W G R native s q live p r pr change cycle blocking =
     rbind (request_authority R q)
       (\<lambda>authority. case authority of
          Some seal \<Rightarrow> native seal
        | None \<Rightarrow>
            rbind (evaluate_lease H V W G s q live p r pr change cycle blocking False)
              (\<lambda>(t, rc). rbind (guard (\<not> (is_granted rc \<or> t \<noteq> s))
                        (OtherErr ''AssertionError: unauthorized requests must be state-neutral denials''))
              (\<lambda>_. finalize_evaluation H G (t, rc) t rc)))"

section \<open>Committing an applied grant\<close>

text \<open>The members of \<open>RuntimeLeaseApplicationReceipt\<close> that the commit reads.\<close>

record lease_application =
  la_accepted :: bool
  la_grant_id :: pystr
  la_grant_receipt_id :: pystr
  la_task_id :: pystr
  la_governance_id :: pystr
  la_policy_id :: pystr
  la_policy_receipt_id :: pystr
  la_session_id :: pystr
  la_lease_index :: int
  la_cumulative :: budget_vector
  la_total_ceiling :: budget_vector
  la_prior_state_id :: pystr
  la_resulting_state_id :: pystr

definition application_matches ::
  "'s continuation_state \<Rightarrow> continuation_policy \<Rightarrow> pystr \<Rightarrow> pystr \<Rightarrow> lease_application \<Rightarrow> runtime_snapshot \<Rightarrow> bool"
where
  "application_matches s p gid rid a snap \<longleftrightarrow>
     cs_pending_grant s = Some gid \<and> cs_pending_receipt s = Some rid \<and> la_grant_id a = gid \<and>
     la_grant_receipt_id a = rid \<and> la_task_id a = cs_task_id s \<and> la_governance_id a = cs_governance_id s \<and>
     la_policy_id a = cs_policy_id s \<and> la_policy_receipt_id a = cs_policy_receipt_id s \<and>
     la_session_id a = cs_session_id s \<and> la_lease_index a = cs_granted s \<and> la_cumulative a = cs_cumulative s \<and>
     la_total_ceiling a = cp_total_ceiling p \<and> la_prior_state_id a = cs_runtime_state_id s \<and>
     la_resulting_state_id a = rs_state_id snap \<and> rs_session_id snap = cs_session_id s"

definition check_applied_context ::
  "'s continuation_state \<Rightarrow> continuation_policy \<Rightarrow> pystr \<Rightarrow> runtime_snapshot \<Rightarrow> unit res"
where
  "check_applied_context s p gid snap =
     rbind (native_context snap)
       (\<lambda>n. rbind (guard (authority_matches n s \<and> ns_leases_applied n = cs_granted s \<and>
                         take_last 1 (ns_applied_grant_ids n) = [gid] \<and> ns_cumulative_granted n = cs_cumulative s)
                 (ValueErr ''native lease application state does not match the grant''))
       (\<lambda>_. rbind (budget_add (cp_initial_budget p) (cs_cumulative s))
       (\<lambda>expected. guard (limits_match (rs_limits snap) expected)
                 (ValueErr ''native resulting limits do not match applied lease''))))"

definition commit_lease_application ::
  "digest \<Rightarrow> ('s \<Rightarrow> pystr \<Rightarrow> bool) \<Rightarrow> 's continuation_state \<Rightarrow> continuation_policy \<Rightarrow> 'g lease_grant \<Rightarrow>
   lease_application \<Rightarrow> runtime_snapshot \<Rightarrow> 's continuation_state res"
where
  "commit_lease_application H W s p g a snap =
     rbind (require_policy H W s p)
       (\<lambda>_. rbind (grant_validate g)
       (\<lambda>_. rbind (guard (la_accepted a) (ValueErr ''only an accepted Rust lease application may be committed''))
       (\<lambda>_. rbind (lease_grant_id H g)
       (\<lambda>gid. rbind (grant_receipt_id H g)
       (\<lambda>rid. rbind (guard (application_matches s p gid rid a snap) (ValueErr ''runtime lease application lineage mismatch''))
       (\<lambda>_. rbind (guard (lg_task_id g = cs_task_id s \<and> lg_governance_id g = cs_governance_id s \<and>
                          lg_policy_id g = cs_policy_id s \<and> lg_lease_index g = cs_granted s \<and>
                          lg_cumulative g = cs_cumulative s)
                 (ValueErr ''lease grant does not match pending governance state''))
       (\<lambda>_. rbind (check_applied_context s p gid snap)
       (\<lambda>_. continuation_state_init W
              (s \<lparr> cs_lineage := None, cs_runtime_state_id := rs_state_id snap, cs_pending_grant := None,
                  cs_pending_receipt := None \<rparr>)))))))))"

end
