(* ===== verification/Lease_Correct.thy ===== *)
theory Lease_Correct
  imports Lease_Evaluation Strategy_Properties
begin

text \<open>
  What the constructor of a ledger state accepts, the bounds an accepted policy puts on the ledger, and
  the effect of each operation on both.
\<close>

section \<open>The constructor's conditions\<close>

definition opt_fingerprint :: "pystr option \<Rightarrow> bool" where
  "opt_fingerprint x \<longleftrightarrow> (case x of None \<Rightarrow> True | Some i \<Rightarrow> is_fingerprint i)"

lemma opt_fingerprint_simps [simp]: "opt_fingerprint None" "opt_fingerprint (Some i) = is_fingerprint i"
  by (simp_all add: opt_fingerprint_def)

lemma require_optional_fingerprint_Inr [accept_simps]: "require_optional_fingerprint x = Inr u \<longleftrightarrow> opt_fingerprint x"
  by (cases x) (simp_all add: require_optional_fingerprint_def res_simps accept_simps)

definition state_ids :: "'s continuation_state \<Rightarrow> pystr list" where
  "state_ids s =
     [cs_task_id s, cs_governance_id s, cs_governance_receipt_id s, cs_policy_id s, cs_policy_receipt_id s,
      cs_contract_id s, cs_orchestration_state_id s, cs_session_id s, cs_runtime_state_id s,
      cs_decision_aggregate s, cs_progress_aggregate s]"

definition state_options :: "'s continuation_state \<Rightarrow> pystr option list" where
  "state_options s =
     [cs_strategy_material_id s, cs_last_progress_id s, cs_consumed_progress_id s, cs_external_endpoint s,
      cs_consumed_endpoint s, cs_terminal_receipt s, cs_pending_grant s, cs_pending_receipt s]"

definition counters_ok :: "'s continuation_state \<Rightarrow> bool" where
  "counters_ok s \<longleftrightarrow>
     0 \<le> cs_granted s \<and> 0 \<le> cs_denied s \<and> 0 \<le> cs_recoveries s \<and> cs_recoveries s \<le> cs_granted s \<and>
     0 \<le> cs_progress_count s \<and> cs_progress_count s \<le> max_u64 \<and>
     cs_requests s = cs_granted s + cs_denied s \<and> cs_requests s \<le> 128 \<and>
     cs_tick s = cs_requests s \<and> int (length (cs_receipt_ids s)) = cs_requests s"

definition decision_ok :: "'s continuation_state \<Rightarrow> bool" where
  "decision_ok s \<longleftrightarrow>
     (cs_requests s = 0 \<and> cs_last_decision s = lit ''none'' \<and> cs_last_denial s = None \<or>
      0 < cs_granted s \<and> cs_last_decision s = lit ''granted'' \<and> cs_last_denial s = None \<or>
      0 < cs_denied s \<and> cs_last_decision s = lit ''denied'' \<and> cs_last_denial s \<noteq> None) \<and>
     (cs_granted s = 0 \<longrightarrow> cs_consumed_progress_id s = None \<and> cs_consumed_endpoint s = None)"

definition endpoints_ok :: "'s continuation_state \<Rightarrow> bool" where
  "endpoints_ok s \<longleftrightarrow>
     (cs_progress_count s = 0) = (cs_last_progress_id s = None) \<and>
     (cs_consumed_endpoint s \<noteq> None \<longrightarrow> cs_external_endpoint s \<noteq> None) \<and>
     (cs_terminal_receipt s \<noteq> None \<longrightarrow> cs_progress_state s = LeaseExhausted \<and> cs_pending_grant s = None) \<and>
     (cs_pending_grant s = None) = (cs_pending_receipt s = None)"

definition sealed_ok :: "('s \<Rightarrow> pystr \<Rightarrow> bool) \<Rightarrow> 's continuation_state \<Rightarrow> bool" where
  "sealed_ok W s \<longleftrightarrow> (case cs_lineage s of None \<Rightarrow> True | Some seal \<Rightarrow> W seal (lineage_text s))"

definition form_ok :: "'s continuation_state \<Rightarrow> bool" where
  "form_ok s \<longleftrightarrow>
     list_all is_fingerprint (state_ids s) \<and> list_all opt_fingerprint (state_options s) \<and>
     list_all is_fingerprint (cs_receipt_ids s) \<and> distinct (cs_receipt_ids s) \<and>
     counters_ok s \<and> endpoints_ok s \<and> decision_ok s"

lemma history_Inr:
  "check_state_history s = Inr ids \<longleftrightarrow>
     ids = cs_receipt_ids s \<and> list_all is_fingerprint ids \<and> distinct ids \<and> length ids \<le> 128 \<and>
     int (length ids) = cs_requests s"
  by (auto simp: check_state_history_def require_fingerprints_def check_entries_def res_simps accept_simps list_all_iff
      max_lease_requests_limit_def)

lemma seal_Inr: "check_state_seal W s = Inr u \<longleftrightarrow> sealed_ok W s"
  by (auto simp: check_state_seal_def sealed_ok_def res_simps split: option.splits)

lemma counters_Inr:
  "check_state_counters s = Inr u \<and> int (length (cs_receipt_ids s)) = cs_requests s \<and> cs_requests s \<le> 128 \<and>
   cs_recoveries s \<le> cs_granted s \<longleftrightarrow> counters_ok s"
  by (auto simp: check_state_counters_def counters_ok_def res_simps accept_simps max_u64_def)

lemma markers_Inr:
  "check_state_markers s = Inr v \<longleftrightarrow>
     cs_last_decision s \<in> {lit ''none'', lit ''granted'', lit ''denied''} \<and>
     (cs_terminal_receipt s \<noteq> None \<longrightarrow> cs_progress_state s = LeaseExhausted \<and> cs_pending_grant s = None) \<and>
     (cs_pending_grant s = None) = (cs_pending_receipt s = None) \<and>
     list_all opt_fingerprint [cs_terminal_receipt s, cs_pending_grant s, cs_pending_receipt s]"
  unfolding check_state_markers_def rbind_eq_Inr guard_eq_Inr for_each_eq_Inr accept_simps has_pending_grant_def
  by auto

lemma endpoints_Inr:
  "check_state_endpoints s = Inr x \<longleftrightarrow>
     (cs_progress_count s = 0) = (cs_last_progress_id s = None) \<and> is_fingerprint (cs_progress_aggregate s) \<and>
     list_all opt_fingerprint [cs_strategy_material_id s, cs_last_progress_id s, cs_consumed_progress_id s,
       cs_external_endpoint s, cs_consumed_endpoint s]"
  unfolding check_state_endpoints_def rbind_eq_Inr guard_eq_Inr for_each_eq_Inr accept_simps
  by auto

lemma one_of_three:
  assumes "n \<or> g \<or> d" and "\<not> (n \<and> g)" and "\<not> (n \<and> d)" and "\<not> (g \<and> d)"
  shows "d = L \<and> (\<not> G \<and> \<not> D) = n \<and> (g \<longrightarrow> G) \<and> (d \<longrightarrow> D) \<and> T \<longleftrightarrow>
    ((\<not> G \<and> \<not> D) \<and> n \<and> \<not> L \<or> G \<and> g \<and> \<not> L \<or> D \<and> d \<and> L) \<and> T"
  using assms by blast

lemma decision_Inr:
  assumes "0 \<le> cs_granted s" "0 \<le> cs_denied s" "cs_requests s = cs_granted s + cs_denied s"
    and "cs_last_decision s \<in> {lit ''none'', lit ''granted'', lit ''denied''}"
  shows "check_state_decision s = Inr w \<longleftrightarrow>
    decision_ok s \<and> (cs_consumed_endpoint s \<noteq> None \<longrightarrow> cs_external_endpoint s \<noteq> None) \<and> cs_recoveries s \<le> cs_granted s"
proof -
  have "check_state_decision s = Inr w \<longleftrightarrow>
     (cs_last_decision s = lit ''denied'') = (cs_last_denial s \<noteq> None) \<and>
     (cs_requests s = 0) = (cs_last_decision s = lit ''none'') \<and>
     (cs_last_decision s = lit ''granted'' \<longrightarrow> cs_granted s \<noteq> 0) \<and> (cs_last_decision s = lit ''denied'' \<longrightarrow> cs_denied s \<noteq> 0) \<and>
     (cs_granted s = 0 \<longrightarrow> cs_consumed_progress_id s = None \<and> cs_consumed_endpoint s = None) \<and>
     (cs_consumed_endpoint s \<noteq> None \<longrightarrow> cs_external_endpoint s \<noteq> None) \<and> cs_recoveries s \<le> cs_granted s"
    unfolding check_state_decision_def rbind_eq_Inr guard_eq_Inr by fastforce
  moreover have "cs_requests s = 0 \<longleftrightarrow> \<not> cs_granted s \<noteq> 0 \<and> \<not> cs_denied s \<noteq> 0" using assms(1-3) by linarith
  moreover have "0 < cs_granted s \<longleftrightarrow> cs_granted s \<noteq> 0" "0 < cs_denied s \<longleftrightarrow> cs_denied s \<noteq> 0"
    using assms(1,2) by linarith+
  moreover note one_of_three [of "cs_last_decision s = lit ''none''" "cs_last_decision s = lit ''granted''"
      "cs_last_decision s = lit ''denied''" "cs_last_denial s \<noteq> None" "cs_granted s \<noteq> 0" "cs_denied s \<noteq> 0"
      "(cs_granted s = 0 \<longrightarrow> cs_consumed_progress_id s = None \<and> cs_consumed_endpoint s = None) \<and>
       (cs_consumed_endpoint s \<noteq> None \<longrightarrow> cs_external_endpoint s \<noteq> None) \<and> cs_recoveries s \<le> cs_granted s"]
  ultimately show ?thesis using assms(4) unfolding decision_ok_def by simp
qed

lemma decision_ok_last: "decision_ok s \<Longrightarrow> cs_last_decision s \<in> {lit ''none'', lit ''granted'', lit ''denied''}"
  by (auto simp: decision_ok_def)

lemma continuation_state_init_Inr:
  "continuation_state_init W s = Inr t \<longleftrightarrow> t = s \<and> form_ok s \<and> sealed_ok W s"
proof -
  have "continuation_state_init W s = Inr t \<longleftrightarrow>
     t = s \<and> sealed_ok W s \<and> list_all is_fingerprint (butlast (state_ids s)) \<and> check_state_counters s = Inr () \<and>
     check_state_history s = Inr (cs_receipt_ids s) \<and> check_state_markers s = Inr () \<and> check_state_decision s = Inr () \<and>
     check_state_endpoints s = Inr ()"
    by (auto simp: continuation_state_init_def rbind_eq_Inr guard_eq_Inr for_each_eq_Inr accept_simps Let_def history_Inr seal_Inr
        state_ids_def list_all_iff)
  also have "\<dots> \<longleftrightarrow> t = s \<and> form_ok s \<and> sealed_ok W s"
  proof -
    have "check_state_counters s = Inr () \<and> check_state_history s = Inr (cs_receipt_ids s) \<and> check_state_markers s = Inr () \<and>
        check_state_decision s = Inr () \<and> check_state_endpoints s = Inr () \<longleftrightarrow>
        check_state_counters s = Inr () \<and> check_state_history s = Inr (cs_receipt_ids s) \<and>
        decision_ok s \<and> cs_recoveries s \<le> cs_granted s \<and> endpoints_ok s \<and> list_all opt_fingerprint (state_options s) \<and>
        is_fingerprint (cs_progress_aggregate s)"
      (is "?l \<longleftrightarrow> ?r")
    proof (cases "check_state_counters s = Inr ()")
      case True
      then have n: "0 \<le> cs_granted s" "0 \<le> cs_denied s" "cs_requests s = cs_granted s + cs_denied s"
        by (auto simp: check_state_counters_def res_simps accept_simps)
      show ?thesis
        unfolding markers_Inr endpoints_Inr endpoints_ok_def state_options_def
        using decision_Inr [OF n] decision_ok_last [of s] by (auto simp: True)
    qed simp
    then show ?thesis
      using counters_Inr [of s "()"] by (auto simp: form_ok_def history_Inr state_ids_def counters_ok_def)
  qed
  finally show ?thesis .
qed

section \<open>Accepted policies and bounded ledgers\<close>

definition accepted_policy :: "continuation_policy \<Rightarrow> bool" where
  "accepted_policy p \<longleftrightarrow> (\<exists>p0. policy_parts_ok p0 \<and> continuation_policy_init p0 = Inr p)"

definition lease_capacity :: "continuation_policy \<Rightarrow> budget_vector" where
  "lease_capacity p = budget_sum budget_zero (cp_lease_schedule p)"

lemma accepted_policyD:
  assumes "accepted_policy p"
  shows "validate_admitted_progress p = Inr ()" and "continuation_capacity p = Inr (lease_capacity p)"
    and "list_all budget_ok (cp_lease_schedule p)" and "list_all (\<lambda>x. mutation_delta x = 0) (cp_lease_schedule p)"
    and "max_leases p \<le> 64" and "max_leases p < cp_max_lease_requests p" and "cp_max_lease_requests p \<le> 128"
    and "budget_ok (cp_total_ceiling p)" and "budget_within (lease_capacity p) (cp_total_ceiling p)"
    and "is_fingerprint (cp_progress_contract_id p)" and "cp_max_strategy_recoveries p \<le> max_leases p"
proof -
  obtain p0 where p0: "policy_parts_ok p0" "continuation_policy_init p0 = Inr p"
    using assms by (auto simp: accepted_policy_def)
  note init = continuation_policy_init_Inr [OF p0]
  have ok: "budget_ok (cp_initial_budget p)" "budget_ok (cp_total_ceiling p)" "list_all budget_ok (cp_lease_schedule p)"
    using p0(1) init(1) by (simp_all add: policy_parts_ok_def)
  show "validate_admitted_progress p = Inr ()" using init(1) by (simp add: validate_admitted_progress_def)
  have sum: "cp_total_ceiling p = budget_sum (cp_initial_budget p) (cp_lease_schedule p)" using init(1,2) by simp
  have "budget_within (cp_initial_budget p) (cp_total_ceiling p)" unfolding sum by (rule budget_sum_grows [OF ok(3)])
  then show cap: "continuation_capacity p = Inr (lease_capacity p)"
    unfolding continuation_capacity_def budget_subtract_cases [OF ok(2,1)] by (simp add: sum budget_sum_minus lease_capacity_def)
  show "list_all budget_ok (cp_lease_schedule p)" "budget_ok (cp_total_ceiling p)" by (rule ok)+
  show "list_all (\<lambda>x. mutation_delta x = 0) (cp_lease_schedule p)" using init(1,3) by (simp add: list_all_iff)
  show "max_leases p \<le> 64" "max_leases p < cp_max_lease_requests p" "cp_max_lease_requests p \<le> 128"
    using init(1,6,7,8) by (simp_all add: max_leases_def)
  have "lease_capacity p = budget_minus (cp_total_ceiling p) (cp_initial_budget p)"
    by (simp add: sum budget_sum_minus lease_capacity_def)
  then show "budget_within (lease_capacity p) (cp_total_ceiling p)"
    using ok(1) by (simp add: budget_within_iff budget_minus_def budget_ok_def budget_unfold)
  show "is_fingerprint (cp_progress_contract_id p)" "cp_max_strategy_recoveries p \<le> max_leases p"
    using p0(2) init(1)
    by (auto simp: continuation_policy_init_def check_lease_requests_def rbind_eq_Inr guard_eq_Inr accept_simps Let_def
        max_leases_def)
qed

definition ledger_ok :: "continuation_policy \<Rightarrow> 's continuation_state \<Rightarrow> bool" where
  "ledger_ok p s \<longleftrightarrow>
     form_ok s \<and> cs_granted s \<le> max_leases p \<and> cs_requests s \<le> cp_max_lease_requests p \<and>
     cs_recoveries s \<le> cp_max_strategy_recoveries p \<and> cs_progress_count s \<le> cp_max_lease_requests p + 1 \<and>
     (cs_terminal_receipt s \<noteq> None \<longrightarrow> cs_requests s = cp_max_lease_requests p) \<and>
     budget_ok (cs_cumulative s) \<and>
     budget_within (cs_cumulative s) (budget_sum budget_zero (take (nat (cs_granted s)) (cp_lease_schedule p)))"

lemma form_ok_lineage [simp]: "form_ok (s \<lparr> cs_lineage := x \<rparr>) = form_ok s"
  by (simp add: form_ok_def state_ids_def state_options_def counters_ok_def endpoints_ok_def decision_ok_def)

lemma ledger_ok_lineage [simp]: "ledger_ok p (s \<lparr> cs_lineage := x \<rparr>) = ledger_ok p s"
  by (simp add: ledger_ok_def)

lemma ledger_okD:
  assumes "ledger_ok p s"
  shows "0 \<le> cs_granted s" "0 \<le> cs_denied s" "cs_requests s = cs_granted s + cs_denied s" "cs_tick s = cs_requests s"
    "cs_granted s \<le> max_leases p" "cs_requests s \<le> cp_max_lease_requests p" "form_ok s" "budget_ok (cs_cumulative s)"
    "int (length (cs_receipt_ids s)) = cs_requests s"
  using assms by (auto simp: ledger_ok_def form_ok_def counters_ok_def)

lemma schedule_prefix_within:
  assumes "accepted_policy p"
  shows "budget_within (budget_sum budget_zero (take n (cp_lease_schedule p))) (lease_capacity p)"
proof -
  have "list_all budget_ok (drop n (cp_lease_schedule p))"
    using accepted_policyD(3) [OF assms] set_drop_subset [of n "cp_lease_schedule p"] by (auto simp: list_all_iff)
  from budget_sum_grows [OF this, of "budget_sum budget_zero (take n (cp_lease_schedule p))"]
  show ?thesis by (simp add: lease_capacity_def budget_sum_append [symmetric])
qed

lemma cumulative_within:
  "accepted_policy p \<Longrightarrow> ledger_ok p s \<Longrightarrow> budget_within (cs_cumulative s) (lease_capacity p)"
  using schedule_prefix_within budget_within_trans unfolding ledger_ok_def by blast

lemma budget_within_ok: "budget_ok b \<Longrightarrow> budget_within a b \<Longrightarrow> \<forall>v \<in> set (budget_values a). 0 \<le> v \<Longrightarrow> budget_ok a"
  by (auto simp: budget_ok_def budget_unfold budget_within_iff)

lemma scheduled_sum:
  assumes "accepted_policy p" and "ledger_ok p s" and "cs_granted s < max_leases p" and "budget_ok b"
    and "budget_within b (cp_lease_schedule p ! nat (cs_granted s))"
  shows "budget_within (budget_plus (cs_cumulative s) b)
      (budget_sum budget_zero (take (nat (cs_granted s + 1)) (cp_lease_schedule p)))"
    and "budget_ok (budget_plus (cs_cumulative s) b)"
proof -
  let ?n = "nat (cs_granted s)" and ?ls = "cp_lease_schedule p"
  have n: "?n < length ?ls" "nat (cs_granted s + 1) = Suc ?n"
    using assms(3) ledger_okD(1) [OF assms(2)] by (auto simp: max_leases_def)
  have sum: "budget_sum budget_zero (take (Suc ?n) ?ls) = budget_plus (budget_sum budget_zero (take ?n ?ls)) (?ls ! ?n)"
    using n(1) by (simp add: take_Suc_conv_app_nth budget_sum_append) (simp add: budget_sum_def)
  have c: "budget_ok (cs_cumulative s)" "budget_within (cs_cumulative s) (budget_sum budget_zero (take ?n ?ls))"
    using assms(2) by (simp_all add: ledger_ok_def)
  show w: "budget_within (budget_plus (cs_cumulative s) b) (budget_sum budget_zero (take (nat (cs_granted s + 1)) ?ls))"
    using c(2) assms(5) unfolding n(2) sum by (simp add: budget_within_iff budget_plus_def)
  have "budget_within (budget_plus (cs_cumulative s) b) (cp_total_ceiling p)"
    using budget_within_trans [OF w budget_within_trans [OF schedule_prefix_within accepted_policyD(9)]] assms(1) by blast
  moreover have "\<forall>v \<in> set (budget_values (budget_plus (cs_cumulative s) b)). 0 \<le> v"
    using c(1) assms(4) by (auto simp: budget_ok_def budget_unfold budget_plus_def)
  ultimately show "budget_ok (budget_plus (cs_cumulative s) b)"
    using accepted_policyD(8) [OF assms(1)] budget_within_ok by blast
qed

end
