(* ===== verification/Lease_Table.thy ===== *)
theory Lease_Table
  imports Lease_Correct
begin

text \<open>
  The decision of \<open>_evaluate_continuation\<close> against a table of its checks: \<open>lease_verdict\<close> returns the
  reason of the first row that applies, and a grant when none does.
\<close>

section \<open>The table of denials\<close>

text \<open>
  The documented order of the checks as a table: the first row whose condition holds gives the
  denial. \<open>change_unbound\<close> is a strategy change that the request does not bind, or that is not a
  change of the ledger's own strategy.
\<close>

definition change_unbound ::
  "'s continuation_state \<Rightarrow> 'r continuation_request \<Rightarrow> strategy_change_receipt option \<Rightarrow> lease_ids \<Rightarrow> bool"
where
  "change_unbound s q change ids \<longleftrightarrow>
     (cq_strategy_change_id q = None) \<noteq> (change = None) \<or>
     (\<exists>c. change = Some c \<and>
        (li_change ids \<noteq> cq_strategy_change_id q \<or> sc_task_id c \<noteq> cs_task_id s \<or>
         sc_governance_id c \<noteq> cs_governance_id s \<or> sc_state_id c \<noteq> cs_orchestration_state_id s \<or>
         cs_strategy_material_id s \<noteq> Some (sc_prior_material_id c)))"

definition entry_table ::
  "bool \<Rightarrow> 's continuation_state \<Rightarrow> 'r continuation_request \<Rightarrow> continuation_policy \<Rightarrow> progress_record \<Rightarrow>
   runtime_snapshot \<Rightarrow> pystr option \<Rightarrow> lease_ids \<Rightarrow> (bool \<times> lease_denial_reason) list"
where
  "entry_table authorized s q p pr live blocking ids =
     [(\<not> (cq_requester q = SupervisorRequester \<and> authorized), UnauthorizedRequester),
      (cq_state_id q \<noteq> li_state ids, StaleContinuationState),
      (\<not> (cq_task_id q = cs_task_id s \<and> cq_governance_id q = cs_governance_id s \<and> cq_policy_id q = cs_policy_id s),
       StaleGovernance),
      (cq_orchestration_state_id q \<noteq> cs_orchestration_state_id s, StaleOrchestrationState),
      (\<not> (cq_session_id q = cs_session_id s \<and> cq_runtime_state_id q = cs_runtime_state_id s \<and>
          rs_session_id live = cs_session_id s \<and> rs_state_id live = cs_runtime_state_id s), StaleRuntimeState),
      (cs_pending_grant s \<noteq> None, PendingLeaseApplication),
      (\<not> (pr_task_id pr = cs_task_id s \<and> pr_governance_id pr = cs_governance_id s \<and>
          li_contract ids = cs_contract_id s \<and> cs_last_progress_id s = Some (li_progress ids) \<and>
          pr_current_state_id pr = cs_orchestration_state_id s \<and> cq_progress_id q = li_progress ids), StaleProgress),
      (pr_task_complete pr, TaskAlreadyComplete),
      (blocking \<noteq> None, BlockingGovernanceViolation),
      (max_leases p \<le> cs_granted s, LeaseCeilingReached),
      (cp_max_lease_requests p \<le> cs_requests s, LeaseRequestLimit),
      (cq_lease_index q \<noteq> cs_granted s + 1, LeaseIndexMismatch),
      (li_cycle ids \<noteq> None \<and> li_cycle ids \<noteq> li_live ids, StaleRuntimeState)]"

definition strategy_table ::
  "'s continuation_state \<Rightarrow> 'r continuation_request \<Rightarrow> strategy_change_receipt option \<Rightarrow> lease_ids \<Rightarrow>
   (bool \<times> lease_denial_reason) list"
where
  "strategy_table s q change ids =
     [(change_unbound s q change ids, StrategyChangeNotMaterial),
      (\<exists>c. change = Some c \<and> sc_cycle_evidence_id c \<noteq> li_live ids, StrategyChangeCycleEquivalent),
      (\<exists>c. change = Some c \<and> sc_status c = ChangeRejected \<and> sc_reason c = CycleEquivalent,
       StrategyChangeCycleEquivalent),
      (\<exists>c. change = Some c \<and> sc_status c = ChangeRejected, StrategyChangeNotMaterial)]"

definition support_table ::
  "'s continuation_state \<Rightarrow> 'r continuation_request \<Rightarrow> continuation_policy \<Rightarrow> progress_record \<Rightarrow>
   strategy_change_receipt option \<Rightarrow> lease_ids \<Rightarrow> (bool \<times> lease_denial_reason) list"
where
  "support_table s q p pr change ids =
     [(li_live ids \<noteq> None \<and> change = None, TerminalCycle),
      (\<not> (pr_classification pr = MeasurableProgress \<and> cs_consumed_progress_id s \<noteq> Some (li_progress ids)) \<and>
       change = None, NoMeasurableProgress),
      (change \<noteq> None \<and> cp_max_strategy_recoveries p \<le> cs_recoveries s, StrategyRecoveryExhausted),
      (budget_is_zero (cq_resources q), EmptyResourceVector),
      (mutation_delta (cq_resources q) \<noteq> 0, UnsupportedResource),
      (\<not> budget_within (cq_resources q) (cp_lease_schedule p ! nat (cs_granted s)), AmountExceedsSchedule)]"

definition denial_table ::
  "bool \<Rightarrow> 's continuation_state \<Rightarrow> 'r continuation_request \<Rightarrow> continuation_policy \<Rightarrow> progress_record \<Rightarrow>
   strategy_change_receipt option \<Rightarrow> runtime_snapshot \<Rightarrow> pystr option \<Rightarrow> lease_ids \<Rightarrow>
   (bool \<times> lease_denial_reason) list"
where
  "denial_table authorized s q p pr change live blocking ids =
     entry_table authorized s q p pr live blocking ids @ strategy_table s q change ids @
     support_table s q p pr change ids"

fun first_denial :: "(bool \<times> lease_denial_reason) list \<Rightarrow> lease_denial_reason option" where
  "first_denial [] = None"
| "first_denial ((failed, reason) # rows) = (if failed then Some reason else first_denial rows)"

lemma first_denial_append:
  "first_denial (xs @ ys) = (case first_denial xs of Some r \<Rightarrow> Some r | None \<Rightarrow> first_denial ys)"
  by (induction xs rule: first_denial.induct) auto

lemma first_denial_None: "first_denial rows = None \<longleftrightarrow> (\<forall>(failed, reason) \<in> set rows. \<not> failed)"
  by (induction rows rule: first_denial.induct) auto

lemma first_denial_Some: "first_denial rows = Some r \<Longrightarrow> (True, r) \<in> set rows"
  by (induction rows rule: first_denial.induct) (auto split: if_splits)

lemma entry_denial_table:
  assumes "accepted_policy p" and "ledger_ok p s"
  shows "entry_denial authorized s q p pr live blocking ids =
    Inr (first_denial (entry_table authorized s q p pr live blocking ids))"
proof -
  have c: "continuation_capacity p = Inr (lease_capacity p)" "budget_within (cs_cumulative s) (lease_capacity p)"
    using accepted_policyD(2) cumulative_within assms by blast+
  show ?thesis by (simp add: entry_denial_def entry_table_def has_pending_grant_def c de_Morgan_conj)
qed

lemma strategy_verdict_table:
  "strategy_verdict s q change ids =
     (case first_denial (strategy_table s q change ids) of Some r \<Rightarrow> Inl r | None \<Rightarrow> Inr (change \<noteq> None))"
  by (cases "cq_strategy_change_id q"; cases change)
     (auto simp: strategy_verdict_def strategy_table_def change_unbound_def)

lemma support_denial_table:
  "(case progress_denial s p pr ids (change \<noteq> None) of Some r \<Rightarrow> Some r | None \<Rightarrow> amount_denial s q p) =
     first_denial (support_table s q p pr change ids)"
  by (cases change) (simp_all add: progress_denial_def progress_admitted_def amount_denial_def support_table_def)

text \<open>The code's last two checks of the ceiling never fail on a bounded ledger.\<close>

lemma next_cumulative_ok:
  assumes "accepted_policy p" and "ledger_ok p s" and "cs_granted s < max_leases p" and "budget_ok (cq_resources q)"
    and "budget_within (cq_resources q) (cp_lease_schedule p ! nat (cs_granted s))"
  shows "next_cumulative s q p = Inr (Inr (budget_plus (cs_cumulative s) (cq_resources q)))"
proof -
  note sum = scheduled_sum [OF assms]
  have "budget_add (cs_cumulative s) (cq_resources q) = Inr (budget_plus (cs_cumulative s) (cq_resources q))"
    using sum(2) by (simp add: budget_add_cases [OF ledger_okD(8) [OF assms(2)] assms(4)])
  moreover have "budget_within (budget_plus (cs_cumulative s) (cq_resources q)) (lease_capacity p)"
    using budget_within_trans [OF sum(1) schedule_prefix_within] assms(1) by blast
  ultimately show ?thesis by (simp add: next_cumulative_def accepted_policyD(2) [OF assms(1)])
qed

lemma lease_verdict_table:
  assumes "accepted_policy p" and "ledger_ok p s" and "budget_ok (cq_resources q)"
  shows "lease_verdict authorized s q p pr change live blocking ids =
    Inr (case first_denial (denial_table authorized s q p pr change live blocking ids) of
           Some r \<Rightarrow> Inl r
         | None \<Rightarrow> Inr (budget_plus (cs_cumulative s) (cq_resources q), change \<noteq> None))"
proof (cases "first_denial (entry_table authorized s q p pr live blocking ids)")
  case None
  then have granted: "cs_granted s < max_leases p" unfolding first_denial_None entry_table_def by simp
  show ?thesis
  proof (cases "first_denial (strategy_table s q change ids)")
    case strategy: None
    note support = support_denial_table [where s = s and p = p and pr = pr and ids = ids and change = change and q = q]
    show ?thesis
    proof (cases "first_denial (support_table s q p pr change ids)")
      case s: None
      then have "budget_within (cq_resources q) (cp_lease_schedule p ! nat (cs_granted s))"
        unfolding first_denial_None support_table_def by simp
      from next_cumulative_ok [where q = q, OF assms(1,2) granted assms(3) this] None strategy s support show ?thesis
        by (auto simp: lease_verdict_def entry_denial_table [OF assms(1,2)] strategy_verdict_table denial_table_def
            first_denial_append split: option.splits)
    next
      case (Some r)
      with None strategy support show ?thesis
        by (auto simp: lease_verdict_def entry_denial_table [OF assms(1,2)] strategy_verdict_table denial_table_def
            first_denial_append split: option.splits)
    qed
  qed (simp add: lease_verdict_def entry_denial_table [OF assms(1,2)] strategy_verdict_table denial_table_def
      first_denial_append None)
qed (simp add: lease_verdict_def entry_denial_table [OF assms(1,2)] denial_table_def first_denial_append)

end
