(* ===== verification/Lease_Outcome.thy ===== *)
theory Lease_Outcome
  imports Lease_Table
begin

text \<open>
  What one evaluation returns: with accepted inputs it ends in a denial or a grant, on every branch with
  the successor state written out. Two exceptions of the constructor are left and are values of the
  specification: a receipt identity that is already in the history, and external progress consumed on a
  ledger that has no live external endpoint.
\<close>

section \<open>Accepted inputs\<close>

definition form_core :: "'s continuation_state \<Rightarrow> bool" where
  "form_core s \<longleftrightarrow>
     list_all is_fingerprint (state_ids s) \<and> list_all opt_fingerprint (state_options s) \<and>
     list_all is_fingerprint (cs_receipt_ids s) \<and> counters_ok s \<and> endpoints_ok s \<and> decision_ok s"

lemma form_ok_core: "form_ok s \<longleftrightarrow> form_core s \<and> distinct (cs_receipt_ids s)"
  by (auto simp: form_ok_def form_core_def)

lemma init_repeated:
  assumes "counters_ok s" and "list_all is_fingerprint (cs_receipt_ids s)" and "list_all is_fingerprint (state_ids s)"
    and "\<not> distinct (cs_receipt_ids s)"
  shows "continuation_state_init W s = Inl (ValueErr ''must be unique'')"
proof -
  have counters: "check_state_counters s = Inr ()" using counters_Inr [of s "()"] assms(1) by blast
  moreover have "length (cs_receipt_ids s) \<le> 128" using assms(1) by (simp add: counters_ok_def)
  moreover have "for_each require_fingerprint (cs_receipt_ids s) = Inr ()"
    using assms(2) by (simp add: for_each_eq_Inr accept_simps list_all_iff)
  ultimately have "check_state_history s = Inl (ValueErr ''must be unique'')"
    using assms(4) by (simp add: check_state_history_def require_fingerprints_def check_entries_def materialize_ok
        max_lease_requests_limit_def)
  with assms(3) counters show ?thesis
    by (simp add: continuation_state_init_def state_ids_def require_total)
qed

lemma init_unless_repeated:
  assumes "form_core s" and "sealed_ok W s"
  shows "continuation_state_init W s =
    (if distinct (cs_receipt_ids s) then Inr s else Inl (ValueErr ''must be unique''))"
  using assms init_repeated [of s W] by (auto simp: form_ok_core continuation_state_init_Inr) (auto simp: form_core_def)

text \<open>The constructor on a state that is in order but for its consumed external endpoint.\<close>

lemma form_core_endpoint:
  assumes "form_core (s \<lparr> cs_consumed_endpoint := None \<rparr>)" and "opt_fingerprint (cs_consumed_endpoint s)"
    and "0 < cs_granted s"
  shows "form_core s \<longleftrightarrow> (cs_consumed_endpoint s \<noteq> None \<longrightarrow> cs_external_endpoint s \<noteq> None)"
  using assms
  by (auto simp: form_core_def state_ids_def state_options_def counters_ok_def endpoints_ok_def decision_ok_def)

lemma init_endpoint_refused:
  assumes core: "form_core (s \<lparr> cs_consumed_endpoint := None \<rparr>)" and fp: "opt_fingerprint (cs_consumed_endpoint s)"
    and granted: "0 < cs_granted s" and endpoint: "cs_consumed_endpoint s \<noteq> None" "cs_external_endpoint s = None"
    and dist: "distinct (cs_receipt_ids s)"
  shows "continuation_state_init W s =
    Inl (ValueErr ''consumed external progress requires a live external endpoint'')"
proof -
  let ?u = "s \<lparr> cs_consumed_endpoint := None \<rparr>"
  have "form_ok ?u" using core dist by (simp add: form_ok_core)
  then have "continuation_state_init (\<lambda>_ _. True) ?u = Inr ?u"
    by (simp add: continuation_state_init_Inr sealed_ok_def split: option.split)
  then have u: "check_state_counters ?u = Inr ()" "check_state_history ?u = Inr (cs_receipt_ids s)"
      "check_state_endpoints ?u = Inr ()" "check_state_markers ?u = Inr ()" "check_state_decision ?u = Inr ()"
    by (auto simp: continuation_state_init_def rbind_eq_Inr Let_def history_Inr)
  have "check_state_counters s = Inr ()" "check_state_history s = Inr (cs_receipt_ids s)" "check_state_markers s = Inr ()"
    using u(1,2,4) by (simp_all add: check_state_counters_def check_state_history_def check_state_markers_def has_pending_grant_def)
  moreover have "check_state_endpoints s = Inr ()" using u(3) fp by (simp add: endpoints_Inr)
  moreover have "check_state_decision s = Inl (ValueErr ''consumed external progress requires a live external endpoint'')"
    using u(5) granted endpoint by (simp add: check_state_decision_def rbind_eq_Inr guard_eq_Inr)
  moreover have "list_all is_fingerprint (state_ids s)" using core by (simp add: form_core_def state_ids_def)
  ultimately show ?thesis
    by (simp add: continuation_state_init_def state_ids_def require_total Let_def)
qed

lemma check_inputsD:
  assumes "check_evaluation_inputs H V W s q p r pr change cycle blocking = Inr ()"
  shows "opt_fingerprint blocking" "request_validate q = Inr ()" "progress_record_validate pr = Inr ()"
    "validate_bound_claims H V pr = Inr ()" "require_decision_lineage W s = Inr ()"
    "case cycle of None \<Rightarrow> True | Some c \<Rightarrow> cycle_evidence_validate c = Inr ()"
    "case change of None \<Rightarrow> True | Some c \<Rightarrow> strategy_change_validate c = Inr () \<and> strategy_change_validate_bound H c = Inr ()"
  using assms
  by (auto simp: check_evaluation_inputs_def require_policy_def rbind_eq_Inr accept_simps split: option.splits)

lemma lineage_sealed: "require_decision_lineage W s = Inr () \<longleftrightarrow> cs_lineage s \<noteq> None \<and> sealed_ok W s"
  by (auto simp: require_decision_lineage_def sealed_ok_def guard_eq_Inr split: option.splits)

lemma derive_ids_total:
  assumes "check_evaluation_inputs H V W s q p r pr change cycle blocking = Inr ()"
    and "cycle_from_snapshot live = Inr live_cycle"
  shows "\<exists>ids. derive_lease_ids H V W s pr change cycle live = Inr ids"
proof -
  note ok = check_inputsD [OF assms(1)]
  have "\<exists>i. optional_cycle_id H cycle = Inr i"
    using ok(6) by (cases cycle) (simp_all add: optional_cycle_id_def cycle_evidence_id_def cycle_evidence_record_def)
  moreover have "\<exists>i. optional_cycle_id H live_cycle = Inr i"
  proof (cases live_cycle)
    case (Some e)
    then have "\<exists>e0. cycle_evidence_init e0 = Inr e"
      using assms(2) by (auto simp: cycle_from_snapshot_def rbind_eq_Inr split: option.splits)
    then have "cycle_evidence_validate e = Inr ()"
      by (auto simp: cycle_evidence_init_def cycle_evidence_validate_def require_fingerprints_def check_entries_def
          rbind_eq_Inr guard_eq_Inr for_each_eq_Inr accept_simps bounded_texts_def)
    with Some show ?thesis by (simp add: optional_cycle_id_def cycle_evidence_id_def cycle_evidence_record_def)
  qed (simp add: optional_cycle_id_def)
  moreover have "\<exists>i. (case change of None \<Rightarrow> Inr None | Some c \<Rightarrow> rbind (strategy_change_id H c) (\<lambda>i. Inr (Some i))) = Inr i"
    using ok(7) by (cases change) (simp_all add: strategy_change_id_def strategy_change_record_def)
  moreover have "\<exists>i. progress_id H V pr = Inr i" using ok(3,4) by (simp add: progress_id_def progress_record_json_def)
  moreover have "\<exists>i. continuation_state_id H W s = Inr i"
    using ok(5) by (simp add: continuation_state_id_def canonical_state_def)
  ultimately show ?thesis using assms(2) by (auto simp: derive_lease_ids_def)
qed

lemma derive_idsD:
  assumes "derive_lease_ids H V W s pr change cycle live = Inr ids"
  shows "continuation_state_id H W s = Inr (li_state ids)" "progress_id H V pr = Inr (li_progress ids)"
    "li_contract ids = contract_id H (pr_contract pr)" "optional_cycle_id H cycle = Inr (li_cycle ids)"
    "\<exists>live_cycle. cycle_from_snapshot live = Inr live_cycle \<and> optional_cycle_id H live_cycle = Inr (li_live ids)"
    "(case change of None \<Rightarrow> Inr None | Some c \<Rightarrow> rbind (strategy_change_id H c) (\<lambda>i. Inr (Some i))) = Inr (li_change ids)"
  using assms unfolding derive_lease_ids_def rbind_eq_Inr by fastforce+

lemma domain_rbind: "rbind r (\<lambda>j. Inr (domain_id H d j)) = Inr i \<Longrightarrow> digest_ok H \<Longrightarrow> is_fingerprint i"
  using domain_id_fingerprint by (cases r) auto

lemma derive_ids_fingerprints:
  assumes "digest_ok H" and "derive_lease_ids H V W s pr change cycle live = Inr ids"
  shows "is_fingerprint (li_state ids)" "is_fingerprint (li_progress ids)" "opt_fingerprint (li_change ids)"
proof -
  note d = derive_idsD [OF assms(2)] and fp = domain_rbind [OF _ assms(1)]
  show "is_fingerprint (li_state ids)" using d(1) unfolding continuation_state_id_def by (rule fp)
  show "is_fingerprint (li_progress ids)" using d(2) unfolding progress_id_def by (rule fp)
  show "opt_fingerprint (li_change ids)"
  proof (cases change)
    case (Some c)
    with d(6) obtain i where "strategy_change_id H c = Inr i" "li_change ids = Some i" by (auto simp: rbind_eq_Inr)
    then show ?thesis using fp unfolding strategy_change_id_def by simp
  qed (use d(6) in auto)
qed

lemma request_id_total:
  assumes "digest_ok H" and "request_validate q = Inr ()"
  obtains rid where "request_id H q = Inr rid" "is_fingerprint rid"
  using assms by (simp add: request_id_def request_record_def domain_id_fingerprint)

section \<open>Denials\<close>

lemma receipted_id:
  "lit ''receipt_id'' \<notin> fst ` set body \<Longrightarrow> receipt_id_member (receipted H domain body) = Inr (domain_id H domain (JObj body))"
  by (simp add: receipted_def receipt_id_member_def map_add_def map_of_eq_None_iff [THEN iffD2])

definition denial_rid :: "digest \<Rightarrow> lease_denial \<Rightarrow> pystr" where
  "denial_rid H d = domain_id H ''ibae.continuation-lease-deny-receipt-id.v1''
     (JObj (denial_body d @ [(lit ''lease_denial_id'', JStr (lease_denial_id H d))]))"

lemma denial_receipt_id_eq: "denial_receipt_id H d = Inr (denial_rid H d)"
  unfolding denial_receipt_id_def denial_record_def denial_rid_def
  by (rule receipted_id) (simp add: denial_body_def)

text \<open>The successor states of a recorded denial and of the one-shot terminal denial.\<close>

definition next_aggregate :: "digest \<Rightarrow> 's continuation_state \<Rightarrow> pystr \<Rightarrow> pystr" where
  "next_aggregate H s i = domain_id H ''ibae.continuation-decision-aggregate.v1''
     (JObj [(lit ''item_type'', JStr (lit ''decision'')), (lit ''ordinal'', JInt (cs_requests s)),
            (lit ''prior'', JStr (cs_decision_aggregate s)), (lit ''receipt_id'', JStr i)])"

definition denied_successor :: "digest \<Rightarrow> 's continuation_state \<Rightarrow> lease_denial \<Rightarrow> 's continuation_state" where
  "denied_successor H s d =
     s \<lparr> cs_lineage := None, cs_requests := cs_requests s + 1, cs_denied := cs_denied s + 1,
         cs_tick := cs_tick s + 1, cs_decision_aggregate := next_aggregate H s (denial_rid H d),
         cs_receipt_ids := cs_receipt_ids s @ [denial_rid H d], cs_last_decision := lit ''denied'',
         cs_last_denial := Some (ld_reason d), cs_progress_state := denial_state (ld_reason d) \<rparr>"

definition terminal_successor :: "digest \<Rightarrow> 's continuation_state \<Rightarrow> lease_denial \<Rightarrow> 's continuation_state" where
  "terminal_successor H s d =
     s \<lparr> cs_lineage := None, cs_progress_state := LeaseExhausted, cs_terminal_receipt := Some (denial_rid H d) \<rparr>"

lemma aggregate_total:
  assumes "form_ok s" and "is_fingerprint i"
  shows "advance_decision_aggregate H (cs_decision_aggregate s) i (cs_requests s) = Inr (next_aggregate H s i)"
proof -
  have "is_fingerprint (cs_decision_aggregate s)" "0 \<le> cs_requests s" "cs_requests s \<le> 128"
    using assms(1) by (auto simp: form_ok_def state_ids_def counters_ok_def)
  moreover have "require_u64 (cs_requests s) = Inr (cs_requests s)"
    using calculation by (simp add: accept_simps max_u64_def)
  ultimately show ?thesis
    using assms(2) by (simp add: advance_decision_aggregate_def next_aggregate_def require_total)
qed

lemma denied_successor_form:
  assumes "digest_ok H" and "form_ok s" and "cs_requests s < 128" and "cs_terminal_receipt s = None"
  shows "form_core (denied_successor H s d)" and "sealed_ok W (denied_successor H s d)"
proof -
  show "form_core (denied_successor H s d)"
    using assms domain_id_fingerprint [OF assms(1)]
    unfolding form_ok_def form_core_def
    by (simp add: denied_successor_def state_ids_def state_options_def counters_ok_def endpoints_ok_def decision_ok_def
        next_aggregate_def denial_rid_def)
  show "sealed_ok W (denied_successor H s d)" by (simp add: sealed_ok_def denied_successor_def)
qed

lemma terminal_successor_form:
  assumes "digest_ok H" and "form_ok s" and "cs_pending_grant s = None"
  shows "continuation_state_init W (terminal_successor H s d) = Inr (terminal_successor H s d)"
proof -
  have "decision_ok (terminal_successor H s d) = decision_ok s" "counters_ok (terminal_successor H s d) = counters_ok s"
    by (simp_all add: terminal_successor_def decision_ok_def counters_ok_def)
  then have "form_ok (terminal_successor H s d)"
    using assms domain_id_fingerprint [OF assms(1)]
    unfolding form_ok_def
    by (simp add: terminal_successor_def state_ids_def state_options_def endpoints_ok_def denial_rid_def)
  moreover have "sealed_ok W (terminal_successor H s d)" by (simp add: sealed_ok_def terminal_successor_def)
  ultimately show ?thesis by (simp add: continuation_state_init_Inr)
qed

lemma record_denial_outcome:
  assumes "digest_ok H" and "form_ok s" and "cs_requests s < cp_max_lease_requests p" and "cp_max_lease_requests p \<le> 128"
    and "cs_terminal_receipt s = None" and "ld_tick d = cs_tick s + 1"
  shows "record_denial H W s p d =
    (if denial_rid H d \<in> set (cs_receipt_ids s) then Inl (ValueErr ''must be unique'') else Inr (denied_successor H s d))"
proof -
  have fp: "is_fingerprint (denial_rid H d)" by (simp add: denial_rid_def domain_id_fingerprint [OF assms(1)])
  have d: "distinct (cs_receipt_ids (denied_successor H s d)) \<longleftrightarrow> denial_rid H d \<notin> set (cs_receipt_ids s)"
    using assms(2) by (simp add: denied_successor_def form_ok_def)
  have "continuation_state_init W (denied_successor H s d) =
      (if denial_rid H d \<in> set (cs_receipt_ids s) then Inl (ValueErr ''must be unique'') else Inr (denied_successor H s d))"
    using init_unless_repeated [OF denied_successor_form(1) denied_successor_form(2)] assms(1-5) d by fastforce
  then show ?thesis
    using assms(3,6)
    by (simp add: record_denial_def denial_receipt_id_eq aggregate_total [OF assms(2) fp] denied_successor_def)
qed

text \<open>The denial that a checked evaluation constructs.\<close>

definition denial_of ::
  "digest \<Rightarrow> 's continuation_state \<Rightarrow> 'r continuation_request \<Rightarrow> lease_ids \<Rightarrow> pystr \<Rightarrow> lease_denial_reason \<Rightarrow>
   pystr option \<Rightarrow> bool \<Rightarrow> lease_denial"
where
  "denial_of H s q ids rid reason blocking recorded =
     \<lparr> ld_task_id = cs_task_id s, ld_governance_id = cs_governance_id s, ld_policy_id = cs_policy_id s,
       ld_request_id = rid, ld_prior_state_id = li_state ids, ld_orchestration_state_id = cs_orchestration_state_id s,
       ld_runtime_state_id = cs_runtime_state_id s, ld_progress_id = li_progress ids,
       ld_strategy_change_id = cq_strategy_change_id q, ld_lease_index = cq_lease_index q, ld_reason = reason,
       ld_tick = cs_tick s + (if recorded then 1 else 0), ld_blocking = blocking \<rparr>"

lemma request_validateD:
  assumes "request_validate q = Inr ()"
  shows "opt_fingerprint (cq_strategy_change_id q)" "0 < cq_lease_index q" "cq_lease_index q \<le> max_u64"
    "budget_ok (cq_resources q)"
  using assms
  by (auto simp: request_validate_def rbind_eq_Inr guard_eq_Inr for_each_eq_Inr accept_simps budget_ok_def list_all_iff)

lemma deny_continuation_total:
  assumes H: "digest_ok H" and s: "form_ok s" and q: "request_validate q = Inr ()" "request_id H q = Inr rid"
    and ids: "derive_lease_ids H V W s pr change cycle live = Inr ids" and b: "opt_fingerprint blocking"
  shows "deny_continuation H V W s q pr reason p blocking recorded =
    (let d = denial_of H s q ids rid reason blocking recorded in
     if recorded then rbind (record_denial H W s p d) (\<lambda>t. Inr (t, d)) else Inr (s, d))"
proof -
  let ?d = "denial_of H s q ids rid reason blocking recorded"
  have "is_fingerprint rid" using q(2) H unfolding request_id_def by (rule domain_rbind)
  moreover have "0 \<le> cs_tick s" "cs_tick s \<le> 128" using s by (auto simp: form_ok_def counters_ok_def)
  ultimately have "lease_denial_init ?d = Inr ?d"
    using s request_validateD [OF q(1)] derive_ids_fingerprints [OF H ids] b
    by (simp add: lease_denial_init_def denial_of_def res_simps accept_simps form_ok_def state_ids_def max_u64_def)
  moreover have "require_optional_fingerprint blocking = Inr ()" using b by (simp add: accept_simps)
  ultimately show ?thesis
    by (cases recorded) (simp_all add: deny_continuation_def derive_idsD(1,2) [OF ids] q(2) denial_of_def Let_def)
qed

text \<open>The successor of a denial, or \<open>None\<close> when its receipt identity is already in the history.\<close>

definition denial_recorded :: "'s continuation_state \<Rightarrow> continuation_policy \<Rightarrow> lease_denial_reason \<Rightarrow> bool" where
  "denial_recorded s p reason \<longleftrightarrow> reason \<noteq> UnauthorizedRequester \<and> cs_requests s < cp_max_lease_requests p"

definition denial_successor ::
  "digest \<Rightarrow> 's continuation_state \<Rightarrow> continuation_policy \<Rightarrow> lease_denial \<Rightarrow> 's continuation_state option"
where
  "denial_successor H s p d =
     (if denial_recorded s p (ld_reason d)
      then if denial_rid H d \<in> set (cs_receipt_ids s) then None else Some (denied_successor H s d)
      else if terminal_exhaustion s p (ld_reason d) \<and> cs_terminal_receipt s = None
      then Some (terminal_successor H s d)
      else Some s)"

lemma terminal_requests: "terminal_exhaustion s p reason \<Longrightarrow> cp_max_lease_requests p \<le> cs_requests s"
  by (auto simp: terminal_exhaustion_def)

lemma deny_lease_outcome:
  assumes H: "digest_ok H" and p: "accepted_policy p" and s: "ledger_ok p s"
    and q: "request_validate q = Inr ()" "request_id H q = Inr rid"
    and ids: "derive_lease_ids H V W s pr change cycle live = Inr ids" and b: "opt_fingerprint blocking"
    and pending: "reason \<in> {LeaseCeilingReached, LeaseRequestLimit} \<Longrightarrow> cs_pending_grant s = None"
    and d: "d = denial_of H s q ids rid reason (if reason = BlockingGovernanceViolation then blocking else None)
      (denial_recorded s p reason)"
  shows "deny_lease H V W s q pr p blocking reason =
    (case denial_successor H s p d of
       None \<Rightarrow> Inl (ValueErr ''must be unique'')
     | Some t \<Rightarrow> Inr (t, LeaseDenied d))"
proof -
  let ?b = "if reason = BlockingGovernanceViolation then blocking else None"
  have form: "form_ok s" using s by (simp add: ledger_ok_def)
  have recorded: "denial_recorded s p reason =
      (reason \<noteq> UnauthorizedRequester \<and> \<not> terminal_exhaustion s p reason \<and> cs_requests s < cp_max_lease_requests p)"
    using terminal_requests [of s p reason] by (auto simp: denial_recorded_def)
  have deny: "deny_continuation H V W s q pr reason p ?b (denial_recorded s p reason) =
      (if denial_recorded s p reason then rbind (record_denial H W s p d) (\<lambda>t. Inr (t, d)) else Inr (s, d))"
    using deny_continuation_total [OF H form q ids, of ?b reason p "denial_recorded s p reason"] b
    by (simp add: d Let_def)
  have reason: "ld_reason d = reason" by (simp add: d denial_of_def)
  have lease: "deny_lease H V W s q pr p blocking reason =
      rbind (if denial_recorded s p reason then rbind (record_denial H W s p d) (\<lambda>t. Inr (t, d)) else Inr (s, d))
        (\<lambda>(t, d). if \<not> terminal_exhaustion s p reason \<or> cs_terminal_receipt s \<noteq> None then Inr (t, LeaseDenied d)
           else rbind (denial_receipt_id H d)
             (\<lambda>i. rbind (continuation_state_init W
                (s \<lparr> cs_lineage := None, cs_progress_state := LeaseExhausted, cs_terminal_receipt := Some i \<rparr>))
             (\<lambda>t. Inr (t, LeaseDenied d))))"
    unfolding deny_lease_def Let_def recorded [symmetric] deny ..
  show ?thesis
  proof (cases "denial_recorded s p reason")
    case True
    then have "\<not> terminal_exhaustion s p reason" "cs_requests s < cp_max_lease_requests p" using recorded by blast+
    moreover from this s have "cs_terminal_receipt s = None" by (auto simp: ledger_ok_def)
    moreover have "ld_tick d = cs_tick s + 1" using True by (simp add: d denial_of_def)
    ultimately show ?thesis
      using True record_denial_outcome [OF H form _ accepted_policyD(7) [OF p], of d W]
      by (simp add: lease denial_successor_def reason)
  next
    case False
    show ?thesis
    proof (cases "terminal_exhaustion s p reason \<and> cs_terminal_receipt s = None")
      case True
      then have "cs_pending_grant s = None" using pending by (auto simp: terminal_exhaustion_def)
      from terminal_successor_form [OF H form this, of W d] True False show ?thesis
        by (simp add: lease denial_successor_def reason denial_receipt_id_eq terminal_successor_def)
    next
      case other: False
      with False show ?thesis by (auto simp: lease denial_successor_def reason)
    qed
  qed
qed

section \<open>Grants\<close>

definition grant_of ::
  "'s continuation_state \<Rightarrow> 'r continuation_request \<Rightarrow> continuation_policy \<Rightarrow> strategy_change_receipt option \<Rightarrow>
   lease_ids \<Rightarrow> pystr \<Rightarrow> 'g lease_grant"
where
  "grant_of s q p change ids rid =
     \<lparr> lg_task_id = cs_task_id s, lg_governance_id = cs_governance_id s,
       lg_governance_receipt_id = cs_governance_receipt_id s, lg_policy_id = cs_policy_id s,
       lg_policy_receipt_id = cs_policy_receipt_id s, lg_request_id = rid, lg_prior_state_id = li_state ids,
       lg_orchestration_state_id = cs_orchestration_state_id s, lg_session_id = cs_session_id s,
       lg_prior_runtime_state_id = cs_runtime_state_id s, lg_progress_id = li_progress ids,
       lg_strategy_change_id = (if change \<noteq> None then li_change ids else None),
       lg_lease_index = cq_lease_index q, lg_granted = cq_resources q,
       lg_cumulative = budget_plus (cs_cumulative s) (cq_resources q), lg_total_ceiling = cp_total_ceiling p,
       lg_tick = cs_tick s + 1, lg_seal = None \<rparr>"

definition grant_gid :: "digest \<Rightarrow> 'g lease_grant \<Rightarrow> pystr" where
  "grant_gid H g = (case lease_grant_id H g of Inr i \<Rightarrow> i | Inl e \<Rightarrow> [])"

definition grant_rid :: "digest \<Rightarrow> 'g lease_grant \<Rightarrow> pystr" where
  "grant_rid H g = (case grant_receipt_id H g of Inr i \<Rightarrow> i | Inl e \<Rightarrow> [])"

lemma grant_ids_total:
  assumes "digest_ok H" and "grant_validate g = Inr ()"
  shows "lease_grant_id H g = Inr (grant_gid H g)" "is_fingerprint (grant_gid H g)"
    and "grant_receipt_id H g = Inr (grant_rid H g)" "is_fingerprint (grant_rid H g)"
proof -
  obtain body where b: "grant_body g = Inr body" "lit ''receipt_id'' \<notin> fst ` set body"
    using assms(2) by (simp add: grant_body_def)
  then have gid: "lease_grant_id H g = Inr (domain_id H ''ibae.continuation-lease-grant-id.v1'' (JObj body))"
    by (simp add: lease_grant_id_def)
  then show "lease_grant_id H g = Inr (grant_gid H g)" "is_fingerprint (grant_gid H g)"
    by (simp_all add: grant_gid_def domain_id_fingerprint [OF assms(1)])
  from b gid have "grant_receipt_id H g = Inr (domain_id H ''ibae.continuation-lease-grant-receipt-id.v1''
      (JObj (body @ [(lit ''lease_grant_id'', JStr (grant_gid H g))])))"
    by (simp add: grant_receipt_id_def grant_record_def receipted_id grant_gid_def)
  then show "grant_receipt_id H g = Inr (grant_rid H g)" "is_fingerprint (grant_rid H g)"
    by (simp_all add: grant_rid_def domain_id_fingerprint [OF assms(1)])
qed

definition recovery_used ::
  "'s continuation_state \<Rightarrow> progress_record \<Rightarrow> strategy_change_receipt option \<Rightarrow> lease_ids \<Rightarrow> bool"
where
  "recovery_used s pr change ids \<longleftrightarrow> change \<noteq> None \<and> (li_live ids \<noteq> None \<or> \<not> progress_admitted s pr ids)"

text \<open>The successor of a grant.\<close>

definition granted_successor ::
  "digest \<Rightarrow> 's continuation_state \<Rightarrow> progress_record \<Rightarrow> strategy_change_receipt option \<Rightarrow> lease_ids \<Rightarrow> 'g lease_grant \<Rightarrow>
   's continuation_state"
where
  "granted_successor H s pr change ids g =
     s \<lparr> cs_lineage := None, cs_requests := cs_requests s + 1, cs_granted := cs_granted s + 1,
         cs_cumulative := lg_cumulative g, cs_tick := cs_tick s + 1,
         cs_decision_aggregate := next_aggregate H s (grant_rid H g),
         cs_receipt_ids := cs_receipt_ids s @ [grant_rid H g],
         cs_recoveries := cs_recoveries s + (if recovery_used s pr change ids then 1 else 0),
         cs_strategy_material_id :=
           (case change of Some c \<Rightarrow> Some (sc_proposed_material_id c) | None \<Rightarrow> cs_strategy_material_id s),
         cs_last_progress_id := Some (li_progress ids),
         cs_consumed_progress_id :=
           (if progress_admitted s pr ids then Some (li_progress ids) else cs_consumed_progress_id s),
         cs_consumed_endpoint :=
           (if progress_admitted s pr ids then external_endpoint_id H pr (pr_current_measures pr)
            else cs_consumed_endpoint s),
         cs_last_classification := Some (pr_classification pr),
         cs_last_decision := lit ''granted'', cs_last_denial := None,
         cs_progress_state := (if recovery_used s pr change ids then StrategyChanged else Progressing),
         cs_pending_grant := Some (grant_gid H g), cs_pending_receipt := Some (grant_rid H g) \<rparr>"

lemma no_denialD:
  assumes "first_denial (denial_table authorized s q p pr change live blocking ids) = None"
  shows "cq_requester q = SupervisorRequester" "authorized" "cs_pending_grant s = None"
    "cs_last_progress_id s = Some (li_progress ids)" "cs_granted s < max_leases p"
    "cs_requests s < cp_max_lease_requests p" "cq_lease_index q = cs_granted s + 1"
    "\<not> budget_is_zero (cq_resources q)" "mutation_delta (cq_resources q) = 0"
    "budget_within (cq_resources q) (cp_lease_schedule p ! nat (cs_granted s))"
    "change \<noteq> None \<Longrightarrow> cs_recoveries s < cp_max_strategy_recoveries p"
    "change = None \<Longrightarrow> progress_admitted s pr ids"
  using assms unfolding first_denial_None denial_table_def entry_table_def support_table_def progress_admitted_def
  by auto

lemma external_endpoint_fingerprint:
  "digest_ok H \<Longrightarrow> opt_fingerprint (external_endpoint_id H pr ms)"
  by (simp add: external_endpoint_id_def Let_def domain_id_fingerprint)

lemma grant_of_valid:
  fixes g :: "'g lease_grant"
  assumes H: "digest_ok H" and p: "accepted_policy p" and s: "ledger_ok p s"
    and q: "request_validate q = Inr ()" "request_id H q = Inr rid"
    and ids: "derive_lease_ids H V W s pr change cycle live = Inr ids"
    and none: "first_denial (denial_table authorized s q p pr change live blocking ids) = None"
    and g: "g = grant_of s q p change ids rid"
  shows "grant_validate g = Inr ()" and "lease_grant_init H G g = Inr g"
    and "budget_ok (lg_cumulative g)"
    and "budget_within (lg_cumulative g) (budget_sum budget_zero (take (nat (cs_granted s + 1)) (cp_lease_schedule p)))"
proof -
  note n = no_denialD [OF none] and qv = request_validateD [OF q(1)] and f = derive_ids_fingerprints [OF H ids]
  note sum = scheduled_sum [OF p s n(5) qv(4) n(10)]
  have rid: "is_fingerprint rid" using q(2) H unfolding request_id_def by (rule domain_rbind)
  have fp: "\<forall>i \<in> set (grant_identities g). is_fingerprint i"
    using s f rid by (simp add: g grant_of_def grant_identities_def ledger_ok_def form_ok_def state_ids_def)
  have tick: "0 \<le> cs_tick s" "cs_tick s \<le> 128" using s by (auto simp: ledger_ok_def form_ok_def counters_ok_def)
  have change: "opt_fingerprint (lg_strategy_change_id g)" using f(3) by (simp add: g grant_of_def)
  have within: "budget_within (lg_cumulative g) (lg_total_ceiling g)"
    using budget_within_trans [OF sum(1) budget_within_trans [OF schedule_prefix_within accepted_policyD(9)]] p
    by (simp add: g grant_of_def)
  have amounts: "budget_ok (lg_granted g)" "budget_ok (lg_cumulative g)" "budget_ok (lg_total_ceiling g)"
    using qv(4) sum(2) accepted_policyD(8) [OF p] by (simp_all add: g grant_of_def)
  then have u64: "\<forall>b \<in> set [lg_granted g, lg_cumulative g, lg_total_ceiling g]. \<forall>v \<in> set (budget_values b). 0 \<le> v \<and> v \<le> max_u64"
    by (simp add: budget_ok_def list_all_iff)
  have index: "0 < lg_lease_index g" "lg_lease_index g \<le> max_u64" "0 \<le> lg_tick g" "lg_tick g \<le> max_u64"
    using qv(2,3) tick by (simp_all add: g grant_of_def max_u64_def)
  have carry: "\<not> budget_is_zero (lg_granted g)" "mutation_delta (lg_granted g) = 0" "lg_seal g = None"
    using n(8,9) by (simp_all add: g grant_of_def)
  show "grant_validate g = Inr ()"
    unfolding grant_validate_def rbind_eq_Inr guard_eq_Inr for_each_eq_Inr accept_simps
    using fp change within u64 index carry by auto
  show "lease_grant_init H G g = Inr g"
    unfolding lease_grant_init_def rbind_eq_Inr guard_eq_Inr for_each_eq_Inr accept_simps check_grant_seal_def
    using fp change within index carry by auto
  show "budget_ok (lg_cumulative g)" by (rule amounts)
  show "budget_within (lg_cumulative g) (budget_sum budget_zero (take (nat (cs_granted s + 1)) (cp_lease_schedule p)))"
    using sum(1) by (simp add: g grant_of_def)
qed

lemma change_material:
  assumes "check_evaluation_inputs H V W s q p r pr change cycle blocking = Inr ()"
  shows "opt_fingerprint (case change of Some c \<Rightarrow> Some (sc_proposed_material_id c) | None \<Rightarrow> None)"
  using check_inputsD(7) [OF assms]
  by (cases change) (auto simp: strategy_change_validate_def rbind_eq_Inr for_each_eq_Inr accept_simps)

lemma granted_successor_form:
  fixes g :: "'g lease_grant"
  assumes H: "digest_ok H" and p: "accepted_policy p" and s: "ledger_ok p s"
    and inputs: "check_evaluation_inputs H V W s q p r pr change cycle blocking = Inr ()"
    and q: "request_id H q = Inr rid"
    and ids: "derive_lease_ids H V W s pr change cycle live = Inr ids"
    and none: "first_denial (denial_table authorized s q p pr change live blocking ids) = None"
    and g: "g = grant_of s q p change ids rid"
  shows "form_core (granted_successor H s pr change ids g \<lparr> cs_consumed_endpoint := None \<rparr>)"
    and "opt_fingerprint (cs_consumed_endpoint (granted_successor H s pr change ids g))"
    and "0 < cs_granted (granted_successor H s pr change ids g)" and "sealed_ok W (granted_successor H s pr change ids g)"
proof -
  let ?t = "granted_successor H s pr change ids g \<lparr> cs_consumed_endpoint := None \<rparr>"
  note n = no_denialD [OF none] and qv = check_inputsD(2) [OF inputs]
  have form: "form_ok s" using s by (simp add: ledger_ok_def)
  note gr = grant_ids_total [OF H grant_of_valid(1) [OF H p s qv q ids none g]]
  have "cs_terminal_receipt s = None" using s n(6) by (auto simp: ledger_ok_def)
  then have end_ok: "endpoints_ok ?t"
    using form n(4) by (auto simp: form_ok_def endpoints_ok_def granted_successor_def)
  have "list_all opt_fingerprint (state_options ?t)"
    using form gr(2,4) derive_ids_fingerprints(2) [OF H ids] change_material [OF inputs]
    by (cases change) (simp_all add: form_ok_def state_options_def granted_successor_def)
  moreover have "list_all is_fingerprint (state_ids ?t)"
    using form by (simp add: form_ok_def state_ids_def granted_successor_def next_aggregate_def domain_id_fingerprint [OF H])
  moreover have "counters_ok ?t"
    using form n(6) accepted_policyD(7) [OF p] by (auto simp: form_ok_def counters_ok_def granted_successor_def)
  moreover have "decision_ok ?t"
    using form by (simp add: form_ok_def counters_ok_def decision_ok_def granted_successor_def)
  ultimately show "form_core ?t"
    using end_ok form gr(4) unfolding form_core_def form_ok_def by (simp add: granted_successor_def)
  show "opt_fingerprint (cs_consumed_endpoint (granted_successor H s pr change ids g))"
    using form external_endpoint_fingerprint [OF H] by (simp add: form_ok_def state_options_def granted_successor_def)
  show "0 < cs_granted (granted_successor H s pr change ids g)"
    using ledger_okD(1) [OF s] by (simp add: granted_successor_def)
  show "sealed_ok W (granted_successor H s pr change ids g)" by (simp add: sealed_ok_def granted_successor_def)
qed

lemma grant_lease_outcome:
  fixes g :: "'g lease_grant"
  assumes H: "digest_ok H" and p: "accepted_policy p" and s: "ledger_ok p s"
    and inputs: "check_evaluation_inputs H V W s q p r pr change cycle blocking = Inr ()"
    and q: "request_id H q = Inr rid"
    and ids: "derive_lease_ids H V W s pr change cycle live = Inr ids"
    and none: "first_denial (denial_table authorized s q p pr change live blocking ids) = None"
    and g: "g = grant_of s q p change ids rid"
  shows "grant_lease H V W G s q pr p change ids (budget_plus (cs_cumulative s) (cq_resources q)) (change \<noteq> None) =
    rbind (continuation_state_init W (granted_successor H s pr change ids g)) (\<lambda>t. Inr (t, LeaseGranted g))"
proof -
  note qv = check_inputsD(2) [OF inputs]
  note v = grant_of_valid [OF H p s qv q ids none g]
  note gr = grant_ids_total [OF H v(1)]
  have form: "form_ok s" using s by (simp add: ledger_ok_def)
  have recorded: "lease_grant_init H G (grant_of s q p change ids rid) = Inr g" using v(2) g by simp
  show ?thesis
    unfolding grant_lease_def q rbind_Inr grant_of_def [symmetric] recorded gr(1,3) aggregate_total [OF form gr(4)] Let_def
      recovery_used_def [symmetric]
    by (cases change) (simp_all add: granted_successor_def recovery_used_def g grant_of_def)
qed

section \<open>The outcome of an evaluation\<close>

text \<open>
  The specification of the evaluation: the table decides, and a grant or the denial of the first row
  follows. A receipt identity that is already in the history is refused, and so is a grant that would
  consume an external endpoint on a ledger without a live one.
\<close>

definition endpoint_missing ::
  "digest \<Rightarrow> 's continuation_state \<Rightarrow> progress_record \<Rightarrow> lease_ids \<Rightarrow> bool"
where
  "endpoint_missing H s pr ids \<longleftrightarrow>
     progress_admitted s pr ids \<and> external_endpoint_id H pr (pr_current_measures pr) \<noteq> None \<and>
     cs_external_endpoint s = None"

definition lease_outcome ::
  "digest \<Rightarrow> 's continuation_state \<Rightarrow> 'r continuation_request \<Rightarrow> runtime_snapshot \<Rightarrow> continuation_policy \<Rightarrow>
   progress_record \<Rightarrow> strategy_change_receipt option \<Rightarrow> pystr option \<Rightarrow> bool \<Rightarrow> lease_ids \<Rightarrow> pystr \<Rightarrow>
   ('s continuation_state \<times> 'g lease_receipt) res"
where
  "lease_outcome H s q live p pr change blocking authorized ids rid =
     (case first_denial (denial_table authorized s q p pr change live blocking ids) of
        Some reason \<Rightarrow>
          (let d = denial_of H s q ids rid reason (if reason = BlockingGovernanceViolation then blocking else None)
                     (denial_recorded s p reason) in
           case denial_successor H s p d of
             None \<Rightarrow> Inl (ValueErr ''must be unique'')
           | Some t \<Rightarrow> Inr (t, LeaseDenied d))
      | None \<Rightarrow>
          (let g = grant_of s q p change ids rid in
           if grant_rid H g \<in> set (cs_receipt_ids s) then Inl (ValueErr ''must be unique'')
           else if endpoint_missing H s pr ids
           then Inl (ValueErr ''consumed external progress requires a live external endpoint'')
           else Inr (granted_successor H s pr change ids g, LeaseGranted g)))"

lemma granted_successor_init:
  fixes g :: "'g lease_grant"
  assumes H: "digest_ok H" and p: "accepted_policy p" and s: "ledger_ok p s"
    and inputs: "check_evaluation_inputs H V W s q p r pr change cycle blocking = Inr ()"
    and q: "request_id H q = Inr rid"
    and ids: "derive_lease_ids H V W s pr change cycle live = Inr ids"
    and none: "first_denial (denial_table authorized s q p pr change live blocking ids) = None"
    and g: "g = grant_of s q p change ids rid"
  shows "continuation_state_init W (granted_successor H s pr change ids g) =
    (if grant_rid H g \<in> set (cs_receipt_ids s) then Inl (ValueErr ''must be unique'')
     else if endpoint_missing H s pr ids
     then Inl (ValueErr ''consumed external progress requires a live external endpoint'')
     else Inr (granted_successor H s pr change ids g))"
proof -
  let ?t = "granted_successor H s pr change ids g"
  note f = granted_successor_form [OF H p s inputs q ids none g]
  have form: "form_ok s" using s by (simp add: ledger_ok_def)
  have dist: "distinct (cs_receipt_ids ?t) \<longleftrightarrow> grant_rid H g \<notin> set (cs_receipt_ids s)"
    using form by (simp add: granted_successor_def form_ok_def)
  have missing: "endpoint_missing H s pr ids \<longleftrightarrow> cs_consumed_endpoint ?t \<noteq> None \<and> cs_external_endpoint ?t = None"
    using form by (auto simp: endpoint_missing_def granted_successor_def form_ok_def endpoints_ok_def)
  have parts: "counters_ok ?t" "list_all is_fingerprint (cs_receipt_ids ?t)" "list_all is_fingerprint (state_ids ?t)"
    using f(1) by (simp_all add: form_core_def counters_ok_def state_ids_def)
  show ?thesis
    using init_repeated [OF parts] init_endpoint_refused [OF f(1-3)] form_core_endpoint [OF f(1-3)]
      init_unless_repeated [OF _ f(4)] by (simp add: dist missing)
qed

lemma terminal_rows:
  assumes "first_denial (denial_table authorized s q p pr change live blocking ids) = Some reason"
    and "reason \<in> {LeaseCeilingReached, LeaseRequestLimit}"
  shows "cs_pending_grant s = None"
proof (rule ccontr)
  assume pending: "cs_pending_grant s \<noteq> None"
  have "entry_table authorized s q p pr live blocking ids =
      take 6 (entry_table authorized s q p pr live blocking ids) @ drop 6 (entry_table authorized s q p pr live blocking ids)"
    by simp
  moreover have "(True, PendingLeaseApplication) \<in> set (take 6 (entry_table authorized s q p pr live blocking ids))"
    using pending by (simp add: entry_table_def)
  then obtain r where r: "first_denial (take 6 (entry_table authorized s q p pr live blocking ids)) = Some r"
    using first_denial_None by (cases "first_denial (take 6 (entry_table authorized s q p pr live blocking ids))") fastforce+
  ultimately have "reason = r"
    using assms(1) unfolding denial_table_def by (metis first_denial_append option.simps(5) option.inject)
  moreover have "r \<notin> {LeaseCeilingReached, LeaseRequestLimit}"
    using first_denial_Some [OF r] by (auto simp: entry_table_def)
  ultimately show False using assms(2) by blast
qed

lemma evaluate_lease_outcome:
  fixes G :: "'g \<Rightarrow> pystr \<Rightarrow> bool"
  assumes H: "digest_ok H" and p: "accepted_policy p" and s: "ledger_ok p s"
    and inputs: "check_evaluation_inputs H V W s q p r pr change cycle blocking = Inr ()"
    and q: "request_id H q = Inr rid"
    and ids: "derive_lease_ids H V W s pr change cycle live = Inr ids"
  shows "evaluate_lease H V W G s q live p r pr change cycle blocking authorized =
    lease_outcome H s q live p pr change blocking authorized ids rid"
proof -
  let ?table = "denial_table authorized s q p pr change live blocking ids"
  note qv = check_inputsD(2) [OF inputs]
  have verdict: "lease_verdict authorized s q p pr change live blocking ids = Inr (case first_denial ?table of
      Some r \<Rightarrow> Inl r | None \<Rightarrow> Inr (budget_plus (cs_cumulative s) (cq_resources q), change \<noteq> None))"
    by (rule lease_verdict_table [OF p s request_validateD(4) [OF qv]])
  show ?thesis
  proof (cases "first_denial ?table")
    case None
    define g :: "'g lease_grant" where "g = grant_of s q p change ids rid"
    show ?thesis
      using grant_lease_outcome [OF H p s inputs q ids None g_def, of G]
        granted_successor_init [OF H p s inputs q ids None g_def]
      by (simp add: evaluate_lease_def inputs ids verdict None lease_outcome_def g_def [symmetric])
  next
    case (Some reason)
    define d where "d = denial_of H s q ids rid reason (if reason = BlockingGovernanceViolation then blocking else None)
        (denial_recorded s p reason)"
    have "deny_lease H V W s q pr p blocking reason =
      (case denial_successor H s p d of
         None \<Rightarrow> Inl (ValueErr ''must be unique'') | Some t \<Rightarrow> Inr (t, LeaseDenied d :: 'g lease_receipt))"
      by (rule deny_lease_outcome [OF H p s qv q ids check_inputsD(1) [OF inputs] terminal_rows [OF Some] d_def])
    moreover have "lease_outcome H s q live p pr change blocking authorized ids rid =
      (case denial_successor H s p d of
         None \<Rightarrow> Inl (ValueErr ''must be unique'') | Some t \<Rightarrow> Inr (t, LeaseDenied d :: 'g lease_receipt))"
      unfolding lease_outcome_def Some option.case Let_def d_def ..
    ultimately show ?thesis by (simp add: evaluate_lease_def inputs ids verdict Some)
  qed
qed

section \<open>The bounds of the successors\<close>

lemma denied_successor_ok:
  assumes "digest_ok H" and "accepted_policy p" and "ledger_ok p s" and "cs_requests s < cp_max_lease_requests p"
    and "denial_rid H d \<notin> set (cs_receipt_ids s)"
  shows "ledger_ok p (denied_successor H s d)"
proof -
  have "form_ok s" "cs_terminal_receipt s = None" using assms(3,4) by (auto simp: ledger_ok_def)
  then have "form_ok (denied_successor H s d)"
    using denied_successor_form(1) [OF assms(1) \<open>form_ok s\<close>] accepted_policyD(7) [OF assms(2)] assms(4,5)
    by (simp add: form_ok_core) (simp add: denied_successor_def)
  then show ?thesis using assms(3,4) unfolding ledger_ok_def by (simp add: denied_successor_def)
qed

lemma terminal_successor_ok:
  assumes "digest_ok H" and "ledger_ok p s" and "cs_pending_grant s = None" and "cp_max_lease_requests p \<le> cs_requests s"
  shows "ledger_ok p (terminal_successor H s d)"
proof -
  have "form_ok (terminal_successor H s d)"
    using terminal_successor_form [OF assms(1) _ assms(3), of "\<lambda>_ _. True" d] assms(2)
    by (simp add: ledger_ok_def continuation_state_init_Inr)
  then show ?thesis using assms(2,4) unfolding ledger_ok_def by (simp add: terminal_successor_def)
qed

lemma granted_successor_ok:
  fixes g :: "'g lease_grant"
  assumes H: "digest_ok H" and p: "accepted_policy p" and s: "ledger_ok p s"
    and inputs: "check_evaluation_inputs H V W s q p r pr change cycle blocking = Inr ()"
    and q: "request_id H q = Inr rid"
    and ids: "derive_lease_ids H V W s pr change cycle live = Inr ids"
    and none: "first_denial (denial_table authorized s q p pr change live blocking ids) = None"
    and g: "g = grant_of s q p change ids rid"
    and init: "form_ok (granted_successor H s pr change ids g)"
  shows "ledger_ok p (granted_successor H s pr change ids g)"
proof -
  note n = no_denialD [OF none]
  note v = grant_of_valid(3,4) [OF H p s check_inputsD(2) [OF inputs] q ids none g]
  have "cs_recoveries s + (if recovery_used s pr change ids then 1 else 0) \<le> cp_max_strategy_recoveries p"
    using n(11) s by (auto simp: recovery_used_def ledger_ok_def)
  moreover have "cs_terminal_receipt s = None" using s n(6) by (auto simp: ledger_ok_def)
  ultimately show ?thesis
    using s n(5,6) v init unfolding ledger_ok_def by (simp add: granted_successor_def)
qed

end
