(* ===== verification/Lease_Run.thy ===== *)
theory Lease_Run
  imports Lease_Outcome
begin

text \<open>
  Runs of the continuation ledger: evaluations, observations and commits in any order, each successor
  sealed by the native session. The bounds of the policy hold along every run.
\<close>

section \<open>What one step returns\<close>

lemma denial_successor_cases:
  assumes "denial_successor H s p d = Some t"
  obtains "t = s"
    | "t = denied_successor H s d" "denial_recorded s p (ld_reason d)" "denial_rid H d \<notin> set (cs_receipt_ids s)"
    | "t = terminal_successor H s d" "terminal_exhaustion s p (ld_reason d)" "cs_terminal_receipt s = None"
  using assms by (auto simp: denial_successor_def split: if_splits)

lemma denial_successor_ok:
  assumes H: "digest_ok H" and p: "accepted_policy p" and s: "ledger_ok p s" and t: "denial_successor H s p d = Some t"
    and first: "first_denial (denial_table authorized s q p pr change live blocking ids) = Some (ld_reason d)"
  shows "ledger_ok p t"
  using t
proof (cases rule: denial_successor_cases)
  case 1 then show ?thesis using s by simp
next
  case 2
  then show ?thesis using denied_successor_ok [OF H p s] by (simp add: denial_recorded_def)
next
  case 3
  have "cs_pending_grant s = None" using terminal_rows [OF first] 3(2) by (auto simp: terminal_exhaustion_def)
  then show ?thesis using terminal_successor_ok [OF H s] terminal_requests [OF 3(2)] 3(1) by simp
qed

lemma evaluate_lease_cases:
  fixes G :: "'g \<Rightarrow> pystr \<Rightarrow> bool"
  assumes H: "digest_ok H" and p: "accepted_policy p" and s: "ledger_ok p s"
    and e: "evaluate_lease H V W G s q live p r pr change cycle blocking authorized = Inr (t, rc)"
  obtains ids rid where "derive_lease_ids H V W s pr change cycle live = Inr ids"
      "check_evaluation_inputs H V W s q p r pr change cycle blocking = Inr ()" "request_id H q = Inr rid"
      "lease_outcome H s q live p pr change blocking authorized ids rid = Inr (t, rc)" "form_ok t"
proof -
  have inputs: "check_evaluation_inputs H V W s q p r pr change cycle blocking = Inr ()"
    using e by (auto simp: evaluate_lease_def rbind_eq_Inr)
  obtain ids where ids: "derive_lease_ids H V W s pr change cycle live = Inr ids"
    using e by (auto simp: evaluate_lease_def rbind_eq_Inr)
  obtain rid where q: "request_id H q = Inr rid" using request_id_total [OF H check_inputsD(2) [OF inputs]] by blast
  have out: "lease_outcome H s q live p pr change blocking authorized ids rid = Inr (t, rc)"
    using evaluate_lease_outcome [OF H p s inputs q ids, of G authorized] e by simp
  have "form_ok t"
  proof (cases "first_denial (denial_table authorized s q p pr change live blocking ids)")
    case None
    define g :: "'g lease_grant" where "g = grant_of s q p change ids rid"
    have "continuation_state_init W (granted_successor H s pr change ids g) = Inr t"
      using out granted_successor_init [OF H p s inputs q ids None g_def]
      by (auto simp: lease_outcome_def None Let_def g_def split: if_splits)
    then show ?thesis by (simp add: continuation_state_init_Inr)
  next
    case (Some reason)
    define d where "d = denial_of H s q ids rid reason (if reason = BlockingGovernanceViolation then blocking else None)
        (denial_recorded s p reason)"
    have "(case denial_successor H s p d of
        None \<Rightarrow> Inl (ValueErr ''must be unique'') | Some t \<Rightarrow> Inr (t, LeaseDenied d :: 'g lease_receipt)) = Inr (t, rc)"
      using out unfolding lease_outcome_def Some option.case Let_def d_def .
    then have "denial_successor H s p d = Some t" by (auto split: option.splits)
    moreover have "ld_reason d = reason" by (simp add: d_def denial_of_def)
    ultimately have "ledger_ok p t" using denial_successor_ok [OF H p s] Some by metis
    then show ?thesis by (simp add: ledger_ok_def)
  qed
  with ids inputs q out that show ?thesis by blast
qed

text \<open>The three ways an evaluation can change the ledger, and the fields it leaves alone.\<close>

lemma evaluate_lease_step:
  fixes G :: "'g \<Rightarrow> pystr \<Rightarrow> bool"
  assumes H: "digest_ok H" and p: "accepted_policy p" and s: "ledger_ok p s"
    and e: "evaluate_lease H V W G s q live p r pr change cycle blocking authorized = Inr (t, rc)"
  obtains
    (granted) g where "rc = LeaseGranted g" "ledger_ok p t" "cs_requests t = cs_requests s + 1"
      "cs_granted t = cs_granted s + 1" "cs_denied t = cs_denied s" "cs_pending_grant s = None" "cs_pending_grant t \<noteq> None"
      "cs_cumulative t = budget_plus (cs_cumulative s) (lg_granted g)" "cs_lineage t = None"
      "cs_terminal_receipt t = cs_terminal_receipt s" "authorized"
  | (denied) d where "rc = LeaseDenied d" "ledger_ok p t" "cs_requests t = cs_requests s + 1"
      "cs_granted t = cs_granted s" "cs_denied t = cs_denied s + 1" "cs_pending_grant t = cs_pending_grant s"
      "cs_cumulative t = cs_cumulative s" "cs_lineage t = None" "cs_terminal_receipt t = cs_terminal_receipt s" "authorized"
  | (exhausted) d where "rc = LeaseDenied d" "ledger_ok p t" "cs_requests t = cs_requests s"
      "cs_granted t = cs_granted s" "cs_denied t = cs_denied s" "cs_pending_grant t = cs_pending_grant s"
      "cs_cumulative t = cs_cumulative s" "cs_lineage t = None" "cs_terminal_receipt s = None"
      "cs_terminal_receipt t \<noteq> None" "authorized"
  | (neutral) d where "rc = LeaseDenied d" "t = s"
proof -
  obtain ids rid where ids: "derive_lease_ids H V W s pr change cycle live = Inr ids"
    and inputs: "check_evaluation_inputs H V W s q p r pr change cycle blocking = Inr ()" and q: "request_id H q = Inr rid"
    and out: "lease_outcome H s q live p pr change blocking authorized ids rid = Inr (t, rc)" "form_ok t"
    using evaluate_lease_cases [OF H p s e] .
  let ?table = "denial_table authorized s q p pr change live blocking ids"
  show thesis
  proof (cases "first_denial ?table")
    case None
    define g :: "'g lease_grant" where "g = grant_of s q p change ids rid"
    have t: "t = granted_successor H s pr change ids g" "rc = LeaseGranted g"
      using out(1) by (auto simp: lease_outcome_def None Let_def g_def split: if_splits)
    have "ledger_ok p t"
      using granted_successor_ok [OF H p s inputs q ids None g_def] out(2) t(1) by simp
    then show thesis
      using no_denialD(2,3) [OF None] by (intro granted [OF t(2)]) (simp_all add: t(1) granted_successor_def g_def grant_of_def)
  next
    case (Some reason)
    define d where "d = denial_of H s q ids rid reason (if reason = BlockingGovernanceViolation then blocking else None)
        (denial_recorded s p reason)"
    have rd: "ld_reason d = reason" by (simp add: d_def denial_of_def)
    have auth: authorized if "reason \<noteq> UnauthorizedRequester"
      using Some that by (auto simp: denial_table_def entry_table_def split: if_splits)
    have "(case denial_successor H s p d of
        None \<Rightarrow> Inl (ValueErr ''must be unique'') | Some t \<Rightarrow> Inr (t, LeaseDenied d :: 'g lease_receipt)) = Inr (t, rc)"
      using out(1) unfolding lease_outcome_def Some option.case Let_def d_def .
    then have succ: "denial_successor H s p d = Some t" and rc: "rc = LeaseDenied d" by (auto split: option.splits)
    then have ok: "ledger_ok p t" using denial_successor_ok [OF H p s] Some rd by metis
    from succ show thesis
    proof (cases rule: denial_successor_cases)
      case 1 then show thesis using neutral [OF rc] by blast
    next
      case 2
      have authorized using auth 2(2) by (simp add: denial_recorded_def rd)
      with ok show thesis by (intro denied [OF rc]) (simp_all add: 2(1) denied_successor_def)
    next
      case 3
      have authorized using auth 3(2) by (auto simp: terminal_exhaustion_def rd)
      with ok show thesis using 3(3) by (intro exhausted [OF rc]) (simp_all add: 3(1) terminal_successor_def)
    qed
  qed
qed

section \<open>Observation, commit and sealing\<close>

lemma with_native_lineage_Inr:
  "with_native_lineage W s seal = Inr t \<Longrightarrow> t = s \<lparr> cs_lineage := Some seal \<rparr>"
  by (auto simp: with_native_lineage_def rbind_eq_Inr continuation_state_init_Inr)

lemma require_policyD:
  assumes "require_policy H W s p = Inr ()"
  shows "cs_lineage s \<noteq> None"
  using assms unfolding require_policy_def rbind_eq_Inr by (auto simp: require_decision_lineage_def split: option.splits)

text \<open>The decision ledger: everything but the context, the progress endpoint and the pending grant.\<close>

definition same_decisions :: "'s continuation_state \<Rightarrow> 's continuation_state \<Rightarrow> bool" where
  "same_decisions s t \<longleftrightarrow>
     cs_requests t = cs_requests s \<and> cs_granted t = cs_granted s \<and> cs_denied t = cs_denied s \<and>
     cs_cumulative t = cs_cumulative s \<and> cs_receipt_ids t = cs_receipt_ids s \<and> cs_recoveries t = cs_recoveries s \<and>
     cs_decision_aggregate t = cs_decision_aggregate s \<and> cs_strategy_material_id t = cs_strategy_material_id s \<and>
     cs_consumed_progress_id t = cs_consumed_progress_id s \<and> cs_consumed_endpoint t = cs_consumed_endpoint s \<and>
     cs_last_decision t = cs_last_decision s \<and> cs_last_denial t = cs_last_denial s \<and>
     cs_terminal_receipt t = cs_terminal_receipt s \<and> cs_session_id t = cs_session_id s"

lemma observe_context_step:
  assumes "ledger_ok p s" and "observe_context H V W s p os snap progress strategy = Inr t"
  shows "ledger_ok p t" and "same_decisions s t" and "cs_pending_grant s = None" and "cs_pending_grant t = None"
    and "cs_orchestration_state_id t = state_id H os" and "progress = None \<Longrightarrow> cs_orchestration_state_id s = state_id H os"
    and "progress = Some pr \<Longrightarrow> cs_terminal_receipt s = None \<and> pr_prior_state_id pr = cs_orchestration_state_id s \<and>
       pr_current_state_id pr = state_id H os \<and> progress_id H V pr = Inr (the (cs_last_progress_id t)) \<and>
       cs_progress_count t = cs_progress_count s + 1"
    and "progress = None \<Longrightarrow> cs_last_progress_id t = cs_last_progress_id s \<and> cs_progress_count t = cs_progress_count s"
proof -
  obtain u where pending: "cs_pending_grant s = None" and progress: "check_observed_progress H s p os progress = Inr ()"
    and u: "apply_progress H V s progress = Inr u"
    and t: "t = u \<lparr> cs_lineage := None, cs_orchestration_state_id := state_id H os, cs_runtime_state_id := rs_state_id snap \<rparr>"
      "form_ok t"
    using assms(2)
    by (auto simp: observe_context_def rbind_eq_Inr guard_eq_Inr continuation_state_init_Inr has_pending_grant_def)
  have same: "same_decisions s t \<and> cs_pending_grant t = cs_pending_grant s"
    using u by (cases progress) (auto simp: apply_progress_def rbind_eq_Inr t(1) same_decisions_def)
  then show "same_decisions s t" "cs_pending_grant t = None" using pending by auto
  show "cs_pending_grant s = None" by (rule pending)
  show "cs_orchestration_state_id t = state_id H os" by (simp add: t(1))
  show "progress = None \<Longrightarrow> cs_orchestration_state_id s = state_id H os"
    using progress by (simp add: check_observed_progress_def guard_eq_Inr)
  show none: "progress = None \<Longrightarrow> cs_last_progress_id t = cs_last_progress_id s \<and> cs_progress_count t = cs_progress_count s"
    using u by (simp add: apply_progress_def t(1))
  show some: "progress = Some pr \<Longrightarrow> cs_terminal_receipt s = None \<and> pr_prior_state_id pr = cs_orchestration_state_id s \<and>
       pr_current_state_id pr = state_id H os \<and> progress_id H V pr = Inr (the (cs_last_progress_id t)) \<and>
       cs_progress_count t = cs_progress_count s + 1"
  proof -
    assume pr: "progress = Some pr"
    have "cs_progress_state t = control_state pr" using u by (auto simp: apply_progress_def pr rbind_eq_Inr t(1))
    then have "cs_progress_state t \<noteq> LeaseExhausted" by (simp add: control_state_def)
    then have "cs_terminal_receipt t = None" using t(2) by (auto simp: form_ok_def endpoints_ok_def)
    then show ?thesis
      using same u progress
      by (auto simp: apply_progress_def check_observed_progress_def pr rbind_eq_Inr guard_eq_Inr t(1) same_decisions_def)
  qed
  have "cs_progress_count t \<le> cp_max_lease_requests p + 1"
  proof (cases progress)
    case None then show ?thesis using none assms(1) by (simp add: ledger_ok_def)
  next
    case (Some pr)
    then have "cs_progress_count s < cp_max_lease_requests p + 1"
      using progress by (auto simp: check_observed_progress_def rbind_eq_Inr guard_eq_Inr)
    moreover have "cs_progress_count t = cs_progress_count s + 1"
      using u by (auto simp: apply_progress_def Some rbind_eq_Inr t(1))
    ultimately show ?thesis by simp
  qed
  then show "ledger_ok p t" using same t(2) assms(1) unfolding ledger_ok_def same_decisions_def by auto
qed

lemma commit_step:
  assumes "ledger_ok p s" and "commit_lease_application H W s p g a snap = Inr t"
  shows "ledger_ok p t" and "same_decisions s t" and "cs_pending_grant s \<noteq> None" and "cs_pending_grant t = None"
    and "lease_grant_id H g = Inr (the (cs_pending_grant s))" and "la_accepted a" and "lg_cumulative g = cs_cumulative s"
    and "\<exists>b. budget_add (cp_initial_budget p) (cs_cumulative s) = Inr b \<and> limits_match (rs_limits snap) b"
    and "cs_runtime_state_id t = rs_state_id snap" and "la_prior_state_id a = cs_runtime_state_id s"
proof -
  obtain gid rid where c: "lease_grant_id H g = Inr gid" "application_matches s p gid rid a snap" "la_accepted a"
      "lg_cumulative g = cs_cumulative s" "check_applied_context s p gid snap = Inr ()"
    and t: "t = s \<lparr> cs_lineage := None, cs_runtime_state_id := rs_state_id snap, cs_pending_grant := None,
      cs_pending_receipt := None \<rparr>" "form_ok t"
    using assms(2)
    by (auto simp: commit_lease_application_def rbind_eq_Inr guard_eq_Inr continuation_state_init_Inr)
  show "same_decisions s t" "cs_pending_grant t = None" "cs_runtime_state_id t = rs_state_id snap"
    by (simp_all add: t(1) same_decisions_def)
  show "cs_pending_grant s \<noteq> None" "lease_grant_id H g = Inr (the (cs_pending_grant s))" "la_accepted a"
      "lg_cumulative g = cs_cumulative s" "la_prior_state_id a = cs_runtime_state_id s"
    using c by (simp_all add: application_matches_def)
  show "\<exists>b. budget_add (cp_initial_budget p) (cs_cumulative s) = Inr b \<and> limits_match (rs_limits snap) b"
    using c(5) by (auto simp: check_applied_context_def rbind_eq_Inr guard_eq_Inr)
  show "ledger_ok p t" using assms(1) t(2) unfolding ledger_ok_def by (simp add: t(1))
qed

section \<open>Runs\<close>

text \<open>
  An event is a decision the ledger recorded, the one-shot terminal denial, a decision that left the
  ledger as it was, an observation or a commit.
\<close>

datatype 'g ledger_event =
    Recorded "'g lease_receipt" | Exhausted lease_denial | Neutral lease_denial | Observed | Committed

inductive lease_run ::
  "digest \<Rightarrow> (counter_evidence \<Rightarrow> unit res) \<Rightarrow> ('s \<Rightarrow> pystr \<Rightarrow> bool) \<Rightarrow> ('g \<Rightarrow> pystr \<Rightarrow> bool) \<Rightarrow>
   ('r \<Rightarrow> pystr \<Rightarrow> bool) \<Rightarrow> continuation_policy \<Rightarrow> 's continuation_state \<Rightarrow> 'g ledger_event list \<Rightarrow> 's continuation_state \<Rightarrow> bool"
  for H V W G R p s0
where
  start: "lease_run H V W G R p s0 [] s0"
| recorded: "lease_run H V W G R p s0 es s \<Longrightarrow>
     request_authority R q = Inr authority \<Longrightarrow>
     evaluate_lease H V W G s q live p r pr change cycle blocking (authority \<noteq> None) = Inr (t, rc) \<Longrightarrow>
     cs_requests t \<noteq> cs_requests s \<Longrightarrow> with_native_lineage W t seal = Inr u \<Longrightarrow>
     lease_run H V W G R p s0 (es @ [Recorded rc]) u"
| exhaust: "lease_run H V W G R p s0 es s \<Longrightarrow>
     request_authority R q = Inr authority \<Longrightarrow>
     evaluate_lease H V W G s q live p r pr change cycle blocking (authority \<noteq> None) = Inr (t, LeaseDenied d) \<Longrightarrow>
     t \<noteq> s \<Longrightarrow> cs_requests t = cs_requests s \<Longrightarrow> with_native_lineage W t seal = Inr u \<Longrightarrow>
     lease_run H V W G R p s0 (es @ [Exhausted d]) u"
| neutral: "lease_run H V W G R p s0 es s \<Longrightarrow>
     request_authority R q = Inr authority \<Longrightarrow>
     evaluate_lease H V W G s q live p r pr change cycle blocking (authority \<noteq> None) = Inr (s, LeaseDenied d) \<Longrightarrow>
     lease_run H V W G R p s0 (es @ [Neutral d]) s"
| observe: "lease_run H V W G R p s0 es s \<Longrightarrow> observe_context H V W s p os snap progress strategy = Inr t \<Longrightarrow>
     with_native_lineage W t seal = Inr u \<Longrightarrow> lease_run H V W G R p s0 (es @ [Observed]) u"
| commit: "lease_run H V W G R p s0 es s \<Longrightarrow> commit_lease_application H W s p (g :: 'g lease_grant) a snap = Inr t \<Longrightarrow>
     with_native_lineage W t seal = Inr u \<Longrightarrow> lease_run H V W G R p s0 (es @ [Committed]) u"

fun granted_of :: "'g ledger_event \<Rightarrow> budget_vector list" where
  "granted_of (Recorded (LeaseGranted g)) = [lg_granted g]"
| "granted_of _ = []"

definition run_grants :: "'g ledger_event list \<Rightarrow> budget_vector list" where
  "run_grants es = concat (map granted_of es)"

fun is_recorded :: "'g ledger_event \<Rightarrow> bool" where
  "is_recorded (Recorded rc) = True" | "is_recorded _ = False"

fun is_exhausted :: "'g ledger_event \<Rightarrow> bool" where
  "is_exhausted (Exhausted d) = True" | "is_exhausted _ = False"

definition count_events :: "('g ledger_event \<Rightarrow> bool) \<Rightarrow> 'g ledger_event list \<Rightarrow> int" where
  "count_events P es = int (length (filter P es))"

definition fresh_ledger :: "continuation_policy \<Rightarrow> 's continuation_state \<Rightarrow> bool" where
  "fresh_ledger p s \<longleftrightarrow> ledger_ok p s \<and> cs_requests s = 0 \<and> cs_cumulative s = budget_zero \<and>
     cs_pending_grant s = None \<and> cs_terminal_receipt s = None"

text \<open>The invariant that ties the events of a run to the ledger it ends in.\<close>

definition run_inv :: "continuation_policy \<Rightarrow> 'g ledger_event list \<Rightarrow> 's continuation_state \<Rightarrow> bool" where
  "run_inv p es s \<longleftrightarrow>
     ledger_ok p s \<and> cs_cumulative s = budget_sum budget_zero (run_grants es) \<and>
     int (length (run_grants es)) = cs_granted s \<and> count_events is_recorded es = cs_requests s \<and>
     count_events is_exhausted es = (if cs_terminal_receipt s = None then 0 else 1) \<and>
     count_events ((=) Committed) es = cs_granted s - (if cs_pending_grant s = None then 0 else 1)"

lemma run_inv_lineage [simp]: "run_inv p es (s \<lparr> cs_lineage := x \<rparr>) = run_inv p es s"
  by (simp add: run_inv_def)

lemma count_snoc [simp]: "count_events P (es @ [e]) = count_events P es + (if P e then 1 else 0)"
  by (simp add: count_events_def)

lemma grants_snoc [simp]: "run_grants (es @ [e]) = run_grants es @ granted_of e"
  by (simp add: run_grants_def)

lemma run_inv_start: "fresh_ledger p s \<Longrightarrow> run_inv p [] s"
  by (auto simp: fresh_ledger_def run_inv_def run_grants_def count_events_def budget_sum_def ledger_ok_def form_ok_def
      counters_ok_def)

lemma run_inv_evaluate:
  fixes G :: "'g \<Rightarrow> pystr \<Rightarrow> bool" and es :: "'g ledger_event list"
  assumes H: "digest_ok H" and p: "accepted_policy p" and inv: "run_inv p es s"
    and e: "evaluate_lease H V W G s q live p r pr change cycle blocking authorized = Inr (t, rc)"
  shows "run_inv p (es @ [if t = s then (case rc of LeaseDenied d \<Rightarrow> Neutral d | _ \<Rightarrow> Observed)
                          else if cs_requests t = cs_requests s
                          then (case rc of LeaseDenied d \<Rightarrow> Exhausted d | _ \<Rightarrow> Observed)
                          else Recorded rc]) t"
proof -
  have s: "ledger_ok p s" using inv by (simp add: run_inv_def)
  have lin: "cs_lineage s \<noteq> None"
    using evaluate_lease_cases [OF H p s e] check_inputsD(5) lineage_sealed by metis
  show ?thesis
  proof (cases rule: evaluate_lease_step [OF H p s e, case_names granted denied exhausted neutral])
    case (granted g)
    then have "t \<noteq> s" by auto
    with granted inv show ?thesis by (auto simp: run_inv_def budget_sum_append) (simp add: budget_sum_def)
  next
    case (denied d)
    then have "t \<noteq> s" by auto
    with denied inv show ?thesis by (auto simp: run_inv_def)
  next
    case (exhausted d)
    then have "t \<noteq> s" by auto
    with exhausted inv show ?thesis by (auto simp: run_inv_def)
  next
    case (neutral d)
    then show ?thesis using inv by (auto simp: run_inv_def)
  qed
qed

lemma run_inv_keep:
  assumes "run_inv p es s" and "ledger_ok p t" and "same_decisions s t" and "cs_pending_grant s = None"
    and "cs_pending_grant t = None"
  shows "run_inv p (es @ [Observed]) t"
  using assms unfolding run_inv_def same_decisions_def by simp

lemma run_inv_commit:
  assumes "run_inv p es s" and "ledger_ok p t" and "same_decisions s t" and "cs_pending_grant s \<noteq> None"
    and "cs_pending_grant t = None"
  shows "run_inv p (es @ [Committed]) t"
  using assms unfolding run_inv_def same_decisions_def by simp

lemma lease_run_inv:
  assumes run: "lease_run H V W G R p s0 es s" and H: "digest_ok H" and p: "accepted_policy p" and "fresh_ledger p s0"
  shows "run_inv p es s"
  using run
proof (induction rule: lease_run.induct)
  case start
  show ?case by (rule run_inv_start [OF assms(4)])
next
  case (recorded es s q authority live r pr change cycle blocking t rc seal u)
  from run_inv_evaluate [OF H p recorded.IH recorded.hyps(3)] recorded.hyps(4)
  have "run_inv p (es @ [Recorded rc]) t" by (auto split: if_splits)
  then show ?case using with_native_lineage_Inr [OF recorded.hyps(5)] by simp
next
  case (exhaust es s q authority live r pr change cycle blocking t d seal u)
  from run_inv_evaluate [OF H p exhaust.IH exhaust.hyps(3)] exhaust.hyps(4,5)
  have "run_inv p (es @ [Exhausted d]) t" by simp
  then show ?case using with_native_lineage_Inr [OF exhaust.hyps(6)] by simp
next
  case (neutral es s q authority live r pr change cycle blocking d)
  from run_inv_evaluate [OF H p neutral.IH neutral.hyps(3)] show ?case by simp
next
  case (observe es s os snap progress strategy t seal u)
  have s: "ledger_ok p s" using observe.IH by (simp add: run_inv_def)
  show ?case
    using run_inv_keep [OF observe.IH observe_context_step(1-4) [OF s observe.hyps(2)]]
      with_native_lineage_Inr [OF observe.hyps(3)] by simp
next
  case (commit es s g a snap t seal u)
  have s: "ledger_ok p s" using commit.IH by (simp add: run_inv_def)
  show ?case
    using run_inv_commit [OF commit.IH commit_step(1-4) [OF s commit.hyps(2)]]
      with_native_lineage_Inr [OF commit.hyps(3)] by simp
qed

end
