(* ===== verification/Lease_Example.thy ===== *)
theory Lease_Example
  imports Lease_Run
begin

text \<open>
  A ledger of the lease protocol on concrete values: the policy with one scheduled lease, the progress
  that satisfies one of two obligations, the sealed initial ledger, the request for the scheduled lease
  with its grant, the run of that grant, and a ledger that is exhausted.
\<close>

section \<open>An example ledger\<close>

text \<open>
  One lease granted on the progress from \<open>example_ostate\<close> to \<open>example_done\<close>, with native seals that
  validate every text.
\<close>

abbreviation any_seal :: "unit \<Rightarrow> pystr \<Rightarrow> bool" where "any_seal \<equiv> \<lambda>_ _. True"
abbreviation any_source :: "counter_evidence \<Rightarrow> unit res" where "any_source \<equiv> \<lambda>_. Inr ()"

definition lease_progress :: progress_record where
  "lease_progress =
     \<lparr> pr_task_id = example_task, pr_governance_id = example_task, pr_contract = obligation_contract,
       pr_prior_state_id = state_id length_digest example_ostate, pr_current_state_id = state_id length_digest example_done,
       pr_prior_measures = measurement length_digest obligation_contract example_ostate,
       pr_current_measures = measurement length_digest obligation_contract example_done,
       pr_classification = MeasurableProgress, pr_task_complete = False,
       pr_prior_state = example_ostate, pr_current_state = example_done,
       pr_prior_evidence = [], pr_current_evidence = [] \<rparr>"

lemma lease_progress_evaluated:
  "evaluate_progress length_digest any_source example_task example_task obligation_contract
     example_ostate example_done [] [] = Inr lease_progress"
proof -
  obtain cls complete where e: "derive_task_complete obligation_contract
        (measurement length_digest obligation_contract example_done) example_done = Inr complete"
      "evaluate_progress length_digest any_source example_task example_task obligation_contract
        example_ostate example_done [] [] =
       Inr (lease_progress \<lparr> pr_classification := cls, pr_task_complete := complete \<rparr>)"
    using evaluate_progress_eq [OF length_digest_ok obligation_contract_ok example_ostate_ok example_done_ok
        example_task_ok example_task_ok, of any_source]
    by (auto simp: lease_progress_def)
  have "\<not> list_all (\<lambda>ob. status ob = Satisfied) (obligations (os_obligations example_done))"
    using example_ids by (simp add: example_done_def obligations_update_status example_registry_def)
      (simp add: example_second_def)
  then have "\<not> complete" using e(1) by (simp add: derive_task_complete_def)
  moreover have "cls = MeasurableProgress" using example_done_progress e(2) by auto
  ultimately have "lease_progress \<lparr> pr_classification := cls, pr_task_complete := complete \<rparr> = lease_progress"
    by (simp add: lease_progress_def)
  with e(2) show ?thesis by simp
qed

lemma lease_progress_valid:
  obtains pid where "progress_record_validate lease_progress = Inr ()"
    "validate_bound_claims length_digest any_source lease_progress = Inr ()"
    "progress_id length_digest any_source lease_progress = Inr pid" "is_fingerprint pid"
proof -
  obtain j where j: "progress_record_json length_digest any_source lease_progress = Inr j"
    using progress_json_total [OF length_digest_ok obligation_contract_ok example_ostate_ok example_done_ok
        lease_progress_evaluated example_task_ok example_task_ok] by blast
  then have "progress_record_validate lease_progress = Inr ()"
      "validate_bound_claims length_digest any_source lease_progress = Inr ()"
    by (auto simp: progress_record_json_def rbind_eq_Inr)
  moreover have "progress_id length_digest any_source lease_progress = Inr (domain_id length_digest ''ibae.progress-record-id.v1'' j)"
    by (simp add: progress_id_def j)
  ultimately show ?thesis using that domain_id_fingerprint [OF length_digest_ok] by blast
qed

definition lease_policy :: continuation_policy where
  "lease_policy = example_policy \<lparr> cp_progress_contract_id := contract_id length_digest obligation_contract \<rparr>"

lemma lease_policy_contract: "is_fingerprint (contract_id length_digest obligation_contract)"
  by (simp add: contract_id_def domain_id_fingerprint [OF length_digest_ok])

lemma lease_policy_accepted: "accepted_policy lease_policy"
proof -
  have "is_symbol (lit ''a'')" by (simp add: lit_def symbol_char_def in_range_def)
  with lease_policy_contract have "continuation_policy_init lease_policy = Inr lease_policy"
    by (simp add: continuation_policy_init_def lease_policy_def example_policy_def require_total require_positive_int_total
        materialize_ok max_leases_limit_def check_lease_requests_def require_u64_def max_u64_def
        max_lease_requests_limit_def admitted_classifications_def classification_count_def
        validate_admitted_progress_def validate_runtime_hard_limits_def runtime_hard_limits_def budget_unfold
        budget_is_zero_def budget_add_def budget_init_def budget_of_def max_runtime_requests_def
        max_runtime_executions_def max_runtime_retries_def max_runtime_history_def min_cycle_history_def Let_def)
  moreover have "policy_parts_ok lease_policy"
    using example_policy_parts by (simp add: policy_parts_ok_def lease_policy_def)
  ultimately show ?thesis unfolding accepted_policy_def by blast
qed

definition lease_policy_id :: pystr where
  "lease_policy_id = (case continuation_policy_id length_digest lease_policy of Inr i \<Rightarrow> i | Inl e \<Rightarrow> [])"

lemma lease_policy_id: "continuation_policy_id length_digest lease_policy = Inr lease_policy_id" "is_fingerprint lease_policy_id"
proof -
  have "\<exists>j. continuation_policy_id length_digest lease_policy = Inr (domain_id length_digest ''ibae.continuation-policy-id.v1'' j)"
    unfolding continuation_policy_id_def continuation_policy_record_def accepted_policyD(1) [OF lease_policy_accepted]
      rbind_Inr by (rule exI, rule refl)
  then show "continuation_policy_id length_digest lease_policy = Inr lease_policy_id" "is_fingerprint lease_policy_id"
    by (auto simp: lease_policy_id_def domain_id_fingerprint [OF length_digest_ok])
qed

definition lease_policy_receipt :: policy_receipt where
  "lease_policy_receipt =
     \<lparr> cr_task_id = example_task, cr_governance_id = example_task, cr_governance_receipt_id = example_task,
       cr_policy_id = lease_policy_id, cr_contract_id = contract_id length_digest obligation_contract,
       cr_task_profile = lit ''a'', cr_task_profile_version = 1 \<rparr>"

lemma lease_policy_receipt_valid:
  obtains rid where "policy_receipt_validate lease_policy_receipt = Inr ()"
    "policy_receipt_id length_digest lease_policy_receipt = Inr rid" "is_fingerprint rid"
proof -
  have "is_symbol (lit ''a'')" by (simp add: lit_def symbol_char_def in_range_def)
  then have v: "policy_receipt_validate lease_policy_receipt = Inr ()"
    using example_task_ok lease_policy_id(2) lease_policy_contract
    by (simp add: policy_receipt_validate_def lease_policy_receipt_def require_total require_positive_int_total)
  have "\<exists>body. policy_receipt_record length_digest lease_policy_receipt =
      Inr (receipted length_digest ''ibae.continuation-policy-receipt-id.v1'' body) \<and> lit ''receipt_id'' \<notin> fst ` set body"
    unfolding policy_receipt_record_def v rbind_Inr by (rule exI, rule conjI, rule refl, simp)
  then obtain body where body: "policy_receipt_record length_digest lease_policy_receipt =
      Inr (receipted length_digest ''ibae.continuation-policy-receipt-id.v1'' body)" "lit ''receipt_id'' \<notin> fst ` set body"
    by blast
  then have "policy_receipt_id length_digest lease_policy_receipt =
      Inr (domain_id length_digest ''ibae.continuation-policy-receipt-id.v1'' (JObj body))"
    by (simp add: policy_receipt_id_def receipted_id)
  with v show ?thesis using that domain_id_fingerprint [OF length_digest_ok] by blast
qed

definition lease_receipt_rid :: pystr where
  "lease_receipt_rid = (case policy_receipt_id length_digest lease_policy_receipt of Inr i \<Rightarrow> i | Inl e \<Rightarrow> [])"

definition lease_pid :: pystr where
  "lease_pid = (case progress_id length_digest any_source lease_progress of Inr i \<Rightarrow> i | Inl e \<Rightarrow> [])"

lemma lease_ids_valid:
  "policy_receipt_id length_digest lease_policy_receipt = Inr lease_receipt_rid" "is_fingerprint lease_receipt_rid"
  "policy_receipt_validate lease_policy_receipt = Inr ()"
  "progress_id length_digest any_source lease_progress = Inr lease_pid" "is_fingerprint lease_pid"
  "progress_record_validate lease_progress = Inr ()"
  "validate_bound_claims length_digest any_source lease_progress = Inr ()"
  by (rule lease_policy_receipt_valid, simp add: lease_receipt_rid_def)+
     (rule lease_progress_valid, simp add: lease_pid_def)+

definition lease_snapshot :: runtime_snapshot where
  "lease_snapshot =
     \<lparr> rs_session_id = example_task, rs_state_id = example_task, rs_logical_tick = 0, rs_requests = 0,
       rs_executions = 0, rs_cache_hits = 0, rs_retries = 0, rs_history = [], rs_cache = [],
       rs_limits = \<lparr> rl_max_requests = 8, rl_max_executions = 4, rl_max_retries = 2, rl_max_history = 8 \<rparr>,
       rs_continuation = Some \<lparr> ns_task_id = example_task, ns_governance_id = example_task,
         ns_governance_receipt_id = example_task, ns_policy_id = lease_policy_id,
         ns_policy_receipt_id = lease_receipt_rid, ns_contract_id = contract_id length_digest obligation_contract,
         ns_cumulative_granted = budget_zero, ns_total_ceiling = cp_total_ceiling lease_policy,
         ns_applied_grant_ids = [], ns_leases_applied = 0, ns_next_lease_index = 1 \<rparr> \<rparr>"


definition lease_aggregate :: pystr where
  "lease_aggregate = domain_id length_digest ''ibae.continuation-progress-aggregate.v1''
     (JObj [(lit ''item_type'', JStr (lit ''progress'')), (lit ''ordinal'', JInt 0),
            (lit ''prior'', JStr (initial_progress_aggregate length_digest)), (lit ''progress_id'', JStr lease_pid)])"

lemma lease_aggregate: "progress_aggregate length_digest any_source [lease_progress] = Inr lease_aggregate"
  by (simp add: progress_aggregate_def lease_ids_valid advance_progress_aggregate_def require_total
      initial_progress_aggregate_def domain_id_fingerprint [OF length_digest_ok] require_u64_def max_u64_def lease_aggregate_def)

definition unsealed_ledger :: "unit continuation_state" where
  "unsealed_ledger = initial_ledger length_digest lease_policy lease_policy_receipt example_done lease_snapshot
     (Some lease_progress) lease_policy_id lease_receipt_rid None (Some lease_pid) lease_aggregate"

definition example_ledger :: "unit continuation_state" where
  "example_ledger = unsealed_ledger \<lparr> cs_lineage := Some () \<rparr>"

lemma lease_endpoint: "external_endpoint_id length_digest lease_progress ms = None"
  by (simp add: external_endpoint_id_def lease_progress_def obligation_contract_def zip_Cons1 split: list.splits)

lemma lease_fields:
  "cr_task_id lease_policy_receipt = example_task" "cr_governance_id lease_policy_receipt = example_task"
  "cr_governance_receipt_id lease_policy_receipt = example_task" "cr_policy_id lease_policy_receipt = lease_policy_id"
  "cr_contract_id lease_policy_receipt = cp_progress_contract_id lease_policy"
  "cp_progress_contract_id lease_policy = contract_id length_digest obligation_contract"
  "rs_session_id lease_snapshot = example_task" "rs_state_id lease_snapshot = example_task"
  "pr_task_id lease_progress = example_task" "pr_governance_id lease_progress = example_task"
  "pr_contract lease_progress = obligation_contract" "pr_classification lease_progress = MeasurableProgress"
  "pr_task_complete lease_progress = False" "pr_current_state_id lease_progress = state_id length_digest example_done"
  "max_leases lease_policy = 1" "cp_max_lease_requests lease_policy = 2"
  by (simp_all add: lease_policy_receipt_def lease_policy_def lease_snapshot_def lease_progress_def max_leases_def
      example_policy_def)

lemmas ledger_fields = unsealed_ledger_def initial_ledger_def lease_fields

lemma unsealed_ledger_form: "form_ok unsealed_ledger"
  using lease_ids_valid(2,5) lease_policy_id(2) lease_policy_contract example_task_ok
  by (simp add: form_ok_def state_ids_def state_options_def counters_ok_def endpoints_ok_def decision_ok_def ledger_fields
      state_id_def initial_decision_aggregate_def lease_aggregate_def domain_id_fingerprint [OF length_digest_ok]
      lease_endpoint max_u64_def)

lemma example_ledger_created:
  "continuation_state_create length_digest any_source any_seal (\<lambda>x os pr st. with_native_lineage any_seal x ())
     lease_policy lease_policy_receipt lease_snapshot example_done lease_snapshot None (Some lease_progress) =
   Inr example_ledger"
proof -
  have lin: "cs_lineage unsealed_ledger = None" by (simp add: ledger_fields)
  have init: "continuation_state_init any_seal unsealed_ledger = Inr unsealed_ledger"
    using unsealed_ledger_form by (simp add: continuation_state_init_Inr sealed_ok_def lin)
  have "continuation_state_init any_seal example_ledger = Inr example_ledger"
    using unsealed_ledger_form by (simp add: continuation_state_init_Inr sealed_ok_def example_ledger_def)
  then have seal: "with_native_lineage any_seal unsealed_ledger () = Inr example_ledger"
    by (simp add: with_native_lineage_def lin example_ledger_def)
  have "check_initial_runtime length_digest lease_policy lease_policy_receipt lease_snapshot lease_snapshot = Inr ()"
    unfolding check_initial_runtime_def lease_policy_id(1) lease_ids_valid(1)
    by (simp add: native_context_def lease_fields)
      (simp add: lease_snapshot_def budget_zero_def budget_unfold limits_match_def lease_policy_def example_policy_def)
  moreover have "check_initial_progress length_digest lease_policy lease_policy_receipt example_done (Some lease_progress) = Inr ()"
    by (simp add: check_initial_progress_def lease_fields)
  ultimately show ?thesis
    by (simp add: continuation_state_create_def lease_policy_id(1) lease_ids_valid lease_aggregate lease_fields
        unsealed_ledger_def [symmetric] init seal)
qed


lemma example_ledger_fresh: "fresh_ledger lease_policy example_ledger"
    "require_policy length_digest any_seal example_ledger lease_policy = Inr ()"
proof -
  have u: "ledger_ok lease_policy unsealed_ledger"
    using unsealed_ledger_form by (simp add: ledger_ok_def ledger_fields)
      (simp add: lease_policy_def example_policy_def budget_ok_def budget_unfold budget_zero_def max_u64_def budget_sum_def)
  then show fresh: "fresh_ledger lease_policy example_ledger"
    by (simp add: fresh_ledger_def example_ledger_def) (simp add: ledger_fields)
  have "0 \<le> cp_max_strategy_recoveries lease_policy" by (simp add: lease_policy_def example_policy_def)
  then show "require_policy length_digest any_seal example_ledger lease_policy = Inr ()"
    by (simp add: require_policy_def require_decision_lineage_def example_ledger_def accepted_policyD(1) [OF lease_policy_accepted]
        lease_policy_id(1) ledger_fields)
qed

lemma example_ledger_ok: "ledger_ok lease_policy example_ledger"
  using example_ledger_fresh by (simp add: fresh_ledger_def)

text \<open>A request for the scheduled lease, with and without the authority of the supervisor.\<close>

definition lease_state_id :: pystr where
  "lease_state_id = domain_id length_digest ''ibae.continuation-state-id.v1'' (ledger_record example_ledger)"

lemma lease_state_id: "continuation_state_id length_digest any_seal example_ledger = Inr lease_state_id"
    "is_fingerprint lease_state_id"
  by (simp_all add: continuation_state_id_def canonical_state_def require_decision_lineage_def example_ledger_def
      lease_state_id_def domain_id_fingerprint [OF length_digest_ok])

definition lease_request :: "unit option \<Rightarrow> unit continuation_request" where
  "lease_request seal =
     \<lparr> cq_task_id = example_task, cq_governance_id = example_task, cq_policy_id = lease_policy_id,
       cq_state_id = lease_state_id, cq_orchestration_state_id = state_id length_digest example_done,
       cq_session_id = example_task, cq_runtime_state_id = example_task, cq_progress_id = lease_pid,
       cq_lease_index = 1,
       cq_resources = \<lparr> request_delta = 4, execution_delta = 2, retry_delta = 1, mutation_delta = 0, history_delta = 4 \<rparr>,
       cq_requester = SupervisorRequester, cq_strategy_change_id = None, cq_seal = seal \<rparr>"

lemma lease_request_valid: "request_validate (lease_request seal) = Inr ()"
  using example_task_ok lease_policy_id(2) lease_state_id(2) lease_ids_valid(5)
  by (simp add: request_validate_def lease_request_def require_total state_id_def domain_id_fingerprint [OF length_digest_ok]
      budget_unfold require_u64_def max_u64_def require_optional_fingerprint_def)

definition lease_request_rid :: "unit option \<Rightarrow> pystr" where
  "lease_request_rid seal = (case request_id length_digest (lease_request seal) of Inr i \<Rightarrow> i | Inl e \<Rightarrow> [])"

lemma lease_request_rid: "request_id length_digest (lease_request seal) = Inr (lease_request_rid seal)"
  by (rule request_id_total [OF length_digest_ok lease_request_valid [of seal]]) (simp add: lease_request_rid_def)

definition lease_example_ids :: lease_ids where
  "lease_example_ids =
     \<lparr> li_state = lease_state_id, li_progress = lease_pid, li_contract = contract_id length_digest obligation_contract,
       li_cycle = None, li_live = None, li_change = None \<rparr>"

lemma lease_no_cycle: "cycle_from_snapshot lease_snapshot = Inr None"
  by (simp add: cycle_from_snapshot_def lease_snapshot_def)

lemma lease_example_ids:
  "derive_lease_ids length_digest any_source any_seal example_ledger lease_progress None None lease_snapshot = Inr lease_example_ids"
  by (simp add: derive_lease_ids_def lease_no_cycle lease_state_id(1) lease_ids_valid(4) optional_cycle_id_def
      lease_fields(11) lease_example_ids_def)

lemma lease_inputs:
  "check_evaluation_inputs length_digest any_source any_seal example_ledger (lease_request seal) lease_policy
     lease_policy_receipt lease_progress None None None = Inr ()"
  by (simp add: check_evaluation_inputs_def require_optional_fingerprint_def lease_request_valid lease_ids_valid
      accepted_policyD(1) [OF lease_policy_accepted] example_ledger_fresh(2) lease_policy_id(1))
    (simp add: example_ledger_def ledger_fields)

lemma lease_no_denial:
  "first_denial (denial_table True example_ledger (lease_request seal) lease_policy lease_progress None lease_snapshot None
     lease_example_ids) = None"
  by (simp add: denial_table_def entry_table_def strategy_table_def support_table_def change_unbound_def example_ledger_def
      ledger_fields lease_request_def lease_example_ids_def)
    (simp add: lease_policy_def example_policy_def budget_unfold budget_is_zero_def budget_within_def)

definition lease_example_grant :: "unit lease_grant" where
  "lease_example_grant = grant_of example_ledger (lease_request (Some ())) lease_policy None lease_example_ids
     (lease_request_rid (Some ()))"

definition granted_ledger :: "unit continuation_state" where
  "granted_ledger = granted_successor length_digest example_ledger lease_progress None lease_example_ids lease_example_grant"

lemma lease_example_outcome:
  "lease_outcome length_digest example_ledger (lease_request (Some ())) lease_snapshot lease_policy lease_progress None None True
     lease_example_ids (lease_request_rid (Some ())) = Inr (granted_ledger, LeaseGranted lease_example_grant)"
proof -
  have "cs_receipt_ids example_ledger = []" by (simp add: example_ledger_def ledger_fields)
  then show ?thesis
    unfolding lease_outcome_def lease_no_denial option.case Let_def lease_example_grant_def [symmetric]
    by (simp add: granted_ledger_def endpoint_missing_def lease_endpoint)
qed

lemma lease_example_granted:
  fixes G :: "unit \<Rightarrow> pystr \<Rightarrow> bool"
  shows "evaluate_lease length_digest any_source any_seal G example_ledger (lease_request (Some ())) lease_snapshot lease_policy
     lease_policy_receipt lease_progress None None None True = Inr (granted_ledger, LeaseGranted lease_example_grant)"
  using evaluate_lease_outcome [OF length_digest_ok lease_policy_accepted example_ledger_ok lease_inputs lease_request_rid
      lease_example_ids, of G "Some ()" True] lease_example_outcome
  by simp


text \<open>The run that grants the example lease.\<close>

lemma lease_form_granted: "form_ok granted_ledger"
  by (rule evaluate_lease_cases [OF length_digest_ok lease_policy_accepted example_ledger_ok lease_example_granted [of any_seal]])

lemma granted_ledger_requests: "cs_requests granted_ledger = 1" "cs_lineage granted_ledger = None"
  by (simp_all add: granted_ledger_def granted_successor_def example_ledger_def ledger_fields)

lemma lease_example_run:
  "lease_run length_digest any_source any_seal any_seal any_seal lease_policy example_ledger
     [Recorded (LeaseGranted lease_example_grant)] (granted_ledger \<lparr> cs_lineage := Some () \<rparr>)"
proof -
  have seal: "cq_seal (lease_request (Some ())) = Some ()" by (simp add: lease_request_def)
  have authority: "request_authority any_seal (lease_request (Some ())) = Inr (Some ())"
    by (simp add: request_authority_def seal request_text_def request_record_def lease_request_valid)
  have "with_native_lineage any_seal granted_ledger () = Inr (granted_ledger \<lparr> cs_lineage := Some () \<rparr>)"
    using lease_form_granted
    by (simp add: with_native_lineage_def granted_ledger_requests continuation_state_init_Inr sealed_ok_def)
  moreover have "cs_requests granted_ledger \<noteq> cs_requests example_ledger"
    by (simp add: granted_ledger_requests) (simp add: example_ledger_def ledger_fields)
  ultimately show ?thesis
    using lease_run.recorded [OF lease_run.start authority, of length_digest any_source any_seal any_seal example_ledger lease_snapshot
        lease_policy lease_policy_receipt lease_progress None None None granted_ledger "LeaseGranted lease_example_grant"]
      lease_example_granted [of any_seal] by simp
qed

text \<open>A ledger whose two decisions were denials and whose terminal marker is set.\<close>

definition spent_ledger :: "unit continuation_state" where
  "spent_ledger = example_ledger \<lparr> cs_requests := 2, cs_denied := 2, cs_tick := 2,
     cs_receipt_ids := [replicate 64 97, replicate 64 98], cs_last_decision := lit ''denied'',
     cs_last_denial := Some LeaseIndexMismatch, cs_progress_state := LeaseExhausted, cs_terminal_receipt := Some example_task \<rparr>"

lemma spent_ledger_ok: "ledger_ok lease_policy spent_ledger"
proof -
  have f: "is_fingerprint (replicate 64 97)" "is_fingerprint (replicate 64 98)"
    by (simp_all add: is_fingerprint_def hex_char_def in_range_def list_all_iff)
  have "form_ok example_ledger" using unsealed_ledger_form by (simp add: example_ledger_def)
  then have "form_ok spent_ledger"
    using f example_task_ok
    by (simp add: form_ok_def state_ids_def state_options_def counters_ok_def endpoints_ok_def decision_ok_def spent_ledger_def)
      (simp add: example_ledger_def ledger_fields)
  then show ?thesis
    using example_ledger_ok lease_fields(16) by (simp add: ledger_ok_def spent_ledger_def)
qed

end
