(* ===== verification/Lease_Properties.thy ===== *)
theory Lease_Properties
  imports Lease_Example
begin

text \<open>
  The properties of the lease protocol: the decision is the table's, a ledger starts fresh and keeps the
  bounds of its policy along every run, a request without native authority is refused without effect, a
  consumed progress record does not authorise the next grant, and an exhausted ledger stays as it is.
\<close>

section \<open>Decisions\<close>

text \<open>C18 [lease_decision_refines_table]. On a bounded ledger an evaluation checks its inputs, derives the
  identities it compares, among them the cycle in the native history, and then returns what the table
  of denials specifies: the denial of the first row that applies, recorded while a decision slot is
  left and never for an unauthorised request, or, when no row applies, a grant of exactly the requested
  resources. Every exception is one of \<open>check_evaluation_inputs\<close>, \<open>derive_lease_ids\<close>, a repeated receipt
  identity, or the refusal of a grant that would consume an external endpoint on a ledger without a
  live one.\<close>

theorem lease_decision_refines_table:
  fixes G :: "'g \<Rightarrow> pystr \<Rightarrow> bool"
  assumes H: "digest_ok H" and p: "accepted_policy p" and s: "ledger_ok p s"
  shows "evaluate_lease H V W G s q live p r pr change cycle blocking authorized =
    rbind (check_evaluation_inputs H V W s q p r pr change cycle blocking)
      (\<lambda>_. rbind (derive_lease_ids H V W s pr change cycle live)
      (\<lambda>ids. rbind (request_id H q)
      (\<lambda>rid. lease_outcome H s q live p pr change blocking authorized ids rid)))"
proof (cases "check_evaluation_inputs H V W s q p r pr change cycle blocking")
  case (Inr u)
  then have inputs: "check_evaluation_inputs H V W s q p r pr change cycle blocking = Inr ()" by simp
  obtain rid where q: "request_id H q = Inr rid" using request_id_total [OF H check_inputsD(2) [OF inputs]] by blast
  show ?thesis
  proof (cases "derive_lease_ids H V W s pr change cycle live")
    case ids: (Inr ids)
    show ?thesis using evaluate_lease_outcome [OF H p s inputs q ids, of G authorized] by (simp add: inputs q ids)
  qed (simp add: evaluate_lease_def inputs)
qed (simp add: evaluate_lease_def)

lemma first_unauthorized:
  assumes "\<not> (cq_requester q = SupervisorRequester \<and> authorized)"
  shows "first_denial (denial_table authorized s q p pr change live blocking ids) = Some UnauthorizedRequester"
  using assms by (simp add: denial_table_def entry_table_def)

text \<open>C20 [unauthorized_request_neutral]. A request that carries no native authority is answered, on any ledger its
  policy accepts and any checked inputs, with the unauthorised denial and the ledger it came with; the
  assertion behind it never fails.\<close>

theorem unauthorized_request_neutral:
  fixes G :: "'g \<Rightarrow> pystr \<Rightarrow> bool"
  assumes H: "digest_ok H" and p: "accepted_policy p" and s: "ledger_ok p s"
    and inputs: "check_evaluation_inputs H V W s q p r pr change cycle blocking = Inr ()"
    and live: "cycle_from_snapshot live = Inr live_cycle" and seal: "cq_seal q = None"
  shows "\<exists>d. evaluate_continuation H V W G R native s q live p r pr change cycle blocking = Inr (s, LeaseDenied d) \<and>
    ld_reason d = UnauthorizedRequester \<and> ld_tick d = cs_tick s"
proof -
  note qv = check_inputsD(2) [OF inputs]
  obtain ids where ids: "derive_lease_ids H V W s pr change cycle live = Inr ids"
    using derive_ids_total [OF inputs live] by blast
  obtain rid where q: "request_id H q = Inr rid" using request_id_total [OF H qv] .
  define d where "d = denial_of H s q ids rid UnauthorizedRequester None False"
  have first: "first_denial (denial_table False s q p pr change live blocking ids) = Some UnauthorizedRequester"
    by (rule first_unauthorized) simp
  have "deny_lease H V W s q pr p blocking UnauthorizedRequester = Inr (s, LeaseDenied d :: 'g lease_receipt)"
    using deny_lease_outcome [OF H p s qv q ids check_inputsD(1) [OF inputs], of UnauthorizedRequester d]
    by (simp add: d_def denial_recorded_def denial_successor_def terminal_exhaustion_def denial_of_def)
  then have "evaluate_lease H V W G s q live p r pr change cycle blocking False = Inr (s, LeaseDenied d)"
    using lease_verdict_table [OF p s request_validateD(4) [OF qv], of False pr change live blocking ids] first
    by (simp add: evaluate_lease_def inputs ids)
  then have "evaluate_continuation H V W G R native s q live p r pr change cycle blocking = Inr (s, LeaseDenied d)"
    by (simp add: evaluate_continuation_def request_authority_def seal finalize_evaluation_def receipt_json_def
        continuation_decision_init_def)
  then show ?thesis by (auto simp: d_def denial_of_def)
qed

text \<open>C21 [consumed_progress_spent]. A grant rests on measurable progress that is not the progress consumed last,
  which it then consumes, or on an admitted change of the ledger's own strategy. While the live progress
  record is the consumed one a grant uses up one of the finitely many strategy recoveries.\<close>

theorem consumed_progress_spent:
  assumes H: "digest_ok H" and p: "accepted_policy p" and s: "ledger_ok p s"
    and e: "evaluate_lease H V W G s q live p r pr change cycle blocking authorized = Inr (t, LeaseGranted g)"
  shows "(change = None \<longrightarrow> pr_classification pr = MeasurableProgress \<and>
       cs_consumed_progress_id s \<noteq> cs_last_progress_id s \<and> cs_consumed_progress_id t = cs_last_progress_id s) \<and>
    (\<forall>c. change = Some c \<longrightarrow> sc_status c = ChangeAdmitted \<and> cs_strategy_material_id s = Some (sc_prior_material_id c) \<and>
       cs_strategy_material_id t = Some (sc_proposed_material_id c)) \<and>
    (cs_consumed_progress_id s = cs_last_progress_id s \<longrightarrow>
       cs_recoveries t = cs_recoveries s + 1 \<and> cs_recoveries t \<le> cp_max_strategy_recoveries p) \<and>
    cs_last_progress_id t = cs_last_progress_id s"
proof -
  obtain ids rid where inputs: "check_evaluation_inputs H V W s q p r pr change cycle blocking = Inr ()"
    and out: "lease_outcome H s q live p pr change blocking authorized ids rid = Inr (t, LeaseGranted g)" "form_ok t"
    using evaluate_lease_cases [OF H p s e] .
  let ?table = "denial_table authorized s q p pr change live blocking ids"
  have none: "first_denial ?table = None"
    using out(1) by (cases "first_denial ?table") (auto simp: lease_outcome_def Let_def split: option.splits)
  then have t: "t = granted_successor H s pr change ids g"
    using out(1) by (auto simp: lease_outcome_def Let_def split: if_splits)
  note n = no_denialD [OF none]
  have strategy: "sc_status c = ChangeAdmitted \<and> cs_strategy_material_id s = Some (sc_prior_material_id c)"
    if "change = Some c" for c
    using none that strategy_change_status.exhaust [of "sc_status c"]
    unfolding first_denial_None denial_table_def strategy_table_def change_unbound_def by auto
  show ?thesis
    using n(4,11,12) strategy
    by (auto simp: t granted_successor_def progress_admitted_def recovery_used_def split: option.splits)
qed

text \<open>C22 [exhausted_ledger_frozen]. Once the one-shot terminal marker is set the decision ledger does not change
  any more: every evaluation that returns is a denial with the ledger it came with, no progress can be
  observed and there is no grant to commit; only the context can be rebound.\<close>

theorem exhausted_ledger_frozen:
  fixes G :: "'g \<Rightarrow> pystr \<Rightarrow> bool" and g :: "'h lease_grant"
  assumes H: "digest_ok H" and p: "accepted_policy p" and s: "ledger_ok p s" and marker: "cs_terminal_receipt s \<noteq> None"
  shows "(evaluate_lease H V W G s q live p r pr change cycle blocking authorized = Inr (t, rc) \<longrightarrow>
       t = s \<and> \<not> is_granted rc) \<and>
    (\<forall>u. observe_context H V W s p os snap (Some pr) strategy \<noteq> Inr u) \<and>
    (\<forall>u. commit_lease_application H W s p g a snap \<noteq> Inr u) \<and>
    (\<forall>u. observe_context H V W s p os snap None strategy = Inr u \<longrightarrow>
       same_decisions s u \<and> cs_last_progress_id u = cs_last_progress_id s \<and>
       cs_orchestration_state_id u = cs_orchestration_state_id s \<and> cs_terminal_receipt u \<noteq> None)"
proof (intro conjI allI impI)
  have full: "cs_requests s = cp_max_lease_requests p" "cs_pending_grant s = None"
    using s marker by (auto simp: ledger_ok_def form_ok_def endpoints_ok_def)
  { assume e: "evaluate_lease H V W G s q live p r pr change cycle blocking authorized = Inr (t, rc)"
    show "t = s" "\<not> is_granted rc"
    proof (atomize (full), cases rule: evaluate_lease_step [OF H p s e, case_names granted denied exhausted neutral])
      case (granted g)
      then show "t = s \<and> \<not> is_granted rc" using full by (auto simp: ledger_ok_def)
    next
      case (denied d)
      then show "t = s \<and> \<not> is_granted rc" using full by (auto simp: ledger_ok_def)
    next
      case (exhausted d)
      then show "t = s \<and> \<not> is_granted rc" using marker by simp
    next
      case (neutral d)
      then show "t = s \<and> \<not> is_granted rc" by simp
    qed }
  { fix u show "observe_context H V W s p os snap (Some pr) strategy \<noteq> Inr u"
      using observe_context_step(7) [OF s, of H V W os snap "Some pr" strategy u pr] marker by auto }
  { fix u show "commit_lease_application H W s p g a snap \<noteq> Inr u"
      using commit_step(3) [OF s, of H W g a snap u] full(2) by auto }
  { fix u assume "observe_context H V W s p os snap None strategy = Inr u"
    note o = observe_context_step [OF s this]
    show "same_decisions s u" by (rule o(2))
    show "cs_last_progress_id u = cs_last_progress_id s" "cs_orchestration_state_id u = cs_orchestration_state_id s"
      using o(5,6,8) by simp_all
    show "cs_terminal_receipt u \<noteq> None" using o(2) marker by (simp add: same_decisions_def) }
qed

section \<open>Runs\<close>

text \<open>C19 [lease_run_bounded]. Along every run from a fresh ledger, in whatever order evaluations, observations
  and commits happen: at most the scheduled leases are granted (64 at most) and at most the permitted
  decisions recorded (128 at most), with one terminal denial beyond them; every grant but the last has
  been committed; what was granted in all is the cumulative grant of the ledger, stays within the sum of
  as many scheduled leases and so within the ceiling, and never includes a mutation.\<close>

theorem lease_run_bounded:
  assumes H: "digest_ok H" and p: "accepted_policy p" and s0: "fresh_ledger p s0"
    and run: "lease_run H V W G R p s0 es s"
  shows "int (length (run_grants es)) \<le> max_leases p \<and> length (run_grants es) \<le> 64 \<and>
    count_events is_recorded es \<le> cp_max_lease_requests p \<and> count_events is_recorded es \<le> 128 \<and>
    count_events is_exhausted es \<le> 1 \<and>
    count_events ((=) Committed) es \<le> int (length (run_grants es)) \<and>
    int (length (run_grants es)) \<le> count_events ((=) Committed) es + 1 \<and>
    cs_cumulative s = budget_sum budget_zero (run_grants es) \<and>
    budget_within (cs_cumulative s) (budget_sum budget_zero (take (length (run_grants es)) (cp_lease_schedule p))) \<and>
    budget_within (cs_cumulative s) (cp_total_ceiling p) \<and> mutation_delta (cs_cumulative s) = 0"
proof -
  have inv: "run_inv p es s" by (rule lease_run_inv [OF run H p s0])
  then have s: "ledger_ok p s" and n: "int (length (run_grants es)) = cs_granted s" by (simp_all add: run_inv_def)
  note pol = accepted_policyD [OF p]
  have sum: "budget_within (cs_cumulative s)
      (budget_sum budget_zero (take (length (run_grants es)) (cp_lease_schedule p)))"
    using s n [symmetric] by (simp add: ledger_ok_def)
  have "list_all (\<lambda>x. mutation_delta x = 0) (take (length (run_grants es)) (cp_lease_schedule p))"
    using pol(4) set_take_subset [of _ "cp_lease_schedule p"] by (auto simp: list_all_iff)
  then have "mutation_delta (budget_sum budget_zero (take (length (run_grants es)) (cp_lease_schedule p))) = 0"
    by (simp add: budget_sum_mutation) (simp add: budget_zero_def)
  then have "mutation_delta (cs_cumulative s) = 0"
    using sum ledger_okD(8) [OF s] by (auto simp: budget_within_iff budget_ok_def budget_unfold)
  moreover have "budget_within (cs_cumulative s) (cp_total_ceiling p)"
    using budget_within_trans [OF cumulative_within [OF p s] pol(9)] .
  ultimately show ?thesis
    using inv s sum n pol(5,7) by (auto simp: run_inv_def ledger_ok_def)
qed

section \<open>Creation and projection\<close>

text \<open>C23 [ledger_created_fresh]. A ledger that the native session sealed without changing it is fresh: no decision,
  grant, pending lease or terminal marker, an empty cumulative grant, the bounds of its policy, and the
  policy check that every later operation repeats holds.\<close>

theorem ledger_created_fresh:
  assumes p: "accepted_policy p"
    and native: "\<And>x y. seal_initial x os progress strategy = Inr y \<Longrightarrow> \<exists>seal. with_native_lineage W x seal = Inr y"
    and create: "continuation_state_create H V W seal_initial p r live os snap strategy progress = Inr s"
  shows "fresh_ledger p s \<and> require_policy H W s p = Inr () \<and> cs_orchestration_state_id s = state_id H os \<and>
    cs_progress_state s \<noteq> LeaseExhausted \<and> (cs_last_progress_id s = None) = (progress = None)"
proof -
  obtain policy rid material pid aggregate where policy: "continuation_policy_id H p = Inr policy"
    and x': "continuation_state_init W (initial_ledger H p r os snap progress policy rid material pid aggregate) =
        Inr (initial_ledger H p r os snap progress policy rid material pid aggregate)"
      "seal_initial (initial_ledger H p r os snap progress policy rid material pid aggregate) os progress strategy = Inr s"
    using create unfolding continuation_state_create_def rbind_eq_Inr continuation_state_init_Inr by blast
  define x :: "'a continuation_state" where "x = initial_ledger H p r os snap progress policy rid material pid aggregate"
  have x: "form_ok x" "seal_initial x os progress strategy = Inr s"
    using x' by (simp_all add: x_def continuation_state_init_Inr)
  have f: "cs_requests x = 0" "cs_granted x = 0" "cs_recoveries x = 0" "cs_cumulative x = budget_zero"
      "cs_pending_grant x = None" "cs_terminal_receipt x = None" "cs_policy_id x = policy"
      "cs_contract_id x = cp_progress_contract_id p" "cs_orchestration_state_id x = state_id H os"
      "cs_progress_count x = (if progress = None then 0 else 1)"
      "cs_progress_state x = (case progress of None \<Rightarrow> Stalled | Some pr \<Rightarrow> control_state pr)"
    by (simp_all add: x_def initial_ledger_def)
  obtain seal where "with_native_lineage W x seal = Inr s" using native [OF x(2)] by blast
  then have s: "s = x \<lparr> cs_lineage := Some seal \<rparr>" "sealed_ok W s" "cs_lineage x = None"
    by (auto simp: with_native_lineage_def rbind_eq_Inr guard_eq_Inr continuation_state_init_Inr)
  have "0 \<le> max_leases p" by (simp add: max_leases_def)
  moreover have "0 \<le> cp_max_strategy_recoveries p"
    using p by (auto simp: accepted_policy_def continuation_policy_init_def check_lease_requests_def rbind_eq_Inr
        guard_eq_Inr accept_simps Let_def)
  ultimately have "ledger_ok p x"
    using x(1) f accepted_policyD(6) [OF p]
    by (simp add: ledger_ok_def budget_sum_def budget_ok_def budget_unfold budget_zero_def max_u64_def)
  then have fresh: "fresh_ledger p s" using f by (simp add: fresh_ledger_def s(1))
  have "require_decision_lineage W s = Inr ()" using s by (simp add: lineage_sealed)
  then have "require_policy H W s p = Inr ()"
    using \<open>ledger_ok p x\<close> f policy accepted_policyD(1) [OF p]
    by (simp add: require_policy_def s(1) ledger_ok_def)
  moreover have "(cs_last_progress_id s = None) = (progress = None)"
    using x(1) f(10) by (auto simp: s(1) form_ok_def endpoints_ok_def split: if_splits)
  ultimately show ?thesis
    using fresh f by (simp add: s(1) control_state_def split: option.splits)
qed

lemma remaining_capacity_exact:
  assumes p: "accepted_policy p" and s: "ledger_ok p s" and policy: "require_policy H W s p = Inr ()"
  shows "remaining_capacity H W s p = Inr (budget_minus (lease_capacity p) (cs_cumulative s))"
proof -
  have "\<forall>v \<in> set (budget_values (budget_sum budget_zero (cp_lease_schedule p))). 0 \<le> v"
    using budget_sum_grows [OF accepted_policyD(3) [OF p], of budget_zero]
    by (auto simp: budget_unfold budget_within_iff budget_zero_def)
  then have "budget_ok (lease_capacity p)"
    using budget_within_ok [OF accepted_policyD(8) [OF p] accepted_policyD(9) [OF p]] by (simp add: lease_capacity_def)
  then show ?thesis
    using cumulative_within [OF p s]
    by (simp add: remaining_capacity_def policy accepted_policyD(2) [OF p] budget_subtract_cases [OF _ ledger_okD(8) [OF s]])
qed

text \<open>The listed actions, with the admissibility of a strategy change in place of its several conditions.\<close>

lemma listed_actions:
  assumes "ledger_ok p s"
  shows "set (legal_recovery_actions s p) =
    (if cs_pending_grant s \<noteq> None then {lit ''apply_pending_lease''}
     else if cs_requests s < cp_max_lease_requests p \<and> cs_granted s < max_leases p \<and> \<not> governance_blocked s
     then {a. a = lit ''provide_objective_progress'' \<and> cs_progress_state s = Stalled \<and>
              cs_progress_count s \<le> cp_max_lease_requests p} \<union>
          {a. strategy_change_admissible s p \<and> (cs_progress_state s, a) \<in>
              {(Stalled, lit ''propose_material_strategy_change''), (CycleBlocked, lit ''propose_cycle_breaking_strategy''),
               (StrategyChangeRejected, lit ''provide_material_semantic_difference'')}}
     else {})"
  using ledger_okD(5,6) [OF assms]
  by (cases "cs_progress_state s")
    (auto simp: legal_recovery_actions_def has_pending_grant_def strategy_change_admissible_def strategy_recovery_available_def
      simp del: lit_append lit_Cons)

text \<open>C24 [projection_honest]. The projection shown to the supervisor always renders on a bounded ledger, and
  its members tell the truth: the identity of the ledger, what the schedule still allows as remaining
  capacity, the decisions, observations and leases left, the pending grant and the terminal marker. The
  actions it lists are exactly these: apply the grant that is pending; otherwise, while a decision slot
  and a scheduled lease are left and no governance denial stands, the action of the progress state, where
  observing progress needs room for the observation and proposing a strategy needs the member on strategy
  changes to be true. That member is true only if a change is not refused for a pending grant, an
  exhausted ledger or an exhausted recovery allowance.\<close>

theorem projection_honest:
  assumes p: "accepted_policy p" and s: "ledger_ok p s" and policy: "require_policy H W s p = Inr ()"
  shows "\<exists>ms actions admissible sid. continuation_projection H W s p = Inr (JObj ms) \<and>
    continuation_state_id H W s = Inr sid \<and>
    map_of ms (lit ''continuation_state_id'') = Some (JStr sid) \<and>
    map_of ms (lit ''remaining_total_continuation_ceiling'') =
      Some (budget_record (budget_minus (lease_capacity p) (cs_cumulative s))) \<and>
    map_of ms (lit ''leases_used'') = Some (JInt (cs_granted s)) \<and>
    map_of ms (lit ''leases_remaining'') =
      Some (JInt (min (cp_max_lease_requests p - cs_requests s) (max_leases p - cs_granted s))) \<and>
    map_of ms (lit ''lease_requests_remaining'') = Some (JInt (cp_max_lease_requests p - cs_requests s)) \<and>
    map_of ms (lit ''progress_observations_remaining'') = Some (JInt (cp_max_lease_requests p + 1 - cs_progress_count s)) \<and>
    map_of ms (lit ''progress_state'') = Some (JStr (progress_state_value (cs_progress_state s))) \<and>
    map_of ms (lit ''pending_grant_receipt_id'') = Some (opt_str (cs_pending_receipt s)) \<and>
    map_of ms (lit ''terminal_ceiling_receipt_id'') = Some (opt_str (cs_terminal_receipt s)) \<and>
    map_of ms (lit ''legal_recovery_actions'') = Some (str_list actions) \<and>
    map_of ms (lit ''material_strategy_change_admissible'') = Some (JBool admissible) \<and>
    (set actions =
      (if cs_pending_grant s \<noteq> None then {lit ''apply_pending_lease''}
       else if cs_requests s < cp_max_lease_requests p \<and> cs_granted s < max_leases p \<and> \<not> governance_blocked s
       then {a. a = lit ''provide_objective_progress'' \<and> cs_progress_state s = Stalled \<and>
                cs_progress_count s \<le> cp_max_lease_requests p} \<union>
            {a. admissible \<and> (cs_progress_state s, a) \<in>
                {(Stalled, lit ''propose_material_strategy_change''), (CycleBlocked, lit ''propose_cycle_breaking_strategy''),
                 (StrategyChangeRejected, lit ''provide_material_semantic_difference'')}}
       else {})) \<and>
    (admissible \<longrightarrow>
       first_denial (denial_table authorized s q p pr (Some c) live blocking ids) \<notin>
         {Some PendingLeaseApplication, Some LeaseCeilingReached, Some LeaseRequestLimit,
          Some StrategyRecoveryExhausted, Some TerminalCycle, Some NoMeasurableProgress})"
proof -
  have lineage: "require_decision_lineage W s = Inr ()" using policy by (auto simp: require_policy_def rbind_eq_Inr)
  have never: "strategy_change_admissible s p \<longrightarrow>
       first_denial (denial_table authorized s q p pr (Some c) live blocking ids) \<notin>
         {Some PendingLeaseApplication, Some LeaseCeilingReached, Some LeaseRequestLimit,
          Some StrategyRecoveryExhausted, Some TerminalCycle, Some NoMeasurableProgress}"
    by (auto simp: strategy_change_admissible_def has_pending_grant_def denial_table_def entry_table_def strategy_table_def
        support_table_def dest!: first_denial_Some)
  have sid: "continuation_state_id H W s = Inr (domain_id H ''ibae.continuation-state-id.v1'' (ledger_record s))"
    by (simp add: continuation_state_id_def canonical_state_def lineage)
  note render = continuation_projection_def [of H W s p, unfolded policy leases_remaining_def sid
      remaining_capacity_exact [OF p s policy] rbind_Inr Let_def]
  show ?thesis
    by (rule exI, rule exI [of _ "legal_recovery_actions s p"], rule exI [of _ "strategy_change_admissible s p"], rule exI,
        intro conjI, rule render, rule sid) (simp_all add: listed_actions [OF s] never [simplified])
qed

section \<open>The properties on the example\<close>

lemma lease_decision_refines_table_witness:
  "evaluate_lease length_digest any_source any_seal any_seal example_ledger (lease_request (Some ())) lease_snapshot lease_policy
     lease_policy_receipt lease_progress None None None True = Inr (granted_ledger, LeaseGranted lease_example_grant)"
  using lease_decision_refines_table [OF length_digest_ok lease_policy_accepted example_ledger_ok, of any_source any_seal any_seal
      "lease_request (Some ())" lease_snapshot lease_policy_receipt lease_progress None None None True]
    lease_example_outcome
  by (simp add: lease_inputs lease_request_rid lease_example_ids)

lemma unauthorized_request_neutral_witness:
  "\<exists>d. evaluate_continuation length_digest any_source any_seal any_seal any_seal (\<lambda>_. Inl (ValueErr [])) example_ledger
     (lease_request None) lease_snapshot lease_policy lease_policy_receipt lease_progress None None None =
       Inr (example_ledger, LeaseDenied d) \<and> ld_reason d = UnauthorizedRequester \<and> ld_tick d = cs_tick example_ledger"
proof -
  have "cq_seal (lease_request None) = None" by (simp add: lease_request_def)
  from unauthorized_request_neutral [OF length_digest_ok lease_policy_accepted example_ledger_ok lease_inputs lease_no_cycle this]
  show ?thesis .
qed

lemma consumed_progress_spent_witness:
  "cs_consumed_progress_id granted_ledger = Some lease_pid \<and> cs_last_progress_id granted_ledger = Some lease_pid"
  using consumed_progress_spent [OF length_digest_ok lease_policy_accepted example_ledger_ok lease_example_granted [of any_seal]]
  by (simp add: example_ledger_def ledger_fields)

lemma ledger_created_fresh_witness:
  "fresh_ledger lease_policy example_ledger \<and> cs_progress_state example_ledger \<noteq> LeaseExhausted"
  using ledger_created_fresh [OF lease_policy_accepted _ example_ledger_created] by blast

lemma projection_honest_witness:
  "\<exists>ms. continuation_projection length_digest any_seal example_ledger lease_policy = Inr (JObj ms) \<and>
     map_of ms (lit ''leases_remaining'') = Some (JInt 1) \<and> map_of ms (lit ''legal_recovery_actions'') = Some (str_list [])"
proof -
  have f: "cs_requests example_ledger = 0" "cs_granted example_ledger = 0" "cs_pending_grant example_ledger = None"
      "cs_progress_state example_ledger = Progressing"
    by (simp_all add: example_ledger_def ledger_fields control_state_def)
  have leases: "min (cp_max_lease_requests lease_policy - cs_requests example_ledger)
      (max_leases lease_policy - cs_granted example_ledger) = 1"
    by (simp add: f lease_fields)
  obtain c :: strategy_change_receipt where True by simp
  obtain ms actions where ms: "continuation_projection length_digest any_seal example_ledger lease_policy = Inr (JObj ms)"
      "map_of ms (lit ''leases_remaining'') = Some (JInt (min (cp_max_lease_requests lease_policy - cs_requests example_ledger)
         (max_leases lease_policy - cs_granted example_ledger)))"
      "map_of ms (lit ''legal_recovery_actions'') = Some (str_list actions)" "set actions = {}"
    using projection_honest [OF lease_policy_accepted example_ledger_ok example_ledger_fresh(2), where authorized = True and
        q = "lease_request None" and pr = lease_progress and live = lease_snapshot and blocking = None and
        ids = lease_example_ids and c = c]
    by (elim exE conjE) (rule that, assumption, assumption, assumption, simp add: f)
  then show ?thesis unfolding leases by auto
qed

lemma lease_run_bounded_witness:
  "budget_within (cs_cumulative (granted_ledger \<lparr> cs_lineage := Some () \<rparr>)) (cp_total_ceiling lease_policy)"
  using lease_run_bounded [OF length_digest_ok lease_policy_accepted example_ledger_fresh(1) lease_example_run] by blast

lemma exhausted_ledger_frozen_witness:
  "\<forall>u. observe_context length_digest any_source any_seal spent_ledger lease_policy example_done lease_snapshot
     (Some lease_progress) None \<noteq> Inr u"
proof -
  have "cs_terminal_receipt spent_ledger \<noteq> None" by (simp add: spent_ledger_def)
  from exhausted_ledger_frozen [OF length_digest_ok lease_policy_accepted spent_ledger_ok this, of any_source any_seal any_seal
      "lease_request None" lease_snapshot lease_policy_receipt lease_progress None None None True spent_ledger
      "LeaseGranted lease_example_grant" example_done lease_snapshot None lease_example_grant]
  show ?thesis by blast
qed

end
