(* ===== verification/Spec2Isabelle.thy ===== *)
theory Spec2Isabelle
  imports Kernel Assurance Admit_Properties Strategy_Properties Orchestration_Binding Lease_Properties
begin

text \<open>
  Verification of QSOL-IBAE (IBAE: a governed agent runtime in which a language model proposes and a
  deterministic program decides). The Python package is under \<open>src/src/ibae/\<close>; file names below are
  relative to it.

  \<^bold>\<open>The program.\<close> A supervisor admits a task under a governance policy (\<open>governance.py\<close>). Its state is a
  registry of obligations (\<open>obligations.py\<close>) and a set of epistemic records (\<open>epistemic.py\<close>), joined in
  the orchestration state (\<open>orchestration.py\<close>). Workers send batches of action proposals;
  \<open>admit_batch\<close> admits, rejects or deduplicates each and advances a logical clock. Admitted actions are
  bound to tool permissions by \<open>admit_tool\<close> and \<open>bind_orchestration\<close> and executed within budgets
  (\<open>reference_executor.py\<close>, the reference for the native executor). When a budget is used up,
  \<open>continuation.py\<close> measures progress between two orchestration states, decides whether a proposed
  strategy differs in substance, and grants or denies a bounded lease on a ledger. Everything is
  identified by fingerprints of canonical JSON (\<open>canonical.py\<close>, \<open>_records.py\<close>).

  \<^bold>\<open>Conventions.\<close> A raised exception is a value \<open>Inl e\<close> of \<open>pyexn + 'a\<close>; its class is kept and its
  message shortened. Sequences of statements are chains of \<open>rbind\<close>. Dataclasses are records, enums are
  datatypes with their serialised values, Python integers are \<open>int\<close> with the range checks of the code
  written out, strings are lists of code points. A constructor \<open>__post_init__\<close> is a function \<open>_init\<close>
  that returns the normalised record or the exception. Dictionaries are association lists where their
  order is observable. Exact-type tests on arguments with a concrete annotation are discharged by
  typing; arguments annotated \<open>Any\<close> are \<open>pyval\<close>.

  \<^bold>\<open>Parameters.\<close> The digest \<open>H\<close> under all identities is a parameter of every component above
  \<open>canonical.py\<close>; the only hypothesis on it is \<open>digest_ok\<close> (64 lowercase hexadecimal characters), which
  SHA-256 satisfies (\<open>Sha256\<close>). Four checks belong to the native extension and are functions of the
  model: \<open>V\<close> (the source of a progress counter), \<open>W\<close> (the seal of a ledger state), \<open>R\<close> (the authority of
  a request) and \<open>G\<close> (the seal of a grant); nothing is assumed of them. A tool operation, the native
  evaluation of a sealed request and the native sealing of a new ledger are functions as well; of the
  sealing one property assumes that it adds a seal and changes nothing else.

  \<^bold>\<open>Theories.\<close>
  \<^item> \<^theory_text>\<open>Prelude\<close>, \<^theory_text>\<open>Unicode_Text\<close>, \<^theory_text>\<open>Ledger\<close>, \<^theory_text>\<open>Dag\<close>, \<^theory_text>\<open>Record_Size\<close>: exceptions and sequencing, UTF-8 and the
    fixed patterns, the contract of an append-only ledger, the graph algorithms that two registries share
    with the contract of a validated graph, sizes of records.
  \<^item> \<^theory_text>\<open>Canonical\<close>, \<^theory_text>\<open>Python_Float\<close>, \<^theory_text>\<open>Sha256\<close>, \<^theory_text>\<open>Json_Parser\<close>: \<open>canonical.py\<close> with the parts of
    \<open>json\<close>, \<open>hashlib\<close> and float printing that it uses; the parser and its round trip with the serialiser.
  \<^item> \<^theory_text>\<open>Records\<close>: \<open>_records.py\<close>, the bounded validators, the bounded copy and canonical values.
  \<^item> \<^theory_text>\<open>Kernel\<close>: \<open>state.py\<close>, \<open>invariants.py\<close>, \<open>cache.py\<close>, \<open>policy.py\<close>, \<open>reference_executor.py\<close>, with the
    contract of the observation cache.
  \<^item> \<^theory_text>\<open>Obligations\<close>, \<^theory_text>\<open>Epistemic\<close>, \<^theory_text>\<open>Assurance\<close>: the files of the same names.
  \<^item> \<^theory_text>\<open>Proposals\<close>, \<^theory_text>\<open>Admission\<close>, \<^theory_text>\<open>Admit_Batch\<close>: \<open>orchestration.py\<close>. \<^theory_text>\<open>Admit_Verdicts\<close>, \<^theory_text>\<open>Admit_Correct\<close>
    and \<^theory_text>\<open>Admit_Properties\<close> prove that a batch does what one verdict per proposal says.
  \<^item> \<^theory_text>\<open>Governance_Policy\<close>, \<^theory_text>\<open>Governance_Tools\<close>: policies, receipts, \<open>admit_task\<close>, \<open>admit_tool\<close> and
    \<open>bind_orchestration\<close> of \<open>governance.py\<close>. \<^theory_text>\<open>Governance_Correct\<close>, \<^theory_text>\<open>Governance_Properties\<close> and
    \<^theory_text>\<open>Orchestration_Binding\<close> hold the decision table of the gate and the properties that join it with
    \<open>admit_batch\<close>.
  \<^item> \<^theory_text>\<open>Budget\<close>, \<^theory_text>\<open>Progress\<close>, \<^theory_text>\<open>Strategy_Change\<close>: budgets and policies, progress records, cycle evidence and
    strategy changes of \<open>continuation.py\<close>; \<^theory_text>\<open>Progress_Properties\<close> and \<^theory_text>\<open>Strategy_Properties\<close> what they
    guarantee.
  \<^item> \<^theory_text>\<open>Lease_State\<close>, \<^theory_text>\<open>Lease_Context\<close>, \<^theory_text>\<open>Lease_Decision\<close>, \<^theory_text>\<open>Lease_Evaluation\<close>: the lease protocol of
    \<open>continuation.py\<close>. \<open>continuation_state\<close> is \<open>ContinuationState\<close>, \<open>continuation_state_init\<close> its
    constructor, \<open>continuation_state_create\<close>, \<open>observe_context\<close> and \<open>commit_lease_application\<close> its methods,
    \<open>evaluate_lease\<close> is \<open>_evaluate_continuation\<close> with its checks in the order of the code and
    \<open>evaluate_continuation\<close> the public entry. \<^theory_text>\<open>Lease_Correct\<close> characterises the constructor and the
    bounds of an accepted policy, \<^theory_text>\<open>Lease_Table\<close> states the decision as a table, \<^theory_text>\<open>Lease_Outcome\<close> the
    successor of every branch, \<^theory_text>\<open>Lease_Run\<close> runs of the ledger as a step relation with its invariant;
    \<^theory_text>\<open>Lease_Example\<close> is a concrete ledger and \<^theory_text>\<open>Lease_Properties\<close> holds the properties.

  \<^bold>\<open>What is shown.\<close>
  \<^item> Orchestration: \<open>admit_batch\<close> is total on valid states and equals the abstract transition that settles
    one verdict per proposal; it keeps states valid; the clock counts decisions exactly; an occurrence
    key is admitted once over any run; duplicates are dropped exactly; listing order does not matter.
  \<^item> Governance: the tool gate equals one decision table; authority is never granted without an admitted
    decision and an owned permission; an orchestration receipt authorises exactly what the batch admitted;
    every receipt of \<open>admit_batch\<close> is accepted by the gate's revalidating copy.
  \<^item> Execution: any sequence of reads and retries stays within the budgets and never repeats a cached read.
  \<^item> State: registries are accepted exactly when well-formed and acyclic; readiness and status updates are
    exact, and following the topological order never gets stuck; a record holds what it was constructed
    with; model proposals never support a conclusion or an admission.
  \<^item> Continuation: progress is exact and cannot be reported for ever; a strategy is admitted exactly when it
    differs materially; a lease decision equals the table of denials, with every exception it can end in
    named; along every run the grants stay within the schedule and the ceiling; refusals without
    authority change nothing; an exhausted ledger stays exhausted; the members of the projection say what
    the ledger allows.
  \<^item> Identity: canonical text reads back to the value, and the hashed bytes determine domain and value.
  \<^item> Assurance: accepted support graphs are acyclic and stratified.

  \<^bold>\<open>Loops and bounds.\<close> The topological sort, the dependency closure, the cycle test, string scanning and
  block splitting are total functions with measures. Two functions take fuel. \<open>parse_value\<close> (the
  recursive descent of \<open>json.loads\<close>) starts with twice the length of the text and
  \<open>parse_value_fuel\<close> proves that this is always enough. \<open>decimal_point\<close> searches the decimal exponent of a
  finite double upwards from an estimate by the bit lengths of numerator and denominator that is never
  more than a few powers of ten too low; its 700 candidates exceed the range of all exponents (-324 to
  309), so the fuel is never used up.
  The limits of the code (128 obligations, 64 leases, 128 lease decisions, 64-bit budgets, record sizes)
  are constants of the model with the values of the source.

  \<^bold>\<open>What is not modelled.\<close>
  \<^item> The Rust extension and its wrapper (\<open>runtime.py\<close>, \<open>executor.py\<close>): compiled code, outside the Python
    package. Snapshots and lease applications are records here because other components read them.
  \<^item> Of \<open>governance.py\<close>: execution plans, execution and final receipts and the receipt validator; of
    \<open>continuation.py\<close>: checkpoints, continuation evidence, partial results and the watchdog. They
    reassemble and compare texts that the native runtime issues.
  \<^item> \<open>evidence.py\<close>, \<open>effects.py\<close>, \<open>supervisor.py\<close>: records and sessions owned by the native runtime.
  \<^item> \<open>observed_snapshots.py\<close>, \<open>readonly_adapters.py\<close>, \<open>openai_transport.py\<close>, \<open>transport_activation.py\<close>: file,
    process and network input and output.
  \<^item> The synthetic benchmark and the conformance files: fixtures that exercise the components.
  \<^item> That distinct values have distinct identities. Where uniqueness matters the properties speak of
    identities, or name the exception that a repeated identity raises.
\<close>

end
